(* ===== verification/Prelude.thy ===== *)
theory Prelude
  imports Main "HOL-Library.Word"
begin

text \<open>
  Shared vocabulary of the development: the C integer types, the ways in which the simulator
  process can stop, the sequencing of operations that may stop it, and the generic facts on
  words, masks and arrays that the component theories use.

  C arrays of fixed size are functions from \<open>nat\<close> to the element type; the size is part of
  the component's invariant, and an access the code does not keep in range is guarded by
  \<open>in_bounds\<close>, so that undefined behaviour is a value of the model.
\<close>

unbundle bit_operations_syntax

section \<open>Machine integers\<close>

type_synonym u8 = "8 word"
type_synonym u16 = "16 word"
type_synonym u32 = "32 word"
type_synonym u64 = "64 word"

section \<open>How the process stops\<close>

text \<open>
  \<open>Errx\<close> is a call of \<open>err\<close> or \<open>errx\<close> (exit status 1), \<open>Assertion\<close> a failing \<open>assert\<close> in a build
  without \<open>NDEBUG\<close>, \<open>Out_of_bounds\<close> an array access outside the array (undefined behaviour in C),
  \<open>No_return\<close> a loop that has used up the steps given to it.
\<close>

datatype fault =
    Errx string
  | Assertion string
  | Out_of_bounds string
  | No_return string

text \<open>Sequencing: the first fault stops everything after it.\<close>

fun and_then :: "'e + 'a \<Rightarrow> ('a \<Rightarrow> 'e + 'b) \<Rightarrow> 'e + 'b" where
  "and_then (Inl e) f = Inl e"
| "and_then (Inr x) f = f x"

definition c_assert :: "bool \<Rightarrow> bool \<Rightarrow> string \<Rightarrow> fault + unit" where
  "c_assert nd ok msg = (if nd \<or> ok then Inr () else Inl (Assertion msg))"

definition in_bounds :: "nat \<Rightarrow> nat \<Rightarrow> string \<Rightarrow> fault + unit" where
  "in_bounds n i msg = (if i < n then Inr () else Inl (Out_of_bounds msg))"

named_theorems fault_simps \<open>facts on sequencing and on the guards\<close>

lemma and_then_Inr_iff [fault_simps]:
  "and_then x f = Inr y \<longleftrightarrow> (\<exists>a. x = Inr a \<and> f a = Inr y)"
  by (cases x) auto

lemma and_then_Inl_iff:
  "and_then x f = Inl e \<longleftrightarrow> x = Inl e \<or> (\<exists>a. x = Inr a \<and> f a = Inl e)"
  by (cases x) auto

lemma and_then_assoc:
  "and_then (and_then x f) g = and_then x (\<lambda>a. and_then (f a) g)"
  by (cases x) auto

lemma and_then_Inr_right [simp]: "and_then x Inr = x"
  by (cases x) auto

lemma and_then_cong [fundef_cong]:
  "x = x' \<Longrightarrow> (\<And>a. x' = Inr a \<Longrightarrow> f a = f' a) \<Longrightarrow> and_then x f = and_then x' f'"
  by (cases x') auto

lemma c_assert_Inr [fault_simps]: "c_assert nd ok msg = Inr u \<longleftrightarrow> nd \<or> ok"
  by (simp add: c_assert_def)

lemma c_assert_True [simp]: "c_assert nd True msg = Inr ()"
  by (simp add: c_assert_def)

lemma in_bounds_Inr [fault_simps]: "in_bounds n i msg = Inr u \<longleftrightarrow> i < n"
  by (simp add: in_bounds_def)

lemma in_bounds_ok [simp]: "i < n \<Longrightarrow> in_bounds n i msg = Inr ()"
  by (simp add: in_bounds_def)

text \<open>
  Splitting a sequence: a property of the outcome of \<open>and_then\<close> is the property of the fault and of
  the continuation.
\<close>

definition all_ok :: "('a \<Rightarrow> bool) \<Rightarrow> 'e + 'a \<Rightarrow> bool" where
  "all_ok P r = (case r of Inl e \<Rightarrow> True | Inr x \<Rightarrow> P x)"

lemma all_ok_Inl [simp]: "all_ok P (Inl e)"
  by (simp add: all_ok_def)

lemma all_ok_Inr [simp]: "all_ok P (Inr x) = P x"
  by (simp add: all_ok_def)

lemma all_okD: "all_ok P r \<Longrightarrow> r = Inr x \<Longrightarrow> P x"
  by (simp add: all_ok_def)

lemma all_okI: "(\<And>x. r = Inr x \<Longrightarrow> P x) \<Longrightarrow> all_ok P r"
  by (cases r) auto

lemma all_ok_and_then:
  "all_ok Q r \<Longrightarrow> (\<And>x. Q x \<Longrightarrow> all_ok P (f x)) \<Longrightarrow> all_ok P (and_then r f)"
  by (cases r) auto

lemma all_ok_and_thenI:
  "(\<And>x. r = Inr x \<Longrightarrow> all_ok P (f x)) \<Longrightarrow> all_ok P (and_then r f)"
  by (cases r) auto

lemma all_ok_mono: "all_ok P r \<Longrightarrow> (\<And>x. P x \<Longrightarrow> Q x) \<Longrightarrow> all_ok Q r"
  by (cases r) auto

section \<open>Words: fields, masks and ranges\<close>

named_theorems word_range \<open>upper bounds of masked words\<close>

lemma unat_and_mask_less:
  fixes w :: "'a::len word"
  assumes "unat (m :: 'a word) < n"
  shows "unat (w AND m) < n"
proof -
  have "unat (w AND m) \<le> unat m"
    by (rule word_and_le1 [THEN word_le_nat_alt [THEN iffD1]])
  with assms show ?thesis by simp
qed

lemma unat_and_le: "unat (w AND m) \<le> unat (m :: 'a::len word)"
  by (rule word_and_le1 [THEN word_le_nat_alt [THEN iffD1]])

lemma and_5bits [word_range, simp]: "unat ((w :: u32) AND 0x1F) < 32"
  by (rule unat_and_mask_less) simp

lemma and_8bits [word_range, simp]: "unat ((w :: u32) AND 0xFF) < 256"
  by (rule unat_and_mask_less) simp

lemma and_10bits [word_range, simp]: "unat ((w :: u32) AND 0x3FF) < 1024"
  by (rule unat_and_mask_less) simp

lemma and_11bits [word_range, simp]: "unat ((w :: u32) AND 0x7FF) < 2048"
  by (rule unat_and_mask_less) simp

lemma and_12bits [word_range, simp]: "unat ((w :: u32) AND 0xFFF) < 4096"
  by (rule unat_and_mask_less) simp

lemma and_14bits [word_range, simp]: "unat ((w :: u32) AND 0x3FFF) < 16384"
  by (rule unat_and_mask_less) simp

lemma and_24bits [word_range, simp]: "unat ((w :: u32) AND 0xFFFFFF) < 16777216"
  by (rule unat_and_mask_less) simp

text \<open>Narrowing casts are ring homomorphisms.\<close>

lemma take_bit_low:
  "n \<le> k \<Longrightarrow> take_bit n (take_bit k a + take_bit k b) = take_bit n (a + b :: int)"
  "n \<le> k \<Longrightarrow> take_bit n (take_bit k a - take_bit k b) = take_bit n (a - b :: int)"
  by (metis min.absorb1 take_bit_add take_bit_take_bit)
    (metis min.absorb1 take_bit_diff take_bit_take_bit)

lemma ucast_arith_low:
  fixes a b :: u32
  shows "(ucast (a + b) :: 5 word) = ucast a + ucast b"
    and "(ucast (a - b) :: 5 word) = ucast a - ucast b"
    and "(ucast (a + b) :: 10 word) = ucast a + ucast b"
    and "(ucast (a - b) :: 10 word) = ucast a - ucast b"
  by (transfer; simp add: take_bit_low)+

lemma ucast_of_nat_low:
  "(ucast (of_nat n :: u32) :: 5 word) = of_nat n"
  "(ucast (of_nat n :: u32) :: 10 word) = of_nat n"
  by (transfer; simp add: take_bit_take_bit)+

text \<open>A ring index is a residue: the low bits of the pointer as a word of that width.\<close>

lemma ring_apart:
  fixes a :: "'a::len word"
  assumes "Suc i < 2 ^ LENGTH('a)"
  shows "unat (a - of_nat i) \<noteq> unat (1 + a)"
proof
  assume "unat (a - of_nat i) = unat (1 + a)"
  then have eq: "a - of_nat i = 1 + a"
    by (rule unsigned_word_eqI)
  have "of_nat (Suc i) = (1 + a) - (a - of_nat i)"
    by (simp add: algebra_simps)
  then have "(of_nat (Suc i) :: 'a word) = 0"
    unfolding eq by simp
  then have "unat (of_nat (Suc i) :: 'a word) = 0"
    by simp
  with assms show False
    by (simp add: unat_of_nat del: of_nat_Suc)
qed

lemma unat_and_1F: "unat ((w :: u32) AND 0x1F) = unat (ucast w :: 5 word)"
proof -
  have "w AND 0x1F = take_bit 5 w"
    by (simp add: take_bit_eq_mask mask_eq_exp_minus_1)
  then show ?thesis
    by (simp add: unsigned_take_bit_eq unsigned_ucast_eq)
qed

lemma unat_and_3FF: "unat ((w :: u32) AND 0x3FF) = unat (ucast w :: 10 word)"
proof -
  have "w AND 0x3FF = take_bit 10 w"
    by (simp add: take_bit_eq_mask mask_eq_exp_minus_1)
  then show ?thesis
    by (simp add: unsigned_take_bit_eq unsigned_ucast_eq)
qed

lemma ucast_and_low:
  "(ucast ((w :: u32) AND 0x1F) :: 5 word) = ucast w"
  "(ucast ((w :: u32) AND 0x3FF) :: 10 word) = ucast w"
proof -
  have m: "(0x1F :: u32) = mask 5" "(0x3FF :: u32) = mask 10"
    by (simp_all add: mask_eq_exp_minus_1)
  show "(ucast ((w :: u32) AND 0x1F) :: 5 word) = ucast w"
    "(ucast ((w :: u32) AND 0x3FF) :: 10 word) = ucast w"
    unfolding m by (auto intro!: bit_word_eqI simp: bit_simps)
qed

lemma and_low_id:
  "unat (w :: u32) < 32 \<Longrightarrow> w AND 0x1F = w"
  "unat (w :: u32) < 1024 \<Longrightarrow> w AND 0x3FF = w"
  "unat (w :: u32) < 16384 \<Longrightarrow> w AND 0x3FFF = w"
proof -
  have id: "unat w < 2 ^ n \<Longrightarrow> w AND mask n = w" for n
    by (metis take_bit_eq_mask take_bit_nat_eq_self unsigned_take_bit_eq unsigned_word_eqI)
  have m: "(0x1F :: u32) = mask 5" "(0x3FF :: u32) = mask 10" "(0x3FFF :: u32) = mask 14"
    by (simp_all add: mask_eq_exp_minus_1)
  show "unat (w :: u32) < 32 \<Longrightarrow> w AND 0x1F = w"
    "unat (w :: u32) < 1024 \<Longrightarrow> w AND 0x3FF = w"
    "unat (w :: u32) < 16384 \<Longrightarrow> w AND 0x3FFF = w"
    using id [of 5] id [of 10] id [of 14] by (simp_all add: m)
qed

text \<open>A test of one bit, as the code writes it with a shifted one, is \<open>bit\<close>.\<close>

lemma and_push_bit_1_iff:
  fixes w :: "'a::len word"
  shows "n < LENGTH('a) \<Longrightarrow> w AND push_bit n 1 \<noteq> 0 \<longleftrightarrow> bit w n"
  by (metis bit_iff_and_push_bit_not_eq_0)

section \<open>Arrays\<close>

text \<open>Writing a block of \<open>n\<close> elements at \<open>base\<close>: \<open>memcpy\<close> at the granularity of the array.\<close>

definition copy_in :: "(nat \<Rightarrow> 'a) \<Rightarrow> nat \<Rightarrow> nat \<Rightarrow> (nat \<Rightarrow> 'a) \<Rightarrow> (nat \<Rightarrow> 'a)" where
  "copy_in a base n b = (\<lambda>i. if base \<le> i \<and> i < base + n then b (i - base) else a i)"

definition copy_out :: "(nat \<Rightarrow> 'a) \<Rightarrow> nat \<Rightarrow> (nat \<Rightarrow> 'a)" where
  "copy_out a base = (\<lambda>i. a (base + i))"

lemma copy_out_copy_in [simp]: "i < n \<Longrightarrow> copy_out (copy_in a base n b) base i = b i"
  by (simp add: copy_in_def copy_out_def)

lemma copy_in_outside: "i < base \<or> base + n \<le> i \<Longrightarrow> copy_in a base n b i = a i"
  by (auto simp: copy_in_def)

lemma or_and_absorb: "(x OR y) AND y = (y :: 'a::len word)"
  by (rule bit_word_eqI) (auto simp: bit_simps)

end
