(* ===== verification/Interfaces.thy ===== *)
theory Interfaces
  imports Prelude
begin

text \<open>
  The contracts that components of the simulator offer one another, as locales.  Each is interpreted
  on the model's own operations in the theory of the component that provides them.
\<close>

text \<open>The values \<open>k\<close> removals in a row yield.\<close>

primrec popped :: "('s \<Rightarrow> 'v \<times> 's) \<Rightarrow> nat \<Rightarrow> 's \<Rightarrow> 'v list" where
  "popped pop 0 s = []"
| "popped pop (Suc k) s = fst (pop s) # popped pop k (snd (pop s))"

section \<open>A store of words\<close>

text \<open>
  \<open>cell k\<close> is the storage cell an address selects (several addresses may select one cell, since
  the code ignores address bits), \<open>ok s k\<close> says that the address answers in state \<open>s\<close>.
\<close>

locale word_store =
  fixes cell :: "'k \<Rightarrow> 'c"
    and ok :: "'s \<Rightarrow> 'k \<Rightarrow> bool"
    and rd :: "'k \<Rightarrow> 's \<Rightarrow> 'v"
    and wr :: "'k \<Rightarrow> 'v \<Rightarrow> 's \<Rightarrow> 's"
  assumes rd_wr_same: "ok s k \<Longrightarrow> ok s k' \<Longrightarrow> cell k' = cell k \<Longrightarrow> rd k' (wr k v s) = v"
    and rd_wr_other: "ok s k \<Longrightarrow> ok s k' \<Longrightarrow> cell k' \<noteq> cell k \<Longrightarrow> rd k' (wr k v s) = rd k' s"
    and ok_wr: "ok s k \<Longrightarrow> ok (wr k v s) k' = ok s k'"
begin

lemma ok_writes:
  "\<forall>p\<in>set ps. ok s (fst p) \<Longrightarrow> ok (fold (\<lambda>(a, v). wr a v) ps s) k = ok s k"
  by (induction ps arbitrary: s) (auto simp: ok_wr)

lemma rd_writes:
  assumes "\<forall>p\<in>set ps. ok s (fst p)" and "ok s k"
  shows "rd k (fold (\<lambda>(a, v). wr a v) ps s) =
    (case map_of (rev (map (\<lambda>(a, v). (cell a, v)) ps)) (cell k) of
       None \<Rightarrow> rd k s | Some v \<Rightarrow> v)"
  using assms
proof (induction ps arbitrary: s)
  case Nil
  then show ?case by simp
next
  case (Cons p ps)
  obtain a v where p: "p = (a, v)" by (cases p)
  have "\<forall>q\<in>set ps. ok (wr a v s) (fst q)" and "ok (wr a v s) k"
    using Cons.prems by (simp_all add: p ok_wr)
  then have "rd k (fold (\<lambda>(a, v). wr a v) (p # ps) s) =
    (case map_of (rev (map (\<lambda>(a, v). (cell a, v)) ps)) (cell k) of
       None \<Rightarrow> rd k (wr a v s) | Some v \<Rightarrow> v)"
    using Cons.IH [of "wr a v s"] by (simp add: p)
  moreover have "rd k (wr a v s) = (if cell k = cell a then v else rd k s)"
    using Cons.prems by (simp add: p rd_wr_same rd_wr_other)
  ultimately show ?case
    by (auto simp: p map_add_def split: option.splits)
qed

lemma wr_commute:
  assumes "ok s a" "ok s b" "ok s k" "cell a \<noteq> cell b"
  shows "rd k (wr a v (wr b w s)) = rd k (wr b w (wr a v s))"
proof -
  have [simp]: "ok (wr b w s) k'' = ok s k''" "ok (wr a v s) k'' = ok s k''" for k''
    using assms by (simp_all add: ok_wr)
  consider "cell k = cell a" | "cell k = cell b" | "cell k \<noteq> cell a" "cell k \<noteq> cell b"
    by blast
  then show ?thesis
    by cases (use assms in \<open>simp_all add: rd_wr_same rd_wr_other\<close>)
qed

end

section \<open>A stack kept in a ring\<close>

text \<open>
  A stack of capacity \<open>n\<close> whose pointer wraps around: \<open>look s i\<close> is the \<open>i\<close>-th entry below the top.
  Pushing more than \<open>n\<close> values overwrites the oldest ones.
\<close>

locale ring_stack =
  fixes cap :: nat
    and inv :: "'s \<Rightarrow> bool"
    and push :: "'v \<Rightarrow> 's \<Rightarrow> 's"
    and pop :: "'s \<Rightarrow> 'v \<times> 's"
    and look :: "'s \<Rightarrow> nat \<Rightarrow> 'v"
  assumes inv_push: "inv s \<Longrightarrow> inv (push v s)"
    and inv_pop: "inv s \<Longrightarrow> inv (snd (pop s))"
    and look_push_0: "inv s \<Longrightarrow> look (push v s) 0 = v"
    and look_push_Suc: "inv s \<Longrightarrow> Suc i < cap \<Longrightarrow> look (push v s) (Suc i) = look s i"
    and fst_pop: "inv s \<Longrightarrow> fst (pop s) = look s 0"
    and look_pop: "inv s \<Longrightarrow> Suc i < cap \<Longrightarrow> look (snd (pop s)) i = look s (Suc i)"
begin

lemma inv_pushes: "inv s \<Longrightarrow> inv (fold push vs s)"
  by (induction vs arbitrary: s) (auto simp: inv_push)

lemma look_pushes:
  "inv s \<Longrightarrow> i < cap \<Longrightarrow>
    look (fold push vs s) i = (if i < length vs then rev vs ! i else look s (i - length vs))"
proof (induction vs arbitrary: s)
  case Nil
  then show ?case by simp
next
  case (Cons v vs)
  have "look (fold push (v # vs) s) i =
      (if i < length vs then rev vs ! i else look (push v s) (i - length vs))"
    using Cons.IH [of "push v s"] Cons.prems by (simp add: inv_push)
  moreover have "look (push v s) (i - length vs) = look s (i - length vs - 1)"
    if "length vs < i"
  proof -
    from that obtain k where "i - length vs = Suc k"
      by (metis Suc_diff_Suc)
    with Cons.prems show ?thesis
      using look_push_Suc [of s k v] by simp
  qed
  ultimately show ?case
    using Cons.prems by (auto simp: look_push_0 nth_append not_less le_less)
qed

lemma popped_look:
  "inv s \<Longrightarrow> k \<le> cap \<Longrightarrow> popped pop k s = map (look s) [0..<k]"
proof (induction k arbitrary: s)
  case 0
  then show ?case by simp
next
  case (Suc k)
  have "popped pop (Suc k) s = look s 0 # map (look (snd (pop s))) [0..<k]"
    using Suc by (simp add: fst_pop inv_pop)
  also have "map (look (snd (pop s))) [0..<k] = map (look s) (map Suc [0..<k])"
    using Suc.prems by (simp add: look_pop)
  finally show ?case
    by (simp add: map_Suc_upt upt_conv_Cons del: upt_Suc)
qed

lemma push_pop:
  assumes "inv s" and "length vs \<le> cap"
  shows "popped pop (length vs) (fold push vs s) = rev vs"
proof -
  have "popped pop (length vs) (fold push vs s) = map (look (fold push vs s)) [0..<length vs]"
    using assms by (intro popped_look) (auto intro: inv_pushes)
  also have "\<dots> = rev vs"
    using assms by (intro nth_equalityI) (auto simp: look_pushes)
  finally show ?thesis .
qed

end

section \<open>A bounded queue\<close>

locale bounded_queue =
  fixes cap :: nat
    and inv :: "'s \<Rightarrow> bool"
    and enq :: "'v \<Rightarrow> 's \<Rightarrow> 's"
    and deq :: "'s \<Rightarrow> 'v \<times> 's"
    and items :: "'s \<Rightarrow> 'v list"
  assumes inv_enq: "inv s \<Longrightarrow> inv (enq v s)"
    and inv_deq: "inv s \<Longrightarrow> items s \<noteq> [] \<Longrightarrow> inv (snd (deq s))"
    and items_len: "inv s \<Longrightarrow> length (items s) \<le> cap"
    and items_enq: "inv s \<Longrightarrow> length (items s) < cap \<Longrightarrow> items (enq v s) = items s @ [v]"
    and items_full: "inv s \<Longrightarrow> length (items s) = cap \<Longrightarrow> items (enq v s) = items s"
    and items_deq: "inv s \<Longrightarrow> items s \<noteq> [] \<Longrightarrow>
      fst (deq s) = hd (items s) \<and> items (snd (deq s)) = tl (items s)"
begin

lemma inv_enqs: "inv s \<Longrightarrow> inv (fold enq vs s)"
  by (induction vs arbitrary: s) (auto simp: inv_enq)

lemma items_enqs:
  "inv s \<Longrightarrow> items (fold enq vs s) = items s @ take (cap - length (items s)) vs"
proof (induction vs arbitrary: s)
  case Nil
  then show ?case by simp
next
  case (Cons v vs)
  show ?case
  proof (cases "length (items s) < cap")
    case True
    then obtain d where d: "cap - length (items s) = Suc d"
      by (metis Suc_diff_Suc)
    with True Cons show ?thesis
      by (simp add: inv_enq items_enq) (metis Suc_diff_Suc diff_Suc_1 diff_Suc_Suc)
  next
    case False
    with Cons.prems items_len [of s] have "length (items s) = cap" by simp
    with Cons show ?thesis
      by (simp add: inv_enq items_full)
  qed
qed

lemma popped_items:
  "inv s \<Longrightarrow> k \<le> length (items s) \<Longrightarrow> popped deq k s = take k (items s)"
proof (induction k arbitrary: s)
  case 0
  then show ?case by simp
next
  case (Suc k)
  from Suc.prems have ne: "items s \<noteq> []" by auto
  have d: "fst (deq s) = hd (items s)" "items (snd (deq s)) = tl (items s)"
    using items_deq [of s] Suc.prems ne by auto
  have "popped deq k (snd (deq s)) = take k (tl (items s))"
    using Suc.IH [OF inv_deq [of s]] Suc.prems ne d(2) by simp
  then show ?case
    using ne d(1) by (cases "items s") auto
qed

text \<open>What is enqueued beyond the capacity is lost; the rest comes out in order.\<close>

lemma fifo:
  assumes "inv s" and "items s = []"
  shows "popped deq (min (length vs) cap) (fold enq vs s) = take cap vs"
  using assms by (subst popped_items) (simp_all add: inv_enqs items_enqs min_def)

end

section \<open>A system of steps that may stop\<close>

text \<open>The state after \<open>n\<close> steps, if none of them stopped.\<close>

primrec run_steps :: "('s \<Rightarrow> 'e + 's) \<Rightarrow> nat \<Rightarrow> 's \<Rightarrow> 'e + 's" where
  "run_steps step 0 s = Inr s"
| "run_steps step (Suc n) s = and_then (step s) (run_steps step n)"

locale fallible_system =
  fixes step :: "'s \<Rightarrow> 'e + 's"
    and inv :: "'s \<Rightarrow> bool"
  assumes step_inv: "inv s \<Longrightarrow> step s = Inr s' \<Longrightarrow> inv s'"
begin

lemma steps_inv: "inv s \<Longrightarrow> run_steps step n s = Inr s' \<Longrightarrow> inv s'"
  by (induction n arbitrary: s) (auto simp: fault_simps intro: step_inv)

lemma steps_stop:
  "inv s \<Longrightarrow> run_steps step n s = Inl e \<Longrightarrow> \<exists>s'. inv s' \<and> step s' = Inl e"
  by (induction n arbitrary: s) (auto simp: and_then_Inl_iff intro: step_inv)

end

section \<open>A device on a bus\<close>

text \<open>
  A device answers the addresses it selects with a read (which takes the value the caller's variable
  holds, since some reads leave it alone) and a write; both keep the invariant of the system.
\<close>

locale bus_device =
  fixes sel :: "'a \<Rightarrow> bool"
    and rd :: "'a \<Rightarrow> 'v \<Rightarrow> 's \<Rightarrow> 'e + 'v \<times> 's"
    and wr :: "'a \<Rightarrow> 'v \<Rightarrow> 's \<Rightarrow> 'e + 's"
    and inv :: "'s \<Rightarrow> bool"
  assumes rd_inv: "sel a \<Longrightarrow> inv s \<Longrightarrow> rd a v s = Inr (v', s') \<Longrightarrow> inv s'"
    and wr_inv: "sel a \<Longrightarrow> inv s \<Longrightarrow> wr a v s = Inr s' \<Longrightarrow> inv s'"
begin

lemma rw_inv:
  assumes "sel a" and "inv s"
    and "(if w then and_then (wr a v s) (\<lambda>s1. Inr (v, s1)) else rd a v s) = Inr (v', s')"
  shows "inv s'"
  using assms by (auto simp: fault_simps split: if_splits intro: rd_inv wr_inv)

end

end
