(* ===== verification/Interrupts.thy ===== *)
theory Interrupts
  imports Interfaces
begin

text \<open>
  The interrupt status register of the bus interface (\<^verbatim>\<open>usim/ucode.c\<close>): the operations that devices
  call to raise and drop the Unibus and Xbus interrupt requests.

  The state of the simulator is an extensible record; every component adds one slot that holds its
  own state.  \<open>base_sys\<close> holds the build's configuration (\<open>ndebug\<close>: compiled with \<open>-DNDEBUG\<close>, so that
  \<open>assert\<close> does nothing) and \<open>indet v\<close>, the unspecified value that the local variable \<open>v\<close> has where
  the code uses it although a failing read has not assigned it; \<open>intr_sys\<close> adds the interrupt
  registers.
\<close>

unbundle bit_operations_syntax

record base_sys =
  ndebug :: bool
  indet :: "string \<Rightarrow> u32"

record interrupts =
  interrupt_status_reg :: u32
  interrupt_pending_flag :: u32

record intr_sys = base_sys +
  intr :: interrupts

text \<open>The masks of the code: \<open>0140000\<close>, \<open>02000\<close>, \<open>01774\<close>, \<open>0100000\<close> and \<open>040000\<close>.\<close>

definition set_interrupt_status_reg :: "u32 \<Rightarrow> 'a intr_sys_scheme \<Rightarrow> 'a intr_sys_scheme" where
  "set_interrupt_status_reg new m =
     m\<lparr>intr := \<lparr>interrupt_status_reg = new,
               interrupt_pending_flag = (if new AND 0xC000 \<noteq> 0 then 1 else 0)\<rparr>\<rparr>"

definition assert_unibus_interrupt :: "u32 \<Rightarrow> 'a intr_sys_scheme \<Rightarrow> 'a intr_sys_scheme" where
  "assert_unibus_interrupt vector m =
     (let isr = interrupt_status_reg (intr m) in
      if isr AND 0x400 \<noteq> 0
      then set_interrupt_status_reg ((isr AND NOT 0x3FC) OR 0x8000 OR (vector AND 0x3FC)) m
      else m)"

definition deassert_unibus_interrupt :: "'a intr_sys_scheme \<Rightarrow> 'a intr_sys_scheme" where
  "deassert_unibus_interrupt m =
     (let isr = interrupt_status_reg (intr m) in
      if isr AND 0x8000 \<noteq> 0
      then set_interrupt_status_reg (isr AND NOT (0x3FC OR 0x8000)) m
      else m)"

definition assert_xbus_interrupt :: "'a intr_sys_scheme \<Rightarrow> 'a intr_sys_scheme" where
  "assert_xbus_interrupt m =
     set_interrupt_status_reg (interrupt_status_reg (intr m) OR 0x4000) m"

definition deassert_xbus_interrupt :: "'a intr_sys_scheme \<Rightarrow> 'a intr_sys_scheme" where
  "deassert_xbus_interrupt m =
     (if interrupt_status_reg (intr m) AND 0x4000 \<noteq> 0
      then set_interrupt_status_reg (interrupt_status_reg (intr m) AND NOT 0x4000) m
      else m)"

section \<open>Invariant and frame\<close>

text \<open>The pending flag is what the two request bits of the status register say.\<close>

definition intr_wf :: "interrupts \<Rightarrow> bool" where
  "intr_wf i \<longleftrightarrow>
     interrupt_pending_flag i = (if interrupt_status_reg i AND 0xC000 \<noteq> 0 then 1 else 0)"

lemmas intr_defs = set_interrupt_status_reg_def assert_unibus_interrupt_def
  deassert_unibus_interrupt_def assert_xbus_interrupt_def deassert_xbus_interrupt_def

named_theorems frame_simps \<open>what the operations of a component leave alone\<close>
named_theorems wf_intros \<open>operations keep the invariants\<close>

lemma intr_wf_set [simp]: "intr_wf (intr (set_interrupt_status_reg new m))"
  by (simp add: intr_wf_def set_interrupt_status_reg_def)

lemma intr_wf_ops [wf_intros]:
  "intr_wf (intr m) \<Longrightarrow> intr_wf (intr (assert_unibus_interrupt vector m))"
  "intr_wf (intr m) \<Longrightarrow> intr_wf (intr (deassert_unibus_interrupt m))"
  "intr_wf (intr (assert_xbus_interrupt m))"
  "intr_wf (intr m) \<Longrightarrow> intr_wf (intr (deassert_xbus_interrupt m))"
  by (simp_all add: assert_unibus_interrupt_def deassert_unibus_interrupt_def
      assert_xbus_interrupt_def deassert_xbus_interrupt_def Let_def)

text \<open>
  The interrupt operations write the interrupt slot and nothing else.  Frames are stated so
  throughout: the state after an operation is the state before it with the slots the operation may
  write replaced, so that the record simplifier gives the frame equation of every other slot.
\<close>

lemma intr_only:
  "set_interrupt_status_reg new m = m\<lparr>intr := intr (set_interrupt_status_reg new m)\<rparr>"
  "assert_unibus_interrupt vector m = m\<lparr>intr := intr (assert_unibus_interrupt vector m)\<rparr>"
  "deassert_unibus_interrupt m = m\<lparr>intr := intr (deassert_unibus_interrupt m)\<rparr>"
  "assert_xbus_interrupt m = m\<lparr>intr := intr (assert_xbus_interrupt m)\<rparr>"
  "deassert_xbus_interrupt m = m\<lparr>intr := intr (deassert_xbus_interrupt m)\<rparr>"
  by (simp_all add: intr_defs Let_def)

lemma intr_ndebug [frame_simps]:
  "ndebug (set_interrupt_status_reg new m) = ndebug m"
  "ndebug (assert_unibus_interrupt vector m) = ndebug m"
  "ndebug (deassert_unibus_interrupt m) = ndebug m"
  "ndebug (assert_xbus_interrupt m) = ndebug m"
  "ndebug (deassert_xbus_interrupt m) = ndebug m"
  by (simp_all add: intr_defs Let_def)

end
