(* ===== verification/Main_Memory.thy ===== *)
theory Main_Memory
  imports Interrupts
begin

text \<open>
  Main memory (\<^verbatim>\<open>usim/main-memory.c\<close>): pages of 256 words, of which the first \<open>main_memory_npages\<close>
  are populated.  Reading or writing an unpopulated page fails and changes nothing.  A page buffer
  of 256 words is a function on its indices.  Pages are loaded from and saved to state files
  in \<open>Dump\<close>.
\<close>

unbundle bit_operations_syntax

type_synonym page = "nat \<Rightarrow> u32"

record main_memory =
  main_memory_npages :: u32
  pages :: "nat \<Rightarrow> page"

record mem_sys = intr_sys +
  mem :: main_memory

abbreviation (input) page_number :: "u32 \<Rightarrow> u32" where
  "page_number paddr \<equiv> drop_bit 8 paddr AND 0x3FFF"

text \<open>The result of a read is the returned flag and the value stored through \<open>pv\<close>.\<close>

definition main_memory_read :: "u32 \<Rightarrow> 'a mem_sys_scheme \<Rightarrow> bool \<times> u32" where
  "main_memory_read paddr m =
     (let pn = drop_bit 8 paddr AND 0x3FFF in
      if pn < main_memory_npages (mem m)
      then (True, pages (mem m) (unat pn) (unat (paddr AND 0xFF)))
      else (False, 0xFFFFFFFF))"

definition main_memory_write :: "u32 \<Rightarrow> u32 \<Rightarrow> 'a mem_sys_scheme \<Rightarrow> bool \<times> 'a mem_sys_scheme" where
  "main_memory_write paddr v m =
     (let pn = drop_bit 8 paddr AND 0x3FFF in
      if pn < main_memory_npages (mem m)
      then (True, m\<lparr>mem := (mem m)\<lparr>pages := (pages (mem m))
             (unat pn := (pages (mem m) (unat pn))(unat (paddr AND 0xFF) := v))\<rparr>\<rparr>)
      else (False, m))"

definition main_memory_read_page :: "u32 \<Rightarrow> 'a mem_sys_scheme \<Rightarrow> page option" where
  "main_memory_read_page paddr m =
     (let pn = drop_bit 8 paddr AND 0x3FFF in
      if pn < main_memory_npages (mem m)
      then Some (copy_out (pages (mem m) (unat pn)) 0)
      else None)"

definition main_memory_write_page ::
    "u32 \<Rightarrow> page \<Rightarrow> 'a mem_sys_scheme \<Rightarrow> bool \<times> 'a mem_sys_scheme" where
  "main_memory_write_page paddr buffer m =
     (let pn = drop_bit 8 paddr AND 0x3FFF in
      if pn < main_memory_npages (mem m)
      then (True, m\<lparr>mem := (mem m)\<lparr>pages := (pages (mem m))
             (unat pn := copy_in (pages (mem m) (unat pn)) 0 256 buffer)\<rparr>\<rparr>)
      else (False, m))"

lemmas mem_defs = main_memory_read_def main_memory_write_def
  main_memory_read_page_def main_memory_write_page_def

section \<open>Invariant, frame and the store contract\<close>

text \<open>The number of pages is within the allocated 16384, which \<open>ucfg.c\<close> enforces.\<close>

definition mem_wf :: "main_memory \<Rightarrow> bool" where
  "mem_wf mm \<longleftrightarrow> unat (main_memory_npages mm) \<le> 16384"

lemma mem_only:
  "snd (main_memory_write paddr v m) = m\<lparr>mem := mem (snd (main_memory_write paddr v m))\<rparr>"
  "snd (main_memory_write_page paddr b m) =
     m\<lparr>mem := mem (snd (main_memory_write_page paddr b m))\<rparr>"
  by (simp_all add: mem_defs Let_def)

lemma npages_write [simp]:
  "main_memory_npages (mem (snd (main_memory_write paddr v m))) = main_memory_npages (mem m)"
  "main_memory_npages (mem (snd (main_memory_write_page paddr b m))) = main_memory_npages (mem m)"
  by (simp_all add: mem_defs Let_def)

lemma mem_wf_write [wf_intros]:
  "mem_wf (mem m) \<Longrightarrow> mem_wf (mem (snd (main_memory_write paddr v m)))"
  "mem_wf (mem m) \<Longrightarrow> mem_wf (mem (snd (main_memory_write_page paddr b m)))"
  by (simp_all add: mem_wf_def)

text \<open>The cell a physical address selects, and whether it is populated.\<close>

definition mem_cell :: "u32 \<Rightarrow> nat \<times> nat" where
  "mem_cell paddr = (unat (drop_bit 8 paddr AND 0x3FFF), unat (paddr AND 0xFF))"

definition mem_present :: "'a mem_sys_scheme \<Rightarrow> u32 \<Rightarrow> bool" where
  "mem_present m paddr \<longleftrightarrow> (drop_bit 8 paddr AND 0x3FFF) < main_memory_npages (mem m)"

lemma main_memory_read_ok:
  "fst (main_memory_read paddr m) = mem_present m paddr"
  "fst (main_memory_write paddr v m) = mem_present m paddr"
  by (simp_all add: mem_defs mem_present_def Let_def)

lemma mem_present_write [simp]:
  "mem_present (snd (main_memory_write paddr v m)) k = mem_present m k"
  "mem_present (snd (main_memory_write_page paddr b m)) k = mem_present m k"
  by (simp_all add: mem_present_def)

interpretation main_mem: word_store mem_cell mem_present
  "\<lambda>a m. snd (main_memory_read a m)" "\<lambda>a v m. snd (main_memory_write a v m)"
proof unfold_locales
  fix m :: "'a mem_sys_scheme" and k k' :: u32 and v :: u32
  assume k: "mem_present m k"
  show "mem_present (snd (main_memory_write k v m)) k' = mem_present m k'"
    by simp
  show "snd (main_memory_read k' (snd (main_memory_write k v m))) = v"
    if "mem_present m k'" "mem_cell k' = mem_cell k"
    using that k by (auto simp: mem_defs mem_cell_def mem_present_def Let_def word_less_nat_alt)
  show "snd (main_memory_read k' (snd (main_memory_write k v m))) = snd (main_memory_read k' m)"
    if "mem_present m k'" "mem_cell k' \<noteq> mem_cell k"
    using that k by (auto simp: mem_defs mem_cell_def mem_present_def Let_def)
qed

text \<open>A page transfer is the same as 256 word transfers.\<close>

lemma read_page_words:
  "main_memory_read_page paddr m = Some b \<Longrightarrow> i < 256 \<Longrightarrow>
    b i = pages (mem m) (unat (drop_bit 8 paddr AND 0x3FFF)) i"
  by (auto simp: mem_defs Let_def copy_out_def split: if_splits)

lemma page_roundtrip:
  assumes "main_memory_write_page paddr b m = (True, m')" and "i < 256"
  shows "\<exists>b'. main_memory_read_page paddr m' = Some b' \<and> b' i = b i"
  using assms by (auto simp: mem_defs Let_def copy_out_def copy_in_def split: if_splits)

end
