(* ===== verification/Uvmem_Map.thy ===== *)
theory Uvmem_Map
  imports Interfaces
begin

text \<open>
  The two-level virtual memory map (\<^verbatim>\<open>usim/uvmem.c\<close>: \<open>uvmem_vtop\<close> and \<open>uvmem_write_map\<close>).  The
  first level has 2048 entries of 5 bits, the second 1024 entries of 24 bits; the function \<open>vm\<close>,
  which goes on to the bus, is in theory Vm.
\<close>

unbundle bit_operations_syntax

record uvmem =
  l1_map :: "nat \<Rightarrow> u32"
  l2_map :: "nat \<Rightarrow> u32"

text \<open>What \<open>uvmem_vtop\<close> returns and stores through its pointer arguments.\<close>

record vtop =
  vt_paddr :: u32
  vt_l1_data :: u32
  vt_l2_data :: u32
  vt_pn :: u32
  vt_write_permission :: bool
  vt_access_permission :: bool

definition uvmem_vtop :: "bool \<Rightarrow> u32 \<Rightarrow> uvmem \<Rightarrow> fault + vtop" where
  "uvmem_vtop nd vaddr0 vm =
     (let vaddr = vaddr0 AND 0x00FFFFFF;
          l1_index = drop_bit 13 vaddr AND 0x7FF;
          l1_data = l1_map vm (unat l1_index) AND 0x1F;
          l2_index = push_bit 5 l1_data OR (drop_bit 8 vaddr AND 0x1F);
          l2_data = l2_map vm (unat l2_index);
          pn = l2_data AND 0x3FFF
      in and_then (c_assert nd (l1_data AND 0xFFFFFFE0 = 0) ''l1_data'') (\<lambda>_.
         and_then (c_assert nd (l2_data AND 0xFF000000 = 0) ''l2_data'') (\<lambda>_.
         Inr \<lparr>vt_paddr = push_bit 8 pn OR (vaddr AND 0xFF),
              vt_l1_data = l1_data, vt_l2_data = l2_data, vt_pn = pn,
              vt_write_permission = bit l2_data 22,
              vt_access_permission = bit l2_data 23\<rparr>)))"

definition uvmem_write_map :: "bool \<Rightarrow> u32 \<Rightarrow> u32 \<Rightarrow> uvmem \<Rightarrow> fault + uvmem" where
  "uvmem_write_map nd vma md vm =
     (let enable_first_level_write = bit vma 26;
          enable_second_level_write = bit vma 25;
          l1_index = drop_bit 13 md AND 0x7FF;
          vm1 = (if enable_first_level_write
                 then vm\<lparr>l1_map := (l1_map vm)(unat l1_index := drop_bit 27 vma AND 0x1F)\<rparr>
                 else vm)
      in if enable_second_level_write
         then let l1_data = l1_map vm1 (unat l1_index);
                  l2_index = push_bit 5 l1_data OR (drop_bit 8 md AND 0x1F);
                  l2_data = vma AND 0x00FFFFFF
              in and_then (c_assert nd (l1_data AND 0xFFFFFFE0 = 0) ''l1_data'') (\<lambda>_.
                 and_then (c_assert nd (l2_data AND 0xFF000000 = 0) ''l2_data'') (\<lambda>_.
                 and_then (in_bounds 1024 (unat l2_index) ''l2_map'') (\<lambda>_.
                 Inr (vm1\<lparr>l2_map := (l2_map vm1)(unat l2_index := l2_data)\<rparr>))))
         else Inr vm1)"

section \<open>Invariant: the widths of the map entries\<close>

definition uvmem_wf :: "uvmem \<Rightarrow> bool" where
  "uvmem_wf vm \<longleftrightarrow>
     (\<forall>i. l1_map vm i AND 0x1F = l1_map vm i) \<and>
     (\<forall>i. l2_map vm i AND 0x00FFFFFF = l2_map vm i)"

lemma and_masks_zero:
  "(w :: u32) AND 0x1F = w \<Longrightarrow> w AND 0xFFFFFFE0 = 0"
  "(w :: u32) AND 0x00FFFFFF = w \<Longrightarrow> w AND 0xFF000000 = 0"
  "((w :: u32) AND 0x1F) AND 0xFFFFFFE0 = 0"
  "((w :: u32) AND 0x00FFFFFF) AND 0xFF000000 = 0"
proof -
  show 3: "((w :: u32) AND 0x1F) AND 0xFFFFFFE0 = 0" for w :: u32
    by (simp add: and.assoc)
  show 4: "((w :: u32) AND 0x00FFFFFF) AND 0xFF000000 = 0" for w :: u32
    by (simp add: and.assoc)
  show "w AND 0x1F = w \<Longrightarrow> w AND 0xFFFFFFE0 = 0"
    using 3 [of w] by simp
  show "w AND 0x00FFFFFF = w \<Longrightarrow> w AND 0xFF000000 = 0"
    using 4 [of w] by simp
qed

lemma l2_index_bound:
  "(l1 :: u32) AND 0x1F = l1 \<Longrightarrow> unat (push_bit 5 l1 OR (x AND 0x1F)) < 1024"
proof -
  assume l1: "l1 AND 0x1F = l1"
  have "(push_bit 5 l1 OR (x AND 0x1F)) AND 0x3FF = push_bit 5 l1 OR (x AND 0x1F)"
  proof (rule bit_word_eqI)
    fix n assume n: "n < LENGTH(32)"
    have b1: "bit l1 k \<Longrightarrow> k < 5" for k
    proof -
      assume "bit l1 k"
      then have "bit (l1 AND mask 5) k"
        using l1 by (simp add: mask_eq_exp_minus_1)
      then show "k < 5" by (simp add: bit_simps)
    qed
    have m: "(0x3FF :: u32) = mask 10" "(0x1F :: u32) = mask 5"
      by (simp_all add: mask_eq_exp_minus_1)
    show "bit ((push_bit 5 l1 OR (x AND 0x1F)) AND 0x3FF) n = bit (push_bit 5 l1 OR (x AND 0x1F)) n"
      unfolding m using b1 [of "n - 5"] by (auto simp: bit_simps)
  qed
  then show ?thesis
    using and_10bits [of "push_bit 5 l1 OR (x AND 0x1F)"] by simp
qed

lemma uvmem_vtop_ok:
  assumes "uvmem_wf vm"
  shows "\<exists>t. uvmem_vtop nd vaddr vm = Inr t"
  using assms by (simp add: uvmem_vtop_def Let_def uvmem_wf_def and_masks_zero)

lemma uvmem_write_map_ok:
  assumes "uvmem_wf vm"
  shows "\<exists>vm'. uvmem_write_map nd vma md vm = Inr vm' \<and> uvmem_wf vm'"
proof -
  have a: "l1_map vm i AND 0x1F = l1_map vm i" "l2_map vm i AND 0x00FFFFFF = l2_map vm i" for i
    using assms by (auto simp: uvmem_wf_def)
  have b: "drop_bit 27 vma AND 0x1F AND 0x1F = drop_bit 27 vma AND (0x1F :: u32)"
    by (simp add: and.assoc)
  note r = a b and_masks_zero l2_index_bound
  show ?thesis
    by (auto simp: uvmem_write_map_def Let_def uvmem_wf_def r and.assoc)
qed

lemmas uvmem_wf_write_map = uvmem_write_map_ok

end
