(* ===== verification/M32.thy ===== *)
theory M32
  imports Prelude
begin

text \<open>
  The 32-bit arithmetic helpers of \<^verbatim>\<open>usim/m32.h\<close> and \<^verbatim>\<open>usim/m32.c\<close>, and the byte-field helpers of
  \<^verbatim>\<open>usim/misc.c\<close>.  The ALU's operands are C \<open>int\<close>s; a value is kept as its 32-bit pattern and read
  with \<open>sint\<close> where the C comparison or widening is signed.  Signed additions that overflow are
  undefined in C; the model takes the wrap-around that the machine instruction computes.
\<close>

unbundle bit_operations_syntax

section \<open>Rotation (m32.c)\<close>

definition rol32 :: "u32 \<Rightarrow> nat \<Rightarrow> u32" where
  "rol32 value bitstorotate =
     (let msk = (if bitstorotate = 0 then 0 else signed_drop_bit bitstorotate (0x80000000 :: u32));
          tmp = (ucast (drop_bit (32 - bitstorotate) (ucast (value AND msk) :: u64)) :: u32)
      in push_bit bitstorotate value OR tmp)"

lemma bit_sign_bit: "bit (0x80000000 :: u32) k \<longleftrightarrow> k = 31"
proof -
  have eq: "(0x80000000 :: u32) = 2 ^ 31"
    by simp
  show ?thesis
    unfolding eq by (simp only: bit_exp_iff) (auto simp: possible_bit_def)
qed

lemma bit_sign_mask:
  "bit (signed_drop_bit n (0x80000000 :: u32)) i \<longleftrightarrow> i < 32 \<and> 31 \<le> i + n"
  by (auto simp: bit_signed_drop_bit_iff bit_sign_bit simp del: bit_numeral_word_iff)

lemma bit_rol32:
  assumes "n < 32"
  shows "bit (rol32 v n) i \<longleftrightarrow> i < 32 \<and> bit v (if n \<le> i then i - n else i + 32 - n)"
proof (cases "n = 0")
  case True
  then show ?thesis
    by (auto simp: rol32_def bit_simps dest: bit_imp_le_length)
next
  case False
  with assms show ?thesis
    by (auto simp: rol32_def Let_def bit_simps bit_sign_mask add.commute dest: bit_imp_le_length)
qed

section \<open>Add and subtract with carry (m32.h)\<close>

text \<open>
  \<open>add32(a, b, ci, out, co)\<close> and \<open>sub32\<close> are macros that assign \<open>out\<close> and then \<open>co\<close>.  Where the
  macro's \<open>a\<close> is the variable assigned to \<open>out\<close> (the remainder correction of the ALU), the carry reads
  the new value: the caller says so by passing the value \<open>a\<close> has when \<open>co\<close> is computed.
\<close>

definition add32_out :: "u32 \<Rightarrow> u32 \<Rightarrow> bool \<Rightarrow> u32" where
  "add32_out a b ci = a + b + (if ci then 1 else 0)"

definition add32_co :: "u32 \<Rightarrow> u32 \<Rightarrow> bool \<Rightarrow> u32" where
  "add32_co a b ci =
     (if ci then (if NOT a \<le>s b then 0 else 1) else (if NOT a <s b then 0 else 1))"

definition sub32_out :: "u32 \<Rightarrow> u32 \<Rightarrow> bool \<Rightarrow> u32" where
  "sub32_out a b ci = a - b - (if ci then 0 else 1)"

definition sub32_co :: "u32 \<Rightarrow> u32 \<Rightarrow> bool \<Rightarrow> u32" where
  "sub32_co a b ci = (if sub32_out a b ci < a then 1 else 0)"

definition abs32 :: "u32 \<Rightarrow> u32" where
  "abs32 a = (if a <s 0 then NOT a + 1 else a)"

lemma sint_range32: "- (2 ^ 31) \<le> sint (a :: u32)" "sint (a :: u32) < 2 ^ 31"
  using sint_greater_eq [of a] sint_less [of a] by simp_all

lemma sint_not: "sint (NOT (a :: u32)) = - sint a - 1"
proof -
  have "signed_take_bit 32 (- sint a - 1) = - sint a - 1"
    using sint_range32 [of a] by (intro signed_take_bit_int_eq_self) auto
  then show ?thesis
    by (simp add: signed_not_eq not_int_def)
qed

text \<open>
  The carry of \<open>add32\<close>, computed without 64-bit arithmetic, is the sign of the exact sum of the two
  signed operands.
\<close>

lemma add32_co_sign:
  "add32_co a b ci = (if sint a + sint b + (if ci then 1 else 0) < 0 then 1 else 0)"
  by (auto simp: add32_co_def word_sle_eq word_sless_alt sint_not)

lemma word_of_int_sint [simp]: "(word_of_int (sint a) :: u32) = a"
  by simp

lemma add32_out_int:
  "add32_out a b ci = word_of_int (sint a + sint b + (if ci then 1 else 0))"
  by (simp add: add32_out_def)

lemma sub32_out_int:
  "sub32_out a b ci = word_of_int (sint a - sint b - (if ci then 0 else 1))"
  by (simp add: sub32_out_def)

section \<open>Byte fields (misc.c)\<close>

text \<open>The masks are computed as C \<open>int\<close>s, so they are meaningful for fields of up to 31 bits.\<close>

definition int_mask :: "nat \<Rightarrow> u64" where
  "int_mask s = scast ((push_bit s 1 - 1) :: u32)"

definition load_byte :: "u64 \<Rightarrow> nat \<Rightarrow> nat \<Rightarrow> u64" where
  "load_byte w p s = drop_bit p w AND int_mask s"

definition deposit_byte :: "u64 \<Rightarrow> nat \<Rightarrow> nat \<Rightarrow> u64 \<Rightarrow> u64" where
  "deposit_byte w p s v =
     (let m = push_bit p (int_mask s) in (w AND NOT m) OR (push_bit p v AND m))"

definition ldb :: "u32 \<Rightarrow> u32 \<Rightarrow> u32" where
  "ldb ppss w =
     ucast (load_byte (ucast w) (unat (drop_bit 6 ppss AND 0x3F)) (unat (ppss AND 0x3F)))"

definition dpb :: "u32 \<Rightarrow> u32 \<Rightarrow> u32 \<Rightarrow> u32" where
  "dpb v ppss w =
     ucast (deposit_byte (ucast w) (unat (drop_bit 6 ppss AND 0x3F)) (unat (ppss AND 0x3F))
       (ucast v))"

lemma bit_int_mask [bit_simps]:
  "s < 32 \<Longrightarrow> bit (int_mask s) i \<longleftrightarrow> i < s \<and> i < 64"
proof -
  assume s: "s < 32"
  have "(push_bit s 1 - 1 :: u32) = mask s"
    by (simp add: mask_eq_exp_minus_1)
  with s show ?thesis
    by (cases "s = 0") (auto simp: int_mask_def bit_simps)
qed

lemma load_deposit_same:
  "s < 32 \<Longrightarrow> p + s \<le> 64 \<Longrightarrow> load_byte (deposit_byte w p s v) p s = v AND int_mask s"
  by (rule bit_word_eqI) (auto simp: load_byte_def deposit_byte_def Let_def bit_simps)

lemma load_deposit_other:
  "s < 32 \<Longrightarrow> s' < 32 \<Longrightarrow> p' + s' \<le> p \<or> p + s \<le> p' \<Longrightarrow>
    load_byte (deposit_byte w p s v) p' s' = load_byte w p' s'"
  by (rule bit_word_eqI)
    (auto simp: load_byte_def deposit_byte_def Let_def bit_simps dest: bit_imp_le_length)

lemma deposit_load_same:
  "s < 32 \<Longrightarrow> deposit_byte w p s (load_byte w p s) = w"
  by (rule bit_word_eqI) (auto simp: load_byte_def deposit_byte_def Let_def bit_simps)

end
