(* ===== verification/Uexec_State.thy ===== *)
theory Uexec_State
  imports Main_Memory Uvmem_Map M32
begin

text \<open>
  The registers and memories of the CADR processor (the globals of \<^verbatim>\<open>usim/uexec.c\<close>), the machine
  state flags and their control (\<^verbatim>\<open>usim/machine-control.c\<close>).

  The C globals \<open>q\<close>, \<open>op\<close>, \<open>out\<close> are the fields \<open>q_r\<close>, \<open>op_r\<close>, \<open>out_r\<close>; the other fields
  have the names of the globals.  \<open>mdata\<close> and \<open>adata\<close> are C \<open>int\<close>s and are kept as bit patterns.
\<close>

unbundle bit_operations_syntax

section \<open>State\<close>

record cpu =
  p0 :: u64
  p0_pc :: u32
  p0_imem :: bool
  p1 :: u64
  p1_pc :: u32
  p1_imem :: bool
  npc :: u32
  debug_ir :: u64
  iwr :: u64
  prom :: "nat \<Rightarrow> u64"
  imem :: "nat \<Rightarrow> u64"
  amem :: "nat \<Rightarrow> u32"
  aaddr :: u32
  adata :: u32
  mmem :: "nat \<Rightarrow> u32"
  maddr :: u32
  mdata :: u32
  dmem :: "nat \<Rightarrow> u32"
  pdl :: "nat \<Rightarrow> u32"
  spc :: "nat \<Rightarrow> u32"
  spcptr :: u32
  dispatch_constant :: u32
  pdl_pointer :: u32
  pdl_index :: u32
  vma_reg :: u32
  md_reg :: u32
  lc :: u32
  oa_reg_low :: u32
  oa_reg_high :: u32
  opc :: u32
  q_r :: u32
  old_q :: u32
  interrupt_control :: u32
  inhibit :: bool
  op_r :: u32
  popj :: bool
  new_md :: u32
  new_md_delay :: u32
  alu_carry :: u32
  alu_out :: u32
  oal :: bool
  oah :: bool
  out_r :: u32
  uexec_has_run_once :: bool

record machine_state_s =
  halted :: bool
  vmaok :: bool
  promdisabled :: bool

record mc_sys = mem_sys +
  ms :: machine_state_s
  cpu :: cpu

section \<open>Instruction fields and the microcode stack\<close>

text \<open>
  \<open>ir pos len\<close> is the field of \<open>len\<close> bits at bit \<open>pos\<close> of the instruction register \<open>p0\<close>.
\<close>

definition ir :: "nat \<Rightarrow> nat \<Rightarrow> cpu \<Rightarrow> u64" where
  "ir pos len c = drop_bit pos (p0 c) AND (push_bit len 1 - 1)"

definition ir32 :: "nat \<Rightarrow> nat \<Rightarrow> cpu \<Rightarrow> u32" where
  "ir32 pos len c = ucast (ir pos len c)"

definition pushSPC :: "u32 \<Rightarrow> cpu \<Rightarrow> cpu" where
  "pushSPC pc c =
     (let p = (spcptr c + 1) AND 0x1F
      in c\<lparr>spcptr := p, spc := (spc c)(unat p := pc)\<rparr>)"

definition popSPC :: "cpu \<Rightarrow> u32 \<times> cpu" where
  "popSPC c = (spc c (unat (spcptr c)), c\<lparr>spcptr := (spcptr c - 1) AND 0x1F\<rparr>)"

section \<open>Machine control\<close>

definition machine_control_reset :: "'a mc_sys_scheme \<Rightarrow> 'a mc_sys_scheme" where
  "machine_control_reset m =
     m\<lparr>ms := \<lparr>halted = False, vmaok = False, promdisabled = False\<rparr>\<rparr>"

definition machine_control_boot :: "'a mc_sys_scheme \<Rightarrow> 'a mc_sys_scheme" where
  "machine_control_boot m =
     (let m1 = machine_control_reset m
      in m1\<lparr>ms := (ms m1)\<lparr>promdisabled := False\<rparr>,
            cpu := (cpu m1)\<lparr>npc := 0, inhibit := True\<rparr>\<rparr>)"

definition machine_control_shutdown :: "'a mc_sys_scheme \<Rightarrow> 'a mc_sys_scheme" where
  "machine_control_shutdown m = m\<lparr>ms := (ms m)\<lparr>halted := True\<rparr>\<rparr>"

section \<open>Invariant\<close>

text \<open>
  The widths the hardware registers have.  The next PC is a 14-bit address, except after a dispatch
  that has decremented it below 0 (see theory Uexec): then it is all ones.  While a POPJ is under way
  it may also hold the unmasked return address.
\<close>

definition npc_ok :: "u32 \<Rightarrow> bool" where
  "npc_ok n \<longleftrightarrow> unat n < 16384 \<or> n = - 1"

definition cpu_wf :: "cpu \<Rightarrow> bool" where
  "cpu_wf c \<longleftrightarrow>
     (popj c \<or> npc_ok (npc c)) \<and> unat (spcptr c) < 32 \<and>
     unat (pdl_pointer c) < 1024 \<and> unat (pdl_index c) < 1024 \<and>
     unat (dispatch_constant c) < 1024 \<and> unat (new_md_delay c) \<le> 2 \<and>
     unat (oa_reg_low c) < 2 ^ 26 \<and> unat (oa_reg_high c) < 2 ^ 23"

lemma cpu_wf_boot [wf_intros]:
  "cpu_wf (cpu m) \<Longrightarrow> cpu_wf (cpu (machine_control_boot m))"
  by (simp add: cpu_wf_def npc_ok_def machine_control_boot_def machine_control_reset_def Let_def)

lemma boot_only:
  "machine_control_boot m =
     m\<lparr>ms := ms (machine_control_boot m), cpu := cpu (machine_control_boot m)\<rparr>"
  by (simp add: machine_control_boot_def machine_control_reset_def Let_def)

lemma cpu_wf_pushSPC [wf_intros]: "cpu_wf c \<Longrightarrow> cpu_wf (pushSPC pc c)"
  by (simp add: cpu_wf_def pushSPC_def Let_def)

lemma cpu_wf_popSPC [wf_intros]: "cpu_wf c \<Longrightarrow> cpu_wf (snd (popSPC c))"
  by (simp add: cpu_wf_def popSPC_def)

text \<open>The width of an instruction field.\<close>

lemma ir_mask: "ir pos len c = drop_bit pos (p0 c) AND mask len"
  by (simp add: ir_def mask_eq_exp_minus_1)

lemma bit_ir [bit_simps]: "bit (ir pos len c) i \<longleftrightarrow> i < len \<and> bit (p0 c) (pos + i)"
  by (auto simp: ir_mask bit_simps dest: bit_imp_le_length)

lemma bit_ir32 [bit_simps]: "bit (ir32 pos len c) i \<longleftrightarrow> i < len \<and> i < 32 \<and> bit (p0 c) (pos + i)"
  by (auto simp: ir32_def bit_simps)

lemma ir32_bound: "len \<le> 32 \<Longrightarrow> unat (ir32 pos len c) < 2 ^ len"
proof -
  assume len: "len \<le> 32"
  have "ir32 pos len c = take_bit len (ir32 pos len c)"
    by (rule bit_word_eqI) (auto simp: bit_simps)
  then have "unat (ir32 pos len c) = take_bit len (unat (ir32 pos len c))"
    by (metis unsigned_take_bit_eq)
  then show ?thesis
    by (metis take_bit_nat_less_exp)
qed

section \<open>The microcode stack is a ring stack of 32 entries\<close>

definition spc_look :: "cpu \<Rightarrow> nat \<Rightarrow> u32" where
  "spc_look c i = spc c (unat ((spcptr c - of_nat i) AND 0x1F))"

interpretation spc_stack: ring_stack 32 "\<lambda>c. unat (spcptr c) < 32" pushSPC popSPC spc_look
proof unfold_locales
  fix c :: cpu and v :: u32 and i :: nat
  assume c: "unat (spcptr c) < 32"
  note ring = pushSPC_def popSPC_def Let_def spc_look_def unat_and_1F ucast_and_low ucast_arith_low
  show "unat (spcptr (pushSPC v c)) < 32"
    by (simp add: pushSPC_def Let_def)
  show "unat (spcptr (snd (popSPC c))) < 32"
    by (simp add: popSPC_def)
  show "spc_look (pushSPC v c) 0 = v"
    by (simp add: pushSPC_def Let_def spc_look_def and.assoc)
  show "fst (popSPC c) = spc_look c 0"
    using c by (simp add: popSPC_def spc_look_def and_low_id)
  show "spc_look (pushSPC v c) (Suc i) = spc_look c i" if "Suc i < 32"
    using that ring_apart [of i "ucast (spcptr c) :: 5 word"]
    by (simp add: ring ucast_of_nat_low algebra_simps)
  show "spc_look (snd (popSPC c)) i = spc_look c (Suc i)" if "Suc i < 32"
    by (simp add: ring algebra_simps)
qed

end
