(* ===== verification/Bus_Errors.thy ===== *)
theory Bus_Errors
  imports Uexec_State
begin

text \<open>
  The state of the bus interface (\<^verbatim>\<open>usim/bus-interface.c\<close>) with the error bits that bus devices set,
  and the debugger's side of the two-machine lashup (\<^verbatim>\<open>usim/lashup-debugger.c\<close>).

  The UDP exchange of \<open>lashup_debugger_xmt\<close> is the environment: \<open>lashup_replies\<close> lists the outcomes
  of the exchanges to come (\<open>None\<close>: no reply within the time limit, or a socket error), and
  \<open>lashup_sent\<close> records the requests in the order they were sent, latest first.
\<close>

unbundle bit_operations_syntax

record bus_interface =
  bus_error_status :: u16
  nxm_inhibited :: bool
  modifier_reset :: bool
  debuggee_bus_error_status :: u16
  addr17 :: bool
  bif_addr :: u16

record lashup_request_s =
  lr_command :: char
  lr_uaddr :: u32
  lr_data :: u16

record lashup =
  lashup_target_port :: u32
  lashup_reply_data :: u16
  lashup_replies :: "(u16 \<times> u16) option list"
  lashup_sent :: "lashup_request_s list"

record bif_sys = mc_sys +
  bif :: bus_interface
  lash :: lashup

section \<open>The error status\<close>

definition bus_interface_is_xbus_nxm :: "'a bif_sys_scheme \<Rightarrow> bool" where
  "bus_interface_is_xbus_nxm m \<longleftrightarrow> bus_error_status (bif m) AND 0x01 \<noteq> 0"

definition bus_interface_is_unibus_nxm :: "'a bif_sys_scheme \<Rightarrow> bool" where
  "bus_interface_is_unibus_nxm m \<longleftrightarrow> bus_error_status (bif m) AND 0x08 \<noteq> 0"

definition bus_interface_is_unibus_map_error :: "'a bif_sys_scheme \<Rightarrow> bool" where
  "bus_interface_is_unibus_map_error m \<longleftrightarrow> bus_error_status (bif m) AND 0x20 \<noteq> 0"

definition bus_interface_reset_bus_error_status :: "'a bif_sys_scheme \<Rightarrow> 'a bif_sys_scheme" where
  "bus_interface_reset_bus_error_status m = m\<lparr>bif := (bif m)\<lparr>bus_error_status := 0\<rparr>\<rparr>"

definition bus_interface_set_debuggee_bus_error_status ::
    "u16 \<Rightarrow> 'a bif_sys_scheme \<Rightarrow> 'a bif_sys_scheme" where
  "bus_interface_set_debuggee_bus_error_status status m =
     m\<lparr>bif := (bif m)\<lparr>debuggee_bus_error_status := status\<rparr>\<rparr>"

definition bus_interface_set_nxm_inhibit :: "bool \<Rightarrow> 'a bif_sys_scheme \<Rightarrow> 'a bif_sys_scheme" where
  "bus_interface_set_nxm_inhibit inh m = m\<lparr>bif := (bif m)\<lparr>nxm_inhibited := inh\<rparr>\<rparr>"

definition bus_interface_set_xbus_nxm :: "'a bif_sys_scheme \<Rightarrow> 'a bif_sys_scheme" where
  "bus_interface_set_xbus_nxm m =
     (if nxm_inhibited (bif m) then m
      else m\<lparr>bif := (bif m)\<lparr>bus_error_status := bus_error_status (bif m) OR 0x01\<rparr>\<rparr>)"

definition bus_interface_set_unibus_nxm :: "'a bif_sys_scheme \<Rightarrow> 'a bif_sys_scheme" where
  "bus_interface_set_unibus_nxm m =
     (if nxm_inhibited (bif m) then m
      else m\<lparr>bif := (bif m)\<lparr>bus_error_status := bus_error_status (bif m) OR 0x08\<rparr>\<rparr>)"

definition bus_interface_set_unibus_map_error :: "'a bif_sys_scheme \<Rightarrow> 'a bif_sys_scheme" where
  "bus_interface_set_unibus_map_error m =
     m\<lparr>bif := (bif m)\<lparr>bus_error_status := bus_error_status (bif m) OR 0x20\<rparr>\<rparr>"

lemmas bif_error_defs = bus_interface_reset_bus_error_status_def
  bus_interface_set_debuggee_bus_error_status_def bus_interface_set_nxm_inhibit_def
  bus_interface_set_xbus_nxm_def bus_interface_set_unibus_nxm_def
  bus_interface_set_unibus_map_error_def

lemma bif_only:
  "bus_interface_reset_bus_error_status m =
     m\<lparr>bif := bif (bus_interface_reset_bus_error_status m)\<rparr>"
  "bus_interface_set_debuggee_bus_error_status status m =
     m\<lparr>bif := bif (bus_interface_set_debuggee_bus_error_status status m)\<rparr>"
  "bus_interface_set_nxm_inhibit inh m = m\<lparr>bif := bif (bus_interface_set_nxm_inhibit inh m)\<rparr>"
  "bus_interface_set_xbus_nxm m = m\<lparr>bif := bif (bus_interface_set_xbus_nxm m)\<rparr>"
  "bus_interface_set_unibus_nxm m = m\<lparr>bif := bif (bus_interface_set_unibus_nxm m)\<rparr>"
  "bus_interface_set_unibus_map_error m = m\<lparr>bif := bif (bus_interface_set_unibus_map_error m)\<rparr>"
  by (simp_all add: bif_error_defs)

section \<open>The lashup debugger\<close>

text \<open>
  One exchange: send the request, take the next outcome of the environment.  Without a configured
  target nothing is sent and the status is left alone.
\<close>

definition lashup_debugger_xmt ::
    "lashup_request_s \<Rightarrow> 'a bif_sys_scheme \<Rightarrow> bool \<times> 'a bif_sys_scheme" where
  "lashup_debugger_xmt request m =
     (if lashup_target_port (lash m) = 0 then (False, m)
      else
        let l = (lash m)\<lparr>lashup_sent := request # lashup_sent (lash m),
                         lashup_replies := tl (lashup_replies (lash m))\<rparr>
        in case lashup_replies (lash m) of
             Some (status, data) # _ \<Rightarrow>
               (True, bus_interface_set_debuggee_bus_error_status status
                        (m\<lparr>lash := l\<lparr>lashup_reply_data := data\<rparr>\<rparr>))
           | _ \<Rightarrow>
               (False, bus_interface_set_debuggee_bus_error_status 0x08 (m\<lparr>lash := l\<rparr>)))"

definition lashup_debugger_read ::
    "u32 \<Rightarrow> 'a bif_sys_scheme \<Rightarrow> bool \<times> u16 \<times> 'a bif_sys_scheme" where
  "lashup_debugger_read uaddr m =
     (let (ok, m1) = lashup_debugger_xmt \<lparr>lr_command = CHR ''r'', lr_uaddr = uaddr, lr_data = 0\<rparr> m
      in (ok, if ok then lashup_reply_data (lash m1) else 0, m1))"

definition lashup_debugger_write ::
    "u32 \<Rightarrow> u16 \<Rightarrow> 'a bif_sys_scheme \<Rightarrow> bool \<times> 'a bif_sys_scheme" where
  "lashup_debugger_write uaddr v m =
     lashup_debugger_xmt \<lparr>lr_command = CHR ''w'', lr_uaddr = uaddr, lr_data = v\<rparr> m"

definition lashup_debugger_inhibit_nxm ::
    "bool \<Rightarrow> 'a bif_sys_scheme \<Rightarrow> bool \<times> 'a bif_sys_scheme" where
  "lashup_debugger_inhibit_nxm inh m =
     lashup_debugger_xmt
       \<lparr>lr_command = CHR ''t'', lr_uaddr = 0, lr_data = (if inh then 1 else 0)\<rparr> m"

definition lashup_debugger_reset_unibus_and_bus_interface ::
    "'a bif_sys_scheme \<Rightarrow> bool \<times> 'a bif_sys_scheme" where
  "lashup_debugger_reset_unibus_and_bus_interface m =
     lashup_debugger_xmt \<lparr>lr_command = CHR ''s'', lr_uaddr = 0, lr_data = 0\<rparr> m"

definition lashup_debugger_mark_debuggee ::
    "u8 \<Rightarrow> 'a bif_sys_scheme \<Rightarrow> bool \<times> 'a bif_sys_scheme" where
  "lashup_debugger_mark_debuggee symb m =
     lashup_debugger_xmt \<lparr>lr_command = CHR ''e'', lr_uaddr = 0, lr_data = ucast symb\<rparr> m"

definition lashup_debugger_mark_debugger ::
    "u8 \<Rightarrow> 'a bif_sys_scheme \<Rightarrow> bool \<times> 'a bif_sys_scheme" where
  "lashup_debugger_mark_debugger symb m = (True, m)"

definition lashup_debugger_ping :: "'a bif_sys_scheme \<Rightarrow> bool \<times> 'a bif_sys_scheme" where
  "lashup_debugger_ping m =
     lashup_debugger_xmt \<lparr>lr_command = CHR ''p'', lr_uaddr = 0, lr_data = 0\<rparr> m"

definition lashup_debugger_usim :: "u8 \<Rightarrow> u8 \<Rightarrow> 'a bif_sys_scheme \<Rightarrow> bool \<times> 'a bif_sys_scheme" where
  "lashup_debugger_usim cmd param m =
     lashup_debugger_xmt
       \<lparr>lr_command = CHR ''u'', lr_uaddr = 0, lr_data = push_bit 8 (ucast cmd) OR ucast param\<rparr> m"

lemmas lashup_defs = lashup_debugger_read_def lashup_debugger_write_def
  lashup_debugger_inhibit_nxm_def lashup_debugger_reset_unibus_and_bus_interface_def
  lashup_debugger_mark_debuggee_def lashup_debugger_mark_debugger_def lashup_debugger_ping_def
  lashup_debugger_usim_def

lemma lashup_xmt_only:
  "snd (lashup_debugger_xmt r m) =
     m\<lparr>bif := bif (snd (lashup_debugger_xmt r m)), lash := lash (snd (lashup_debugger_xmt r m))\<rparr>"
  by (simp add: lashup_debugger_xmt_def bif_error_defs Let_def split: list.splits option.splits)

lemma lashup_xmt_bif:
  "bif (snd (lashup_debugger_xmt r m)) =
     (bif m)\<lparr>debuggee_bus_error_status :=
        debuggee_bus_error_status (bif (snd (lashup_debugger_xmt r m)))\<rparr>"
  by (simp add: lashup_debugger_xmt_def bif_error_defs Let_def split: list.splits option.splits)

end
