(* ===== verification/Tv.thy ===== *)
theory Tv
  imports Bus_Errors
begin

text \<open>
  The monochrome TV (\<^verbatim>\<open>usim/tv.c\<close>, SDL3 build: the screen buffer is the only copy of the picture);
  the colour TV is in theory
  Colortv.  Screenshots and the display callback are host I/O and
  are not modelled.
\<close>

unbundle bit_operations_syntax

section \<open>State\<close>

record tv_state =
  tv_monitor :: int
  tv_width :: u32
  tv_height :: u32
  tv_screen_buffer :: "nat \<Rightarrow> u32"
  tv_background :: u32
  tv_foreground :: u32
  tv_mode :: u32
  tv_vert_spacing :: u32
  tv_sync_ptr :: u32
  tv_sync_ram :: "nat \<Rightarrow> u8"

record tv_sys = bif_sys +
  tv :: tv_state

definition BLACK :: u32 where "BLACK = 0xFF000000"
definition WHITE :: u32 where "WHITE = 0xFFFFFFFF"

section \<open>Operations\<close>

definition tv_is_sync_prom_enabled :: "tv_state \<Rightarrow> bool" where
  "tv_is_sync_prom_enabled t \<longleftrightarrow> \<not> (tv_vert_spacing t AND 0x80 \<noteq> 0)"

definition tv_is_black_on_white :: "tv_state \<Rightarrow> bool" where
  "tv_is_black_on_white t \<longleftrightarrow> tv_mode t AND 0x04 \<noteq> 0"

definition tv_is_interrupt_enabled :: "tv_state \<Rightarrow> bool" where
  "tv_is_interrupt_enabled t \<longleftrightarrow> tv_mode t AND 0x08 \<noteq> 0"

definition tv_assert_interrupt :: "'a tv_sys_scheme \<Rightarrow> 'a tv_sys_scheme" where
  "tv_assert_interrupt m =
     (if tv_is_interrupt_enabled (tv m)
      then assert_xbus_interrupt (m\<lparr>tv := (tv m)\<lparr>tv_mode := tv_mode (tv m) OR push_bit 4 1\<rparr>\<rparr>)
      else m)"

definition tv_reset :: "'a tv_sys_scheme \<Rightarrow> 'a tv_sys_scheme" where
  "tv_reset m = m\<lparr>tv := (tv m)\<lparr>tv_mode := 0, tv_screen_buffer := (\<lambda>_. 0)\<rparr>\<rparr>"

definition tv_screen_read :: "u32 \<Rightarrow> 'a tv_sys_scheme \<Rightarrow> fault + u32" where
  "tv_screen_read offset m =
     and_then (in_bounds 32768 (unat offset) ''tv_screen_buffer'') (\<lambda>_.
     Inr (tv_screen_buffer (tv m) (unat offset)))"

definition tv_screen_write :: "u32 \<Rightarrow> u32 \<Rightarrow> 'a tv_sys_scheme \<Rightarrow> fault + 'a tv_sys_scheme" where
  "tv_screen_write offset v m =
     and_then (in_bounds 32768 (unat offset) ''tv_screen_buffer'') (\<lambda>_.
     Inr (m\<lparr>tv := (tv m)\<lparr>tv_screen_buffer :=
            (tv_screen_buffer (tv m))(unat offset := v)\<rparr>\<rparr>))"

definition tv_control_read :: "u32 \<Rightarrow> u32 \<Rightarrow> 'a tv_sys_scheme \<Rightarrow> u32 \<times> 'a tv_sys_scheme" where
  "tv_control_read offset pv m =
     (if offset = 0 then (tv_mode (tv m), m)
      else if offset = 1 then
        (if \<not> tv_is_sync_prom_enabled (tv m)
         then (ucast (tv_sync_ram (tv m) (unat (tv_sync_ptr (tv m)))), m)
         else (0, m))
      else (pv, bus_interface_set_xbus_nxm m))"

text \<open>The redraw of the whole screen: \<open>k\<close> words from \<open>i\<close> on are read and written back.\<close>

primrec tv_redraw :: "nat \<Rightarrow> nat \<Rightarrow> 'a tv_sys_scheme \<Rightarrow> fault + 'a tv_sys_scheme" where
  "tv_redraw 0 i m = Inr m"
| "tv_redraw (Suc k) i m =
     and_then (tv_screen_read (of_nat i) m) (\<lambda>bits.
     and_then (tv_screen_write (of_nat i) bits m) (\<lambda>m1. tv_redraw k (Suc i) m1))"

definition tv_control_write :: "u32 \<Rightarrow> u32 \<Rightarrow> 'a tv_sys_scheme \<Rightarrow> fault + 'a tv_sys_scheme" where
  "tv_control_write offset v m =
     (if offset = 0 then
        let was_bow = tv_is_black_on_white (tv m);
            t1 = (tv m)\<lparr>tv_mode := v\<rparr>;
            is_bow = tv_is_black_on_white t1;
            t2 = t1\<lparr>tv_foreground := (if is_bow then BLACK else WHITE),
                    tv_background := (if is_bow then WHITE else BLACK)\<rparr>;
            m1 = m\<lparr>tv := t2\<rparr>
        in if was_bow \<noteq> is_bow
           then tv_redraw (unat (tv_width t2 * tv_height t2 div 32)) 0 m1
           else Inr m1
      else if offset = 1 then
        Inr (if \<not> tv_is_sync_prom_enabled (tv m)
             then m\<lparr>tv := (tv m)\<lparr>tv_sync_ram :=
                      (tv_sync_ram (tv m))(unat (tv_sync_ptr (tv m)) := ucast (v AND 0xFF))\<rparr>\<rparr>
             else m)
      else if offset = 2 then Inr (m\<lparr>tv := (tv m)\<lparr>tv_sync_ptr := v AND 0x0FFF\<rparr>\<rparr>)
      else if offset = 3 then Inr (m\<lparr>tv := (tv m)\<lparr>tv_vert_spacing := v\<rparr>\<rparr>)
      else Inr (bus_interface_set_xbus_nxm m))"

definition tv_init :: "'a tv_sys_scheme \<Rightarrow> fault + 'a tv_sys_scheme" where
  "tv_init m =
     (if tv_monitor (tv m) = 0 then Inr (m\<lparr>tv := (tv m)\<lparr>tv_width := 768, tv_height := 896\<rparr>\<rparr>)
      else if tv_monitor (tv m) = 1
      then Inr (m\<lparr>tv := (tv m)\<lparr>tv_width := 768, tv_height := 963\<rparr>\<rparr>)
      else Inl (Errx ''unknown monitor type''))"

section \<open>Invariant\<close>

text \<open>The picture fits the buffer and the sync pointer addresses the sync RAM of 4096 bytes.\<close>

definition tv_wf :: "tv_state \<Rightarrow> bool" where
  "tv_wf t \<longleftrightarrow> unat (tv_width t * tv_height t div 32) \<le> 32768 \<and> unat (tv_sync_ptr t) < 4096"

lemma tv_screen_write_only:
  "tv_screen_write offset v m = Inr m' \<Longrightarrow> m' = m\<lparr>tv := tv m'\<rparr>"
  by (auto simp: tv_screen_write_def fault_simps)

lemma tv_screen_write_wf [wf_intros]:
  "tv_wf (tv m) \<Longrightarrow> tv_screen_write offset v m = Inr m' \<Longrightarrow> tv_wf (tv m')"
  by (auto simp: tv_screen_write_def fault_simps tv_wf_def)

text \<open>
  Writing back what was read changes nothing, so the redraw leaves the state as it is: this is what
  makes the SDL3 build's loop harmless.
\<close>

lemma tv_redraw_id:
  "i + k \<le> 32768 \<Longrightarrow> tv_redraw k i m = Inr m"
proof (induction k arbitrary: i)
  case 0
  then show ?case by simp
next
  case (Suc k)
  then have i: "unat (of_nat i :: u32) < 32768"
    by (simp add: unat_of_nat)
  then have "tv_screen_write (of_nat i) (tv_screen_buffer (tv m) (unat (of_nat i :: u32))) m = Inr m"
    by (simp add: tv_screen_write_def)
  with i Suc show ?case
    by (simp add: tv_screen_read_def)
qed

lemma tv_control_write_ok:
  assumes "tv_wf (tv m)"
  shows "\<exists>m'. tv_control_write offset v m = Inr m' \<and> tv_wf (tv m') \<and>
           m' = m\<lparr>bif := bif m', tv := tv m'\<rparr>"
  using assms
  by (auto simp: tv_control_write_def Let_def tv_redraw_id tv_wf_def bif_error_defs)

lemma tv_control_read_only:
  "tv_control_read offset pv m = (v, m') \<Longrightarrow> m' = m\<lparr>bif := bif m'\<rparr>"
  by (auto simp: tv_control_read_def bif_error_defs split: if_splits)

text \<open>The screen buffer is a store of 32768 words.\<close>


end
