(* ===== verification/Colortv.thy ===== *)
theory Colortv
  imports Tv
begin

text \<open>
  The colour TV (\<^verbatim>\<open>usim/colortv.c\<close>): screen buffer, mode and sync registers and the colour map
  of 64 entries.  \<open>colortv_enabled\<close> is the option of \<^verbatim>\<open>usim.ini\<close> that the bus adaptor asks.
\<close>

unbundle bit_operations_syntax

record colortv_state =
  colortv_enabled :: bool
  colortv_screen_buffer :: "nat \<Rightarrow> u32"
  colortv_color_map :: "nat \<Rightarrow> u32"
  colortv_mode :: u32
  colortv_vsync :: bool
  colortv_hsync :: bool
  sync_prom_enb :: bool
  colortv_vert_spacing :: u32
  colortv_sync_ptr :: u32
  colortv_sync_ram :: "nat \<Rightarrow> u8"

record ctv_sys = tv_sys +
  ctv :: colortv_state

definition colortv_is_interrupt_enabled :: "colortv_state \<Rightarrow> bool" where
  "colortv_is_interrupt_enabled t \<longleftrightarrow> colortv_mode t AND 0x08 \<noteq> 0"

definition colortv_assert_interrupt :: "'a ctv_sys_scheme \<Rightarrow> 'a ctv_sys_scheme" where
  "colortv_assert_interrupt m =
     (if colortv_is_interrupt_enabled (ctv m)
      then assert_xbus_interrupt
             (m\<lparr>ctv := (ctv m)\<lparr>colortv_mode := colortv_mode (ctv m) OR push_bit 4 1\<rparr>\<rparr>)
      else m)"

definition colortv_screen_read :: "u32 \<Rightarrow> 'a ctv_sys_scheme \<Rightarrow> fault + u32" where
  "colortv_screen_read offset m =
     and_then (in_bounds 32768 (unat offset) ''colortv_screen_buffer'') (\<lambda>_.
     Inr (colortv_screen_buffer (ctv m) (unat offset)))"

definition colortv_screen_write ::
    "u32 \<Rightarrow> u32 \<Rightarrow> 'a ctv_sys_scheme \<Rightarrow> fault + 'a ctv_sys_scheme" where
  "colortv_screen_write offset v m =
     and_then (in_bounds 32768 (unat offset) ''colortv_screen_buffer'') (\<lambda>_.
     Inr (m\<lparr>ctv := (ctv m)\<lparr>colortv_screen_buffer :=
            (colortv_screen_buffer (ctv m))(unat offset := v)\<rparr>\<rparr>))"

definition colortv_control_read ::
    "u32 \<Rightarrow> u32 \<Rightarrow> 'a ctv_sys_scheme \<Rightarrow> u32 \<times> 'a ctv_sys_scheme" where
  "colortv_control_read offset pv m =
     (let t = ctv m in
      if offset = 0 then
        (colortv_mode t OR (if sync_prom_enb t then 0x80 else 0) OR
         (if colortv_hsync t then 0x40 else 0) OR (if colortv_vsync t then 0x20 else 0), m)
      else if offset = 1 then
        (if \<not> sync_prom_enb t
         then (ucast (colortv_sync_ram t (unat (colortv_sync_ptr t))), m)
         else (0, m))
      else (pv, bus_interface_set_xbus_nxm m))"

text \<open>One write to the colour map: intensities are stored inverted, channel 3 does not exist.\<close>

definition colortv_write_color_map :: "u32 \<Rightarrow> colortv_state \<Rightarrow> fault + colortv_state" where
  "colortv_write_color_map v t =
     (let color_channel_value = 255 - (drop_bit 8 v AND 0xFF);
          color_channel = drop_bit 6 v AND 0x03;
          location = unat (v AND 0x3F);
          current_value = colortv_color_map t location;
          store = (\<lambda>new_value. Inr (t\<lparr>colortv_color_map :=
                     (colortv_color_map t)(location := 0xFF000000 OR new_value)\<rparr>))
      in if color_channel = 0
         then store ((current_value AND 0x0000FFFF) OR push_bit 16 color_channel_value)
         else if color_channel = 1
         then store ((current_value AND 0x00FF00FF) OR push_bit 8 color_channel_value)
         else if color_channel = 2
         then store ((current_value AND 0x00FFFF00) OR color_channel_value)
         else Inl (Errx ''color_channel''))"

definition colortv_control_write ::
    "u32 \<Rightarrow> u32 \<Rightarrow> 'a ctv_sys_scheme \<Rightarrow> fault + 'a ctv_sys_scheme" where
  "colortv_control_write offset v m =
     (let t = ctv m in
      if offset = 0 then Inr (m\<lparr>ctv := t\<lparr>colortv_mode := v AND 0x1F\<rparr>\<rparr>)
      else if offset = 1 then
        Inr (if \<not> sync_prom_enb t
             then m\<lparr>ctv := t\<lparr>colortv_sync_ram :=
                      (colortv_sync_ram t)(unat (colortv_sync_ptr t) := ucast (v AND 0xFF))\<rparr>\<rparr>
             else m)
      else if offset = 2 then Inr (m\<lparr>ctv := t\<lparr>colortv_sync_ptr := v AND 0x0FFF\<rparr>\<rparr>)
      else if offset = 3 then
        Inr (m\<lparr>ctv := t\<lparr>sync_prom_enb := (v AND 0x80 = 0),
                        colortv_vert_spacing := v AND 0x7F\<rparr>\<rparr>)
      else if offset = 4 then
        and_then (colortv_write_color_map v t) (\<lambda>t'. Inr (m\<lparr>ctv := t'\<rparr>))
      else Inr (bus_interface_set_xbus_nxm m))"

section \<open>Invariant\<close>

definition ctv_wf :: "colortv_state \<Rightarrow> bool" where
  "ctv_wf t \<longleftrightarrow> unat (colortv_sync_ptr t) < 4096"

lemma colortv_screen_write_ok:
  "colortv_screen_write offset v m = Inr m' \<Longrightarrow>
    m' = m\<lparr>ctv := ctv m'\<rparr> \<and> (ctv_wf (ctv m) \<longrightarrow> ctv_wf (ctv m'))"
  by (auto simp: colortv_screen_write_def fault_simps ctv_wf_def)

lemma colortv_color_map_frame:
  "colortv_write_color_map v t = Inr t' \<Longrightarrow> colortv_sync_ptr t' = colortv_sync_ptr t"
  by (auto simp: colortv_write_color_map_def Let_def split: if_splits)

lemma colortv_control_write_ok:
  "colortv_control_write offset v m = Inr m' \<Longrightarrow>
    m' = m\<lparr>bif := bif m', ctv := ctv m'\<rparr> \<and> (ctv_wf (ctv m) \<longrightarrow> ctv_wf (ctv m'))"
  by (auto simp: colortv_control_write_def Let_def fault_simps ctv_wf_def bif_error_defs
      colortv_color_map_frame split: if_splits)

lemma colortv_control_read_only:
  "colortv_control_read offset pv m = (v, m') \<Longrightarrow> m' = m\<lparr>bif := bif m'\<rparr>"
  by (auto simp: colortv_control_read_def Let_def bif_error_defs split: if_splits)

end
