(* ===== verification/Unibus_Mapping.thy ===== *)
theory Unibus_Mapping
  imports Colortv
begin

text \<open>
  The 16 Unibus mapping registers and the half-word buffers (\<^verbatim>\<open>usim/unibus-mapping.c\<close>).  The
  mapped transfer itself is part of the bus adaptor.
\<close>

unbundle bit_operations_syntax

record unibus_mapping =
  unibus_mapping_registers :: "nat \<Rightarrow> u16"
  unibus_mapping_buffers :: "nat \<Rightarrow> u16"

record umap_sys = ctv_sys +
  umap :: unibus_mapping

text \<open>The registers answer the even addresses \<open>0766140\<close> to \<open>0766176\<close>.\<close>

definition unibus_mapping_rw ::
    "bool \<Rightarrow> u32 \<Rightarrow> u16 \<Rightarrow> 'a umap_sys_scheme \<Rightarrow> u16 \<times> 'a umap_sys_scheme" where
  "unibus_mapping_rw wr uaddr pv m =
     (if 0x3EC60 \<le> uaddr \<and> uaddr \<le> 0x3EC7E \<and> \<not> bit uaddr 0 then
        let page_no = unat ((uaddr - 0x3EC60) div 2) in
        if wr
        then (pv, m\<lparr>umap := (umap m)\<lparr>unibus_mapping_registers :=
                     (unibus_mapping_registers (umap m))(page_no := pv)\<rparr>\<rparr>)
        else (unibus_mapping_registers (umap m) page_no, m)
      else (pv, bus_interface_set_unibus_nxm m))"

definition unibus_mapping_read ::
    "u32 \<Rightarrow> u16 \<Rightarrow> 'a umap_sys_scheme \<Rightarrow> u16 \<times> 'a umap_sys_scheme" where
  "unibus_mapping_read uaddr pv m = unibus_mapping_rw False uaddr pv m"

definition unibus_mapping_write :: "u32 \<Rightarrow> u16 \<Rightarrow> 'a umap_sys_scheme \<Rightarrow> 'a umap_sys_scheme" where
  "unibus_mapping_write uaddr v m = snd (unibus_mapping_rw True uaddr v m)"

lemma unibus_mapping_only:
  "snd (unibus_mapping_rw wr uaddr pv m) =
     m\<lparr>bif := bif (snd (unibus_mapping_rw wr uaddr pv m)),
       umap := umap (snd (unibus_mapping_rw wr uaddr pv m))\<rparr>"
  by (simp add: unibus_mapping_rw_def Let_def bif_error_defs)

definition umap_sel :: "u32 \<Rightarrow> bool" where
  "umap_sel uaddr \<longleftrightarrow> 0x3EC60 \<le> uaddr \<and> uaddr \<le> 0x3EC7E \<and> \<not> bit uaddr 0"

interpretation umap_regs: word_store "\<lambda>a. unat ((a - 0x3EC60) div 2)" "\<lambda>m. umap_sel"
  "\<lambda>a m. fst (unibus_mapping_read a 0 m)" unibus_mapping_write
  by unfold_locales
    (auto simp: unibus_mapping_read_def unibus_mapping_write_def unibus_mapping_rw_def umap_sel_def
      Let_def)

end
