(* ===== verification/Disk_Unit.thy ===== *)
theory Disk_Unit
  imports Unibus_Mapping
begin

text \<open>
  One disk unit (\<^verbatim>\<open>usim/disk-unit.c\<close>): geometry, condition bits, head position and the mapped disk
  pack.  The pack is an array of 32-bit words (\<open>du_mm\<close>), of which the code only ever copies blocks of
  256 words (1024 bytes) at multiples of the block size; \<open>du_mmsz\<close> is its size in bytes.  Opening and
  mapping the file is host I/O: \<open>disk_unit_init\<close> takes its outcome as an argument.
\<close>

unbundle bit_operations_syntax

section \<open>State\<close>

record disk_unit_type_s =
  dt_name :: string
  dt_short_name :: string
  dt_ncylinders :: u32
  dt_nheads :: u32
  dt_nblocks_per_track :: u32

record disk_unit_s =
  du_unit :: u32
  du_ncylinders :: u32
  du_nheads :: u32
  du_nblocks_per_track :: u32
  du_nblocks_per_cylinder :: u32
  du_configured :: bool
  du_online :: bool
  du_read_only :: bool
  du_seek_error :: bool
  du_has_fault :: bool
  du_attention :: bool
  du_last_memory_address :: u32
  du_mm :: "nat \<Rightarrow> u32"
  du_mmsz :: nat
  du_cylinder :: u32
  du_head :: u32
  du_sector :: u32
  du_lba :: u32

definition disk_unit_types :: "disk_unit_type_s list" where
  "disk_unit_types =
     [\<lparr>dt_name = ''Trident T-80'', dt_short_name = ''T-80'', dt_ncylinders = 815,
       dt_nheads = 5, dt_nblocks_per_track = 17\<rparr>,
      \<lparr>dt_name = ''Trident T-300'', dt_short_name = ''T-300'', dt_ncylinders = 815,
       dt_nheads = 19, dt_nblocks_per_track = 17\<rparr>]"

section \<open>Block transfers\<close>

definition disk_unit_read :: "disk_unit_s \<Rightarrow> page option" where
  "disk_unit_read p =
     (let offset = unat (du_lba p) * 1024
      in if offset \<ge> du_mmsz p then None else Some (copy_out (du_mm p) (offset div 4)))"

definition disk_unit_write :: "page \<Rightarrow> disk_unit_s \<Rightarrow> bool \<times> disk_unit_s" where
  "disk_unit_write buffer p =
     (let offset = unat (du_lba p) * 1024
      in if offset \<ge> du_mmsz p then (False, p)
         else (True, p\<lparr>du_mm := copy_in (du_mm p) (offset div 4) 256 buffer\<rparr>))"

section \<open>Positioning\<close>

definition disk_unit_seek :: "u32 \<Rightarrow> u32 \<Rightarrow> u32 \<Rightarrow> disk_unit_s \<Rightarrow> bool \<times> disk_unit_s" where
  "disk_unit_seek cylinder head sector p =
     (if cylinder = du_cylinder p \<and> head = du_head p \<and> sector = du_sector p then (True, p)
      else if cylinder \<ge> du_ncylinders p then (False, p\<lparr>du_seek_error := True\<rparr>)
      else if head \<ge> du_nheads p then (False, p\<lparr>du_seek_error := True\<rparr>)
      else if sector \<ge> du_nblocks_per_track p then (False, p\<lparr>du_seek_error := True\<rparr>)
      else (True, p\<lparr>du_cylinder := cylinder, du_head := head, du_sector := sector,
                    du_lba := cylinder * du_nblocks_per_cylinder p
                              + head * du_nblocks_per_track p + sector\<rparr>))"

definition disk_unit_seek_next_lba :: "disk_unit_s \<Rightarrow> bool \<times> disk_unit_s" where
  "disk_unit_seek_next_lba p =
     (let sector1 = du_sector p + 1;
          wrap_s = (sector1 = du_nblocks_per_track p);
          sector = (if wrap_s then 0 else sector1);
          head1 = (if wrap_s then du_head p + 1 else du_head p);
          wrap_h = (wrap_s \<and> head1 = du_nheads p);
          head = (if wrap_h then 0 else head1);
          cylinder = (if wrap_h then du_cylinder p + 1 else du_cylinder p)
      in disk_unit_seek cylinder head sector p)"

definition disk_unit_rotate :: "disk_unit_s \<Rightarrow> disk_unit_s" where
  "disk_unit_rotate p =
     p\<lparr>du_sector := (if du_sector p + 1 \<ge> du_nblocks_per_track p then 0 else du_sector p + 1)\<rparr>"

definition disk_unit_da :: "disk_unit_s \<Rightarrow> u32" where
  "disk_unit_da p =
     push_bit 28 (du_unit p) OR push_bit 16 (du_cylinder p) OR push_bit 8 (du_head p)
     OR du_sector p"

section \<open>Invariant of an online unit\<close>

definition du_blocks :: "disk_unit_s \<Rightarrow> nat" where
  "du_blocks p = unat (du_ncylinders p) * unat (du_nheads p) * unat (du_nblocks_per_track p)"

definition du_chs :: "disk_unit_s \<Rightarrow> nat" where
  "du_chs p =
     (unat (du_cylinder p) * unat (du_nheads p) + unat (du_head p)) *
       unat (du_nblocks_per_track p) + unat (du_sector p)"

text \<open>
  The geometry is one that fits the disk address register, the position is inside it, the block
  number agrees with the position, and the pack has exactly the blocks of the geometry.
\<close>

definition du_wf :: "disk_unit_s \<Rightarrow> bool" where
  "du_wf p \<longleftrightarrow>
     unat (du_ncylinders p) \<le> 4095 \<and> unat (du_nheads p) \<le> 255 \<and>
     unat (du_nblocks_per_track p) \<le> 255 \<and>
     du_nblocks_per_cylinder p = du_nheads p * du_nblocks_per_track p \<and>
     du_cylinder p < du_ncylinders p \<and> du_head p < du_nheads p \<and>
     du_sector p < du_nblocks_per_track p \<and>
     unat (du_lba p) = du_chs p \<and> du_mmsz p = du_blocks p * 1024"

lemma chs_bound:
  fixes c h s C H S :: nat
  assumes "c < C" "h < H" "s < S"
  shows "(c * H + h) * S + s < C * H * S"
proof -
  have "c * H + h < Suc c * H"
    using assms by simp
  also have "\<dots> \<le> C * H"
    using assms by (intro mult_le_mono1) simp
  finally have "Suc (c * H + h) * S \<le> C * H * S"
    by (intro mult_le_mono1) simp
  with assms show ?thesis by simp
qed

lemma du_lba_bound: "du_wf p \<Longrightarrow> unat (du_lba p) < du_blocks p"
  by (auto simp: du_wf_def du_chs_def du_blocks_def word_less_nat_alt intro: chs_bound)

text \<open>The largest pack has fewer than \<open>2 ^ 28\<close> blocks, so block numbers do not wrap.\<close>

lemma du_blocks_bound: "du_wf p \<Longrightarrow> du_blocks p \<le> 4095 * 255 * 255"
  unfolding du_wf_def du_blocks_def by (intro mult_le_mono) auto

lemma disk_unit_read_ok: "du_wf p \<Longrightarrow> disk_unit_read p \<noteq> None"
  using du_lba_bound [of p] by (simp add: disk_unit_read_def du_wf_def Let_def)

lemma disk_unit_write_ok: "du_wf p \<Longrightarrow> fst (disk_unit_write b p)"
  using du_lba_bound [of p] by (simp add: disk_unit_write_def du_wf_def Let_def)

lemma du_wf_write [wf_intros]: "du_wf p \<Longrightarrow> du_wf (snd (disk_unit_write b p))"
  by (simp add: disk_unit_write_def du_wf_def du_chs_def du_blocks_def Let_def)

text \<open>The contents of the pack, block by block.\<close>

definition du_block :: "disk_unit_s \<Rightarrow> nat \<Rightarrow> nat \<Rightarrow> u32" where
  "du_block p lba i = du_mm p (lba * 256 + i)"

lemma offset_words: "lba * 1024 div 4 = lba * (256 :: nat)"
  by simp

lemma disk_unit_read_block:
  "disk_unit_read p = Some b \<Longrightarrow> b = du_block p (unat (du_lba p))"
  by (auto simp: disk_unit_read_def du_block_def Let_def offset_words copy_out_def
      split: if_splits)

lemma disk_unit_write_block:
  assumes "du_wf p" and "i < 256"
  shows "du_block (snd (disk_unit_write b p)) lba i =
    (if lba = unat (du_lba p) then b i else du_block p lba i)"
proof -
  have "lba \<noteq> unat (du_lba p) \<Longrightarrow>
      lba * 256 + i < unat (du_lba p) * 256 \<or> unat (du_lba p) * 256 + 256 \<le> lba * 256 + i"
    using assms by linarith
  then show ?thesis
    using disk_unit_write_ok [OF assms(1)] assms(2)
    by (auto simp: disk_unit_write_def du_block_def Let_def offset_words copy_in_def
        split: if_splits)
qed

section \<open>Seeking\<close>

lemma lba_unat:
  assumes "unat C \<le> 4095" "unat H \<le> 255" "unat S \<le> 255"
    and "c < C" "h < H" "s < (S :: u32)"
  shows "unat (c * (H * S) + h * S + s) = (unat c * unat H + unat h) * unat S + unat s"
proof -
  have "(unat c * unat H + unat h) * unat S + unat s < unat C * unat H * unat S"
    using assms by (intro chs_bound) (simp_all add: word_less_nat_alt)
  also have "\<dots> \<le> 4095 * 255 * 255"
    using assms by (intro mult_le_mono) auto
  finally have b: "(unat c * unat H + unat h) * unat S + unat s < 2 ^ 32"
    by simp
  have "c * (H * S) + h * S + s = of_nat ((unat c * unat H + unat h) * unat S + unat s)"
    by (simp add: algebra_simps)
  then show ?thesis
    using b by (simp add: unsigned_of_nat take_bit_nat_eq_self del: of_nat_add of_nat_mult)
qed

lemma du_wf_seek [wf_intros]:
  "du_wf p \<Longrightarrow> du_wf (snd (disk_unit_seek c h s p))"
  by (auto simp: disk_unit_seek_def du_wf_def du_chs_def du_blocks_def lba_unat not_le)

lemma seek_ok_iff:
  "du_wf p \<Longrightarrow> fst (disk_unit_seek c h s p) \<longleftrightarrow>
     c < du_ncylinders p \<and> h < du_nheads p \<and> s < du_nblocks_per_track p"
  by (auto simp: disk_unit_seek_def du_wf_def)

lemma seek_position:
  assumes "du_wf p" and "disk_unit_seek c h s p = (True, p')"
  shows "du_cylinder p' = c" "du_head p' = h" "du_sector p' = s"
  using assms by (auto simp: disk_unit_seek_def split: if_splits)

text \<open>What a seek leaves alone.\<close>

lemma seek_frame:
  "snd (disk_unit_seek c h s p) =
     p\<lparr>du_seek_error := du_seek_error (snd (disk_unit_seek c h s p)),
       du_cylinder := du_cylinder (snd (disk_unit_seek c h s p)),
       du_head := du_head (snd (disk_unit_seek c h s p)),
       du_sector := du_sector (snd (disk_unit_seek c h s p)),
       du_lba := du_lba (snd (disk_unit_seek c h s p))\<rparr>"
  by (simp add: disk_unit_seek_def)

lemma du_wf_next [wf_intros]: "du_wf p \<Longrightarrow> du_wf (snd (disk_unit_seek_next_lba p))"
  by (simp add: disk_unit_seek_next_lba_def Let_def du_wf_seek)

lemma next_lba_blocks: "disk_unit_seek_next_lba p = (ok, p') \<Longrightarrow> du_blocks p' = du_blocks p"
  by (auto simp: disk_unit_seek_next_lba_def disk_unit_seek_def du_blocks_def Let_def
      split: if_splits)

lemma next_eq_iff:
  fixes x y :: u32
  assumes "x < y"
  shows "x + 1 = y \<longleftrightarrow> unat x + 1 = unat y" and "unat (x + 1) = unat x + 1"
proof -
  have "unat x + 1 < 2 ^ 32"
    using assms unsigned_less [of y, where 'a = nat] by (simp add: word_less_nat_alt)
  then show u: "unat (x + 1) = unat x + 1"
    by (simp add: unat_word_ariths)
  show "x + 1 = y \<longleftrightarrow> unat x + 1 = unat y"
    using u by (metis unsigned_word_eqI)
qed

lemma seek_in_range:
  assumes "c < du_ncylinders p" "h < du_nheads p" "s < du_nblocks_per_track p"
  shows "fst (disk_unit_seek c h s p)"
    and "du_chs (snd (disk_unit_seek c h s p)) =
      (unat c * unat (du_nheads p) + unat h) * unat (du_nblocks_per_track p) + unat s"
  using assms by (auto simp: disk_unit_seek_def du_chs_def)

lemma seek_off_end:
  assumes "du_cylinder p < du_ncylinders p" "c \<ge> du_ncylinders p"
  shows "disk_unit_seek c h s p = (False, p\<lparr>du_seek_error := True\<rparr>)"
  using assms by (auto simp: disk_unit_seek_def)

text \<open>
  Moving on to the next block: the block number goes up by one, and at the last block the unit
  reports a seek error and does not move.
\<close>

lemma next_lba_steps:
  assumes wf: "du_wf p"
  shows "if du_chs p + 1 < du_blocks p
    then fst (disk_unit_seek_next_lba p) \<and> du_chs (snd (disk_unit_seek_next_lba p)) = du_chs p + 1
    else disk_unit_seek_next_lba p = (False, p\<lparr>du_seek_error := True\<rparr>)"
proof -
  let ?C = "du_ncylinders p" and ?H = "du_nheads p" and ?S = "du_nblocks_per_track p"
  let ?c = "du_cylinder p" and ?h = "du_head p" and ?s = "du_sector p"
  have lt: "?c < ?C" "?h < ?H" "?s < ?S"
    using wf by (simp_all add: du_wf_def)
  then have pos: "0 < ?C" "0 < ?H" "0 < ?S"
    by (auto simp: word_gt_0_no intro: le_less_trans word_zero_le)
  have moved: "du_chs p + 1 < du_blocks p \<and> fst (disk_unit_seek c h s p) \<and>
      du_chs (snd (disk_unit_seek c h s p)) = du_chs p + 1"
    if "c < ?C" "h < ?H" "s < ?S"
      "(unat c * unat ?H + unat h) * unat ?S + unat s = du_chs p + 1" for c h s
    using seek_in_range [OF that(1-3)] that(4)
      chs_bound [of "unat c" "unat ?C" "unat h" "unat ?H" "unat s" "unat ?S"] that(1-3)
    by (simp add: du_blocks_def word_less_nat_alt)
  note suc = next_eq_iff [OF lt(1)] next_eq_iff [OF lt(2)] next_eq_iff [OF lt(3)]
  consider "?s + 1 \<noteq> ?S" | "?s + 1 = ?S" "?h + 1 \<noteq> ?H" |
    "?s + 1 = ?S" "?h + 1 = ?H" "?c + 1 \<noteq> ?C" | "?s + 1 = ?S" "?h + 1 = ?H" "?c + 1 = ?C"
    by blast
  then show ?thesis
  proof cases
    case 1
    then have "?s + 1 < ?S"
      using lt suc by (simp add: word_less_nat_alt)
    moreover have "(unat ?c * unat ?H + unat ?h) * unat ?S + unat (?s + 1) = du_chs p + 1"
      using suc by (simp add: du_chs_def)
    ultimately show ?thesis
      using moved [OF lt(1,2), of "?s + 1"] 1 by (simp add: disk_unit_seek_next_lba_def)
  next
    case 2
    then have "?h + 1 < ?H"
      using lt suc by (simp add: word_less_nat_alt)
    moreover have "unat ?S = Suc (unat ?s)"
      using suc 2 by simp
    then have "(unat ?c * unat ?H + unat (?h + 1)) * unat ?S + unat (0 :: u32) = du_chs p + 1"
      using suc by (simp add: du_chs_def algebra_simps)
    ultimately show ?thesis
      using moved [OF lt(1) _ pos(3), of "?h + 1"] 2 by (simp add: disk_unit_seek_next_lba_def)
  next
    case 3
    then have "?c + 1 < ?C"
      using lt suc by (simp add: word_less_nat_alt)
    moreover have "unat ?S = Suc (unat ?s)" "unat ?H = Suc (unat ?h)"
      using suc 3 by simp_all
    then have "(unat (?c + 1) * unat ?H + unat (0 :: u32)) * unat ?S + unat (0 :: u32) =
        du_chs p + 1"
      using suc by (simp add: du_chs_def algebra_simps)
    ultimately show ?thesis
      using moved [OF _ pos(2,3), of "?c + 1"] 3 by (simp add: disk_unit_seek_next_lba_def)
  next
    case 4
    then have "unat ?S = Suc (unat ?s)" "unat ?H = Suc (unat ?h)" "unat ?C = Suc (unat ?c)"
      using suc by simp_all
    then have "du_chs p + 1 = du_blocks p"
      by (simp add: du_chs_def du_blocks_def algebra_simps)
    then show ?thesis
      using 4 seek_off_end [OF lt(1), of "?c + 1"]
      by (simp add: disk_unit_seek_next_lba_def)
  qed
qed

end
