(* ===== verification/Idle.thy ===== *)
theory Idle
  imports Disk_Unit
begin

text \<open>
  Idle detection (\<^verbatim>\<open>usim/idle.c\<close>, the SDL3 build): the simulator sleeps when no device has been active
  for \<open>idle_cycles\<close> machine cycles.  \<open>pselect_fails n\<close> is the outcome of the \<open>n\<close>-th sleep (an error
  other than an interrupted call), which the host decides.
\<close>

unbundle bit_operations_syntax

record idle =
  machine_cycles :: u64
  idle_enabled :: bool
  idle_cycles :: u64
  idle_quantum :: u64
  is_idle :: bool
  last_work :: u64
  idle_count :: u64
  pselect_fails :: "u64 \<Rightarrow> bool"

record idle_sys = umap_sys +
  idl :: idle

definition idle_init :: "'a idle_sys_scheme \<Rightarrow> 'a idle_sys_scheme" where
  "idle_init m = m\<lparr>idl := (idl m)\<lparr>is_idle := False, last_work := 0, idle_count := 0\<rparr>\<rparr>"

definition idle_is_idle :: "'a idle_sys_scheme \<Rightarrow> bool" where
  "idle_is_idle m = is_idle (idl m)"

definition idle_activity :: "'a idle_sys_scheme \<Rightarrow> 'a idle_sys_scheme" where
  "idle_activity m = m\<lparr>idl := (idl m)\<lparr>last_work := machine_cycles (idl m)\<rparr>\<rparr>"

definition idle_check :: "u64 \<Rightarrow> 'a idle_sys_scheme \<Rightarrow> fault + 'a idle_sys_scheme" where
  "idle_check cycles m =
     (let i = idl m in
      if cycles - last_work i > idle_cycles i then
        if cycles AND idle_quantum i = 0 then
          let n = idle_count i + 1;
              m1 = m\<lparr>idl := i\<lparr>is_idle := True, idle_count := n\<rparr>\<rparr>
          in if pselect_fails i n then Inl (Errx ''idle/pselect error'') else Inr m1
        else Inr (m\<lparr>idl := i\<lparr>is_idle := True\<rparr>\<rparr>)
      else Inr (m\<lparr>idl := i\<lparr>is_idle := False\<rparr>\<rparr>))"

lemma idle_activity_only: "idle_activity m = m\<lparr>idl := idl (idle_activity m)\<rparr>"
  by (simp add: idle_activity_def)

lemma idle_check_only: "idle_check cycles m = Inr m' \<Longrightarrow> m' = m\<lparr>idl := idl m'\<rparr>"
  by (auto simp: idle_check_def Let_def split: if_splits)

text \<open>After an activity the simulator is not idle for the configured number of cycles.\<close>

lemma idle_after_activity:
  assumes "idle_check c (idle_activity m) = Inr m'"
    and "c - machine_cycles (idl m) \<le> idle_cycles (idl m)"
  shows "\<not> idle_is_idle m'"
  using assms by (auto simp: idle_check_def idle_activity_def idle_is_idle_def Let_def not_less
      split: if_splits)

end
