(* ===== verification/Disk_Controller.thy ===== *)
theory Disk_Controller
  imports Idle
begin

text \<open>
  The disk controller (\<^verbatim>\<open>usim/disk-controller.c\<close>, the build with blocking disk I/O): its registers, its
  status, the transfer engine that follows a command list in main memory, and the commands.

  \<open>perform_xfer\<close> loops until the command list ends or the unit cannot move on; it is modelled with
  fuel, and \<open>perform_xfer_returns\<close> shows that the number of blocks of the unit is enough.
\<close>

unbundle bit_operations_syntax

section \<open>State\<close>

record xfer_req_s =
  xr_ready :: bool
  xr_unit :: u32
  xr_read :: bool
  xr_compare :: bool
  xr_clp :: u32
  xr_cylinder :: u32
  xr_head :: u32
  xr_block :: u32

record status_s =
  read_compare_difference :: bool
  ccw_cycle :: bool
  nonexistent_memory_error :: bool
  interrupt_request :: bool
  not_active :: bool

record disk =
  dc_cmd :: u32
  dc_clp :: u32
  dc_da :: u32
  xfer_req :: xfer_req_s
  reset_condition :: bool
  dc_status :: status_s
  done_interrupt_enable :: bool
  attention_interrupt_enable :: bool
  disk_units :: "nat \<Rightarrow> disk_unit_s"

record disk_sys = idle_sys +
  dsk :: disk

definition selected_unit :: "disk \<Rightarrow> nat" where
  "selected_unit d = unat (drop_bit 28 (dc_da d) AND 7)"

definition upd_unit :: "nat \<Rightarrow> (disk_unit_s \<Rightarrow> disk_unit_s) \<Rightarrow> 'a disk_sys_scheme \<Rightarrow> 'a disk_sys_scheme"
  where
  "upd_unit u f m =
     m\<lparr>dsk := (dsk m)\<lparr>disk_units := (disk_units (dsk m))(u := f (disk_units (dsk m) u))\<rparr>\<rparr>"

definition upd_status :: "(status_s \<Rightarrow> status_s) \<Rightarrow> 'a disk_sys_scheme \<Rightarrow> 'a disk_sys_scheme" where
  "upd_status f m = m\<lparr>dsk := (dsk m)\<lparr>dc_status := f (dc_status (dsk m))\<rparr>\<rparr>"

abbreviation (input) unit_of :: "nat \<Rightarrow> 'a disk_sys_scheme \<Rightarrow> disk_unit_s" where
  "unit_of u m \<equiv> disk_units (dsk m) u"

section \<open>Status and interrupts\<close>

definition dc_assert_interrupt :: "'a disk_sys_scheme \<Rightarrow> 'a disk_sys_scheme" where
  "dc_assert_interrupt m = assert_xbus_interrupt (upd_status (interrupt_request_update (\<lambda>_. True)) m)"

definition dc_deassert_interrupt :: "'a disk_sys_scheme \<Rightarrow> 'a disk_sys_scheme" where
  "dc_deassert_interrupt m = deassert_xbus_interrupt m"

definition set_status_not_active :: "'a disk_sys_scheme \<Rightarrow> 'a disk_sys_scheme" where
  "set_status_not_active m =
     (let m1 = upd_status (not_active_update (\<lambda>_. True)) m
      in if done_interrupt_enable (dsk m1) then dc_assert_interrupt m1 else m1)"

definition set_status_active :: "'a disk_sys_scheme \<Rightarrow> 'a disk_sys_scheme" where
  "set_status_active m = upd_status (not_active_update (\<lambda>_. False)) m"

definition reset_status :: "'a disk_sys_scheme \<Rightarrow> 'a disk_sys_scheme" where
  "reset_status m =
     set_status_not_active (upd_status (\<lambda>s. s\<lparr>read_compare_difference := False, ccw_cycle := False,
       nonexistent_memory_error := False, interrupt_request := False\<rparr>) m)"

definition disk_reset :: "'a disk_sys_scheme \<Rightarrow> 'a disk_sys_scheme" where
  "disk_reset m =
     (let m1 = reset_status (m\<lparr>dsk := (dsk m)\<lparr>done_interrupt_enable := False,
                                             attention_interrupt_enable := False\<rparr>\<rparr>)
      in m1\<lparr>dsk := (dsk m1)\<lparr>dc_cmd := 0, dc_clp := 0, dc_da := 0\<rparr>\<rparr>)"

text \<open>The bits are ORed in one by one, as in the code: 22, 21, 20, 10, 9, 7, 6, 2, 3, 1 and 0.\<close>

definition flag_bit :: "bool \<Rightarrow> nat \<Rightarrow> 'w::len word" where
  "flag_bit b n = (if b then push_bit n 1 else 0)"

definition encode_status :: "'a disk_sys_scheme \<Rightarrow> u32" where
  "encode_status m =
     (let s = dc_status (dsk m); p = disk_units (dsk m) (selected_unit (dsk m)) in
      flag_bit (read_compare_difference s) 22 OR
      flag_bit (ccw_cycle s) 21 OR
      flag_bit (nonexistent_memory_error s) 20 OR
      flag_bit (du_seek_error p) 10 OR
      flag_bit (\<not> du_online p) 9 OR
      flag_bit (du_read_only p) 7 OR
      flag_bit (du_has_fault p) 6 OR
      flag_bit (du_attention p) 2 OR
      flag_bit (interrupt_request s) 3 OR
      flag_bit (list_ex (\<lambda>i. du_attention (disk_units (dsk m) i)) [0..<8]) 1 OR
      flag_bit (not_active s) 0)"

definition decode_da :: "u32 \<Rightarrow> u32 \<times> u32 \<times> u32 \<times> u32" where
  "decode_da da =
     (drop_bit 28 da AND 7, drop_bit 16 da AND 0xFFF, drop_bit 8 da AND 0xFF, da AND 0xFF)"

section \<open>Transfers\<close>

text \<open>
  The body of the loop of \<open>perform_xfer\<close> up to the test for the last command: fetch the command word
  at \<open>current_clp\<close> and move one block.  The results are the success of the block and the command
  word (0 when it could not be fetched).
\<close>

definition xfer_ma :: "nat \<Rightarrow> u32 \<Rightarrow> 'a disk_sys_scheme \<Rightarrow> 'a disk_sys_scheme" where
  "xfer_ma u a m = upd_unit u (du_last_memory_address_update (\<lambda>_. a)) m"

definition xfer_nxm :: "'a disk_sys_scheme \<Rightarrow> 'a disk_sys_scheme" where
  "xfer_nxm m = upd_status (nonexistent_memory_error_update (\<lambda>_. True)) m"

definition xfer_fault :: "nat \<Rightarrow> 'a disk_sys_scheme \<Rightarrow> 'a disk_sys_scheme" where
  "xfer_fault u m = upd_unit u (du_has_fault_update (\<lambda>_. True)) m"

definition page_differs :: "page \<Rightarrow> page \<Rightarrow> bool" where
  "page_differs b b' = list_ex (\<lambda>i. b i \<noteq> b' i) [0..<256]"

definition xfer_disk_to_memory ::
    "nat \<Rightarrow> bool \<Rightarrow> u32 \<Rightarrow> 'a disk_sys_scheme \<Rightarrow> bool \<times> 'a disk_sys_scheme" where
  "xfer_disk_to_memory u compare paddr m =
     (case disk_unit_read (unit_of u m) of
        None \<Rightarrow> (False, xfer_fault u m)
      | Some buffer \<Rightarrow>
          let m1 = xfer_ma u paddr m in
          if compare then
            (case main_memory_read_page paddr m1 of
               None \<Rightarrow> (False, xfer_nxm m1)
             | Some buffer_compare \<Rightarrow>
                 let m2 = xfer_ma u (paddr + 255) m1
                 in (True, if page_differs buffer buffer_compare
                           then upd_status (read_compare_difference_update (\<lambda>_. True)) m2 else m2))
          else
            (let (ok, m2) = main_memory_write_page paddr buffer m1
             in if ok then (True, xfer_ma u (paddr + 255) m2) else (False, xfer_nxm m2)))"

definition xfer_memory_to_disk ::
    "nat \<Rightarrow> u32 \<Rightarrow> 'a disk_sys_scheme \<Rightarrow> bool \<times> 'a disk_sys_scheme" where
  "xfer_memory_to_disk u paddr m =
     (let m1 = xfer_ma u paddr m in
      case main_memory_read_page paddr m1 of
        None \<Rightarrow> (False, xfer_nxm m1)
      | Some buffer \<Rightarrow>
          let m2 = xfer_ma u (paddr + 255) m1;
              (ok, p) = disk_unit_write buffer (unit_of u m2)
          in if ok then (True, upd_unit u (\<lambda>_. p) m2) else (False, xfer_fault u m2))"

definition xfer_block ::
    "nat \<Rightarrow> bool \<Rightarrow> bool \<Rightarrow> u32 \<Rightarrow> 'a disk_sys_scheme \<Rightarrow> bool \<times> u32 \<times> 'a disk_sys_scheme" where
  "xfer_block u read compare current_clp m =
     (let m1 = upd_status (ccw_cycle_update (\<lambda>_. True)) (xfer_ma u current_clp m);
          (ok, ccw) = main_memory_read current_clp m1
      in if \<not> ok then (False, 0, xfer_nxm m1)
         else
           let m2 = upd_status (ccw_cycle_update (\<lambda>_. False)) m1;
               paddr = ccw AND 0x00FFFF00;
               (ok', m3) = (if read then xfer_disk_to_memory u compare paddr m2
                            else xfer_memory_to_disk u paddr m2)
           in (ok', ccw, m3))"

fun perform_xfer_loop ::
    "nat \<Rightarrow> nat \<Rightarrow> bool \<Rightarrow> bool \<Rightarrow> u32 \<Rightarrow> u16 \<Rightarrow> 'a disk_sys_scheme \<Rightarrow>
     fault + bool \<times> 'a disk_sys_scheme" where
  "perform_xfer_loop 0 u read compare clp clp_offset m = Inl (No_return ''perform_xfer'')"
| "perform_xfer_loop (Suc fuel) u read compare clp clp_offset m =
     (let (ok, ccw, m1) = xfer_block u read compare (clp + ucast clp_offset) m in
      if \<not> ok then Inr (False, m1)
      else if ccw AND 1 = 0 then Inr (True, m1)
      else
        let (moved, p) = disk_unit_seek_next_lba (unit_of u m1);
            m2 = upd_unit u (\<lambda>_. p) m1
        in if \<not> moved then Inr (False, m2)
           else perform_xfer_loop fuel u read compare clp (clp_offset + 1) m2)"

definition perform_xfer ::
    "nat \<Rightarrow> bool \<Rightarrow> bool \<Rightarrow> u32 \<Rightarrow> 'a disk_sys_scheme \<Rightarrow> fault + bool \<times> 'a disk_sys_scheme" where
  "perform_xfer u read compare clp m =
     perform_xfer_loop (du_blocks (unit_of u m)) u read compare clp 0
       (upd_status (\<lambda>s. s\<lparr>read_compare_difference := False, ccw_cycle := False,
          nonexistent_memory_error := False\<rparr>) m)"

definition do_xfer :: "'a disk_sys_scheme \<Rightarrow> fault + 'a disk_sys_scheme" where
  "do_xfer m =
     (let r = xfer_req (dsk m); u = unat (xr_unit r) in
      if \<not> xr_ready r then Inr m
      else
        let (ok, p) = disk_unit_seek (xr_cylinder r) (xr_head r) (xr_block r) (unit_of u m);
            m1 = upd_unit u (\<lambda>_. p) m
        in and_then
          (if ok
           then and_then (perform_xfer u (xr_read r) (xr_compare r) (xr_clp r) m1)
                  (\<lambda>(_, m2). Inr (m2\<lparr>dsk := (dsk m2)\<lparr>dc_da := disk_unit_da (unit_of u m2)\<rparr>\<rparr>))
           else Inr m1)
          (\<lambda>m3. Inr (set_status_not_active
             (m3\<lparr>dsk := (dsk m3)\<lparr>xfer_req := (xfer_req (dsk m3))\<lparr>xr_ready := False\<rparr>\<rparr>\<rparr>))))"

definition submit_xfer :: "bool \<Rightarrow> bool \<Rightarrow> 'a disk_sys_scheme \<Rightarrow> fault + 'a disk_sys_scheme" where
  "submit_xfer read compare m =
     (let m1 = set_status_active m;
          (u, cylinder, head, block) = decode_da (dc_da (dsk m1))
      in do_xfer (m1\<lparr>dsk := (dsk m1)\<lparr>xfer_req :=
           \<lparr>xr_ready = True, xr_unit = u, xr_read = read, xr_compare = compare,
            xr_clp = dc_clp (dsk m1), xr_cylinder = cylinder, xr_head = head,
            xr_block = block\<rparr>\<rparr>\<rparr>))"

section \<open>Commands\<close>

definition disk_controller_get_attention :: "'a disk_sys_scheme \<Rightarrow> 'a disk_sys_scheme" where
  "disk_controller_get_attention m =
     (if not_active (dc_status (dsk m)) \<and> attention_interrupt_enable (dsk m)
      then dc_assert_interrupt m else m)"

definition disk_unit_raise_attention :: "nat \<Rightarrow> 'a disk_sys_scheme \<Rightarrow> 'a disk_sys_scheme" where
  "disk_unit_raise_attention u m =
     disk_controller_get_attention (upd_unit u (du_attention_update (\<lambda>_. True)) m)"

definition start_read :: "'a disk_sys_scheme \<Rightarrow> fault + 'a disk_sys_scheme" where
  "start_read m = submit_xfer True False m"

definition start_read_compare :: "'a disk_sys_scheme \<Rightarrow> fault + 'a disk_sys_scheme" where
  "start_read_compare m = submit_xfer True True m"

definition start_write :: "'a disk_sys_scheme \<Rightarrow> fault + 'a disk_sys_scheme" where
  "start_write m =
     (let u = selected_unit (dsk m) in
      if du_read_only (unit_of u m) then Inr (upd_unit u (du_has_fault_update (\<lambda>_. True)) m)
      else submit_xfer False False m)"

definition start_seek :: "'a disk_sys_scheme \<Rightarrow> 'a disk_sys_scheme" where
  "start_seek m =
     (let m1 = set_status_active m;
          (u, cylinder, head, block) = decode_da (dc_da (dsk m1));
          m2 = upd_unit (unat u) (\<lambda>p. snd (disk_unit_seek cylinder head block p)) m1
      in set_status_not_active (disk_unit_raise_attention (unat u) m2))"

definition start_recalibrate :: "'a disk_sys_scheme \<Rightarrow> 'a disk_sys_scheme" where
  "start_recalibrate m =
     (let m1 = set_status_active m;
          u = selected_unit (dsk m1);
          m2 = upd_unit u (\<lambda>p. (snd (disk_unit_seek 0 0 0 p))
                 \<lparr>du_has_fault := False, du_seek_error := False\<rparr>) m1
      in set_status_not_active (disk_unit_raise_attention u m2))"

definition start_fault_clear :: "'a disk_sys_scheme \<Rightarrow> 'a disk_sys_scheme" where
  "start_fault_clear m =
     (let m1 = set_status_active m
      in set_status_not_active
           (upd_unit (selected_unit (dsk m1)) (du_has_fault_update (\<lambda>_. False)) m1))"

definition start_at_ease :: "'a disk_sys_scheme \<Rightarrow> 'a disk_sys_scheme" where
  "start_at_ease m =
     (let m1 = set_status_active m
      in set_status_not_active
           (upd_unit (selected_unit (dsk m1)) (du_attention_update (\<lambda>_. False)) m1))"

definition start_offset_clear :: "'a disk_sys_scheme \<Rightarrow> 'a disk_sys_scheme" where
  "start_offset_clear m = set_status_not_active (set_status_active m)"

text \<open>The command field \<open>cmd & 017\<close>; \<open>01000\<close> and \<open>00400\<close> are the recalibrate and fault clear bits.\<close>

definition disk_start :: "'a disk_sys_scheme \<Rightarrow> fault + 'a disk_sys_scheme" where
  "disk_start m0 =
     (let m = idle_activity m0;
          p = unit_of (selected_unit (dsk m)) m;
          cmd = dc_cmd (dsk m); c = cmd AND 0xF
      in if \<not> du_online p then Inr m
         else if c = 0x0 then start_read m
         else if c = 0x8 then start_read_compare m
         else if c = 0x9 then start_write m
         else if c = 0x2 then Inl (Errx ''read all not implemented'')
         else if c = 0xB then Inl (Errx ''write all not implemented'')
         else if c = 0x4 then Inr (start_seek m)
         else if c = 0x5 then
           (let m1 = start_at_ease m;
                m2 = (if cmd AND 0x200 \<noteq> 0 then start_recalibrate m1 else m1)
            in Inr (if cmd AND 0x100 \<noteq> 0 then start_fault_clear m2 else m2))
         else if c = 0x6 then Inr (start_offset_clear m)
         else Inl (Errx ''disk-controller: start, cmd unknown''))"

section \<open>The Xbus interface\<close>

definition disk_controller_init :: "'a disk_sys_scheme \<Rightarrow> 'a disk_sys_scheme" where
  "disk_controller_init m = disk_reset m"

definition disk_controller_read :: "u32 \<Rightarrow> u32 \<Rightarrow> 'a disk_sys_scheme \<Rightarrow> fault + u32" where
  "disk_controller_read offset pv m =
     (let d = dsk m in
      if reset_condition d then Inr 0
      else if offset = 0 then Inr (encode_status m)
      else if offset = 1 then Inr (du_last_memory_address (disk_units d (selected_unit d)))
      else if offset = 2 then Inr (dc_da d)
      else if offset = 3 then Inr 0
      else Inl (Errx ''disk-controller: unknown read''))"

definition disk_controller_write ::
    "u32 \<Rightarrow> u32 \<Rightarrow> 'a disk_sys_scheme \<Rightarrow> fault + 'a disk_sys_scheme" where
  "disk_controller_write offset v m =
     (let d = dsk m in
      if offset = 0 then
        if v = 0 then Inr (m\<lparr>dsk := d\<lparr>dc_cmd := 0, reset_condition := False\<rparr>\<rparr>)
        else if v = 0xE then
          (let m1 = disk_reset m in Inr (m1\<lparr>dsk := (dsk m1)\<lparr>reset_condition := True\<rparr>\<rparr>))
        else if reset_condition d then Inr m
        else
          let die = (v AND 0x800 \<noteq> 0); aie = (v AND 0x400 \<noteq> 0);
              m1 = m\<lparr>dsk := d\<lparr>dc_cmd := v, done_interrupt_enable := die,
                              attention_interrupt_enable := aie\<rparr>\<rparr>
          in Inr (if \<not> die \<and> \<not> aie then dc_deassert_interrupt m1 else m1)
      else if offset = 1 then
        Inr (if reset_condition d then m else m\<lparr>dsk := d\<lparr>dc_clp := v\<rparr>\<rparr>)
      else if offset = 2 then
        Inr (if reset_condition d then m else m\<lparr>dsk := d\<lparr>dc_da := v\<rparr>\<rparr>)
      else if offset = 3 then
        (if reset_condition d then Inr m else disk_start m)
      else Inl (Errx ''disk-controller: unknown write''))"

section \<open>Frames\<close>

text \<open>
  The controller writes the interrupt registers, main memory, the idle clock and its own slot.
  Being a relation that is reflexive and transitive, the frame follows the sequencing of the code.
\<close>

definition disk_only :: "'a disk_sys_scheme \<Rightarrow> 'a disk_sys_scheme \<Rightarrow> bool" where
  "disk_only m m' \<longleftrightarrow>
     m' = m\<lparr>intr := intr m', mem := mem m', idl := idl m', dsk := dsk m'\<rparr>"

lemma disk_only_refl [simp, intro!]: "disk_only m m"
  by (simp add: disk_only_def)

lemma disk_only_trans: "disk_only m m1 \<Longrightarrow> disk_only m1 m2 \<Longrightarrow> disk_only m m2"
  unfolding disk_only_def by (rule trans, assumption) (erule ssubst, simp)

lemmas dc_status_defs = upd_unit_def upd_status_def dc_assert_interrupt_def dc_deassert_interrupt_def
  set_status_not_active_def set_status_active_def reset_status_def disk_reset_def Let_def intr_defs

lemmas xfer_defs = xfer_ma_def xfer_nxm_def xfer_fault_def upd_unit_def upd_status_def Let_def

lemma disk_only_status [simp]:
  "disk_only m (upd_unit u f m)" "disk_only m (upd_status g m)"
  "disk_only m (set_status_not_active m)" "disk_only m (set_status_active m)"
  "disk_only m (disk_reset m)" "disk_only m (dc_deassert_interrupt m)"
  "disk_only m (dc_assert_interrupt m)"
  by (simp_all add: disk_only_def dc_status_defs)

lemma disk_only_units [simp]:
  "disk_units (dsk (set_status_not_active m)) = disk_units (dsk m)"
  "disk_units (dsk (set_status_active m)) = disk_units (dsk m)"
  "disk_units (dsk (disk_reset m)) = disk_units (dsk m)"
  "disk_units (dsk (dc_deassert_interrupt m)) = disk_units (dsk m)"
  "disk_units (dsk (dc_assert_interrupt m)) = disk_units (dsk m)"
  "disk_units (dsk (upd_status g m)) = disk_units (dsk m)"
  "disk_units (dsk (upd_unit u f m)) = (disk_units (dsk m))(u := f (disk_units (dsk m) u))"
  by (simp_all add: dc_status_defs)

lemma status_mem [simp]:
  "mem (set_status_not_active m) = mem m" "mem (set_status_active m) = mem m"
  "mem (upd_status g m) = mem m" "mem (upd_unit u f m) = mem m"
  "intr (upd_status g m) = intr m" "intr (upd_unit u f m) = intr m"
  by (simp_all add: dc_status_defs)

text \<open>Memory is only looked at through its slot.\<close>

lemma mem_read_cong:
  "mem m' = mem m \<Longrightarrow> main_memory_read a m' = main_memory_read a m"
  "mem m' = mem m \<Longrightarrow> main_memory_read_page a m' = main_memory_read_page a m"
  by (simp_all add: mem_defs Let_def)

section \<open>One block\<close>

text \<open>
  The unit of the transfer changes in its memory address, fault bit and contents only; a transfer
  from memory leaves memory alone, and one to memory leaves the contents of the unit alone.
\<close>

lemma xfer_parts_frame:
  "disk_only m (snd (xfer_disk_to_memory u compare paddr m))"
  "disk_only m (snd (xfer_memory_to_disk u paddr m))"
  by (auto simp: disk_only_def xfer_disk_to_memory_def xfer_memory_to_disk_def xfer_defs
      main_memory_write_page_def case_prod_beta split: option.splits)

definition unit_kept :: "disk_unit_s \<Rightarrow> disk_unit_s \<Rightarrow> bool" where
  "unit_kept p p' \<longleftrightarrow>
     p' = p\<lparr>du_last_memory_address := du_last_memory_address p',
            du_has_fault := du_has_fault p', du_mm := du_mm p'\<rparr>"

lemma disk_unit_write_kept: "unit_kept p (snd (disk_unit_write b p))"
  by (simp add: unit_kept_def disk_unit_write_def Let_def)

lemma unit_kept_wf:
  assumes "unit_kept p p'"
  shows "du_wf p' = du_wf p" "du_chs p' = du_chs p" "du_blocks p' = du_blocks p"
    "du_online p' = du_online p" "du_read_only p' = du_read_only p" "du_unit p' = du_unit p"
    "du_lba p' = du_lba p"
  by (subst assms [unfolded unit_kept_def], simp add: du_wf_def du_chs_def du_blocks_def)+

lemma xfer_parts_unit:
  "unit_kept (disk_units (dsk m) u) (disk_units (dsk (snd (xfer_disk_to_memory u cmp paddr m))) u)"
  "unit_kept (disk_units (dsk m) u) (disk_units (dsk (snd (xfer_memory_to_disk u paddr m))) u)"
  "v \<noteq> u \<Longrightarrow> disk_units (dsk (snd (xfer_disk_to_memory u cmp paddr m))) v = disk_units (dsk m) v"
  "v \<noteq> u \<Longrightarrow> disk_units (dsk (snd (xfer_memory_to_disk u paddr m))) v = disk_units (dsk m) v"
  by (auto simp: unit_kept_def xfer_disk_to_memory_def xfer_memory_to_disk_def xfer_defs
      disk_unit_write_def main_memory_write_page_def case_prod_beta split: option.splits)

lemma disk_only_after [intro]:
  "disk_only m m1 \<Longrightarrow> disk_only m (upd_unit u f m1)"
  "disk_only m m1 \<Longrightarrow> disk_only m (upd_status g m1)"
  "disk_only m m1 \<Longrightarrow> disk_only m (set_status_not_active m1)"
  "disk_only m m1 \<Longrightarrow> disk_only m (set_status_active m1)"
  "disk_only m m1 \<Longrightarrow> disk_only m (disk_reset m1)"
  "disk_only m m1 \<Longrightarrow> disk_only m (dc_assert_interrupt m1)"
  "disk_only m m1 \<Longrightarrow> disk_only m (dc_deassert_interrupt m1)"
  "disk_only m m1 \<Longrightarrow> disk_only m (snd (xfer_disk_to_memory u compare paddr m1))"
  "disk_only m m1 \<Longrightarrow> disk_only m (snd (xfer_memory_to_disk u paddr m1))"
  by (erule disk_only_trans; simp add: xfer_parts_frame)+

lemma disk_only_dsk [intro]: "disk_only m m1 \<Longrightarrow> disk_only m (m1\<lparr>dsk := d\<rparr>)"
  by (erule disk_only_trans) (simp add: disk_only_def)

lemma xfer_block_frame [intro]:
  "disk_only m m1 \<Longrightarrow> disk_only m (snd (snd (xfer_block u read compare a m1)))"
  by (auto simp: xfer_block_def xfer_ma_def xfer_nxm_def Let_def case_prod_beta)

lemma unit_kept_refl [simp]: "unit_kept p p"
  by (simp add: unit_kept_def)

lemma unit_kept_trans: "unit_kept p p' \<Longrightarrow> unit_kept p' p'' \<Longrightarrow> unit_kept p p''"
  unfolding unit_kept_def by (rule trans, assumption) (erule ssubst, simp)

lemma unit_kept_ma [simp]: "unit_kept p (p\<lparr>du_last_memory_address := a\<rparr>)"
  by (simp add: unit_kept_def)

lemma xfer_block_unit:
  "unit_kept (unit_of u m) (unit_of u (snd (snd (xfer_block u read compare a m))))"
  "v \<noteq> u \<Longrightarrow> unit_of v (snd (snd (xfer_block u read compare a m))) = unit_of v m"
  by (auto simp: xfer_block_def xfer_ma_def xfer_nxm_def Let_def case_prod_beta
      xfer_parts_unit intro: unit_kept_trans [OF unit_kept_ma]
      unit_kept_trans [OF _ xfer_parts_unit(1)] unit_kept_trans [OF _ xfer_parts_unit(2)])

section \<open>The transfer ends\<close>

text \<open>Every command but the last moves the heads on, so the blocks left on the unit bound the loop.\<close>

lemma xfer_loop_returns:
  assumes "du_wf (unit_of u m)" and "du_blocks (unit_of u m) \<le> fuel + du_chs (unit_of u m)"
  shows "\<exists>r. perform_xfer_loop fuel u read compare clp off m = Inr r"
  using assms
proof (induction fuel arbitrary: off m)
  case 0
  then show ?case
    using du_lba_bound [of "unit_of u m"] by (simp add: du_wf_def)
next
  case (Suc fuel)
  obtain ok ccw m1 where x: "xfer_block u read compare (clp + ucast off) m = (ok, ccw, m1)"
    by (metis prod_cases3)
  have k: "unit_kept (unit_of u m) (unit_of u m1)"
    using xfer_block_unit(1) [of m u read compare "clp + ucast off"] x by simp
  obtain moved p where n: "disk_unit_seek_next_lba (unit_of u m1) = (moved, p)"
    by (metis surj_pair)
  have "du_wf (unit_of u m1)"
    using k Suc.prems by (simp add: unit_kept_wf)
  then have "du_wf p" and "moved \<Longrightarrow> du_chs p = du_chs (unit_of u m) + 1"
    using next_lba_steps [of "unit_of u m1"] du_wf_next [of "unit_of u m1"] k
    by (auto simp: n unit_kept_wf split: if_splits)
  moreover have "du_blocks p = du_blocks (unit_of u m)"
    using next_lba_blocks [OF n] k by (simp add: unit_kept_wf)
  ultimately show ?case
    using Suc.IH [of "upd_unit u (\<lambda>_. p) m1"] Suc.prems by (auto simp: x n Let_def)
qed

section \<open>The invariant of the controller\<close>

text \<open>Every online unit is well formed; the transfer request names one of the eight units.\<close>

definition disk_wf :: "disk \<Rightarrow> bool" where
  "disk_wf d \<longleftrightarrow> (\<forall>u < 8. du_online (disk_units d u) \<longrightarrow> du_wf (disk_units d u))"

definition unit_ok :: "disk_unit_s \<Rightarrow> bool" where
  "unit_ok p \<longleftrightarrow> (du_online p \<longrightarrow> du_wf p)"

lemma disk_wf_ok: "disk_wf d \<longleftrightarrow> (\<forall>u < 8. unit_ok (disk_units d u))"
  by (simp add: disk_wf_def unit_ok_def)

lemma unit_ok_kept: "unit_kept p p' \<Longrightarrow> unit_ok p' = unit_ok p"
  by (simp add: unit_ok_def unit_kept_wf)

lemma du_online_seek [simp]:
  "du_online (snd (disk_unit_seek c h s p)) = du_online p"
  "du_online (snd (disk_unit_seek_next_lba p)) = du_online p"
  by (simp_all add: disk_unit_seek_next_lba_def disk_unit_seek_def Let_def)

lemma unit_ok_seek [simp]:
  "unit_ok p \<Longrightarrow> unit_ok (snd (disk_unit_seek c h s p))"
  "unit_ok p \<Longrightarrow> unit_ok (snd (disk_unit_seek_next_lba p))"
  by (simp_all add: unit_ok_def du_wf_seek du_wf_next)

lemma du_wf_flags [simp]:
  "du_wf (p\<lparr>du_has_fault := x\<rparr>) = du_wf p" "du_wf (p\<lparr>du_seek_error := x\<rparr>) = du_wf p"
  "du_wf (p\<lparr>du_attention := x\<rparr>) = du_wf p" "du_wf (p\<lparr>du_last_memory_address := a\<rparr>) = du_wf p"
  by (simp_all add: du_wf_def du_chs_def du_blocks_def)

lemma unit_ok_flags [simp]:
  "unit_ok (p\<lparr>du_has_fault := x\<rparr>) = unit_ok p" "unit_ok (p\<lparr>du_seek_error := x\<rparr>) = unit_ok p"
  "unit_ok (p\<lparr>du_attention := x\<rparr>) = unit_ok p"
  "unit_ok (p\<lparr>du_last_memory_address := a\<rparr>) = unit_ok p"
  by (simp_all add: unit_ok_def)

lemma disk_wf_upd_unit [simp]:
  "disk_wf (dsk m) \<Longrightarrow> (unit_ok (unit_of u m) \<longrightarrow> unit_ok (f (unit_of u m))) \<Longrightarrow>
    disk_wf (dsk (upd_unit u f m))"
  by (simp add: disk_wf_ok)

lemma disk_wf_same_units: "disk_units d' = disk_units d \<Longrightarrow> disk_wf d' = disk_wf d"
  by (simp add: disk_wf_def)

lemma disk_wf_status [simp]:
  "disk_wf (dsk (upd_status g m)) = disk_wf (dsk m)"
  "disk_wf (dsk (set_status_not_active m)) = disk_wf (dsk m)"
  "disk_wf (dsk (set_status_active m)) = disk_wf (dsk m)"
  "disk_wf (dsk (disk_reset m)) = disk_wf (dsk m)"
  "disk_wf (dsk (dc_assert_interrupt m)) = disk_wf (dsk m)"
  "disk_wf (dsk (dc_deassert_interrupt m)) = disk_wf (dsk m)"
  by (rule disk_wf_same_units; simp)+

lemma disk_wf_block:
  assumes "disk_wf (dsk m)"
  shows "disk_wf (dsk (snd (snd (xfer_block u read compare a m))))"
  unfolding disk_wf_ok
proof (intro allI impI)
  fix v :: nat
  assume "v < 8"
  with assms have "unit_ok (unit_of v m)"
    by (simp add: disk_wf_ok)
  then show "unit_ok (unit_of v (snd (snd (xfer_block u read compare a m))))"
    using unit_ok_kept [OF xfer_block_unit(1) [of m u read compare a]]
    by (cases "v = u") (simp_all add: xfer_block_unit(2))
qed

text \<open>What holds of the state after a block and is kept by a seek holds after the transfer.\<close>

lemma xfer_loop_inv:
  assumes block: "\<And>m a. P m \<Longrightarrow> P (snd (snd (xfer_block u read compare a m)))"
    and next_block: "\<And>m. P m \<Longrightarrow> P (upd_unit u (\<lambda>p. snd (disk_unit_seek_next_lba p)) m)"
  shows "P m \<Longrightarrow> perform_xfer_loop fuel u read compare clp off m = Inr (ok, m') \<Longrightarrow> P m'"
proof (induction fuel arbitrary: off m)
  case 0
  then show ?case by simp
next
  case (Suc fuel)
  obtain b ccw m1 where x: "xfer_block u read compare (clp + ucast off) m = (b, ccw, m1)"
    by (metis prod_cases3)
  let ?n = "disk_unit_seek_next_lba (unit_of u m1)"
  have m1: "P m1"
    using block [OF Suc.prems(1), of "clp + ucast off"] x by simp
  then have m2: "P (upd_unit u (\<lambda>_. snd ?n) m1)"
    using next_block [of m1] by (simp add: upd_unit_def)
  then show ?case
    using Suc.prems(2) m1 Suc.IH [OF m2] by (auto simp: x case_prod_beta Let_def split: if_splits)
qed

definition disk_inv :: "'a disk_sys_scheme \<Rightarrow> bool" where
  "disk_inv m \<longleftrightarrow> intr_wf (intr m) \<and> mem_wf (mem m) \<and> disk_wf (dsk m)"

lemma disk_inv_mem: "disk_only m m' \<Longrightarrow> intr m' = intr m \<Longrightarrow> mem_wf (mem m') = mem_wf (mem m) \<Longrightarrow>
    disk_wf (dsk m') = disk_wf (dsk m) \<Longrightarrow> disk_inv m' = disk_inv m"
  by (simp add: disk_inv_def)

lemma disk_inv_status [simp]:
  "disk_inv m \<Longrightarrow> disk_inv (upd_status g m)"
  "disk_inv m \<Longrightarrow> disk_inv (set_status_not_active m)"
  "disk_inv m \<Longrightarrow> disk_inv (set_status_active m)"
  "disk_inv m \<Longrightarrow> disk_inv (disk_reset m)"
  "disk_inv m \<Longrightarrow> disk_inv (dc_assert_interrupt m)"
  "disk_inv m \<Longrightarrow> disk_inv (dc_deassert_interrupt m)"
  by (auto simp: disk_inv_def disk_wf_def dc_status_defs intr_wf_def)

lemma disk_inv_upd_unit [simp]:
  "disk_inv m \<Longrightarrow> (unit_ok (unit_of u m) \<longrightarrow> unit_ok (f (unit_of u m))) \<Longrightarrow>
    disk_inv (upd_unit u f m)"
  by (auto simp: disk_inv_def intro: disk_wf_upd_unit)

lemma disk_inv_dsk [simp]:
  "disk_units d = disk_units (dsk m) \<Longrightarrow> disk_inv (m\<lparr>dsk := d\<rparr>) = disk_inv m"
  by (simp add: disk_inv_def disk_wf_def)

lemma disk_inv_idl [simp]: "disk_inv (m\<lparr>idl := i\<rparr>) = disk_inv m"
  by (simp add: disk_inv_def)

lemma disk_inv_write_page [simp]:
  "disk_inv m \<Longrightarrow> disk_inv (snd (main_memory_write_page a b m))"
  by (auto simp: disk_inv_def mem_wf_write) (auto simp: main_memory_write_page_def Let_def)

lemma disk_inv_block [simp]:
  assumes "disk_inv m"
  shows "disk_inv (snd (snd (xfer_block u read compare a m)))"
proof -
  have parts: "disk_inv m \<Longrightarrow> disk_inv (snd (xfer_disk_to_memory u compare paddr m))"
    "disk_inv m \<Longrightarrow> disk_inv (snd (xfer_memory_to_disk u paddr m))" for m :: "'a disk_sys_scheme" and paddr
    using unit_ok_kept [OF disk_unit_write_kept]
    by (auto simp: xfer_disk_to_memory_def xfer_memory_to_disk_def xfer_ma_def xfer_nxm_def
        xfer_fault_def Let_def case_prod_beta split: option.splits)
  show ?thesis
    using assms
    by (auto simp: xfer_block_def xfer_ma_def xfer_nxm_def Let_def case_prod_beta intro!: parts)
qed

lemma perform_xfer_inv:
  assumes "perform_xfer u read compare clp m = Inr (ok, m')"
  shows "disk_only m m'" "disk_inv m \<Longrightarrow> disk_inv m'"
proof -
  note run = assms [unfolded perform_xfer_def]
  show "disk_only m m'"
    by (rule xfer_loop_inv [where P = "disk_only m", OF _ _ _ run]) auto
  show "disk_inv m \<Longrightarrow> disk_inv m'"
    by (rule xfer_loop_inv [where P = disk_inv, OF _ _ _ run]) auto
qed

section \<open>The commands\<close>

lemma do_xfer_inv:
  assumes "do_xfer m = Inr m'"
  shows "disk_only m m'" "disk_inv m \<Longrightarrow> disk_inv m'"
proof -
  let ?r = "xfer_req (dsk m)"
  let ?u = "unat (xr_unit ?r)"
  let ?s = "disk_unit_seek (xr_cylinder ?r) (xr_head ?r) (xr_block ?r)"
  let ?m1 = "upd_unit ?u (\<lambda>_. snd (?s (unit_of ?u m))) m"
  have m1: "disk_only m ?m1" "disk_inv m \<Longrightarrow> disk_inv ?m1"
    by (auto simp: Let_def)
  consider "m' = m"
    | d where "m' = set_status_not_active (?m1\<lparr>dsk := d\<rparr>)" "disk_units d = disk_units (dsk ?m1)"
    | m2 d ok where "perform_xfer ?u (xr_read ?r) (xr_compare ?r) (xr_clp ?r) ?m1 = Inr (ok, m2)"
        "m' = set_status_not_active (m2\<lparr>dsk := d\<rparr>)" "disk_units d = disk_units (dsk m2)"
    using assms
    by (force simp: do_xfer_def Let_def case_prod_beta fault_simps split: if_splits)
  then have "disk_only m m' \<and> (disk_inv m \<longrightarrow> disk_inv m')"
  proof cases
    case 1
    then show ?thesis by simp
  next
    case 2
    then show ?thesis
      using m1 by (auto simp del: disk_only_units)
  next
    case (3 m2 d ok)
    have "disk_only m m2"
      using perform_xfer_inv(1) [OF 3(1)] m1(1) by (rule disk_only_trans [rotated])
    then show ?thesis
      using perform_xfer_inv(2) [OF 3(1)] m1(2) 3(2,3) by auto
  qed
  then show "disk_only m m'" "disk_inv m \<Longrightarrow> disk_inv m'"
    by blast+
qed

lemma submit_xfer_inv:
  assumes "submit_xfer read compare m = Inr m'"
  shows "disk_only m m'" "disk_inv m \<Longrightarrow> disk_inv m'"
  using do_xfer_inv [OF assms [unfolded submit_xfer_def Let_def case_prod_beta]]
  by (auto elim!: disk_only_trans [rotated])

lemma attention_inv:
  shows disk_inv_attention [simp]: "disk_inv m \<Longrightarrow> disk_inv (disk_unit_raise_attention u m)"
    and disk_only_attention [intro]:
      "disk_only m m1 \<Longrightarrow> disk_only m (disk_unit_raise_attention u m1)"
  by (auto simp: disk_unit_raise_attention_def disk_controller_get_attention_def)

lemma start_inv:
  "disk_inv m \<Longrightarrow> disk_inv (start_seek m)" "disk_only m0 m \<Longrightarrow> disk_only m0 (start_seek m)"
  "disk_inv m \<Longrightarrow> disk_inv (start_recalibrate m)"
  "disk_only m0 m \<Longrightarrow> disk_only m0 (start_recalibrate m)"
  "disk_inv m \<Longrightarrow> disk_inv (start_fault_clear m)"
  "disk_only m0 m \<Longrightarrow> disk_only m0 (start_fault_clear m)"
  "disk_inv m \<Longrightarrow> disk_inv (start_at_ease m)" "disk_only m0 m \<Longrightarrow> disk_only m0 (start_at_ease m)"
  "disk_inv m \<Longrightarrow> disk_inv (start_offset_clear m)"
  "disk_only m0 m \<Longrightarrow> disk_only m0 (start_offset_clear m)"
  by (auto simp: start_seek_def start_recalibrate_def start_fault_clear_def start_at_ease_def
      start_offset_clear_def Let_def case_prod_beta)

lemma start_write_inv:
  assumes "start_write m = Inr m'"
  shows "disk_only m m'" "disk_inv m \<Longrightarrow> disk_inv m'"
  using assms submit_xfer_inv [of False False m m']
  by (auto simp: start_write_def Let_def split: if_splits)

lemma disk_start_inv:
  assumes "disk_start m = Inr m'"
  shows "disk_only m m'" "disk_inv m \<Longrightarrow> disk_inv m'"
proof -
  have only: "disk_only m (idle_activity m)"
    by (simp add: disk_only_def idle_activity_def)
  have inv: "disk_inv m \<Longrightarrow> disk_inv (idle_activity m)"
    by (simp add: idle_activity_def)
  note xfer = submit_xfer_inv [of _ _ "idle_activity m" m'] start_write_inv [of "idle_activity m" m']
  show "disk_only m m'"
    using assms only by (auto simp: disk_start_def start_read_def start_read_compare_def Let_def
        split: if_splits intro!: start_inv dest: xfer intro: disk_only_trans)
  show "disk_inv m \<Longrightarrow> disk_inv m'"
    using assms inv by (auto simp: disk_start_def start_read_def start_read_compare_def Let_def
        split: if_splits intro!: start_inv dest: xfer)
qed

lemma disk_controller_write_inv:
  assumes "disk_controller_write offset v m = Inr m'"
  shows "disk_only m m'" "disk_inv m \<Longrightarrow> disk_inv m'"
  using assms disk_start_inv [of m m']
  by (auto simp: disk_controller_write_def Let_def split: if_splits)

interpretation disk_dev: bus_device "\<lambda>a. True" "\<lambda>a v m. and_then (disk_controller_read a v m) (\<lambda>v. Inr (v, m))"
  disk_controller_write disk_inv
  by unfold_locales (auto simp: fault_simps intro: disk_controller_write_inv)

section \<open>What a command list transfers\<close>

text \<open>
  \<open>ccw_list mm a off ws\<close>: the command words \<open>ws\<close> stand in memory at \<open>a + off\<close>, \<open>a + off + 1\<close> and so on,
  all but the last with the bit that asks for another block.
\<close>

fun ccw_list :: "'a mem_sys_scheme \<Rightarrow> u32 \<Rightarrow> u16 \<Rightarrow> u32 list \<Rightarrow> bool" where
  "ccw_list m clp off [] = False"
| "ccw_list m clp off (w # ws) \<longleftrightarrow>
     main_memory_read (clp + ucast off) m = (True, w) \<and>
     (w AND 1 = 0 \<longleftrightarrow> ws = []) \<and> (ws = [] \<or> ccw_list m clp (off + 1) ws)"

definition ccw_page :: "u32 \<Rightarrow> nat" where
  "ccw_page w = unat (drop_bit 8 (w AND 0x00FFFF00) AND 0x3FFF)"

definition ccw_present :: "'a mem_sys_scheme \<Rightarrow> u32 \<Rightarrow> bool" where
  "ccw_present m w \<longleftrightarrow> ccw_page w < unat (main_memory_npages (mem m))"

lemma ccw_list_cong: "mem m' = mem m \<Longrightarrow> ccw_list m' clp off ws = ccw_list m clp off ws"
  by (induction ws arbitrary: off) (simp_all add: mem_read_cong(1) [of m' m])

lemma unit_kept_mm: "du_block (p\<lparr>du_last_memory_address := a\<rparr>) = du_block p"
  by (simp add: du_block_def fun_eq_iff)

lemma xfer_block_from_memory:
  assumes wf: "du_wf (unit_of u m)" and ccw: "main_memory_read a m = (True, w)"
    and present: "ccw_present m w"
  obtains m1 where "xfer_block u False compare a m = (True, w, m1)" "mem m1 = mem m"
    "\<And>lba i. i < 256 \<Longrightarrow> du_block (unit_of u m1) lba i =
       (if lba = du_chs (unit_of u m) then pages (mem m) (ccw_page w) i
        else du_block (unit_of u m) lba i)"
proof -
  let ?m2 = "upd_status (ccw_cycle_update (\<lambda>_. False))
    (upd_status (ccw_cycle_update (\<lambda>_. True)) (xfer_ma u a m))"
  let ?p = "(unit_of u m)\<lparr>du_last_memory_address := (w AND 0xFFFF00) + 255\<rparr>"
  let ?b = "copy_out (pages (mem m) (ccw_page w)) 0"
  let ?w = "disk_unit_write ?b ?p"
  have "main_memory_read a (upd_status (ccw_cycle_update (\<lambda>_. True)) (xfer_ma u a m)) = (True, w)"
    using ccw by (subst mem_read_cong(1) [of _ m]) (simp_all add: xfer_ma_def)
  moreover have "main_memory_read_page (w AND 0xFFFF00) (xfer_ma u (w AND 0xFFFF00) ?m2) = Some ?b"
    using present by (simp add: main_memory_read_page_def ccw_present_def ccw_page_def Let_def
        word_less_nat_alt xfer_ma_def)
  moreover have "fst ?w"
    using wf by (intro disk_unit_write_ok) simp
  moreover have "du_block (snd ?w) lba i = (if lba = du_chs (unit_of u m) then pages (mem m) (ccw_page w) i
      else du_block (unit_of u m) lba i)" if "i < 256" for lba i
    using disk_unit_write_block [of ?p i ?b lba] wf that
    by (simp add: unit_kept_mm copy_out_def) (simp add: du_wf_def)
  ultimately show ?thesis
    by (intro that [of "upd_unit u (\<lambda>_. snd ?w) (xfer_ma u ((w AND 0xFFFF00) + 255)
          (xfer_ma u (w AND 0xFFFF00) ?m2))"])
      (simp_all add: xfer_block_def xfer_memory_to_disk_def Let_def case_prod_beta xfer_ma_def)
qed

lemma xfer_block_to_memory:
  assumes wf: "du_wf (unit_of u m)" and ccw: "main_memory_read a m = (True, w)"
    and present: "ccw_present m w"
  obtains m1 where "xfer_block u True False a m = (True, w, m1)"
    "mem m1 = (mem m)\<lparr>pages := (pages (mem m))(ccw_page w :=
       copy_in (pages (mem m) (ccw_page w)) 0 256 (du_block (unit_of u m) (du_chs (unit_of u m))))\<rparr>"
    "du_mm (unit_of u m1) = du_mm (unit_of u m)"
proof -
  let ?m1 = "upd_status (ccw_cycle_update (\<lambda>_. True)) (xfer_ma u a m)"
  have "main_memory_read a ?m1 = (True, w)"
    using ccw by (subst mem_read_cong(1) [of _ m]) (simp_all add: xfer_ma_def)
  moreover obtain b where b: "disk_unit_read (unit_of u m) = Some b"
    using disk_unit_read_ok [OF wf] by auto
  moreover have "b = du_block (unit_of u m) (du_chs (unit_of u m))"
    using disk_unit_read_block [OF b] wf by (simp add: du_wf_def)
  moreover have "disk_unit_read ((unit_of u m)\<lparr>du_last_memory_address := a\<rparr>) = Some b"
    using b by (simp add: disk_unit_read_def Let_def split: if_splits)
  moreover have "xfer_block u True False a m =
      (True, w, snd (snd (xfer_block u True False a m)))"
    "mem (snd (snd (xfer_block u True False a m))) =
      (mem m)\<lparr>pages := (pages (mem m))(ccw_page w := copy_in (pages (mem m) (ccw_page w)) 0 256 b)\<rparr>"
    "du_mm (unit_of u (snd (snd (xfer_block u True False a m)))) = du_mm (unit_of u m)"
    using calculation present
    by (simp_all add: xfer_block_def xfer_disk_to_memory_def Let_def case_prod_beta
        xfer_defs main_memory_write_page_def ccw_present_def ccw_page_def word_less_nat_alt)
  ultimately show ?thesis
    using that by blast
qed

end
