(* ===== verification/Disk_Transfers.thy ===== *)
theory Disk_Transfers
  imports Disk_Controller
begin

text \<open>
  What the commands of the disk controller transfer: a command list read or written moves exactly the
  blocks it names, every transfer ends, and a write-protected or offline unit keeps its contents.
\<close>

unbundle bit_operations_syntax

section \<open>Command lists\<close>

lemma next_block_unit:
  assumes "du_wf (unit_of u m)" and "unit_kept (unit_of u m) (unit_of u m1)"
    and "du_chs (unit_of u m) + 1 < du_blocks (unit_of u m)"
  obtains p where "disk_unit_seek_next_lba (unit_of u m1) = (True, p)" "du_wf p"
    "du_chs p = du_chs (unit_of u m) + 1" "du_blocks p = du_blocks (unit_of u m)"
    "du_mm p = du_mm (unit_of u m1)"
proof -
  let ?n = "disk_unit_seek_next_lba (unit_of u m1)"
  have wf: "du_wf (unit_of u m1)"
    using assms by (simp add: unit_kept_wf)
  then have "fst ?n" "du_chs (snd ?n) = du_chs (unit_of u m) + 1"
    using next_lba_steps [OF wf] assms by (simp_all add: unit_kept_wf)
  moreover have "du_blocks (snd ?n) = du_blocks (unit_of u m)"
    using next_lba_blocks [of _ "fst ?n" "snd ?n"] assms by (simp add: unit_kept_wf)
  moreover have "du_mm (snd ?n) = du_mm (unit_of u m1)"
    by (simp add: disk_unit_seek_next_lba_def disk_unit_seek_def Let_def)
  ultimately show ?thesis
    using that [of "snd ?n"] du_wf_next [OF wf] by (simp add: prod_eq_iff)
qed

lemma xfer_loop_write:
  assumes "du_wf (unit_of u m)" "ccw_list m clp off ws" "\<forall>w\<in>set ws. ccw_present m w"
    "du_chs (unit_of u m) + length ws \<le> du_blocks (unit_of u m)" "length ws \<le> fuel"
  shows "\<exists>m'. perform_xfer_loop fuel u False compare clp off m = Inr (True, m') \<and> mem m' = mem m \<and>
    (\<forall>lba. \<forall>i<256. du_block (unit_of u m') lba i =
      (if du_chs (unit_of u m) \<le> lba \<and> lba < du_chs (unit_of u m) + length ws
       then pages (mem m) (ccw_page (ws ! (lba - du_chs (unit_of u m)))) i
       else du_block (unit_of u m) lba i))"
  using assms
proof (induction ws arbitrary: off m fuel)
  case Nil
  then show ?case by simp
next
  case (Cons w ws)
  let ?chs = "du_chs (unit_of u m)"
  obtain f where f: "fuel = Suc f"
    using Cons.prems(5) by (cases fuel) auto
  have ccw: "main_memory_read (clp + ucast off) m = (True, w)"
    using Cons.prems(2) by simp
  have present: "ccw_present m w" using Cons.prems(3) by simp
  obtain m1 where x: "xfer_block u False compare (clp + ucast off) m = (True, w, m1)"
    and mem1: "mem m1 = mem m" and b1: "\<And>lba i. i < 256 \<Longrightarrow> du_block (unit_of u m1) lba i =
       (if lba = ?chs then pages (mem m) (ccw_page w) i else du_block (unit_of u m) lba i)"
    by (rule xfer_block_from_memory [OF Cons.prems(1) ccw present]) blast
  have k: "unit_kept (unit_of u m) (unit_of u m1)"
    using xfer_block_unit(1) [of m u False compare "clp + ucast off"] x by simp
  show ?case
  proof (cases ws)
    case Nil
    then show ?thesis
      using Cons.prems(2) mem1 b1 by (auto simp: f x Let_def le_less_Suc_eq)
  next
    case (Cons w' ws')
    then have more: "w AND 1 \<noteq> 0" and list: "ccw_list m clp (off + 1) ws"
      using Cons.prems(2) by auto
    obtain p where p: "disk_unit_seek_next_lba (unit_of u m1) = (True, p)" "du_wf p"
      "du_chs p = ?chs + 1" "du_blocks p = du_blocks (unit_of u m)" "du_mm p = du_mm (unit_of u m1)"
      by (rule next_block_unit [OF Cons.prems(1) k]) (use Cons.prems(4) Cons in auto)
    let ?m2 = "upd_unit u (\<lambda>_. p) m1"
    have "\<exists>m'. perform_xfer_loop f u False compare clp (off + 1) ?m2 = Inr (True, m') \<and>
        mem m' = mem ?m2 \<and>
        (\<forall>lba. \<forall>i<256. du_block (unit_of u m') lba i =
          (if du_chs (unit_of u ?m2) \<le> lba \<and> lba < du_chs (unit_of u ?m2) + length ws
           then pages (mem ?m2) (ccw_page (ws ! (lba - du_chs (unit_of u ?m2)))) i
           else du_block (unit_of u ?m2) lba i))"
      using Cons.prems p list mem1
      by (intro Cons.IH) (simp_all add: f ccw_list_cong [of ?m2 m] ccw_present_def)
    moreover have "du_block p = du_block (unit_of u m1)"
      using p(5) by (simp add: du_block_def fun_eq_iff)
    ultimately show ?thesis
      using mem1 b1 more p by (auto simp: f x Let_def nth_Cons' Suc_le_eq)
  qed
qed

text \<open>The page from which a command word is fetched.\<close>

definition fetch_page :: "u32 \<Rightarrow> u16 \<Rightarrow> nat" where
  "fetch_page clp off = unat (drop_bit 8 (clp + ucast off) AND 0x3FFF)"

lemma ccw_list_stable:
  assumes "main_memory_npages (mem m') = main_memory_npages (mem m)"
    and "\<And>j. j < length ws \<Longrightarrow>
      pages (mem m') (fetch_page clp (off + of_nat j)) = pages (mem m) (fetch_page clp (off + of_nat j))"
    and "ccw_list m clp off ws"
  shows "ccw_list m' clp off ws"
  using assms
proof (induction ws arbitrary: off)
  case Nil
  then show ?case by simp
next
  case (Cons w ws)
  have "main_memory_read (clp + ucast off) m' = main_memory_read (clp + ucast off) m"
    using Cons.prems(1) Cons.prems(2) [of 0]
    by (simp add: main_memory_read_def fetch_page_def Let_def)
  moreover have "ws = [] \<or> ccw_list m' clp (off + 1) ws"
    using Cons.prems(1,3) Cons.prems(2) [of "Suc j" for j]
    by (auto intro!: Cons.IH simp: algebra_simps)
  ultimately show ?case
    using Cons.prems(3) by simp
qed

lemma xfer_loop_read:
  assumes "du_wf (unit_of u m)" "ccw_list m clp off ws" "\<forall>w\<in>set ws. ccw_present m w"
    "du_chs (unit_of u m) + length ws \<le> du_blocks (unit_of u m)" "length ws \<le> fuel"
    "distinct (map ccw_page ws)"
    "\<And>w j. w \<in> set ws \<Longrightarrow> j < length ws \<Longrightarrow> fetch_page clp (off + of_nat j) \<noteq> ccw_page w"
  shows "\<exists>m'. perform_xfer_loop fuel u True False clp off m = Inr (True, m') \<and>
    du_mm (unit_of u m') = du_mm (unit_of u m) \<and>
    main_memory_npages (mem m') = main_memory_npages (mem m) \<and>
    (\<forall>j<length ws. \<forall>i<256. pages (mem m') (ccw_page (ws ! j)) i =
       du_block (unit_of u m) (du_chs (unit_of u m) + j) i) \<and>
    (\<forall>q. q \<notin> ccw_page ` set ws \<longrightarrow> pages (mem m') q = pages (mem m) q)"
  using assms
proof (induction ws arbitrary: off m fuel)
  case Nil
  then show ?case by simp
next
  case (Cons w ws)
  let ?chs = "du_chs (unit_of u m)"
  obtain f where f: "fuel = Suc f"
    using Cons.prems(5) by (cases fuel) auto
  have ccw: "main_memory_read (clp + ucast off) m = (True, w)"
    using Cons.prems(2) by simp
  have present: "ccw_present m w" using Cons.prems(3) by simp
  obtain m1 where x: "xfer_block u True False (clp + ucast off) m = (True, w, m1)"
    and mem1: "mem m1 = (mem m)\<lparr>pages := (pages (mem m))(ccw_page w :=
       copy_in (pages (mem m) (ccw_page w)) 0 256 (du_block (unit_of u m) ?chs))\<rparr>"
    and mm1: "du_mm (unit_of u m1) = du_mm (unit_of u m)"
    by (rule xfer_block_to_memory [OF Cons.prems(1) ccw present]) blast
  have k: "unit_kept (unit_of u m) (unit_of u m1)"
    using xfer_block_unit(1) [of m u True False "clp + ucast off"] x by simp
  show ?case
  proof (cases ws)
    case Nil
    then show ?thesis
      using Cons.prems(2) mem1 mm1 by (auto simp: f x Let_def copy_in_def)
  next
    case (Cons w' ws')
    then have more: "w AND 1 \<noteq> 0" and list: "ccw_list m clp (off + 1) ws"
      using Cons.prems(2) by auto
    obtain p where p: "disk_unit_seek_next_lba (unit_of u m1) = (True, p)" "du_wf p"
      "du_chs p = ?chs + 1" "du_blocks p = du_blocks (unit_of u m)" "du_mm p = du_mm (unit_of u m1)"
      by (rule next_block_unit [OF Cons.prems(1) k]) (use Cons.prems(4) Cons in auto)
    let ?m2 = "upd_unit u (\<lambda>_. p) m1"
    have apart: "fetch_page clp (off + 1 + of_nat j) \<noteq> ccw_page v"
      if "v \<in> set (w # ws)" "j < length ws" for v j
      using Cons.prems(7) [of v "Suc j"] that by (simp add: algebra_simps)
    have "ccw_list ?m2 clp (off + 1) ws"
      by (rule ccw_list_stable [OF _ _ list]) (use apart mem1 in auto)
    then have "\<exists>m'. perform_xfer_loop f u True False clp (off + 1) ?m2 = Inr (True, m') \<and>
        du_mm (unit_of u m') = du_mm (unit_of u ?m2) \<and>
        main_memory_npages (mem m') = main_memory_npages (mem ?m2) \<and>
        (\<forall>j<length ws. \<forall>i<256. pages (mem m') (ccw_page (ws ! j)) i =
           du_block (unit_of u ?m2) (du_chs (unit_of u ?m2) + j) i) \<and>
        (\<forall>q. q \<notin> ccw_page ` set ws \<longrightarrow> pages (mem m') q = pages (mem ?m2) q)"
      using Cons.prems p mem1 apart
      by (intro Cons.IH) (simp_all add: f ccw_present_def)
    then obtain m' where m': "perform_xfer_loop f u True False clp (off + 1) ?m2 = Inr (True, m')"
      "du_mm (unit_of u m') = du_mm p" "main_memory_npages (mem m') = main_memory_npages (mem m1)"
      "\<And>j i. j < length ws \<Longrightarrow> i < 256 \<Longrightarrow>
         pages (mem m') (ccw_page (ws ! j)) i = du_block p (?chs + 1 + j) i"
      "\<And>q. q \<notin> ccw_page ` set ws \<Longrightarrow> pages (mem m') q = pages (mem m1) q"
      using p(3) by auto
    have blk: "du_block p = du_block (unit_of u m)"
      using p(5) mm1 by (simp add: du_block_def fun_eq_iff)
    have "perform_xfer_loop fuel u True False clp off m = Inr (True, m')"
      using more p(1) m'(1) by (simp add: f x Let_def)
    moreover have "pages (mem m') (ccw_page ((w # ws) ! j)) i = du_block (unit_of u m) (?chs + j) i"
      if "j < length (w # ws)" "i < 256" for j i
      using that m'(4,5) blk mem1 Cons.prems(6)
      by (cases j) (simp_all add: copy_in_def)
    moreover have "pages (mem m') q = pages (mem m) q" if "q \<notin> ccw_page ` set (w # ws)" for q
      using that m'(5) mem1 by simp
    ultimately show ?thesis
      using m'(2,3) mem1 mm1 p(5) by auto
  qed
qed

section \<open>Whole transfers\<close>

lemma unit_ok_selected: "disk_wf d \<Longrightarrow> u < 8 \<Longrightarrow> du_online (disk_units d u) \<Longrightarrow> du_wf (disk_units d u)"
  by (simp add: disk_wf_def)

lemma perform_xfer_returns:
  "du_wf (unit_of u m) \<Longrightarrow> \<exists>ok m'. perform_xfer u read compare clp m = Inr (ok, m')"
  using xfer_loop_returns [of "upd_status g m" u "du_blocks (unit_of u m)" read compare clp 0 for g]
  by (simp add: perform_xfer_def)

lemma do_xfer_returns:
  assumes "du_wf (unit_of (unat (xr_unit (xfer_req (dsk m)))) m)"
  shows "\<exists>m'. do_xfer m = Inr m'"
proof -
  let ?r = "xfer_req (dsk m)"
  let ?u = "unat (xr_unit ?r)"
  let ?p = "snd (disk_unit_seek (xr_cylinder ?r) (xr_head ?r) (xr_block ?r) (unit_of ?u m))"
  have "du_wf (unit_of ?u (upd_unit ?u (\<lambda>_. ?p) m))"
    using assms by (simp add: du_wf_seek)
  then obtain ok m' where
    "perform_xfer ?u (xr_read ?r) (xr_compare ?r) (xr_clp ?r) (upd_unit ?u (\<lambda>_. ?p) m) = Inr (ok, m')"
    using perform_xfer_returns by blast
  then show ?thesis
    by (simp add: do_xfer_def Let_def case_prod_beta)
qed

lemma unat_and_7: "unat ((w :: u32) AND 7) < 8"
  by (rule unat_and_mask_less) simp

lemma submit_xfer_returns:
  assumes "disk_wf (dsk m)" "du_online (unit_of (selected_unit (dsk m)) m)"
  shows "\<exists>m'. submit_xfer read compare m = Inr m'"
proof -
  have "dc_da (dsk (set_status_active m)) = dc_da (dsk m)"
    by (simp add: set_status_active_def upd_status_def)
  moreover have "selected_unit (dsk m) < 8"
    by (simp add: selected_unit_def unat_and_7)
  ultimately show ?thesis
    using assms
    by (auto simp: submit_xfer_def decode_da_def Let_def selected_unit_def disk_wf_def
        intro!: do_xfer_returns)
qed

text \<open>
  The only way a command stops the simulator is one of the \<open>errx\<close> calls: transfers always end.
\<close>

lemma disk_start_stops:
  assumes "disk_wf (dsk m)" "disk_start m = Inl e"
  shows "(\<exists>s. e = Errx s) \<and> dc_cmd (dsk m) AND 0xF \<notin> {0, 8, 9, 4, 5, 6}"
proof -
  let ?m = "idle_activity m"
  have cmd: "dc_cmd (dsk ?m) = dc_cmd (dsk m)"
    by (simp add: idle_activity_def)
  have wf: "disk_wf (dsk ?m)"
    using assms(1) by (simp add: idle_activity_def)
  have xfer: "submit_xfer rd cmp ?m \<noteq> Inl e" "start_write ?m \<noteq> Inl e"
    if "du_online (unit_of (selected_unit (dsk ?m)) ?m)" for rd cmp
    using submit_xfer_returns [OF wf that] by (auto simp: start_write_def Let_def) (metis Inr_not_Inl)+
  show ?thesis
  proof (cases "du_online (unit_of (selected_unit (dsk ?m)) ?m)")
    case True
    then show ?thesis
      using assms(2) xfer [OF True] cmd
      by (auto simp: disk_start_def start_read_def start_read_compare_def Let_def split: if_splits)
  next
    case False
    then show ?thesis
      using assms(2) by (simp add: disk_start_def Let_def)
  qed
qed

section \<open>Protected units\<close>

text \<open>\<open>contents_kept U m m'\<close>: the units outside \<open>U\<close> keep their contents and their mode.\<close>

definition contents_kept :: "nat set \<Rightarrow> 'a disk_sys_scheme \<Rightarrow> 'a disk_sys_scheme \<Rightarrow> bool" where
  "contents_kept U m m' \<longleftrightarrow>
     (\<forall>v. (v \<notin> U \<longrightarrow> du_mm (unit_of v m') = du_mm (unit_of v m)) \<and>
        du_read_only (unit_of v m') = du_read_only (unit_of v m) \<and>
        du_online (unit_of v m') = du_online (unit_of v m))"

lemma contents_kept_same [intro]:
  "disk_units (dsk m') = disk_units (dsk m) \<Longrightarrow> contents_kept U m m'"
  by (simp add: contents_kept_def)

lemma contents_kept_trans:
  "contents_kept U m m1 \<Longrightarrow> contents_kept U m1 m2 \<Longrightarrow> contents_kept U m m2"
  by (simp add: contents_kept_def)

lemma contents_kept_units:
  "disk_units (dsk m2) = disk_units (dsk m1) \<Longrightarrow> contents_kept U m m1 \<Longrightarrow> contents_kept U m m2"
  by (simp add: contents_kept_def)

lemma contents_kept_mono: "contents_kept U m m' \<Longrightarrow> U \<subseteq> V \<Longrightarrow> contents_kept V m m'"
  by (auto simp: contents_kept_def)

lemma contents_kept_upd:
  assumes "contents_kept U m m1"
    and "du_mm (f (unit_of u m1)) = du_mm (unit_of u m1)"
      "du_read_only (f (unit_of u m1)) = du_read_only (unit_of u m1)"
      "du_online (f (unit_of u m1)) = du_online (unit_of u m1)"
  shows "contents_kept U m (upd_unit u f m1)"
  using assms by (simp add: contents_kept_def)

lemma seek_contents [simp]:
  "du_mm (snd (disk_unit_seek c h s p)) = du_mm p"
  "du_read_only (snd (disk_unit_seek c h s p)) = du_read_only p"
  "du_mm (snd (disk_unit_seek_next_lba p)) = du_mm p"
  "du_read_only (snd (disk_unit_seek_next_lba p)) = du_read_only p"
  by (simp_all add: disk_unit_seek_next_lba_def disk_unit_seek_def Let_def)

lemma xfer_to_memory_mm:
  "du_mm (unit_of v (snd (snd (xfer_block u True compare a m)))) = du_mm (unit_of v m)"
  by (auto simp: xfer_block_def xfer_disk_to_memory_def Let_def case_prod_beta xfer_defs
      main_memory_write_page_def split: option.splits)

lemma xfer_block_contents:
  "contents_kept (if read then {} else {u}) m (snd (snd (xfer_block u read compare a m)))"
proof -
  have "du_mm (unit_of v (snd (snd (xfer_block u read compare a m)))) = du_mm (unit_of v m)"
    if "read \<or> v \<noteq> u" for v
    using that xfer_to_memory_mm [where u = u and v = v and compare = compare and a = a and m = m] xfer_block_unit(2) [where u = u and v = v and read = read and compare = compare and a = a and m = m]
    by (cases read) auto
  moreover have "du_read_only (unit_of v (snd (snd (xfer_block u read compare a m)))) =
      du_read_only (unit_of v m) \<and>
      du_online (unit_of v (snd (snd (xfer_block u read compare a m)))) = du_online (unit_of v m)" for v
    using unit_kept_wf(4,5) [OF xfer_block_unit(1) [of m u read compare a]]
      xfer_block_unit(2) [where u = u and v = v and read = read and compare = compare and a = a and m = m]
    by (cases "v = u") auto
  ultimately show ?thesis
    by (auto simp: contents_kept_def)
qed

lemma perform_xfer_contents:
  assumes "perform_xfer u read compare clp m = Inr (ok, m')"
  shows "contents_kept (if read then {} else {u}) m m'"
proof -
  let ?U = "if read then {} else {u}"
  show ?thesis
  proof (rule xfer_loop_inv [where P = "contents_kept ?U m", OF _ _ _ assms [unfolded perform_xfer_def]])
    show "contents_kept ?U m (snd (snd (xfer_block u read compare a m1)))"
      if "contents_kept ?U m m1" for m1 a
      by (rule contents_kept_trans [OF that xfer_block_contents])
    show "contents_kept ?U m (upd_unit u (\<lambda>p. snd (disk_unit_seek_next_lba p)) m1)"
      if "contents_kept ?U m m1" for m1
      by (rule contents_kept_upd [OF that]) simp_all
  qed auto
qed

lemma do_xfer_contents:
  assumes "do_xfer m = Inr m'"
  shows "contents_kept (if xr_read (xfer_req (dsk m)) then {} else {unat (xr_unit (xfer_req (dsk m)))})
    m m'"
proof -
  let ?r = "xfer_req (dsk m)"
  let ?u = "unat (xr_unit ?r)"
  let ?U = "if xr_read ?r then {} else {?u}"
  let ?m1 = "upd_unit ?u (\<lambda>_. snd (disk_unit_seek (xr_cylinder ?r) (xr_head ?r) (xr_block ?r)
    (unit_of ?u m))) m"
  have m1: "contents_kept ?U m ?m1"
    by (rule contents_kept_upd) auto
  consider "m' = m" | "disk_units (dsk m') = disk_units (dsk ?m1)"
    | m2 ok where "perform_xfer ?u (xr_read ?r) (xr_compare ?r) (xr_clp ?r) ?m1 = Inr (ok, m2)"
        "disk_units (dsk m') = disk_units (dsk m2)"
    using assms by (force simp: do_xfer_def Let_def case_prod_beta fault_simps split: if_splits)
  then show ?thesis
  proof cases
    case 1
    then show ?thesis by auto
  next
    case 2
    then show ?thesis by (rule contents_kept_units [OF _ m1])
  next
    case (3 m2 ok)
    then show ?thesis
      using contents_kept_trans [OF m1 perform_xfer_contents [OF 3(1)]] contents_kept_units by blast
  qed
qed

lemma submit_xfer_contents:
  assumes "submit_xfer read compare m = Inr m'"
  shows "contents_kept (if read then {} else {selected_unit (dsk m)}) m m'"
proof -
  have da: "dc_da (dsk (set_status_active m)) = dc_da (dsk m)"
    by (simp add: set_status_active_def upd_status_def)
  have "contents_kept (if read then {} else {selected_unit (dsk m)}) m (set_status_active m)"
    by auto
  with do_xfer_contents [OF assms [unfolded submit_xfer_def Let_def case_prod_beta]] show ?thesis
    by (auto simp: decode_da_def selected_unit_def da contents_kept_def split: if_splits)
qed

lemma disk_unit_raise_attention_contents:
  "contents_kept U m m1 \<Longrightarrow> contents_kept U m (disk_unit_raise_attention u m1)"
  unfolding disk_unit_raise_attention_def disk_controller_get_attention_def
  by (simp add: contents_kept_def)

lemma start_contents:
  "contents_kept U m0 m \<Longrightarrow> contents_kept U m0 (start_seek m)"
  "contents_kept U m0 m \<Longrightarrow> contents_kept U m0 (start_recalibrate m)"
  "contents_kept U m0 m \<Longrightarrow> contents_kept U m0 (start_fault_clear m)"
  "contents_kept U m0 m \<Longrightarrow> contents_kept U m0 (start_at_ease m)"
  "contents_kept U m0 m \<Longrightarrow> contents_kept U m0 (start_offset_clear m)"
proof -
  have active: "contents_kept U m0 m \<Longrightarrow> contents_kept U m0 (set_status_active m)"
    by (erule contents_kept_units [rotated]) simp
  have idle: "contents_kept U m0 m2 \<Longrightarrow> contents_kept U m0 (set_status_not_active m2)" for m2
    by (erule contents_kept_units [rotated]) simp
  note parts = idle disk_unit_raise_attention_contents contents_kept_upd active
  show "contents_kept U m0 m \<Longrightarrow> contents_kept U m0 (start_seek m)"
    unfolding start_seek_def Let_def case_prod_beta by (intro parts) simp_all
  show "contents_kept U m0 m \<Longrightarrow> contents_kept U m0 (start_recalibrate m)"
    unfolding start_recalibrate_def Let_def by (intro parts) simp_all
  show "contents_kept U m0 m \<Longrightarrow> contents_kept U m0 (start_fault_clear m)"
    unfolding start_fault_clear_def Let_def by (intro parts) simp_all
  show "contents_kept U m0 m \<Longrightarrow> contents_kept U m0 (start_at_ease m)"
    unfolding start_at_ease_def Let_def by (intro parts) simp_all
  show "contents_kept U m0 m \<Longrightarrow> contents_kept U m0 (start_offset_clear m)"
    unfolding start_offset_clear_def by (intro parts)
qed

text \<open>Only a write command on an online unit that is not write-protected changes contents.\<close>

definition writes_unit :: "u32 \<Rightarrow> 'a disk_sys_scheme \<Rightarrow> nat set" where
  "writes_unit offset m =
     (let d = dsk m; u = selected_unit d in
      if offset = 3 \<and> \<not> reset_condition d \<and> dc_cmd d AND 0xF = 9 \<and> du_online (disk_units d u) \<and>
         \<not> du_read_only (disk_units d u)
      then {u} else {})"

lemma disk_start_contents:
  assumes "disk_start m = Inr m'" and "\<not> reset_condition (dsk m)"
  shows "contents_kept (writes_unit 3 m) m m'"
proof -
  let ?m = "idle_activity m"
  have same: "dsk ?m = dsk m"
    by (simp add: idle_activity_def)
  have idle: "contents_kept U m ?m" for U
    by (rule contents_kept_same) (simp add: same)
  have xfer: "submit_xfer read compare ?m = Inr m' \<Longrightarrow>
      contents_kept (if read then {} else {selected_unit (dsk m)}) m m'" for read compare
    using contents_kept_trans [OF idle submit_xfer_contents [of read compare ?m m']] same by (auto split: if_splits)
  show ?thesis
    using assms xfer [of True] xfer [of False] idle
    by (auto simp: disk_start_def start_read_def start_read_compare_def start_write_def
        writes_unit_def Let_def same split: if_splits
        intro!: start_contents contents_kept_upd)
qed

lemma disk_controller_write_contents:
  assumes "disk_controller_write offset v m = Inr m'"
  shows "contents_kept (writes_unit offset m) m m'"
  using assms disk_start_contents [of m m']
  by (auto simp: disk_controller_write_def Let_def split: if_splits)
end
