(* ===== verification/C_Strings.thy ===== *)
theory C_Strings
  imports Prelude
begin

text \<open>
  Strings of the configuration file: the trimming function of \<^verbatim>\<open>usim/misc.c\<close> and what the code uses of
  the C library (\<open>strtok\<close>, \<open>strcasecmp\<close>, \<open>atoll\<close>).  A C string is the list of its characters before
  the terminating NUL.
\<close>

section \<open>Trimming\<close>

text \<open>The loop of \<open>strntrim\<close> with its variables: the source left, \<open>start\<close>, and the room left in \<open>dst\<close>.\<close>

fun strntrim_loop :: "string \<Rightarrow> bool \<Rightarrow> nat \<Rightarrow> string" where
  "strntrim_loop [] start room = []"
| "strntrim_loop (c # src) start room =
     (if room = 0 then []
      else if start then
        (if c = CHR '' '' then [] else c # strntrim_loop src start (room - 1))
      else
        (if c \<noteq> CHR '' '' then c # strntrim_loop src True (room - 1)
         else strntrim_loop src start room))"

definition strntrim :: "nat \<Rightarrow> string \<Rightarrow> string" where
  "strntrim n src = strntrim_loop src False (n - 1)"

lemma strntrim_loop_started:
  "strntrim_loop src True room = take room (takeWhile (\<lambda>c. c \<noteq> CHR '' '') src)"
  by (induction src arbitrary: room) (auto simp: take_Cons')

text \<open>The first word of the source, cut to the size of the destination.\<close>

lemma strntrim_word:
  "strntrim n src =
     take (n - 1) (takeWhile (\<lambda>c. c \<noteq> CHR '' '') (dropWhile (\<lambda>c. c = CHR '' '') src))"
proof -
  have "strntrim_loop src False room =
    take room (takeWhile (\<lambda>c. c \<noteq> CHR '' '') (dropWhile (\<lambda>c. c = CHR '' '') src))" for room
    by (induction src) (auto simp: strntrim_loop_started take_Cons')
  then show ?thesis
    by (simp add: strntrim_def)
qed

lemma strntrim_length: "length (strntrim n src) \<le> n - 1"
  by (simp add: strntrim_word)

section \<open>C library\<close>

definition c_isspace :: "char \<Rightarrow> bool" where
  "c_isspace c \<longleftrightarrow> (of_char c :: nat) \<in> {9, 10, 11, 12, 13, 32}"

text \<open>The tokens that successive calls of \<open>strtok\<close> with the delimiter comma return.\<close>

fun split_on :: "char \<Rightarrow> string \<Rightarrow> string list" where
  "split_on d [] = [[]]"
| "split_on d (c # cs) =
     (if c = d then [] # split_on d cs
      else case split_on d cs of [] \<Rightarrow> [[c]] | t # ts \<Rightarrow> (c # t) # ts)"

definition c_tokens :: "string \<Rightarrow> string list" where
  "c_tokens s = filter (\<lambda>t. t \<noteq> []) (split_on (CHR '','') s)"

definition c_tolower :: "char \<Rightarrow> char" where
  "c_tolower c =
     (let n = of_char c :: nat in if 65 \<le> n \<and> n \<le> 90 then char_of (n + 32) else c)"

definition c_strcaseeq :: "string \<Rightarrow> string \<Rightarrow> bool" where
  "c_strcaseeq a b \<longleftrightarrow> map c_tolower a = map c_tolower b"

definition c_isdigit :: "char \<Rightarrow> bool" where
  "c_isdigit c = (let n = of_char c :: nat in 48 \<le> n \<and> n \<le> 57)"

fun c_digits :: "string \<Rightarrow> int \<Rightarrow> int" where
  "c_digits [] acc = acc"
| "c_digits (c # cs) acc =
     (if c_isdigit c then c_digits cs (acc * 10 + int (of_char c - 48)) else acc)"

text \<open>Numbers outside the range of the result type are undefined behaviour of \<open>atoi\<close> and \<open>atoll\<close>.\<close>

definition c_atoll :: "string \<Rightarrow> int" where
  "c_atoll s =
     (case dropWhile (\<lambda>c. (of_char c :: nat) \<in> {9, 10, 11, 12, 13, 32}) s of
        [] \<Rightarrow> 0
      | c # cs \<Rightarrow>
          if c = CHR ''-'' then - c_digits cs 0
          else if c = CHR ''+'' then c_digits cs 0
          else c_digits (c # cs) 0)"

lemma c_tokens_nonempty: "t \<in> set (c_tokens s) \<Longrightarrow> t \<noteq> []"
  by (simp add: c_tokens_def)

section \<open>Numbers\<close>

text \<open>\<open>%u\<close> and \<open>%o\<close>: at most 11 digits for 32 bits and 22 for 64, with the padding that \<open>%\<close> and a width ask for.\<close>

definition decimal_digit :: "nat \<Rightarrow> char" where
  "decimal_digit d = char_of (48 + d)"

fun show_base :: "nat \<Rightarrow> nat \<Rightarrow> nat \<Rightarrow> string" where
  "show_base 0 base n = []"
| "show_base (Suc k) base n = (if n < base then [decimal_digit n] else show_base k base (n div base) @ [decimal_digit (n mod base)])"

definition show_u32 :: "nat \<Rightarrow> u32 \<Rightarrow> string" where
  "show_u32 base w = show_base 11 base (unat w)"

definition show_u64 :: "nat \<Rightarrow> u64 \<Rightarrow> string" where
  "show_u64 base w = show_base 22 base (unat w)"

definition pad :: "nat \<Rightarrow> string \<Rightarrow> string" where
  "pad n s = replicate (n - length s) (CHR '' '') @ s"

definition zero_pad :: "nat \<Rightarrow> string \<Rightarrow> string" where
  "zero_pad n s = replicate (n - length s) (CHR ''0'') @ s"

end
