(* ===== verification/Tape_Drive.thy ===== *)
theory Tape_Drive
  imports Disk_Transfers C_Strings
begin

text \<open>
  The tape drives (\<^verbatim>\<open>usim/tape-drive.c\<close>) and the registers of the tape controller they report to
  (\<^verbatim>\<open>usim/tape-controller.c\<close>).  The medium is an array of bytes \<open>td_mm\<close> of size \<open>td_mmsz\<close>; file
  offsets (\<open>off_t\<close>) are integers.  A local variable that a failing read leaves unassigned has the
  unspecified value \<open>indet\<close>.
\<close>

unbundle bit_operations_syntax

section \<open>State\<close>

record tape_drive_s =
  td_unit :: u32
  td_configured :: bool
  td_length_ft :: int
  td_read_only :: bool
  td_mm :: "int \<Rightarrow> u8"
  td_mmsz :: int
  td_online :: bool
  td_bpi :: u32
  td_eotpos :: int
  td_pos :: int
  td_bot :: bool
  td_rws :: bool
  td_ready :: bool

text \<open>The status register (MTS) and the command register (MTC).\<close>

record mts_s =
  mts_ilc :: bool
  mts_eof :: bool
  mts_eot :: bool
  mts_rle :: bool
  mts_bte :: bool
  mts_nxm :: bool
  mts_selr :: bool

record mtc_s =
  mtc_den8 :: bool
  mtc_den5 :: bool
  mtc_pevn :: bool
  mtc_slt :: u32
  mtc_cur :: bool
  mtc_int_enb :: bool
  mtc_fun :: u32

text \<open>
  \<open>go_waiting\<close>: the controller thread is blocked in \<open>pthread_cond_wait\<close>; \<open>go_signalled\<close>: it has been
  woken and has not run yet; \<open>go_running\<close>: it is executing a command.  \<open>mtbrc\<close> is a signed 16-bit register, kept as its bit pattern.
\<close>

record tape =
  tape_drives :: "nat \<Rightarrow> tape_drive_s"
  mts :: mts_s
  mtc :: mtc_s
  mtbrc :: u16
  mtcma :: u32
  mtd :: u16
  mtrd :: u16
  go_waiting :: bool
  go_signalled :: bool
  go_running :: bool

record tape_sys = disk_sys +
  tape :: tape

definition upd_drive :: "nat \<Rightarrow> (tape_drive_s \<Rightarrow> tape_drive_s) \<Rightarrow> 'a tape_sys_scheme \<Rightarrow> 'a tape_sys_scheme"
  where
  "upd_drive u f m =
     m\<lparr>tape := (tape m)\<lparr>tape_drives := (tape_drives (tape m))(u := f (tape_drives (tape m) u))\<rparr>\<rparr>"

definition upd_mts :: "(mts_s \<Rightarrow> mts_s) \<Rightarrow> 'a tape_sys_scheme \<Rightarrow> 'a tape_sys_scheme" where
  "upd_mts f m = m\<lparr>tape := (tape m)\<lparr>mts := f (mts (tape m))\<rparr>\<rparr>"

definition upd_mtc :: "(mtc_s \<Rightarrow> mtc_s) \<Rightarrow> 'a tape_sys_scheme \<Rightarrow> 'a tape_sys_scheme" where
  "upd_mtc f m = m\<lparr>tape := (tape m)\<lparr>mtc := f (mtc (tape m))\<rparr>\<rparr>"

abbreviation (input) drive_of :: "nat \<Rightarrow> 'a tape_sys_scheme \<Rightarrow> tape_drive_s" where
  "drive_of u m \<equiv> tape_drives (tape m) u"

definition tape_controller_set_mts_eof :: "'a tape_sys_scheme \<Rightarrow> 'a tape_sys_scheme" where
  "tape_controller_set_mts_eof m = upd_mts (mts_eof_update (\<lambda>_. True)) m"

definition tape_controller_set_mts_eot :: "'a tape_sys_scheme \<Rightarrow> 'a tape_sys_scheme" where
  "tape_controller_set_mts_eot m = upd_mts (mts_eot_update (\<lambda>_. True)) m"

definition tape_controller_reset_mts_eot :: "'a tape_sys_scheme \<Rightarrow> 'a tape_sys_scheme" where
  "tape_controller_reset_mts_eot m = upd_mts (mts_eot_update (\<lambda>_. False)) m"

definition tape_controller_set_mts_bte :: "'a tape_sys_scheme \<Rightarrow> 'a tape_sys_scheme" where
  "tape_controller_set_mts_bte m = upd_mts (mts_bte_update (\<lambda>_. True)) m"

definition tape_controller_is_mts_eot :: "'a tape_sys_scheme \<Rightarrow> bool" where
  "tape_controller_is_mts_eot m = mts_eot (mts (tape m))"

section \<open>Configuration\<close>

text \<open>
  \<open>files name\<close> is the contents and the size of a file that can be opened.  The length, mode and name
  of the medium are optional in the configuration string.
\<close>

definition tape_config :: "string \<Rightarrow> (string \<times> string \<times> string) option" where
  "tape_config config_string =
     (case c_tokens config_string of
        [] \<Rightarrow> None
      | [token1] \<Rightarrow> Some (''2400'', ''rw'', token1)
      | [token1, token2] \<Rightarrow>
          if c_atoll token1 = 0 then Some (''2400'', token1, token2)
          else Some (token1, ''rw'', token2)
      | token1 # token2 # token3 # _ \<Rightarrow> Some (token1, token2, token3))"

definition tape_drive_init ::
    "(string \<Rightarrow> ((int \<Rightarrow> u8) \<times> int) option) \<Rightarrow> u32 \<Rightarrow> string option \<Rightarrow>
     (nat \<Rightarrow> tape_drive_s) \<Rightarrow> fault + (nat \<Rightarrow> tape_drive_s)" where
  "tape_drive_init files unit config ds =
     (if unit \<ge> 8 then Inl (Errx ''tape-drive: exceeds the number of maximum tape drives'')
      else
        let u = unat unit; p = (ds u)\<lparr>td_unit := unit, td_online := False\<rparr> in
        case config of
          None \<Rightarrow> Inr (ds(u := p))
        | Some config_string \<Rightarrow>
            let p1 = p\<lparr>td_configured := True\<rparr> in
            case tape_config config_string of
              None \<Rightarrow> Inr (ds(u := p1))
            | Some (length_ft, mode, filename) \<Rightarrow>
                if c_atoll length_ft = 0 \<or> mode \<noteq> ''ro'' \<and> mode \<noteq> ''rw'' \<or> filename = []
                then Inr (ds(u := p1))
                else
                  let p2 = p1\<lparr>td_length_ft := c_atoll length_ft, td_read_only := (mode = ''ro'')\<rparr> in
                  case files filename of
                    None \<Rightarrow> Inr (ds(u := p2))
                  | Some (mm, sz) \<Rightarrow>
                      if sz < td_length_ft p2 * 12 * 1600 then Inr (ds(u := p2))
                      else Inr (ds(u := p2\<lparr>td_mmsz := sz, td_mm := mm, td_ready := True,
                                           td_online := True\<rparr>)))"

section \<open>Moving the tape\<close>

definition tape_drive_set_bpi :: "nat \<Rightarrow> u32 \<Rightarrow> 'a tape_sys_scheme \<Rightarrow> 'a tape_sys_scheme" where
  "tape_drive_set_bpi u bpi m =
     upd_drive u (\<lambda>p. p\<lparr>td_bpi := bpi, td_eotpos := (td_length_ft p - 4) * 12 * uint bpi\<rparr>) m"

text \<open>The callers pass \<open>SEEK_SET\<close> and \<open>SEEK_CUR\<close> only (any other value stops the simulator).\<close>

datatype whence = SEEK_SET | SEEK_CUR

definition tape_drive_seek :: "nat \<Rightarrow> int \<Rightarrow> whence \<Rightarrow> 'a tape_sys_scheme \<Rightarrow> 'a tape_sys_scheme" where
  "tape_drive_seek u offset whence m =
     (let p = drive_of u m;
          pos = (case whence of SEEK_SET \<Rightarrow> offset | SEEK_CUR \<Rightarrow> td_pos p + offset);
          pos' = (if pos < 0 then 0 else if pos > td_mmsz p then td_mmsz p else pos);
          m1 = upd_drive u (\<lambda>p. p\<lparr>td_pos := pos', td_bot := (pos' = 0)\<rparr>) m
      in if pos' \<ge> td_eotpos p then tape_controller_set_mts_eot m1
         else tape_controller_reset_mts_eot m1)"

definition tape_drive_rewind_ex :: "nat \<Rightarrow> 'a tape_sys_scheme \<Rightarrow> 'a tape_sys_scheme" where
  "tape_drive_rewind_ex u m =
     (let m1 = upd_drive u (td_rws_update (\<lambda>_. True)) m;
          m2 = tape_drive_seek u 0 SEEK_SET m1;
          m3 = upd_drive u (td_rws_update (\<lambda>_. False)) m2
      in tape_controller_reset_mts_eot m3)"

definition tape_drive_rewind_and_offline :: "nat \<Rightarrow> 'a tape_sys_scheme \<Rightarrow> 'a tape_sys_scheme" where
  "tape_drive_rewind_and_offline u m =
     upd_drive u (td_online_update (\<lambda>_. False)) (tape_drive_rewind_ex u m)"

definition tape_drive_rewind :: "nat \<Rightarrow> 'a tape_sys_scheme \<Rightarrow> 'a tape_sys_scheme" where
  "tape_drive_rewind u m = tape_drive_rewind_ex u m"

section \<open>Bytes, words and marks\<close>

definition tape_drive_read_uint8 ::
    "nat \<Rightarrow> 'a tape_sys_scheme \<Rightarrow> u8 option \<times> 'a tape_sys_scheme" where
  "tape_drive_read_uint8 u m =
     (let p = drive_of u m in
      if td_pos p = td_mmsz p then (None, m)
      else (Some (td_mm p (td_pos p)), tape_drive_seek u 1 SEEK_CUR m))"

definition tape_drive_read_uint32 ::
    "nat \<Rightarrow> 'a tape_sys_scheme \<Rightarrow> u32 option \<times> 'a tape_sys_scheme" where
  "tape_drive_read_uint32 u m =
     (case tape_drive_read_uint8 u m of
        (None, m1) \<Rightarrow> (None, m1)
      | (Some v1, m1) \<Rightarrow>
     (case tape_drive_read_uint8 u m1 of
        (None, m2) \<Rightarrow> (None, m2)
      | (Some v2, m2) \<Rightarrow>
     (case tape_drive_read_uint8 u m2 of
        (None, m3) \<Rightarrow> (None, m3)
      | (Some v3, m3) \<Rightarrow>
     (case tape_drive_read_uint8 u m3 of
        (None, m4) \<Rightarrow> (None, m4)
      | (Some v4, m4) \<Rightarrow>
          (Some (push_bit 24 (ucast v4) OR push_bit 16 (ucast v3) OR push_bit 8 (ucast v2)
             OR ucast v1), m4)))))"

definition tape_drive_write_uint8 ::
    "nat \<Rightarrow> u8 \<Rightarrow> 'a tape_sys_scheme \<Rightarrow> bool \<times> 'a tape_sys_scheme" where
  "tape_drive_write_uint8 u v m =
     (let p = drive_of u m in
      if td_pos p = td_mmsz p then (False, m)
      else (True, tape_drive_seek u 1 SEEK_CUR
              (upd_drive u (\<lambda>p. p\<lparr>td_mm := (td_mm p)(td_pos p := v)\<rparr>) m)))"

definition tape_drive_write_uint32 ::
    "nat \<Rightarrow> u32 \<Rightarrow> 'a tape_sys_scheme \<Rightarrow> bool \<times> 'a tape_sys_scheme" where
  "tape_drive_write_uint32 u v m =
     (let (ok1, m1) = tape_drive_write_uint8 u (ucast (v AND 0xFF)) m in
      if \<not> ok1 then (False, m1) else
      let (ok2, m2) = tape_drive_write_uint8 u (ucast (drop_bit 8 v AND 0xFF)) m1 in
      if \<not> ok2 then (False, m2) else
      let (ok3, m3) = tape_drive_write_uint8 u (ucast (drop_bit 16 v AND 0xFF)) m2 in
      if \<not> ok3 then (False, m3) else
      let (ok4, m4) = tape_drive_write_uint8 u (ucast (drop_bit 24 v AND 0xFF)) m3 in
      (ok4, m4))"

definition tape_drive_write_record_length ::
    "nat \<Rightarrow> u64 \<Rightarrow> 'a tape_sys_scheme \<Rightarrow> bool \<times> 'a tape_sys_scheme" where
  "tape_drive_write_record_length u record_length m =
     tape_drive_write_uint32 u (ucast record_length) m"

definition tape_drive_write_file_mark ::
    "nat \<Rightarrow> 'a tape_sys_scheme \<Rightarrow> bool \<times> 'a tape_sys_scheme" where
  "tape_drive_write_file_mark u m = tape_drive_write_uint32 u 0xFFFFFFFF m"

section \<open>Spacing\<close>

text \<open>
  \<open>record_length + 4\<close> is computed in 32 bits.
\<close>

definition assigned :: "u32 option \<Rightarrow> string \<Rightarrow> 'a tape_sys_scheme \<Rightarrow> u32" where
  "assigned v name m = (case v of None \<Rightarrow> indet m name | Some x \<Rightarrow> x)"

definition tape_drive_space_forward :: "nat \<Rightarrow> 'a tape_sys_scheme \<Rightarrow> 'a tape_sys_scheme" where
  "tape_drive_space_forward u m =
     (let (v, m1) = tape_drive_read_uint32 u m;
          record_length = assigned v ''preamble'' m;
          m2 = tape_drive_seek u (uint (record_length + 4)) SEEK_CUR m1;
          (w, m3) = tape_drive_read_uint32 u m2
      in if assigned w ''maybe_filemark'' m = 0xFFFFFFFF then tape_controller_set_mts_eof m3
         else tape_drive_seek u (- 4) SEEK_CUR m3)"

definition tape_drive_space_reverse ::
    "nat \<Rightarrow> bool \<Rightarrow> 'a tape_sys_scheme \<Rightarrow> 'a tape_sys_scheme" where
  "tape_drive_space_reverse u stop_at_filemark m =
     (let m1 = tape_drive_seek u (- 4) SEEK_CUR m;
          (v, m2) = tape_drive_read_uint32 u m1;
          postamble = assigned v ''postamble'' m
      in if postamble = 0xFFFFFFFF \<and> stop_at_filemark then tape_controller_set_mts_eof m2
         else
           let (record_length, m3) =
                 (if postamble = 0xFFFFFFFF then
                    let (w, m') = tape_drive_read_uint32 u (tape_drive_seek u (- 8) SEEK_CUR m2)
                    in (case w of None \<Rightarrow> postamble | Some x \<Rightarrow> x, m')
                  else (postamble, m2));
               last_pos = td_pos (drive_of u m3);
               m4 = tape_drive_seek u (- (uint record_length + 8)) SEEK_CUR m3
           in if last_pos \<ge> td_eotpos (drive_of u m4) \<and>
                 td_pos (drive_of u m4) < td_eotpos (drive_of u m4)
              then tape_controller_reset_mts_eot m4 else m4)"

end
