(* ===== verification/Tape_Controller.thy ===== *)
theory Tape_Controller
  imports Tape_Drive
begin

text \<open>
  The Unibus registers of the tape controller (\<^verbatim>\<open>usim/tape-controller.c\<close>): status (MTS) at \<open>0772520\<close>,
  command (MTC) at \<open>0772522\<close>, byte count, memory address, data and read lines.  A command with GO set
  wakes the controller thread, whose work is in theory Tape_Go since it uses the bus adaptor.
\<close>

unbundle bit_operations_syntax

definition u16_bit :: "u16 \<Rightarrow> nat \<Rightarrow> bool" where
  "u16_bit r n \<longleftrightarrow> drop_bit n r AND 1 \<noteq> 0"

definition u16_bus :: "u16 \<Rightarrow> nat \<Rightarrow> nat \<Rightarrow> u16" where
  "u16_bus r start stop = drop_bit stop r AND (push_bit (start - stop + 1) 1 - 1)"

definition selected_drive :: "'a tape_sys_scheme \<Rightarrow> nat" where
  "selected_drive m = unat (mtc_slt (mtc (tape m)))"

definition tape_controller_assert_unibus_interrupt :: "'a tape_sys_scheme \<Rightarrow> 'a tape_sys_scheme" where
  "tape_controller_assert_unibus_interrupt m =
     (if mtc_int_enb (mtc (tape m)) then assert_unibus_interrupt 0x94 m else m)"

definition tape_controller_is_mtc_err :: "'a tape_sys_scheme \<Rightarrow> bool" where
  "tape_controller_is_mtc_err m \<longleftrightarrow>
     (let s = mts (tape m)
      in mts_ilc s \<or> mts_eof s \<or> mts_eot s \<or> mts_rle s \<or> mts_bte s \<or> mts_nxm s)"

definition tape_controller_reset_mtc_err :: "'a tape_sys_scheme \<Rightarrow> 'a tape_sys_scheme" where
  "tape_controller_reset_mtc_err m =
     upd_mts (\<lambda>s. s\<lparr>mts_ilc := False, mts_eof := False, mts_eot := False, mts_rle := False,
                    mts_bte := False, mts_nxm := False\<rparr>) m"

definition tape_controller_encode_mts :: "'a tape_sys_scheme \<Rightarrow> u16" where
  "tape_controller_encode_mts m =
     (let s = mts (tape m); p = tape_drives (tape m) (selected_drive m) in
      flag_bit (mts_ilc s) 15 OR flag_bit (mts_eof s) 14 OR flag_bit False 13 OR
      flag_bit False 12 OR flag_bit False 11 OR flag_bit (mts_eot s) 10 OR
      flag_bit (mts_rle s) 9 OR flag_bit (mts_bte s) 8 OR flag_bit (mts_nxm s) 7 OR
      flag_bit (mts_selr s) 6 OR flag_bit (td_bot p) 5 OR flag_bit False 3 OR
      flag_bit (td_read_only p) 2 OR flag_bit (td_rws p) 1 OR flag_bit (td_ready p) 0)"

definition tape_controller_encode_mtc :: "'a tape_sys_scheme \<Rightarrow> u16" where
  "tape_controller_encode_mtc m =
     (let c = mtc (tape m) in
      flag_bit (tape_controller_is_mtc_err m) 15 OR
      flag_bit (mtc_den8 c) 14 OR flag_bit (mtc_den5 c) 13 OR flag_bit (mtc_pevn c) 11 OR
      ucast (push_bit 8 (mtc_slt c)) OR
      flag_bit (mtc_cur c) 7 OR flag_bit (mtc_int_enb c) 6 OR
      ucast (push_bit 4 (drop_bit 16 (mtcma (tape m)) AND 3)) OR
      ucast (push_bit 1 (mtc_fun c)))"

definition mts_reset :: mts_s where
  "mts_reset = \<lparr>mts_ilc = False, mts_eof = False, mts_eot = False, mts_rle = False,
     mts_bte = False, mts_nxm = False, mts_selr = False\<rparr>"

definition mtc_reset :: mtc_s where
  "mtc_reset = \<lparr>mtc_den8 = False, mtc_den5 = False, mtc_pevn = False, mtc_slt = 0,
     mtc_cur = True, mtc_int_enb = False, mtc_fun = 0\<rparr>"

definition tape_controller_bus_reset :: "'a tape_sys_scheme \<Rightarrow> 'a tape_sys_scheme" where
  "tape_controller_bus_reset m =
     m\<lparr>tape := (tape m)\<lparr>mts := mts_reset, mtc := mtc_reset, mtbrc := 0\<rparr>\<rparr>"

text \<open>\<open>pthread_cond_broadcast\<close> wakes the thread when it waits, and is lost otherwise.\<close>

definition tape_controller_broadcast_go :: "'a tape_sys_scheme \<Rightarrow> 'a tape_sys_scheme" where
  "tape_controller_broadcast_go m =
     (if go_waiting (tape m)
      then m\<lparr>tape := (tape m)\<lparr>go_waiting := False, go_signalled := True\<rparr>\<rparr> else m)"

definition tape_controller_update_mtc :: "u16 \<Rightarrow> 'a tape_sys_scheme \<Rightarrow> 'a tape_sys_scheme" where
  "tape_controller_update_mtc v m =
     (let m1 = upd_mtc (\<lambda>c. c\<lparr>mtc_den8 := u16_bit v 14, mtc_den5 := u16_bit v 13,
                 mtc_pevn := u16_bit v 11, mtc_slt := ucast (u16_bus v 10 8),
                 mtc_int_enb := u16_bit v 6, mtc_fun := ucast (u16_bus v 3 1)\<rparr>) m;
          ea = ucast (u16_bus v 5 4) :: u32;
          m2 = m1\<lparr>tape := (tape m1)\<lparr>mtcma := (mtcma (tape m1) AND 0x0000FFFF) OR push_bit 16 ea\<rparr>\<rparr>;
          m3 = upd_mts (mts_selr_update (\<lambda>_. td_online (drive_of (selected_drive m2) m2))) m2
      in if u16_bit v 12 then tape_controller_bus_reset m3
         else if u16_bit v 0 then tape_controller_broadcast_go m3
         else tape_controller_assert_unibus_interrupt m3)"

definition tape_controller_unibus_read :: "u32 \<Rightarrow> u16 \<Rightarrow> 'a tape_sys_scheme \<Rightarrow> fault + u16" where
  "tape_controller_unibus_read uaddr pv m =
     (if uaddr = 0x3F550 then Inr (tape_controller_encode_mts m)
      else if uaddr = 0x3F552 then Inr (tape_controller_encode_mtc m)
      else if uaddr = 0x3F554 then Inr (mtbrc (tape m))
      else if uaddr = 0x3F556 then Inr (ucast (mtcma (tape m) AND 0x0000FFFF))
      else if uaddr = 0x3F558 then Inr (mtd (tape m))
      else if uaddr = 0x3F55A then Inr (mtrd (tape m))
      else Inl (Errx ''tape: unknown read uaddr''))"

definition tape_controller_unibus_write ::
    "u32 \<Rightarrow> u16 \<Rightarrow> 'a tape_sys_scheme \<Rightarrow> fault + 'a tape_sys_scheme" where
  "tape_controller_unibus_write uaddr v m =
     (if uaddr = 0x3F552 then Inr (tape_controller_update_mtc v m)
      else if uaddr = 0x3F554 then Inr (m\<lparr>tape := (tape m)\<lparr>mtbrc := v\<rparr>\<rparr>)
      else if uaddr = 0x3F556 then
        Inr (m\<lparr>tape := (tape m)\<lparr>mtcma := (mtcma (tape m) AND 0xFFFF0000) OR ucast v\<rparr>\<rparr>)
      else if uaddr = 0x3F55A then Inr (m\<lparr>tape := (tape m)\<lparr>mtrd := v\<rparr>\<rparr>)
      else Inl (Errx ''tape: unknown write uaddr''))"

section \<open>Frames and invariant\<close>

lemmas tape_upd_defs = upd_drive_def upd_mts_def upd_mtc_def Let_def
  tape_controller_set_mts_eof_def tape_controller_set_mts_eot_def
  tape_controller_reset_mts_eot_def tape_controller_set_mts_bte_def

definition tape_only :: "'a tape_sys_scheme \<Rightarrow> 'a tape_sys_scheme \<Rightarrow> bool" where
  "tape_only m m' \<longleftrightarrow> m' = m\<lparr>intr := intr m', tape := tape m'\<rparr>"

lemma tape_only_refl [simp, intro!]: "tape_only m m"
  by (simp add: tape_only_def)

lemma tape_only_trans: "tape_only m m1 \<Longrightarrow> tape_only m1 m2 \<Longrightarrow> tape_only m m2"
  unfolding tape_only_def by (rule trans, assumption) (erule ssubst, simp)

lemma tape_only_slots [intro]:
  "tape_only m m1 \<Longrightarrow> tape_only m (m1\<lparr>tape := t\<rparr>)"
  "tape_only m m1 \<Longrightarrow> tape_only m (upd_mts f m1)"
  "tape_only m m1 \<Longrightarrow> tape_only m (upd_mtc g m1)"
  "tape_only m m1 \<Longrightarrow> tape_only m (upd_drive u h m1)"
  "tape_only m m1 \<Longrightarrow> tape_only m (assert_unibus_interrupt v m1)"
  by (erule tape_only_trans; simp add: tape_only_def tape_upd_defs intr_defs)+

lemma tape_register_ops_only [intro]:
  "tape_only m m1 \<Longrightarrow> tape_only m (tape_controller_assert_unibus_interrupt m1)"
  "tape_only m m1 \<Longrightarrow> tape_only m (tape_controller_broadcast_go m1)"
  "tape_only m m1 \<Longrightarrow> tape_only m (tape_controller_bus_reset m1)"
  "tape_only m m1 \<Longrightarrow> tape_only m (tape_controller_reset_mtc_err m1)"
  by (auto simp: tape_controller_assert_unibus_interrupt_def tape_controller_broadcast_go_def
      tape_controller_bus_reset_def tape_controller_reset_mtc_err_def)

lemma tape_update_only [intro]:
  "tape_only m m1 \<Longrightarrow> tape_only m (tape_controller_update_mtc v m1)"
  by (auto simp: tape_controller_update_mtc_def Let_def)

lemma tape_write_only:
  "tape_controller_unibus_write uaddr v m = Inr m' \<Longrightarrow> tape_only m m'"
  by (auto simp: tape_controller_unibus_write_def split: if_splits)

text \<open>
  The selected drive is one of the eight, the position of every drive is on its medium, which holds the
  configured length at the highest density, and the thread is in one place.  Unless a command is being
  executed the controller is ready (CUR), since only the thread clears that bit.
\<close>

definition td_wf :: "tape_drive_s \<Rightarrow> bool" where
  "td_wf p \<longleftrightarrow> 0 \<le> td_pos p \<and> td_pos p \<le> td_mmsz p \<and> td_length_ft p * 12 * 1600 \<le> td_mmsz p"

definition tape_wf :: "tape \<Rightarrow> bool" where
  "tape_wf t \<longleftrightarrow>
     unat (mtc_slt (mtc t)) < 8 \<and> (\<forall>u < 8. td_wf (tape_drives t u)) \<and>
     \<not> (go_waiting t \<and> go_signalled t) \<and> \<not> (go_waiting t \<and> go_running t) \<and>
     \<not> (go_signalled t \<and> go_running t) \<and> (go_running t \<or> mtc_cur (mtc t))"

definition tape_inv :: "'a tape_sys_scheme \<Rightarrow> bool" where
  "tape_inv m \<longleftrightarrow> intr_wf (intr m) \<and> tape_wf (tape m)"

lemma u16_bus_3: "unat (ucast (u16_bus v 10 8) :: u32) < 8" "unat (ucast (u16_bus v 3 1) :: u32) < 8"
proof -
  have lt: "unat (x AND 7 :: u16) < 8" for x
    by (rule unat_and_mask_less) simp
  have "unat (ucast (x AND 7 :: u16) :: u32) < 8" for x
  proof -
    have "unat (ucast (x AND 7 :: u16) :: u32) \<le> unat (x AND 7 :: u16)"
      unfolding unsigned_ucast_eq by (rule take_bit_nat_less_eq_self)
    then show ?thesis using lt [of x] by simp
  qed
  then show "unat (ucast (u16_bus v 10 8) :: u32) < 8" "unat (ucast (u16_bus v 3 1) :: u32) < 8"
    by (simp_all add: u16_bus_def)
qed

lemma tape_of_unibus_interrupt [simp]:
  "tape (tape_controller_assert_unibus_interrupt m) = tape m"
  by (simp add: tape_controller_assert_unibus_interrupt_def intr_defs Let_def)

lemma tape_inv_update [wf_intros]:
  assumes "tape_inv m"
  shows "tape_inv (tape_controller_update_mtc v m)"
proof -
  have "intr_wf (intr (tape_controller_update_mtc v m))"
    using assms
    by (simp add: intr_wf_ops(1) tape_inv_def tape_controller_update_mtc_def tape_controller_bus_reset_def
        tape_controller_broadcast_go_def tape_controller_assert_unibus_interrupt_def tape_upd_defs)
  moreover have "tape_wf (tape (tape_controller_update_mtc v m))"
    using assms
    by (auto simp: tape_inv_def tape_wf_def tape_controller_update_mtc_def
        tape_controller_bus_reset_def tape_controller_broadcast_go_def mtc_reset_def tape_upd_defs
        u16_bus_3)
  ultimately show ?thesis
    by (simp add: tape_inv_def)
qed

lemma tape_inv_write [wf_intros]:
  "tape_inv m \<Longrightarrow> tape_controller_unibus_write uaddr v m = Inr m' \<Longrightarrow> tape_inv m'"
  by (auto simp: tape_controller_unibus_write_def split: if_splits intro: tape_inv_update)
    (simp_all add: tape_inv_def tape_wf_def)

interpretation tape_dev: bus_device "\<lambda>a. True"
  "\<lambda>a v m. and_then (tape_controller_unibus_read a v m) (\<lambda>v. Inr (v, m))"
  tape_controller_unibus_write tape_inv
  by unfold_locales (auto simp: fault_simps intro: tape_inv_write)

end
