(* ===== verification/Uch11.thy ===== *)
theory Uch11
  imports Tape_Controller
begin

text \<open>
  The Chaosnet interface (\<^verbatim>\<open>usim/uch11.c\<close>) with the receive side of the local backend
  (\<open>chaos_poll_local\<close> of \<^verbatim>\<open>usim/uch11-local.c\<close>).  Buffers hold 16-bit words.  What the backend does with a
  packet that is sent is outside this theory: \<open>uch11_sent\<close> lists the packets, latest first, and the
  packets the backend has queued for the machine are \<open>uch11_queue\<close>, each as the words of its header and
  data.  \<open>Local_Server\<close> has the transmission with the call of the local backend (\<open>uch11_xmit_local\<close>), which also
  copies packets back in loopback mode and those for the own address.
\<close>

unbundle bit_operations_syntax

section \<open>State\<close>

record uch11 =
  uch11_myaddr :: u16
  uch11_csr :: u32
  uch11_bit_count :: u32
  uch11_lost_count :: u32
  uch11_xmit_buffer :: "nat \<Rightarrow> u16"
  uch11_xmit_buffer_size :: nat
  uch11_xmit_buffer_ptr :: nat
  uch11_rcv_buffer :: "nat \<Rightarrow> u16"
  uch11_rcv_buffer_ptr :: nat
  uch11_rcv_buffer_size :: nat
  uch11_rcv_buffer_empty :: bool
  uch11_queue :: "u16 list list"
  uch11_sent :: "u16 list list"

record uch_sys = tape_sys +
  uch :: uch11

section \<open>The checksum\<close>

text \<open>The sum of the big-endian byte pairs, and the folding of the carries into 16 bits.\<close>

fun uch11_sum :: "u8 list \<Rightarrow> nat" where
  "uch11_sum [] = 0"
| "uch11_sum [b] = unat b"
| "uch11_sum (a # b # bs) = (unat a * 256 + unat b) + uch11_sum bs"

function uch11_fold :: "nat \<Rightarrow> nat" where
  "uch11_fold s = (if s div 65536 \<noteq> 0 then uch11_fold (s mod 65536 + s div 65536) else s)"
  by auto
termination
proof (relation "measure id")
  show "wf (measure id)" by simp
  fix n :: nat
  assume "n div 65536 \<noteq> 0"
  moreover have "n = n div 65536 * 65536 + n mod 65536"
    by simp
  ultimately have "n mod 65536 + n div 65536 < n"
    by linarith
  then show "(n mod 65536 + n div 65536, n) \<in> measure id"
    by simp
qed

declare uch11_fold.simps [simp del]

definition uch11_checksum :: "u8 list \<Rightarrow> u16" where
  "uch11_checksum bytes = NOT (of_nat (uch11_fold (uch11_sum bytes)))"

text \<open>Folding keeps the sum modulo 65535, so data and checksum together sum to 0 in that ring.\<close>

lemma uch11_fold_range: "uch11_fold n < 65536"
  by (induction n rule: uch11_fold.induct) (subst uch11_fold.simps, auto)

lemma uch11_fold_mod: "uch11_fold n mod 65535 = n mod 65535"
proof (induction n rule: uch11_fold.induct)
  case (1 n)
  show ?case
  proof (cases "n div 65536 = 0")
    case True
    then show ?thesis by (subst uch11_fold.simps) simp
  next
    case False
    have "n = n div 65536 * 65535 + (n mod 65536 + n div 65536)"
      using div_mult_mod_eq [of n 65536] by linarith
    then have "n mod 65535 = (n mod 65536 + n div 65536) mod 65535"
      by (metis mod_mult_self3)
    with False 1 show ?thesis
      by (subst uch11_fold.simps) simp
  qed
qed

lemma uch11_checksum_unat: "unat (uch11_checksum bytes) = 65535 - uch11_fold (uch11_sum bytes)"
proof -
  have "unat (of_nat (uch11_fold (uch11_sum bytes)) :: u16) = uch11_fold (uch11_sum bytes)"
    using uch11_fold_range [of "uch11_sum bytes"] by (simp add: unsigned_of_nat take_bit_nat_eq_self)
  then show ?thesis
    using uch11_fold_range [of "uch11_sum bytes"]
    by (simp add: uch11_checksum_def not_eq_complement unat_sub_if_size
        unsigned_minus_1_eq_mask mask_nat_def word_size minus_diff_commute)
qed

lemma uch11_checksum_valid:
  "(uch11_sum bytes + unat (uch11_checksum bytes)) mod 65535 = 0"
proof -
  have "(uch11_sum bytes + (65535 - uch11_fold (uch11_sum bytes))) mod 65535 =
      (uch11_fold (uch11_sum bytes) + (65535 - uch11_fold (uch11_sum bytes))) mod 65535"
    by (metis mod_add_left_eq uch11_fold_mod)
  then show ?thesis
    using uch11_fold_range [of "uch11_sum bytes"] by (simp add: uch11_checksum_unat)
qed

section \<open>Operations\<close>

definition upd_uch :: "(uch11 \<Rightarrow> uch11) \<Rightarrow> 'a uch_sys_scheme \<Rightarrow> 'a uch_sys_scheme" where
  "upd_uch f m = m\<lparr>uch := f (uch m)\<rparr>"

definition uch11_rx_pkt :: "'a uch_sys_scheme \<Rightarrow> 'a uch_sys_scheme" where
  "uch11_rx_pkt m0 =
     (let m = idle_activity m0; c = uch m;
          c1 = c\<lparr>uch11_rcv_buffer_ptr := 0,
                 uch11_bit_count := of_nat (uch11_rcv_buffer_size c) * 2 * 8 - 1\<rparr>
      in if uch11_rcv_buffer_size c1 > 0 then
           let c2 = c1\<lparr>uch11_csr := uch11_csr c1 OR 0x8000\<rparr>; m1 = m\<lparr>uch := c2\<rparr>
           in if uch11_csr c2 AND 0x10 \<noteq> 0 then assert_unibus_interrupt 0xB8 m1 else m1
         else m\<lparr>uch := c1\<rparr>)"

definition uch11_xmit_done_intr :: "'a uch_sys_scheme \<Rightarrow> 'a uch_sys_scheme" where
  "uch11_xmit_done_intr m =
     (let m1 = upd_uch (\<lambda>c. c\<lparr>uch11_csr := uch11_csr c OR 0x80\<rparr>) m
      in if uch11_csr (uch m1) AND 0x20 \<noteq> 0 then assert_unibus_interrupt 0xB8 m1 else m1)"

text \<open>The bytes of a buffer of words, low byte first.\<close>

definition word_bytes :: "u16 list \<Rightarrow> u8 list" where
  "word_bytes ws = concat (map (\<lambda>w. [ucast w, ucast (drop_bit 8 w)]) ws)"

definition buffer_words :: "(nat \<Rightarrow> u16) \<Rightarrow> nat \<Rightarrow> u16 list" where
  "buffer_words b n = map b [0..<n]"

definition uch11_xmit_pkt :: "'a uch_sys_scheme \<Rightarrow> fault + 'a uch_sys_scheme" where
  "uch11_xmit_pkt m0 =
     (let m = idle_activity m0; c = uch m; n = uch11_xmit_buffer_ptr c in
      and_then (in_bounds 4096 n ''uch11_xmit_buffer'') (\<lambda>_.
        let b1 = (uch11_xmit_buffer c)(n := uch11_myaddr c)
        in and_then (in_bounds 4096 (n + 1) ''uch11_xmit_buffer'') (\<lambda>_.
             let b2 = b1(n + 1 := uch11_checksum (word_bytes (buffer_words b1 (n + 1))))
             in Inr (uch11_xmit_done_intr (m\<lparr>uch := c\<lparr>
                  uch11_xmit_buffer := b2, uch11_xmit_buffer_size := n + 2,
                  uch11_sent := buffer_words b2 (n + 2) # uch11_sent c,
                  uch11_xmit_buffer_ptr := 0\<rparr>\<rparr>)))))"

definition uch11_get_bit_count :: "'a uch_sys_scheme \<Rightarrow> u32" where
  "uch11_get_bit_count m =
     (if uch11_rcv_buffer_size (uch m) > 0 then uch11_bit_count (uch m) else 0xFFF)"

definition uch11_get_rcv_buffer :: "'a uch_sys_scheme \<Rightarrow> fault + u32 \<times> 'a uch_sys_scheme" where
  "uch11_get_rcv_buffer m =
     (let c = uch m; i = uch11_rcv_buffer_ptr c in
      if i < uch11_rcv_buffer_size c then
        and_then (in_bounds 4096 i ''uch11_rcv_buffer'') (\<lambda>_.
          Inr (ucast (uch11_rcv_buffer c i), m\<lparr>uch := c\<lparr>uch11_rcv_buffer_ptr := i + 1,
            uch11_rcv_buffer_empty :=
              (i + 1 = uch11_rcv_buffer_size c \<or> uch11_rcv_buffer_empty c)\<rparr>\<rparr>))
      else Inr (0, m\<lparr>uch := c\<lparr>uch11_csr := uch11_csr c AND NOT 0x8000,
                              uch11_rcv_buffer_size := 0\<rparr>\<rparr>))"

definition uch11_put_xmit_buffer :: "u16 \<Rightarrow> 'a uch_sys_scheme \<Rightarrow> 'a uch_sys_scheme" where
  "uch11_put_xmit_buffer v m =
     upd_uch (\<lambda>c.
       let c1 = (if uch11_xmit_buffer_ptr c < 4096
                 then c\<lparr>uch11_xmit_buffer := (uch11_xmit_buffer c)(uch11_xmit_buffer_ptr c := v),
                        uch11_xmit_buffer_ptr := uch11_xmit_buffer_ptr c + 1\<rparr>
                 else c)
       in c1\<lparr>uch11_csr := uch11_csr c1 AND NOT 0x80\<rparr>) m"

definition uch11_get_csr :: "'a uch_sys_scheme \<Rightarrow> u32" where
  "uch11_get_csr m = uch11_csr (uch m) OR (push_bit 9 (uch11_lost_count (uch m)) AND 0xF)"

text \<open>
  The bits of the register: receive done \<open>0x8000\<close>, CRC error \<open>0x4000\<close>, reset \<open>0x2000\<close>, lost count
  \<open>0x800\<close>, transmitter clear \<open>0x100\<close>, transmit done \<open>0x80\<close>, abort \<open>0x40\<close>, transmit enable \<open>0x20\<close>,
  receive enable \<open>0x10\<close>, receiver clear \<open>8\<close>.  \<open>uch11_force_reconect\<close> does nothing with the local
  backend.
\<close>

definition uch11_csr_mask :: u32 where
  "uch11_csr_mask = 0x80 OR 0x800 OR 0x4000 OR 0x8000 OR 0x8"

definition uch11_write_csr :: "u32 \<Rightarrow> uch11 \<Rightarrow> uch11" where
  "uch11_write_csr v c =
     (let c1 = c\<lparr>uch11_csr := (uch11_csr c AND uch11_csr_mask) OR (v AND NOT uch11_csr_mask)\<rparr>;
          c2 = (if uch11_csr c1 AND 0x2000 \<noteq> 0
                then c1\<lparr>uch11_rcv_buffer_ptr := 0, uch11_rcv_buffer_size := 0,
                        uch11_xmit_buffer_ptr := 0, uch11_lost_count := 0, uch11_bit_count := 0,
                        uch11_csr := (uch11_csr c1 AND NOT (0x2000 OR 0x8000)) OR 0x80\<rparr>
                else c1);
          c3 = (if v AND 0x8 \<noteq> 0
                then c2\<lparr>uch11_rcv_buffer_ptr := 0, uch11_rcv_buffer_size := 0,
                        uch11_lost_count := 0, uch11_bit_count := 0,
                        uch11_csr := uch11_csr c2 AND NOT 0x8000\<rparr>
                else c2)
      in if v AND (0x100 OR 0x80) \<noteq> 0
         then c3\<lparr>uch11_xmit_buffer_ptr := 0, uch11_csr := (uch11_csr c3 AND NOT 0x40) OR 0x80\<rparr>
         else c3)"

definition uch11_set_csr :: "u32 \<Rightarrow> 'a uch_sys_scheme \<Rightarrow> 'a uch_sys_scheme" where
  "uch11_set_csr v m =
     (let c4 = uch11_write_csr (v AND 0xFFFF) (uch m);
          m5 = (if uch11_csr c4 AND 0x10 \<noteq> 0 then
                  let c5 = (if uch11_rcv_buffer_empty c4
                            then c4\<lparr>uch11_rcv_buffer_ptr := 0, uch11_rcv_buffer_size := 0\<rparr>
                            else c4)
                  in if uch11_rcv_buffer_size c5 > 0 then uch11_rx_pkt (m\<lparr>uch := c5\<rparr>)
                     else m\<lparr>uch := c5\<rparr>
                else m\<lparr>uch := c4\<rparr>)
      in if uch11_csr (uch m5) AND 0x20 \<noteq> 0
         then upd_uch (\<lambda>c. c\<lparr>uch11_csr := uch11_csr c OR 0x80\<rparr>) m5 else m5)"

section \<open>Polling the local backend\<close>

text \<open>
  A queued packet: the number of data bytes is in the low 12 bits of word 1, the destination is word
  2, the source word 4 and the header has 8 words.  Words past the end of the packet are whatever
  lies behind it (0 here).
\<close>

definition pkt_word :: "u16 list \<Rightarrow> nat \<Rightarrow> u16" where
  "pkt_word p i = (if i < length p then p ! i else 0)"

definition pkt_size :: "u16 list \<Rightarrow> nat" where
  "pkt_size p = (unat (pkt_word p 1 AND 0xFFF) + 16 + 1) div 2"

definition chaos_poll_local :: "'a uch_sys_scheme \<Rightarrow> 'a uch_sys_scheme" where
  "chaos_poll_local m =
     (let c = uch m in
      if \<not> uch11_rcv_buffer_empty c then m
      else case uch11_queue c of
        [] \<Rightarrow> m
      | p # ps \<Rightarrow>
          if uch11_csr c AND 0x10 = 0 then m
          else
            let c1 = c\<lparr>uch11_queue := ps\<rparr>; size = pkt_size p in
            if pkt_word p 2 \<noteq> uch11_myaddr c then m\<lparr>uch := c1\<rparr>
            else
              let b = copy_in (uch11_rcv_buffer c1) 0 size (pkt_word p);
                  b' = b(size := pkt_word p 2, size + 1 := pkt_word p 4, size + 2 := 0)
              in uch11_rx_pkt (m\<lparr>uch := c1\<lparr>uch11_rcv_buffer := b',
                   uch11_rcv_buffer_size := size + 3, uch11_rcv_buffer_empty := False\<rparr>\<rparr>))"

definition uch11_poll :: "'a uch_sys_scheme \<Rightarrow> 'a uch_sys_scheme" where
  "uch11_poll m = chaos_poll_local m"

section \<open>Invariant and frame\<close>

definition uch_wf :: "uch11 \<Rightarrow> bool" where
  "uch_wf c \<longleftrightarrow> uch11_xmit_buffer_ptr c \<le> 4096 \<and> uch11_rcv_buffer_size c \<le> 4096"

definition uch_only :: "'a uch_sys_scheme \<Rightarrow> 'a uch_sys_scheme \<Rightarrow> bool" where
  "uch_only m m' \<longleftrightarrow> m' = m\<lparr>intr := intr m', idl := idl m', uch := uch m'\<rparr>"

lemma uch_only_refl [simp, intro!]: "uch_only m m"
  by (simp add: uch_only_def)

lemma uch_only_trans: "uch_only m m1 \<Longrightarrow> uch_only m1 m2 \<Longrightarrow> uch_only m m2"
  unfolding uch_only_def by (rule trans, assumption) (erule ssubst, simp)

lemma uch_only_slots [intro]:
  "uch_only m m1 \<Longrightarrow> uch_only m (m1\<lparr>uch := c\<rparr>)"
  "uch_only m m1 \<Longrightarrow> uch_only m (upd_uch f m1)"
  "uch_only m m1 \<Longrightarrow> uch_only m (idle_activity m1)"
  "uch_only m m1 \<Longrightarrow> uch_only m (assert_unibus_interrupt v m1)"
  by (erule uch_only_trans; simp add: uch_only_def upd_uch_def idle_activity_def intr_defs Let_def)+

lemma uch_only_ops [intro]:
  "uch_only m m1 \<Longrightarrow> uch_only m (uch11_rx_pkt m1)"
  "uch_only m m1 \<Longrightarrow> uch_only m (uch11_xmit_done_intr m1)"
  "uch_only m m1 \<Longrightarrow> uch_only m (uch11_put_xmit_buffer v m1)"
  by (auto simp: uch11_rx_pkt_def uch11_xmit_done_intr_def uch11_put_xmit_buffer_def Let_def)

lemma uch_only_handlers:
  "uch_only m (uch11_set_csr v m)" "uch_only m (chaos_poll_local m)" "uch_only m (uch11_poll m)"
  "uch11_xmit_pkt m = Inr m' \<Longrightarrow> uch_only m m'"
  "uch11_get_rcv_buffer m = Inr (w, m') \<Longrightarrow> uch_only m m'"
  by (auto simp: uch11_set_csr_def uch11_poll_def chaos_poll_local_def uch11_xmit_pkt_def
      uch11_get_rcv_buffer_def Let_def fault_simps split: list.splits if_splits)

definition uch_inv :: "'a uch_sys_scheme \<Rightarrow> bool" where
  "uch_inv m \<longleftrightarrow> intr_wf (intr m) \<and> uch_wf (uch m)"

lemma uch_inv_slots [simp]:
  "uch_inv (m\<lparr>uch := c\<rparr>) \<longleftrightarrow> intr_wf (intr m) \<and> uch_wf c"
  "uch_inv (idle_activity m) = uch_inv m"
  "uch_inv m \<Longrightarrow> uch_inv (assert_unibus_interrupt v m)"
  by (auto simp: uch_inv_def idle_activity_def intr_wf_ops) (simp add: intr_defs Let_def)

lemma pkt_size_bound: "pkt_size p + 3 \<le> 4096"
proof -
  have "unat (pkt_word p 1 AND 0xFFF) < 4096"
    by (rule unat_and_mask_less) simp
  then show ?thesis
    by (simp add: pkt_size_def)
qed

lemma uch_wf_csr [simp]: "uch_wf (c\<lparr>uch11_csr := x\<rparr>) = uch_wf c"
  by (simp add: uch_wf_def)

lemma uch_inv_intr: "uch_inv m \<Longrightarrow> intr_wf (intr m)"
  by (simp add: uch_inv_def)

lemma idle_activity_slots [simp]:
  "uch (idle_activity m) = uch m" "intr (idle_activity m) = intr m"
  by (simp_all add: idle_activity_def)

lemma uch_of_unibus_interrupt [simp]: "uch (assert_unibus_interrupt v m) = uch m"
  by (simp add: intr_defs Let_def)

lemma uch_wf_fields [simp]:
  "uch_wf (c\<lparr>uch11_rcv_buffer_ptr := i\<rparr>) = uch_wf c"
  "uch_wf (c\<lparr>uch11_bit_count := n\<rparr>) = uch_wf c"
  "uch_wf (c\<lparr>uch11_lost_count := n\<rparr>) = uch_wf c"
  "uch_wf (c\<lparr>uch11_rcv_buffer_empty := e\<rparr>) = uch_wf c"
  "uch_wf c \<Longrightarrow> uch_wf (c\<lparr>uch11_rcv_buffer_size := 0\<rparr>)"
  "uch_wf c \<Longrightarrow> uch_wf (c\<lparr>uch11_xmit_buffer_ptr := 0\<rparr>)"
  by (simp_all add: uch_wf_def)

lemma uch_wf_write_csr [simp]: "uch_wf c \<Longrightarrow> uch_wf (uch11_write_csr v c)"
  by (simp add: uch11_write_csr_def Let_def)

lemma uch_inv_uch [simp]: "uch_inv m \<Longrightarrow> uch_wf (uch m)"
  by (simp add: uch_inv_def)

lemma uch_inv_ops [simp]:
  "uch_inv m \<Longrightarrow> uch_inv (uch11_rx_pkt m)"
  "uch_inv m \<Longrightarrow> uch_inv (uch11_xmit_done_intr m)"
  "uch_inv m \<Longrightarrow> uch_inv (uch11_put_xmit_buffer v m)"
  by (simp_all add: uch11_rx_pkt_def uch11_xmit_done_intr_def uch11_put_xmit_buffer_def upd_uch_def
      Let_def uch_inv_intr)
    (simp_all add: uch_inv_def uch_wf_def)

lemma uch_inv_set_csr [simp]: "uch_inv m \<Longrightarrow> uch_inv (uch11_set_csr v m)"
proof -
  assume m: "uch_inv m"
  let ?c4 = "uch11_write_csr (v AND 0xFFFF) (uch m)"
  let ?c5 = "if uch11_rcv_buffer_empty ?c4
    then ?c4\<lparr>uch11_rcv_buffer_ptr := 0, uch11_rcv_buffer_size := 0\<rparr> else ?c4"
  have "uch_inv (m\<lparr>uch := ?c4\<rparr>)" "uch_inv (m\<lparr>uch := ?c5\<rparr>)"
    using m by (simp_all add: uch_inv_intr)
  moreover have "uch_inv m' \<Longrightarrow> uch_inv (upd_uch (\<lambda>c. c\<lparr>uch11_csr := x c\<rparr>) m')"
    for m' :: "'a uch_sys_scheme" and x
    by (simp add: upd_uch_def uch_inv_intr)
  ultimately show ?thesis
    by (simp add: uch11_set_csr_def Let_def del: uch_inv_slots(1))
qed

lemma uch_inv_poll [simp]: "uch_inv m \<Longrightarrow> uch_inv (chaos_poll_local m)"
proof -
  assume m: "uch_inv m"
  have "uch_wf ((uch m)\<lparr>uch11_queue := q, uch11_rcv_buffer := b,
      uch11_rcv_buffer_size := pkt_size p + 3, uch11_rcv_buffer_empty := e\<rparr>)" for q b p e
    using m pkt_size_bound [of p] by (simp add: uch_wf_def uch_inv_def)
  moreover have "uch_wf ((uch m)\<lparr>uch11_queue := q\<rparr>)" for q
    using m by (simp add: uch_wf_def uch_inv_def)
  ultimately show ?thesis
    using m uch_inv_intr [OF m]
    by (simp add: chaos_poll_local_def Let_def split: list.split)
qed

lemma uch_inv_xmit: "uch_inv m \<Longrightarrow> uch11_xmit_pkt m = Inr m' \<Longrightarrow> uch_inv m'"
  by (auto simp: uch11_xmit_pkt_def Let_def fault_simps uch_inv_intr uch_wf_def
      intro!: uch_inv_ops(2)) (simp add: uch_inv_def uch_wf_def)

lemma uch_inv_get_rcv: "uch_inv m \<Longrightarrow> uch11_get_rcv_buffer m = Inr (w, m') \<Longrightarrow> uch_inv m'"
  by (auto simp: uch11_get_rcv_buffer_def Let_def fault_simps uch_inv_intr split: if_splits)

lemma uch11_get_rcv_ok: "uch_inv m \<Longrightarrow> \<exists>r. uch11_get_rcv_buffer m = Inr r"
  by (auto simp: uch11_get_rcv_buffer_def Let_def uch_inv_def uch_wf_def)

end
