(* ===== verification/Iob.thy ===== *)
theory Iob
  imports Uch11
begin

text \<open>
  The I/O board (\<^verbatim>\<open>usim/iob.c\<close>, SDL3 build): keyboard and mouse registers with their ready bits and
  interrupts, the microsecond clock, the 60 Hz clock, the interval timer and the Chaosnet registers.

  \<open>time_of_day\<close> is the host's clock (seconds, microseconds), which the environment moves;
  \<open>us_base\<close> is the static variable of \<open>get_us_clock\<close>.  Sound, messages and the host's timer are not
  part of the state, except that \<open>interval_timer\<close> keeps the value the timer was last set to.
\<close>

unbundle bit_operations_syntax

record iob =
  iob_csr :: u32
  iob_usec :: u32
  the_60_cycle_clock :: u16
  iob_scancode :: u32
  iob_mouse_x :: u16
  iob_mouse_y :: u16
  interval_timer :: "u32 \<times> u32"
  time_of_day :: "int \<times> int"
  us_base :: "int \<times> int"

record iob_sys = uch_sys +
  iob :: iob

definition upd_iob :: "(iob \<Rightarrow> iob) \<Rightarrow> 'a iob_sys_scheme \<Rightarrow> 'a iob_sys_scheme" where
  "upd_iob f m = m\<lparr>iob := f (iob m)\<rparr>"

definition get_us_clock :: "'a iob_sys_scheme \<Rightarrow> u32 \<times> 'a iob_sys_scheme" where
  "get_us_clock m =
     (let tv = us_base (iob m); now = time_of_day (iob m) in
      if fst tv = 0 then (0, upd_iob (us_base_update (\<lambda>_. now)) m)
      else
        let tv2 = (if snd now < snd tv then (fst now - 1, snd now + 1000 * 1000) else now);
            ds = of_int (fst tv2 - fst tv) :: u32;
            du = of_int (snd tv2 - snd tv) :: u32
        in (ds * 1000 * 1000 + du, m))"

section \<open>Keyboard and mouse\<close>

text \<open>
  The boot scan codes as the code writes them: \<open>0b111111 < 10\<close> is a comparison and contributes 0.
\<close>

definition cold_boot_scancode :: u32 where
  "cold_boot_scancode = push_bit 19 0x1F OR push_bit 16 0x7 OR (if (0x3F :: u32) < 10 then 1 else 0) OR 0x26"

definition warm_boot_scancode :: u32 where
  "warm_boot_scancode = push_bit 19 0x1F OR push_bit 16 0x7 OR (if (0x3F :: u32) < 10 then 1 else 0) OR 0x32"

definition iob_is_keyboard_ready_set :: "'a iob_sys_scheme \<Rightarrow> bool" where
  "iob_is_keyboard_ready_set m \<longleftrightarrow> iob_csr (iob m) AND push_bit 5 1 \<noteq> 0"

definition iob_set_keyboard_ready :: "u32 \<Rightarrow> 'a iob_sys_scheme \<Rightarrow> 'a iob_sys_scheme" where
  "iob_set_keyboard_ready scancode m =
     (let m1 = (if scancode = cold_boot_scancode then machine_control_boot m
                else if scancode = warm_boot_scancode then machine_control_boot m else m);
          m2 = upd_iob (\<lambda>i. i\<lparr>iob_scancode := scancode, iob_csr := iob_csr i OR push_bit 5 1\<rparr>) m1
      in if iob_csr (iob m2) AND push_bit 2 1 \<noteq> 0 then assert_unibus_interrupt 0xB0 m2 else m2)"

definition iob_clear_keyboard_ready :: "'a iob_sys_scheme \<Rightarrow> 'a iob_sys_scheme" where
  "iob_clear_keyboard_ready m = upd_iob (\<lambda>i. i\<lparr>iob_csr := iob_csr i AND NOT (push_bit 5 1)\<rparr>) m"

definition iob_is_mouse_ready_set :: "'a iob_sys_scheme \<Rightarrow> bool" where
  "iob_is_mouse_ready_set m \<longleftrightarrow> iob_csr (iob m) AND push_bit 4 1 \<noteq> 0"

text \<open>The coordinates are masked with the hexadecimal constant \<open>0x7777\<close>, as in the code.\<close>

definition iob_set_mouse_ready ::
    "u32 \<Rightarrow> u32 \<Rightarrow> u32 \<Rightarrow> u32 \<Rightarrow> u32 \<Rightarrow> u32 \<Rightarrow> u32 \<Rightarrow> 'a iob_sys_scheme \<Rightarrow> 'a iob_sys_scheme" where
  "iob_set_mouse_ready mouse_x mouse_rawx mouse_y mouse_rawy mouse_head mouse_middle mouse_tail m =
     (let m1 = upd_iob (\<lambda>i. i\<lparr>
            iob_mouse_x := ucast (push_bit 12 mouse_rawx OR push_bit 14 mouse_rawy OR
                                  (mouse_x AND 0x7777)),
            iob_mouse_y := ucast (push_bit 12 mouse_tail OR push_bit 13 mouse_middle OR
                                  push_bit 14 mouse_head OR (mouse_y AND 0x7777)),
            iob_csr := iob_csr i OR push_bit 4 1\<rparr>) m
      in if iob_csr (iob m1) AND push_bit 1 1 \<noteq> 0 then assert_unibus_interrupt 0xB4 m1 else m1)"

definition iob_clear_mouse_ready :: "'a iob_sys_scheme \<Rightarrow> 'a iob_sys_scheme" where
  "iob_clear_mouse_ready m = upd_iob (\<lambda>i. i\<lparr>iob_csr := iob_csr i AND NOT (push_bit 4 1)\<rparr>) m"

section \<open>The Unibus registers\<close>

definition iob_unibus_read :: "u32 \<Rightarrow> 'a iob_sys_scheme \<Rightarrow> fault + u16 \<times> 'a iob_sys_scheme" where
  "iob_unibus_read uaddr m =
     (let i = iob m in
      if uaddr = 0x3E840 then
        Inr (ucast (iob_scancode i AND 0xFFFF), iob_clear_keyboard_ready m)
      else if uaddr = 0x3E842 then
        Inr (ucast (drop_bit 16 (iob_scancode i) AND 0xFFFF), m)
      else if uaddr = 0x3E844 then Inr (iob_mouse_y i, iob_clear_mouse_ready m)
      else if uaddr = 0x3E846 then Inr (iob_mouse_x i, m)
      else if uaddr = 0x3E848 then Inr (0, m)
      else if uaddr = 0x3E84A then Inr (ucast (iob_csr i), m)
      else if uaddr = 0x3E850 then
        (let (us, m1) = get_us_clock m
         in Inr (ucast (us AND 0xFFFF), upd_iob (iob_usec_update (\<lambda>_. us)) m1))
      else if uaddr = 0x3E852 then Inr (ucast (drop_bit 16 (iob_usec i)), m)
      else if uaddr = 0x3E854 then Inr (the_60_cycle_clock i, m)
      else if uaddr = 0x3E856 then Inr (0, m)
      else if uaddr = 0x3E860 then Inr (ucast (uch11_get_csr m), m)
      else if uaddr = 0x3E862 then Inr (uch11_myaddr (uch m), m)
      else if uaddr = 0x3E864 then
        and_then (uch11_get_rcv_buffer m) (\<lambda>(w, m1). Inr (ucast w, m1))
      else if uaddr = 0x3E866 then Inr (ucast (uch11_get_bit_count m), m)
      else if uaddr = 0x3E868 then Inr (0, m)
      else if uaddr = 0x3E86A then
        and_then (uch11_xmit_pkt m) (\<lambda>m1. Inr (uch11_myaddr (uch m), m1))
      else if uaddr = 0x3E86C \<or> uaddr = 0x3E86E then Inr (0, m)
      else if uaddr = 0x3E870 \<or> uaddr = 0x3E872 \<or> uaddr = 0x3E874 \<or> uaddr = 0x3E876 then Inr (0, m)
      else if uaddr = 0x3E878 \<or> uaddr = 0x3E87A \<or> uaddr = 0x3E87C \<or> uaddr = 0x3E87E then Inr (0, m)
      else Inl (Errx ''iob: read from unknown uaddr''))"

definition iob_unibus_write :: "u32 \<Rightarrow> u16 \<Rightarrow> 'a iob_sys_scheme \<Rightarrow> fault + 'a iob_sys_scheme" where
  "iob_unibus_write uaddr v m =
     (if uaddr = 0x3E840 \<or> uaddr = 0x3E842 \<or> uaddr = 0x3E844 \<or> uaddr = 0x3E846 \<or> uaddr = 0x3E848
      then Inr m
      else if uaddr = 0x3E84A then
        Inr (upd_iob (\<lambda>i. i\<lparr>iob_csr := (iob_csr i AND NOT 0xF) OR (ucast v AND 0xF)\<rparr>) m)
      else if uaddr = 0x3E850 \<or> uaddr = 0x3E852 then Inr m
      else if uaddr = 0x3E854 then
        Inr (upd_iob (interval_timer_update (\<lambda>_.
               ((16 * ucast v) div 1000000, (16 * ucast v) mod 1000000))) m)
      else if uaddr = 0x3E860 then Inr (uch11_set_csr (ucast v) m)
      else if uaddr = 0x3E862 then Inr (uch11_put_xmit_buffer v m)
      else if uaddr = 0x3E864 \<or> uaddr = 0x3E866 \<or> uaddr = 0x3E868 \<or> uaddr = 0x3E86A then Inr m
      else if uaddr = 0x3E870 \<or> uaddr = 0x3E872 \<or> uaddr = 0x3E874 \<or> uaddr = 0x3E876 then Inr m
      else Inl (Errx ''iob: write from unknown uaddr''))"

definition interval_timer_over :: "'a iob_sys_scheme \<Rightarrow> 'a iob_sys_scheme" where
  "interval_timer_over m = assert_unibus_interrupt 0xBC m"

definition iob_poll :: "'a iob_sys_scheme \<Rightarrow> 'a iob_sys_scheme" where
  "iob_poll m = uch11_poll m"

definition iob_prepare_for_warm_boot :: "'a iob_sys_scheme \<Rightarrow> 'a iob_sys_scheme" where
  "iob_prepare_for_warm_boot m =
     upd_iob (\<lambda>i. i\<lparr>iob_scancode := 0x32, iob_csr := iob_csr i OR push_bit 5 1\<rparr>) m"

text \<open>The 60 Hz handler of \<^verbatim>\<open>usim/usim.c\<close>: screen interrupts and the clock.\<close>

definition run_at_60hz :: "'a iob_sys_scheme \<Rightarrow> 'a iob_sys_scheme" where
  "run_at_60hz m =
     (let m1 = tv_assert_interrupt m;
          m2 = (if colortv_enabled (ctv m1) then colortv_assert_interrupt m1 else m1)
      in upd_iob (\<lambda>i. i\<lparr>the_60_cycle_clock := the_60_cycle_clock i + 1\<rparr>) m2)"

section \<open>Invariant and frame\<close>

definition iob_only :: "'a iob_sys_scheme \<Rightarrow> 'a iob_sys_scheme \<Rightarrow> bool" where
  "iob_only m m' \<longleftrightarrow> m' = m\<lparr>intr := intr m', idl := idl m', uch := uch m', iob := iob m'\<rparr>"

lemma iob_only_refl [simp, intro!]: "iob_only m m"
  by (simp add: iob_only_def)

lemma iob_only_trans: "iob_only m m1 \<Longrightarrow> iob_only m1 m2 \<Longrightarrow> iob_only m m2"
  unfolding iob_only_def by (rule trans, assumption) (erule ssubst, simp)

lemma uch_iob_only: "uch_only m m' \<Longrightarrow> iob_only m m'"
  unfolding iob_only_def uch_only_def by (erule ssubst) simp

lemma iob_only_slots [intro]:
  "iob_only m (upd_iob f m)"
  by (simp add: iob_only_def upd_iob_def)

lemma uch_of_boot: "uch (machine_control_boot m) = uch m" "iob (machine_control_boot m) = iob m"
  by (simp_all add: machine_control_boot_def machine_control_reset_def Let_def)

lemma get_us_clock_only: "get_us_clock m = (v, m') \<Longrightarrow> iob_only m m'"
  by (auto simp: get_us_clock_def Let_def split: if_splits)

lemma iob_read_only:
  assumes "iob_unibus_read uaddr m = Inr (v, m')"
  shows "iob_only m m'"
proof -
  have "iob_only m (upd_iob f (snd (get_us_clock m)))" for f
    using get_us_clock_only [of m "fst (get_us_clock m)" "snd (get_us_clock m)"]
    by (auto intro: iob_only_trans)
  then show ?thesis
    using assms
    by (auto simp: iob_unibus_read_def Let_def fault_simps iob_clear_keyboard_ready_def
        iob_clear_mouse_ready_def case_prod_beta split: if_splits
        intro: uch_iob_only uch_only_handlers)
qed

lemma iob_write_only:
  "iob_unibus_write uaddr v m = Inr m' \<Longrightarrow> iob_only m m'"
  by (auto simp: iob_unibus_write_def Let_def split: if_splits
      intro: uch_iob_only uch_only_handlers uch_only_ops)

lemma uch_inv_upd_iob [simp]: "uch_inv (upd_iob f m) = uch_inv m"
  by (simp add: uch_inv_def upd_iob_def)

lemma iob_read_inv:
  assumes "iob_unibus_read uaddr m = Inr (v, m')" and "uch_inv m"
  shows "uch_inv m'"
proof -
  have "uch_inv (snd (get_us_clock m))"
    using assms(2) by (simp add: get_us_clock_def Let_def)
  then show ?thesis
    using assms
    by (auto simp: iob_unibus_read_def Let_def fault_simps iob_clear_keyboard_ready_def
        iob_clear_mouse_ready_def case_prod_beta split: if_splits
        intro: uch_inv_xmit uch_inv_get_rcv)
qed

lemma iob_write_inv:
  "iob_unibus_write uaddr v m = Inr m' \<Longrightarrow> uch_inv m \<Longrightarrow> uch_inv m'"
  by (auto simp: iob_unibus_write_def Let_def split: if_splits)

interpretation iob_dev: bus_device "\<lambda>a. True" "\<lambda>a v. iob_unibus_read a" iob_unibus_write uch_inv
  by unfold_locales (auto intro: iob_read_inv iob_write_inv)

end
