(* ===== verification/Sdl3_Keyboard.thy ===== *)
theory Sdl3_Keyboard
  imports Iob
begin

text \<open>
  The keyboard of the SDL3 build (\<^verbatim>\<open>usim/sdl3-keyboard.c\<close>): the queue of scan codes between the event
  handlers and the keyboard thread, the thread, and the encoding of key events into the 24-bit codes of
  the new (Space Cadet) keyboard.

  \<open>key_map\<close> maps host scan codes to cadet scan codes (0: not mapped); which keys the host reports as
  down is an argument of the handlers.  Changing the scaling mode and dumping the state, which the
  special key selects, are host I/O.
\<close>

unbundle bit_operations_syntax

section \<open>State\<close>

text \<open>
  \<open>kb_pending\<close> is the scan code the thread has taken from the queue and is trying to hand over, with the
  number of times it will still wait for the I/O board; \<open>kb_sem\<close> counts the signals of the semaphore.
\<close>

record keyboard =
  kb_queue :: "nat \<Rightarrow> u32"
  kb_queue_read :: nat
  kb_queue_write :: nat
  kb_queue_nelem :: nat
  kb_sem :: nat
  kb_pending :: "(u32 \<times> nat) option"
  kb_quit :: bool
  key_map :: "nat \<Rightarrow> u8"
  special_key_scancode :: nat
  disable_up_codes_for_boot :: bool
  caps_lock_down :: bool
  alt_lock_down :: bool
  mode_lock_down :: bool

record kbd_sys = iob_sys +
  kbd :: keyboard

section \<open>The queue\<close>

definition ring_succ :: "nat \<Rightarrow> nat" where
  "ring_succ i = (if i + 1 = 100 then 0 else i + 1)"

definition sdl3_keyboard_enqueue :: "u32 \<Rightarrow> keyboard \<Rightarrow> keyboard" where
  "sdl3_keyboard_enqueue scancode k =
     (if kb_queue_nelem k = 100 then k
      else k\<lparr>kb_queue := (kb_queue k)(kb_queue_write k := scancode),
             kb_queue_write := ring_succ (kb_queue_write k),
             kb_queue_nelem := kb_queue_nelem k + 1,
             kb_sem := kb_sem k + 1\<rparr>)"

definition sdl3_keyboard_dequeue :: "keyboard \<Rightarrow> u32 \<times> keyboard" where
  "sdl3_keyboard_dequeue k =
     (if kb_queue_nelem k > 0 then
        (kb_queue k (kb_queue_read k),
         k\<lparr>kb_queue_read := ring_succ (kb_queue_read k),
           kb_queue_nelem := kb_queue_nelem k - 1\<rparr>)
      else (0, k))"

definition kb_items :: "keyboard \<Rightarrow> u32 list" where
  "kb_items k = map (\<lambda>i. kb_queue k ((kb_queue_read k + i) mod 100)) [0..<kb_queue_nelem k]"

definition kb_wf :: "keyboard \<Rightarrow> bool" where
  "kb_wf k \<longleftrightarrow>
     kb_queue_read k < 100 \<and> kb_queue_write k < 100 \<and> kb_queue_nelem k \<le> 100 \<and>
     kb_queue_write k = (kb_queue_read k + kb_queue_nelem k) mod 100"

lemma ring_succ_mod: "ring_succ (x mod 100) = Suc x mod 100"
  using mod_Suc [of x 100] by (simp add: ring_succ_def)

lemma ring_succ_lt [simp]: "i < 100 \<Longrightarrow> ring_succ i < 100"
  by (auto simp: ring_succ_def)

lemma ring_succ_eq: "i < 100 \<Longrightarrow> ring_succ i = Suc i mod 100"
  using ring_succ_mod [of i] by simp

lemma ring_add: "i < 100 \<Longrightarrow> (ring_succ i + n) mod 100 = (i + Suc n) mod 100"
  using mod_add_left_eq [of "Suc i" 100 n] by (simp add: ring_succ_eq)

lemma kb_wf_enqueue: "kb_wf k \<Longrightarrow> kb_wf (sdl3_keyboard_enqueue v k)"
  using ring_succ_mod [of "kb_queue_read k + kb_queue_nelem k"]
  by (simp add: kb_wf_def sdl3_keyboard_enqueue_def)

lemma kb_wf_dequeue: "kb_wf k \<Longrightarrow> kb_wf (snd (sdl3_keyboard_dequeue k))"
  using ring_add [of "kb_queue_read k" "kb_queue_nelem k - 1"]
  by (cases "kb_queue_nelem k") (simp_all add: kb_wf_def sdl3_keyboard_dequeue_def)

lemma ring_distinct: "j < n \<Longrightarrow> n < 100 \<Longrightarrow> (r + j) mod 100 \<noteq> (r + n) mod (100 :: nat)"
proof
  assume lt: "j < n" "n < 100" and "(r + j) mod 100 = (r + n) mod (100 :: nat)"
  then have "(100 :: nat) dvd (r + n) - (r + j)"
    by (metis add_le_cancel_left less_imp_le mod_eq_dvd_iff_nat)
  then have "(100 :: nat) dvd n - j"
    by simp
  with lt show False
    by (auto dest: dvd_imp_le)
qed

lemma kb_items_enqueue:
  assumes "kb_wf k" "length (kb_items k) < 100"
  shows "kb_items (sdl3_keyboard_enqueue v k) = kb_items k @ [v]"
proof -
  have n: "kb_queue_nelem k < 100"
    using assms by (simp add: kb_items_def)
  have "(kb_queue_read k + j) mod 100 \<noteq> kb_queue_write k" if "j < kb_queue_nelem k" for j
    using that n ring_distinct assms(1) by (simp add: kb_wf_def)
  then show ?thesis
    using n assms(1) by (auto simp: kb_items_def sdl3_keyboard_enqueue_def Let_def kb_wf_def)
qed

lemma kb_items_dequeue:
  assumes "kb_wf k" "kb_items k \<noteq> []"
  shows "fst (sdl3_keyboard_dequeue k) = hd (kb_items k) \<and>
    kb_items (snd (sdl3_keyboard_dequeue k)) = tl (kb_items k)"
proof -
  obtain n where n: "kb_queue_nelem k = Suc n"
    using assms(2) by (cases "kb_queue_nelem k") (auto simp: kb_items_def)
  have r: "kb_queue_read k < 100"
    using assms(1) by (simp add: kb_wf_def)
  have "kb_items k = kb_queue k (kb_queue_read k) #
      map (\<lambda>i. kb_queue k ((kb_queue_read k + Suc i) mod 100)) [0..<n]"
    using r by (simp add: kb_items_def n upt_conv_Cons map_Suc_upt [symmetric] comp_def
        del: upt_Suc)
  moreover have "kb_items (snd (sdl3_keyboard_dequeue k)) =
      map (\<lambda>i. kb_queue k ((kb_queue_read k + Suc i) mod 100)) [0..<n]"
    using ring_add [OF r] by (simp add: kb_items_def sdl3_keyboard_dequeue_def n)
  moreover have "fst (sdl3_keyboard_dequeue k) = kb_queue k (kb_queue_read k)"
    by (simp add: sdl3_keyboard_dequeue_def n)
  ultimately show ?thesis
    by simp
qed

interpretation kb: bounded_queue 100 kb_wf sdl3_keyboard_enqueue sdl3_keyboard_dequeue kb_items
proof unfold_locales
  fix k :: keyboard and v :: u32
  assume k: "kb_wf k"
  show "kb_wf (sdl3_keyboard_enqueue v k)"
    by (rule kb_wf_enqueue [OF k])
  show "kb_wf (snd (sdl3_keyboard_dequeue k))"
    by (rule kb_wf_dequeue [OF k])
  show "length (kb_items k) \<le> 100"
    using k by (simp add: kb_items_def kb_wf_def)
  show "kb_items (sdl3_keyboard_enqueue v k) = kb_items k @ [v]" if "length (kb_items k) < 100"
    by (rule kb_items_enqueue [OF k that])
  show "kb_items (sdl3_keyboard_enqueue v k) = kb_items k" if "length (kb_items k) = 100"
    using that by (simp add: kb_items_def sdl3_keyboard_enqueue_def)
  show "fst (sdl3_keyboard_dequeue k) = hd (kb_items k) \<and>
      kb_items (snd (sdl3_keyboard_dequeue k)) = tl (kb_items k)" if "kb_items k \<noteq> []"
    by (rule kb_items_dequeue [OF k that])
qed

section \<open>The thread\<close>

text \<open>
  One step of the thread: take a scan code when the semaphore has been signalled, or look whether the
  I/O board has been read and hand the code over; after eight waits a last look decides.
\<close>

definition keyboard_thread_step :: "'a kbd_sys_scheme \<Rightarrow> 'a kbd_sys_scheme" where
  "keyboard_thread_step m =
     (let k = kbd m in
      case kb_pending k of
        None \<Rightarrow>
          if kb_sem k = 0 \<or> kb_quit k then m
          else
            let (scancode, k1) = sdl3_keyboard_dequeue (k\<lparr>kb_sem := kb_sem k - 1\<rparr>)
            in m\<lparr>kbd := k1\<lparr>kb_pending := (if scancode \<noteq> 0 then Some (scancode, 8) else None)\<rparr>\<rparr>
      | Some (scancode, waits) \<Rightarrow>
          if kb_quit k then m
          else if \<not> iob_is_keyboard_ready_set m then
            iob_set_keyboard_ready scancode (m\<lparr>kbd := k\<lparr>kb_pending := None\<rparr>\<rparr>)
          else if waits = 0 then m\<lparr>kbd := k\<lparr>kb_pending := None\<rparr>\<rparr>
          else m\<lparr>kbd := k\<lparr>kb_pending := Some (scancode, waits - 1)\<rparr>\<rparr>)"

section \<open>Key events\<close>

definition sdl3_keyboard_new_scancode :: u32 where
  "sdl3_keyboard_new_scancode = push_bit 19 0x1F OR push_bit 16 1"

text \<open>The counts of mapped control and meta keys, \<open>None\<close> when one of them is up.\<close>

fun count_ctrl_meta ::
    "(nat \<Rightarrow> u8) \<Rightarrow> (nat \<Rightarrow> bool) \<Rightarrow> nat list \<Rightarrow> nat \<times> nat \<Rightarrow> (nat \<times> nat) option" where
  "count_ctrl_meta km state [] n = Some n"
| "count_ctrl_meta km state (i # is) (nctrl, nmeta) =
     (if km i = 0x10 then
        (if \<not> state i then None else count_ctrl_meta km state is (nctrl + 1, nmeta))
      else if km i = 0x25 then
        (if \<not> state i then None else count_ctrl_meta km state is (nctrl, nmeta + 1))
      else count_ctrl_meta km state is (nctrl, nmeta))"

definition sdl3_keyboard_are_all_ctrl_and_meta_down_for_boot ::
    "(nat \<Rightarrow> bool) \<Rightarrow> nat \<Rightarrow> keyboard \<Rightarrow> bool" where
  "sdl3_keyboard_are_all_ctrl_and_meta_down_for_boot state statesize k =
     (case count_ctrl_meta (key_map k) state [0..<statesize] (0, 0) of
        None \<Rightarrow> False
      | Some (nctrl, nmeta) \<Rightarrow> nctrl \<ge> 2 \<and> nmeta \<ge> 2)"

text \<open>
  The cadet scan codes: caps lock \<open>0125\<close>, alt lock \<open>015\<close>, mode lock \<open>03\<close>, rubout \<open>023\<close>, return \<open>0136\<close>.
  \<open>SDL_SCANCODE_UNKNOWN\<close> is 0.
\<close>

definition sdl3_keyboard_key_down ::
    "nat \<Rightarrow> (nat \<Rightarrow> bool) \<Rightarrow> nat \<Rightarrow> keyboard \<Rightarrow> keyboard" where
  "sdl3_keyboard_key_down sdl_scancode state statesize k =
     (let cadet_scancode = key_map k sdl_scancode in
      if kb_quit k \<or> cadet_scancode = 0 then k
      else
        let k1 = (if cadet_scancode = 0x55 then k\<lparr>caps_lock_down := \<not> caps_lock_down k\<rparr> else k);
            k2 = (if cadet_scancode = 0x0D then k1\<lparr>alt_lock_down := \<not> alt_lock_down k1\<rparr> else k1);
            k3 = (if cadet_scancode = 0x03 then k2\<lparr>mode_lock_down := \<not> mode_lock_down k2\<rparr> else k2);
            cmcm = sdl3_keyboard_are_all_ctrl_and_meta_down_for_boot state statesize k3;
            special_key_down =
              (if special_key_scancode k3 = 0 then False else state (special_key_scancode k3));
            send_cold_boot = ((cmcm \<or> special_key_down) \<and> cadet_scancode = 0x13);
            send_warm_boot = ((cmcm \<or> special_key_down) \<and> cadet_scancode = 0x5E)
        in if special_key_down then k3\<lparr>disable_up_codes_for_boot := True\<rparr>
           else
             let k4 = sdl3_keyboard_enqueue
                   (sdl3_keyboard_new_scancode OR ucast (cadet_scancode AND 0x7F)) k3
             in if send_cold_boot then
                  sdl3_keyboard_enqueue cold_boot_scancode (k4\<lparr>disable_up_codes_for_boot := True\<rparr>)
                else if send_warm_boot then
                  sdl3_keyboard_enqueue warm_boot_scancode (k4\<lparr>disable_up_codes_for_boot := True\<rparr>)
                else k4\<lparr>disable_up_codes_for_boot := False\<rparr>)"

record key_scan =
  ks_non_modifier :: bool
  ks_modifier :: bool
  ks_repeat :: bool
  ks_hyper :: bool
  ks_super :: bool
  ks_meta :: bool
  ks_control :: bool
  ks_top :: bool
  ks_greek :: bool
  ks_shift :: bool

text \<open>One key that is down, by its cadet scan code; the locks are tracked elsewhere.\<close>

definition scan_key :: "u8 \<Rightarrow> key_scan \<Rightarrow> key_scan" where
  "scan_key c s =
     (if c = 0 then s
      else if c = 0 then s\<lparr>ks_modifier := True, ks_repeat := True\<rparr>
      else if c = 0x03 then s
      else if c = 0x0D then s
      else if c = 0x65 then s\<lparr>ks_modifier := True, ks_hyper := True\<rparr>
      else if c = 0x05 then s\<lparr>ks_modifier := True, ks_super := True\<rparr>
      else if c = 0x25 then s\<lparr>ks_modifier := True, ks_meta := True\<rparr>
      else if c = 0x10 then s\<lparr>ks_modifier := True, ks_control := True\<rparr>
      else if c = 0x55 then s
      else if c = 0x44 then s\<lparr>ks_modifier := True, ks_top := True\<rparr>
      else if c = 0x24 then s\<lparr>ks_modifier := True, ks_greek := True\<rparr>
      else if c = 0x14 then s\<lparr>ks_modifier := True, ks_shift := True\<rparr>
      else s\<lparr>ks_non_modifier := True\<rparr>)"

fun scan_keys :: "(nat \<Rightarrow> u8) \<Rightarrow> (nat \<Rightarrow> bool) \<Rightarrow> nat list \<Rightarrow> key_scan \<Rightarrow> key_scan" where
  "scan_keys km state [] s = s"
| "scan_keys km state (i # is) s =
     (if ks_non_modifier s then s
      else if \<not> state i then scan_keys km state is s
      else scan_keys km state is (scan_key (km i) s))"

definition all_keys_up_code :: "keyboard \<Rightarrow> key_scan \<Rightarrow> u32" where
  "all_keys_up_code k s =
     sdl3_keyboard_new_scancode OR push_bit 15 1 OR flag_bit (ks_repeat s) 10 OR
     flag_bit (mode_lock_down k) 9 OR flag_bit (alt_lock_down k) 8 OR flag_bit (ks_hyper s) 7 OR
     flag_bit (ks_super s) 6 OR flag_bit (ks_meta s) 5 OR flag_bit (ks_control s) 4 OR
     flag_bit (caps_lock_down k) 3 OR flag_bit (ks_top s) 2 OR flag_bit (ks_greek s) 1 OR
     flag_bit (ks_shift s) 0"

definition sdl3_keyboard_key_up ::
    "nat \<Rightarrow> (nat \<Rightarrow> bool) \<Rightarrow> nat \<Rightarrow> keyboard \<Rightarrow> keyboard" where
  "sdl3_keyboard_key_up sdl_scancode state statesize k =
     (let cadet_scancode = key_map k sdl_scancode in
      if kb_quit k \<or> disable_up_codes_for_boot k \<or> cadet_scancode = 0 then k
      else
        let s0 = \<lparr>ks_non_modifier = False,
                  ks_modifier = mode_lock_down k \<or> alt_lock_down k \<or> caps_lock_down k,
                  ks_repeat = False, ks_hyper = False, ks_super = False, ks_meta = False,
                  ks_control = False, ks_top = False, ks_greek = False, ks_shift = False\<rparr>;
            s = scan_keys (key_map k) state [0..<statesize] s0;
            send_up_down_code = (if ks_non_modifier s then True else \<not> ks_modifier s)
        in sdl3_keyboard_enqueue
             (if send_up_down_code
              then sdl3_keyboard_new_scancode OR push_bit 8 1 OR ucast (cadet_scancode AND 0x7F)
              else all_keys_up_code k s) k)"

section \<open>Invariant\<close>

lemma kb_wf_flags [simp]:
  "kb_wf (k\<lparr>caps_lock_down := b\<rparr>) = kb_wf k" "kb_wf (k\<lparr>alt_lock_down := b\<rparr>) = kb_wf k"
  "kb_wf (k\<lparr>mode_lock_down := b\<rparr>) = kb_wf k"
  "kb_wf (k\<lparr>disable_up_codes_for_boot := b\<rparr>) = kb_wf k"
  "kb_wf (k\<lparr>kb_sem := n\<rparr>) = kb_wf k" "kb_wf (k\<lparr>kb_pending := p\<rparr>) = kb_wf k"
  by (simp_all add: kb_wf_def)

lemma kb_wf_key_down: "kb_wf k \<Longrightarrow> kb_wf (sdl3_keyboard_key_down sc state n k)"
  by (simp add: sdl3_keyboard_key_down_def Let_def kb_wf_enqueue)

lemma kb_wf_key_up: "kb_wf k \<Longrightarrow> kb_wf (sdl3_keyboard_key_up sc state n k)"
  by (simp add: sdl3_keyboard_key_up_def Let_def kb_wf_enqueue)

lemma kbd_of_set_ready: "kbd (iob_set_keyboard_ready sc m) = kbd m"
  by (simp add: iob_set_keyboard_ready_def Let_def upd_iob_def machine_control_boot_def
      machine_control_reset_def intr_defs)

lemma kb_wf_thread_step: "kb_wf (kbd m) \<Longrightarrow> kb_wf (kbd (keyboard_thread_step m))"
  using kb_wf_dequeue [of "kbd m\<lparr>kb_sem := kb_sem (kbd m) - 1\<rparr>"]
  by (auto simp: keyboard_thread_step_def Let_def kbd_of_set_ready case_prod_beta
      split: option.splits)

end
