(* ===== verification/Bus_Interface.thy ===== *)
theory Bus_Interface
  imports Sdl3_Keyboard
begin

text \<open>
  The Unibus registers of the bus interface (\<^verbatim>\<open>usim/bus-interface.c\<close>) and of the diagnostic
  ("spy") interface (\<^verbatim>\<open>usim/diagnostic-interface.c\<close>).  A read of a register that does not exist leaves the
  caller's variable alone, so reads take the value it has.
\<close>

unbundle bit_operations_syntax

section \<open>Bus interface\<close>

definition bus_interface_get_debuggee_uaddr :: "'a bif_sys_scheme \<Rightarrow> u32" where
  "bus_interface_get_debuggee_uaddr m =
     push_bit 17 (if addr17 (bif m) then 1 else 0) OR push_bit 1 (ucast (bif_addr (bif m)))"

definition bus_interface_read ::
    "u32 \<Rightarrow> u16 \<Rightarrow> 'a bif_sys_scheme \<Rightarrow> u16 \<times> 'a bif_sys_scheme" where
  "bus_interface_read uaddr pv m =
     (if uaddr = 0x3EC20 then (ucast (interrupt_status_reg (intr m)), m)
      else if uaddr = 0x3EC24 then (bus_error_status (bif m), m)
      else if uaddr = 0x3EC40 then
        (let (ok, v, m1) = lashup_debugger_read (bus_interface_get_debuggee_uaddr m) m
         in (if ok then v else 0, m1))
      else if uaddr = 0x3EC44 then (debuggee_bus_error_status (bif m), m)
      else (pv, bus_interface_set_unibus_nxm m))"

text \<open>The modifier bits of register \<open>0766110\<close>, with the \<open>break\<close>s of the code.\<close>

definition bus_interface_write_modifiers :: "u16 \<Rightarrow> 'a bif_sys_scheme \<Rightarrow> 'a bif_sys_scheme" where
  "bus_interface_write_modifiers v m =
     (let m1 = m\<lparr>bif := (bif m)\<lparr>addr17 := (v AND 1 \<noteq> 0)\<rparr>\<rparr>;
          reset = (v AND 2 \<noteq> 0);
          timeout_inhibit = (v AND 4 \<noteq> 0);
          debuggee_mark = (v AND 8 \<noteq> 0);
          debugger_mark = (v AND 0x10 \<noteq> 0);
          ping = (v AND 0x20 \<noteq> 0);
          mark_symbol = ucast (drop_bit 8 v AND 0xFF) :: u8;
          m2 = (if debugger_mark then snd (lashup_debugger_mark_debugger mark_symbol m1) else m1);
          m3 = (if debuggee_mark then snd (lashup_debugger_mark_debuggee mark_symbol m2) else m2)
      in if debugger_mark \<or> debuggee_mark then m3
         else if ping then snd (lashup_debugger_ping m3)
         else
           let m4 = (if modifier_reset (bif m3) \<and> \<not> reset
                     then snd (lashup_debugger_reset_unibus_and_bus_interface m3) else m3);
               m5 = m4\<lparr>bif := (bif m4)\<lparr>modifier_reset := reset\<rparr>\<rparr>
           in snd (lashup_debugger_inhibit_nxm timeout_inhibit m5))"

definition bus_interface_write :: "u32 \<Rightarrow> u16 \<Rightarrow> 'a bif_sys_scheme \<Rightarrow> 'a bif_sys_scheme" where
  "bus_interface_write uaddr v m =
     (let isr = interrupt_status_reg (intr m) in
      if uaddr = 0x3EC20 then
        set_interrupt_status_reg ((isr AND NOT 0x3C01) OR (ucast v AND 0x3C01)) m
      else if uaddr = 0x3EC22 then
        set_interrupt_status_reg ((isr AND NOT 0x83FC) OR (ucast v AND 0x83FC)) m
      else if uaddr = 0x3EC24 then
        m\<lparr>bif := (bif m)\<lparr>bus_error_status := 0, debuggee_bus_error_status := 0\<rparr>\<rparr>
      else if uaddr = 0x3EC40 then
        (let debuggee_uaddr = bus_interface_get_debuggee_uaddr m;
             (ok, m1) = lashup_debugger_write debuggee_uaddr v m
         in if ok \<and> debuggee_uaddr = 0x3EC24
            then m1\<lparr>bif := (bif m1)\<lparr>debuggee_bus_error_status := 0\<rparr>\<rparr> else m1)
      else if uaddr = 0x3EC42 then
        snd (lashup_debugger_usim (ucast (drop_bit 8 v AND 0xFF)) (ucast (v AND 0xFF)) m)
      else if uaddr = 0x3EC48 then bus_interface_write_modifiers v m
      else if uaddr = 0x3EC4A then m
      else if uaddr = 0x3EC4C then m\<lparr>bif := (bif m)\<lparr>bif_addr := v\<rparr>\<rparr>
      else bus_interface_set_unibus_nxm m)"

text \<open>
  The bus reset: of the devices that are reset here, only the tape controller changes state (the
  reset functions of the others are empty).
\<close>

definition bif_reset :: bus_interface where
  "bif_reset = \<lparr>bus_error_status = 0, nxm_inhibited = False, modifier_reset = False,
     debuggee_bus_error_status = 0, addr17 = False, bif_addr = 0\<rparr>"

definition bus_interface_bus_reset :: "'a tape_sys_scheme \<Rightarrow> 'a tape_sys_scheme" where
  "bus_interface_bus_reset m = tape_controller_bus_reset (m\<lparr>bif := bif_reset\<rparr>)"

definition machine_control_power_on :: "'a tape_sys_scheme \<Rightarrow> 'a tape_sys_scheme" where
  "machine_control_power_on m = bus_interface_bus_reset (machine_control_reset m)"

section \<open>Diagnostic interface\<close>

record diag_sys = kbd_sys +
  spy_params :: "u16 \<times> u16 \<times> u16"

definition get_flag_register_1 :: u16 where
  "get_flag_register_1 =
     0x8000 OR 0x4000 OR 0x2000 OR 0x1000 OR 0x0800 OR 0x0080 OR 0x0040 OR 0x0020 OR 0x0010 OR
     0x0008 OR 0x0004 OR 0x0002 OR 0x0001"

definition get_flag_register_2 :: "'a mc_sys_scheme \<Rightarrow> u16" where
  "get_flag_register_2 m = flag_bit (vmaok (ms m)) 3"

definition diagnostic_interface_read ::
    "u32 \<Rightarrow> u16 \<Rightarrow> 'a diag_sys_scheme \<Rightarrow> fault + u16 \<times> 'a diag_sys_scheme" where
  "diagnostic_interface_read uaddr pv m =
     (let c = cpu m in
      if uaddr = 0x3EC00 then Inr (ucast (p0 c AND 0xFFFF), m)
      else if uaddr = 0x3EC02 then Inr (ucast (drop_bit 16 (p0 c) AND 0xFFFF), m)
      else if uaddr = 0x3EC04 then Inr (ucast (drop_bit 32 (p0 c) AND 0xFFFF), m)
      else if uaddr = 0x3EC06 then Inr (pv, m)
      else if uaddr = 0x3EC08 then Inr (ucast (opc c), m)
      else if uaddr = 0x3EC0A then Inr (ucast (npc c), m)
      else if uaddr = 0x3EC0C then Inr (ucast (out_r c AND 0xFFFF), m)
      else if uaddr = 0x3EC0E then Inr (ucast (drop_bit 16 (out_r c) AND 0xFFFF), m)
      else if uaddr = 0x3EC10 then Inr (get_flag_register_1, m)
      else if uaddr = 0x3EC12 then Inr (get_flag_register_2 m, m)
      else if uaddr = 0x3EC14 then Inr (ucast (mdata c AND 0xFFFF), m)
      else if uaddr = 0x3EC16 then Inr (ucast (drop_bit 16 (mdata c) AND 0xFFFF), m)
      else if uaddr = 0x3EC18 then Inr (ucast (adata c AND 0xFFFF), m)
      else if uaddr = 0x3EC1A then Inr (ucast (drop_bit 16 (adata c) AND 0xFFFF), m)
      else if uaddr = 0x3EC1C \<or> uaddr = 0x3EC1E
      then Inl (Errx ''Statistics counter is not implemented'')
      else Inr (pv, bus_interface_set_unibus_nxm m))"

text \<open>The addresses \<open>0766020\<close> to \<open>0766026\<close> exist in builds without \<open>NDEBUG\<close> only.\<close>

definition diagnostic_interface_write ::
    "u32 \<Rightarrow> u16 \<Rightarrow> 'a diag_sys_scheme \<Rightarrow> fault + 'a diag_sys_scheme" where
  "diagnostic_interface_write uaddr v m =
     (let c = cpu m; (a, b, d) = spy_params m in
      if uaddr = 0x3EC00 then
        Inr (m\<lparr>cpu := c\<lparr>debug_ir := (debug_ir c AND 0xFFFFFFFFFFFF0000) OR ucast v\<rparr>\<rparr>)
      else if uaddr = 0x3EC02 then
        Inr (m\<lparr>cpu := c\<lparr>debug_ir := (debug_ir c AND 0xFFFFFFFF0000FFFF) OR
               push_bit 16 (ucast v)\<rparr>\<rparr>)
      else if uaddr = 0x3EC04 then
        Inr (m\<lparr>cpu := c\<lparr>debug_ir := (debug_ir c AND 0xFFFF0000FFFFFFFF) OR
               push_bit 32 (ucast v)\<rparr>\<rparr>)
      else if uaddr = 0x3EC06 then
        (if v \<noteq> 1 then Inl (Errx ''Clock control register can only be loaded with 1 (RUN)'')
         else Inr m)
      else if uaddr = 0x3EC08 then Inl (Errx ''OPC control register should not be touched'')
      else if uaddr = 0x3EC0A then
        Inr (m\<lparr>ms := (ms m)\<lparr>promdisabled := (v AND push_bit 5 1 \<noteq> 0)\<rparr>\<rparr>)
      else if uaddr = 0x3EC0C \<or> uaddr = 0x3EC0E then Inr m
      else if \<not> ndebug m \<and> uaddr = 0x3EC10 then Inr m
      else if \<not> ndebug m \<and> uaddr = 0x3EC12 then Inr (m\<lparr>spy_params := (v, b, d)\<rparr>)
      else if \<not> ndebug m \<and> uaddr = 0x3EC14 then Inr (m\<lparr>spy_params := (a, v, d)\<rparr>)
      else if \<not> ndebug m \<and> uaddr = 0x3EC16 then Inr (m\<lparr>spy_params := (a, b, v)\<rparr>)
      else Inr (bus_interface_set_unibus_nxm m))"

section \<open>Frames\<close>

lemma lashup_read_frame:
  "lashup_debugger_read uaddr m = (ok, v, m') \<Longrightarrow> m' = m\<lparr>bif := bif m', lash := lash m'\<rparr>"
  using lashup_xmt_only [of "\<lparr>lr_command = CHR ''r'', lr_uaddr = uaddr, lr_data = 0\<rparr>" m]
  by (auto simp: lashup_debugger_read_def case_prod_beta Let_def)

definition bif_frame :: "'a bif_sys_scheme \<Rightarrow> 'a bif_sys_scheme \<Rightarrow> bool" where
  "bif_frame m m' \<longleftrightarrow> m' = m\<lparr>intr := intr m', bif := bif m', lash := lash m'\<rparr>"

lemma bif_frame_refl [simp, intro!]: "bif_frame m m"
  by (simp add: bif_frame_def)

lemma bif_frame_trans: "bif_frame m m1 \<Longrightarrow> bif_frame m1 m2 \<Longrightarrow> bif_frame m m2"
  unfolding bif_frame_def by (rule trans, assumption) (erule ssubst, simp)

lemma bif_frame_bif [intro]: "bif_frame m m1 \<Longrightarrow> bif_frame m (m1\<lparr>bif := b\<rparr>)"
  by (erule bif_frame_trans) (simp add: bif_frame_def)

lemma bif_frame_xmt [intro]:
  assumes "bif_frame m m1"
  shows "bif_frame m (snd (lashup_debugger_xmt r m1))"
proof -
  have "bif_frame m1 (m1\<lparr>bif := b, lash := l\<rparr>)" for b l
    by (simp add: bif_frame_def)
  then show ?thesis
    using bif_frame_trans [OF assms] lashup_xmt_only [of r m1] by metis
qed

lemma bif_frame_ops [intro]:
  "bif_frame m m1 \<Longrightarrow> bif_frame m (snd (snd (lashup_debugger_read uaddr m1)))"
  "bif_frame m m1 \<Longrightarrow> bif_frame m (snd (lashup_debugger_write uaddr v m1))"
  "bif_frame m m1 \<Longrightarrow> bif_frame m (snd (lashup_debugger_inhibit_nxm inh m1))"
  "bif_frame m m1 \<Longrightarrow> bif_frame m (snd (lashup_debugger_reset_unibus_and_bus_interface m1))"
  "bif_frame m m1 \<Longrightarrow> bif_frame m (snd (lashup_debugger_mark_debuggee symb m1))"
  "bif_frame m m1 \<Longrightarrow> bif_frame m (snd (lashup_debugger_mark_debugger symb m1))"
  "bif_frame m m1 \<Longrightarrow> bif_frame m (snd (lashup_debugger_ping m1))"
  "bif_frame m m1 \<Longrightarrow> bif_frame m (snd (lashup_debugger_usim cmd param m1))"
  "bif_frame m m1 \<Longrightarrow> bif_frame m (bus_interface_set_unibus_nxm m1)"
  "bif_frame m m1 \<Longrightarrow> bif_frame m (bus_interface_set_xbus_nxm m1)"
  "bif_frame m m1 \<Longrightarrow> bif_frame m (bus_interface_set_unibus_map_error m1)"
  by (auto simp: lashup_defs case_prod_beta Let_def bif_error_defs)

lemma bif_frame_intr [intro]:
  "bif_frame m m1 \<Longrightarrow> bif_frame m (set_interrupt_status_reg new m1)"
  by (erule bif_frame_trans) (simp add: bif_frame_def intr_defs)

lemma bus_interface_frame:
  "bif_frame m (snd (bus_interface_read uaddr pv m))"
  "bif_frame m (bus_interface_write_modifiers v m)"
  "bif_frame m (bus_interface_write uaddr v m)"
proof -
  show "bif_frame m (snd (bus_interface_read uaddr pv m))"
    using bif_frame_ops(1) by (auto simp: bus_interface_read_def case_prod_beta Let_def)
  show mods: "bif_frame m (bus_interface_write_modifiers v m)"
    by (auto simp: bus_interface_write_modifiers_def Let_def)
  show "bif_frame m (bus_interface_write uaddr v m)"
    using mods by (auto simp: bus_interface_write_def case_prod_beta Let_def)
qed

text \<open>Every operation of the bus interface keeps the interrupt registers consistent.\<close>

lemma intr_of_lashup [simp]: "intr (snd (lashup_debugger_xmt r m)) = intr m"
  by (simp add: lashup_debugger_xmt_def bif_error_defs Let_def split: list.splits option.splits)

lemma intr_of_lashup_ops [simp]:
  "intr (snd (snd (lashup_debugger_read uaddr m))) = intr m"
  "intr (snd (lashup_debugger_write uaddr v m)) = intr m"
  "intr (snd (lashup_debugger_inhibit_nxm inh m)) = intr m"
  "intr (snd (lashup_debugger_reset_unibus_and_bus_interface m)) = intr m"
  "intr (snd (lashup_debugger_mark_debuggee symb m)) = intr m"
  "intr (snd (lashup_debugger_mark_debugger symb m)) = intr m"
  "intr (snd (lashup_debugger_ping m)) = intr m"
  "intr (snd (lashup_debugger_usim cmd param m)) = intr m"
  "intr (bus_interface_set_unibus_nxm m) = intr m"
  "intr (bus_interface_set_xbus_nxm m) = intr m"
  "intr (bus_interface_set_unibus_map_error m) = intr m"
  by (simp_all add: lashup_defs case_prod_beta Let_def bif_error_defs)

lemma intr_wf_bus_interface [wf_intros]:
  "intr_wf (intr m) \<Longrightarrow> intr_wf (intr (snd (bus_interface_read uaddr pv m)))"
  "intr_wf (intr m) \<Longrightarrow> intr_wf (intr (bus_interface_write uaddr v m))"
  by (auto simp: bus_interface_read_def bus_interface_write_def bus_interface_write_modifiers_def
      case_prod_beta Let_def)

interpretation bus_interface_dev: bus_device "\<lambda>a. True"
  "\<lambda>a v m. Inr (bus_interface_read a v m) :: fault + _"
  "\<lambda>a v m. Inr (bus_interface_write a v m)" "\<lambda>m. intr_wf (intr m)"
proof unfold_locales
  fix a :: u32 and v v' :: u16 and m m' :: "'a bif_sys_scheme"
  assume m: "intr_wf (intr m)"
  show "intr_wf (intr m')" if "Inr (bus_interface_read a v m) = (Inr (v', m') :: fault + _)"
    using that intr_wf_bus_interface(1) [OF m, of a v] by simp
  show "intr_wf (intr m')" if "Inr (bus_interface_write a v m) = (Inr m' :: fault + _)"
    using that intr_wf_bus_interface(2) [OF m, of a v] by simp
qed

end
