(* ===== verification/Bus_Adaptor.thy ===== *)
theory Bus_Adaptor
  imports Bus_Interface
begin

text \<open>
  The bus adaptor (\<^verbatim>\<open>usim/bus-adaptor.c\<close>): the memory map.  It sends an Xbus cycle to main memory, the
  TVs or the disk controller, a Unibus cycle to the I/O board, the diagnostic interface, the bus
  interface, the mapping registers or the tape controller, and a Unibus cycle in the mapped window to
  the Xbus through the mapping registers.

  The results are the caller's variable and the state; a write leaves the variable as it is.
\<close>

unbundle bit_operations_syntax

section \<open>Xbus cycles\<close>

definition bus_adaptor_xbusio_rw ::
    "bool \<Rightarrow> u32 \<Rightarrow> u32 \<Rightarrow> 'a diag_sys_scheme \<Rightarrow> fault + u32 \<times> 'a diag_sys_scheme" where
  "bus_adaptor_xbusio_rw write paddr pv m =
     (if 0x3C0000 \<le> paddr \<and> paddr \<le> 0x3C7FFF then
        (if write then and_then (tv_screen_write (paddr - 0x3C0000) pv m) (\<lambda>m1. Inr (pv, m1))
         else and_then (tv_screen_read (paddr - 0x3C0000) m) (\<lambda>v. Inr (v, m)))
      else if colortv_enabled (ctv m) \<and> 0x3D0000 \<le> paddr \<and> paddr \<le> 0x3D7FFF then
        (if write then and_then (colortv_screen_write (paddr - 0x3D0000) pv m) (\<lambda>m1. Inr (pv, m1))
         else and_then (colortv_screen_read (paddr - 0x3D0000) m) (\<lambda>v. Inr (v, m)))
      else if colortv_enabled (ctv m) \<and> 0x3DFFE8 \<le> paddr \<and> paddr \<le> 0x3DFFEF then
        (if write then and_then (colortv_control_write (paddr - 0x3DFFE8) pv m) (\<lambda>m1. Inr (pv, m1))
         else Inr (colortv_control_read (paddr - 0x3DFFE8) pv m))
      else if 0x3DFFF0 \<le> paddr \<and> paddr \<le> 0x3DFFF7 then
        (if write then and_then (tv_control_write (paddr - 0x3DFFF0) pv m) (\<lambda>m1. Inr (pv, m1))
         else Inr (tv_control_read (paddr - 0x3DFFF0) pv m))
      else if 0x3DFFFC \<le> paddr \<and> paddr \<le> 0x3DFFFF then
        (if write then and_then (disk_controller_write (paddr - 0x3DFFFC) pv m) (\<lambda>m1. Inr (pv, m1))
         else and_then (disk_controller_read (paddr - 0x3DFFFC) pv m) (\<lambda>v. Inr (v, m)))
      else Inr (if write then pv else 0, bus_interface_set_xbus_nxm m))"

definition bus_adaptor_xbus_rw ::
    "bool \<Rightarrow> u32 \<Rightarrow> u32 \<Rightarrow> 'a diag_sys_scheme \<Rightarrow> fault + u32 \<times> 'a diag_sys_scheme" where
  "bus_adaptor_xbus_rw write paddr pv m =
     (let pn = drop_bit 8 paddr AND 0x3FFF in
      if pn \<le> 0x3BFB then
        Inr (if write then (pv, snd (main_memory_write paddr pv m))
             else (snd (main_memory_read paddr m), m))
      else if 0x3C00 \<le> pn \<and> pn \<le> 0x3DFF then bus_adaptor_xbusio_rw write paddr pv m
      else Inr (if write then pv else 0, bus_interface_set_xbus_nxm m))"

section \<open>The Unibus map\<close>

text \<open>
  A cycle at a Unibus address in the mapped window.  The mapping register holds the valid bit 15, the
  write permit bit 14 and the Xbus page.  Pages from \<open>037000\<close> on stand for the MD register; for the
  others the low half of a word is buffered between the two cycles.
\<close>

definition unibus_map_paddr :: "u16 \<Rightarrow> u32 \<Rightarrow> u32" where
  "unibus_map_paddr mapping_register uaddr =
     push_bit 8 (ucast (mapping_register AND 0x3FFF)) OR (drop_bit 2 uaddr AND 0xFF)"

definition unibus_map_md ::
    "bool \<Rightarrow> bool \<Rightarrow> u16 \<Rightarrow> 'a diag_sys_scheme \<Rightarrow> u16 \<times> 'a diag_sys_scheme" where
  "unibus_map_md write hiword pv m =
     (let md = md_reg (cpu m) in
      if write then
        let v32 = (if hiword then (md AND 0x0000FFFF) OR (push_bit 16 (ucast pv) AND 0xFFFF0000)
                   else (md AND 0xFFFF0000) OR (ucast pv AND 0x0000FFFF))
        in (pv, m\<lparr>cpu := (cpu m)\<lparr>md_reg := v32\<rparr>\<rparr>)
      else (if hiword then ucast (drop_bit 16 md AND 0x0000FFFF) else ucast (md AND 0x0000FFFF), m))"

definition unibus_map_buffer :: "nat \<Rightarrow> u16 \<Rightarrow> 'a diag_sys_scheme \<Rightarrow> 'a diag_sys_scheme" where
  "unibus_map_buffer page_no v m =
     m\<lparr>umap := (umap m)\<lparr>unibus_mapping_buffers := (unibus_mapping_buffers (umap m))(page_no := v)\<rparr>\<rparr>"

definition unibus_map_xbus ::
    "bool \<Rightarrow> bool \<Rightarrow> nat \<Rightarrow> u32 \<Rightarrow> u16 \<Rightarrow> 'a diag_sys_scheme \<Rightarrow> fault + u16 \<times> 'a diag_sys_scheme" where
  "unibus_map_xbus write hiword page_no paddr pv m =
     (if write then
        (if hiword then
           let cached_lo = unibus_mapping_buffers (umap m) page_no;
               v32 = (push_bit 16 (ucast pv) AND 0xFFFF0000) OR ucast cached_lo
           in and_then (bus_adaptor_xbus_rw True paddr v32 m) (\<lambda>(_, m1). Inr (pv, m1))
         else Inr (pv, unibus_map_buffer page_no pv m))
      else
        (if hiword then Inr (unibus_mapping_buffers (umap m) page_no, m)
         else and_then (bus_adaptor_xbus_rw False paddr (indet m ''v32'') m) (\<lambda>(v32, m1).
           Inr (ucast (v32 AND 0x0000FFFF),
                unibus_map_buffer page_no (ucast (drop_bit 16 v32 AND 0x0000FFFF)) m1))))"

definition unibus_map_rw ::
    "bool \<Rightarrow> u32 \<Rightarrow> u16 \<Rightarrow> 'a diag_sys_scheme \<Rightarrow> fault + u16 \<times> 'a diag_sys_scheme" where
  "unibus_map_rw write uaddr pv m =
     (let page_no = unat ((uaddr - 0xC000) div 0x400);
          mapping_register = unibus_mapping_registers (umap m) page_no;
          map_valid = (drop_bit 15 mapping_register AND 1 \<noteq> 0);
          write_permit = (drop_bit 14 mapping_register AND 1 \<noteq> 0);
          xbus_page_number = mapping_register AND 0x3FFF;
          paddr = unibus_map_paddr mapping_register uaddr;
          hiword = (drop_bit 1 uaddr AND 1 \<noteq> 0)
      in if \<not> map_valid
         then Inr (if write then pv else 0, bus_interface_set_unibus_map_error m)
         else if write \<and> \<not> write_permit then Inr (pv, bus_interface_set_unibus_map_error m)
         else if xbus_page_number \<ge> 0x3E00 then Inr (unibus_map_md write hiword pv m)
         else unibus_map_xbus write hiword page_no paddr pv m)"

section \<open>Unibus cycles\<close>

definition bus_adaptor_unibus_rw ::
    "bool \<Rightarrow> u32 \<Rightarrow> u16 \<Rightarrow> 'a diag_sys_scheme \<Rightarrow> fault + u16 \<times> 'a diag_sys_scheme" where
  "bus_adaptor_unibus_rw write uaddr pv m =
     (if 0xC000 \<le> uaddr \<and> uaddr \<le> 0xFFFF then unibus_map_rw write uaddr pv m
      else if 0x3E800 \<le> uaddr \<and> uaddr \<le> 0x3E87E then
        (if write then and_then (iob_unibus_write uaddr pv m) (\<lambda>m1. Inr (pv, m1))
         else iob_unibus_read uaddr m)
      else if 0x3EC00 \<le> uaddr \<and> uaddr \<le> 0x3EC1E then
        (if write then and_then (diagnostic_interface_write uaddr pv m) (\<lambda>m1. Inr (pv, m1))
         else diagnostic_interface_read uaddr pv m)
      else if 0x3EC20 \<le> uaddr \<and> uaddr \<le> 0x3EC5E then
        Inr (if write then (pv, bus_interface_write uaddr pv m) else bus_interface_read uaddr pv m)
      else if 0x3EC60 \<le> uaddr \<and> uaddr \<le> 0x3EC7E then
        Inr (if write then (pv, unibus_mapping_write uaddr pv m) else unibus_mapping_read uaddr pv m)
      else if 0x3F550 \<le> uaddr \<and> uaddr \<le> 0x3F55A then
        (if write then and_then (tape_controller_unibus_write uaddr pv m) (\<lambda>m1. Inr (pv, m1))
         else and_then (tape_controller_unibus_read uaddr pv m) (\<lambda>v. Inr (v, m)))
      else Inr (if write then pv else 0, bus_interface_set_unibus_nxm m))"

section \<open>Bus cycles of the processor\<close>

definition unibus_address :: "u32 \<Rightarrow> u32" where
  "unibus_address paddr =
     push_bit 1 (push_bit 8 ((drop_bit 8 paddr AND 0x3FFF) - 0x3E00) + (paddr AND 0xFF))"

definition bus_adaptor_rw ::
    "bool \<Rightarrow> u32 \<Rightarrow> u32 \<Rightarrow> 'a diag_sys_scheme \<Rightarrow> fault + u32 \<times> 'a diag_sys_scheme" where
  "bus_adaptor_rw write paddr pv m =
     and_then (c_assert (ndebug m) (paddr AND 0xFFC00000 = 0) ''paddr'') (\<lambda>_.
       let pn = drop_bit 8 paddr AND 0x3FFF in
       if pn \<le> 0x3BFB then bus_adaptor_xbus_rw write paddr pv m
       else if 0x3C00 \<le> pn \<and> pn \<le> 0x3DFF then bus_adaptor_xbus_rw write paddr pv m
       else if 0x3E00 \<le> pn \<and> pn \<le> 0x3FFF then
         let pv16 = (if write then ucast (pv AND 0xFFFF) else ucast (indet m ''pv16''))
         in and_then (bus_adaptor_unibus_rw write (unibus_address paddr) pv16 m)
              (\<lambda>(pv16', m1). Inr (if write then pv else ucast pv16', m1))
       else Inl (Errx ''vm: impossible paddr''))"

definition bus_adaptor_read ::
    "u32 \<Rightarrow> u32 \<Rightarrow> 'a diag_sys_scheme \<Rightarrow> fault + u32 \<times> 'a diag_sys_scheme" where
  "bus_adaptor_read paddr pv m = bus_adaptor_rw False paddr pv m"

definition bus_adaptor_write ::
    "u32 \<Rightarrow> u32 \<Rightarrow> 'a diag_sys_scheme \<Rightarrow> fault + 'a diag_sys_scheme" where
  "bus_adaptor_write paddr v m = and_then (bus_adaptor_rw True paddr v m) (\<lambda>(_, m1). Inr m1)"

definition bus_adaptor_unibus_read ::
    "u32 \<Rightarrow> u16 \<Rightarrow> 'a diag_sys_scheme \<Rightarrow> fault + u16 \<times> 'a diag_sys_scheme" where
  "bus_adaptor_unibus_read uaddr pv m = bus_adaptor_unibus_rw False uaddr pv m"

definition bus_adaptor_unibus_write ::
    "u32 \<Rightarrow> u16 \<Rightarrow> 'a diag_sys_scheme \<Rightarrow> fault + 'a diag_sys_scheme" where
  "bus_adaptor_unibus_write uaddr v m =
     and_then (bus_adaptor_unibus_rw True uaddr v m) (\<lambda>(_, m1). Inr m1)"

section \<open>The invariant of the system on the bus\<close>

definition sys_inv :: "'a diag_sys_scheme \<Rightarrow> bool" where
  "sys_inv m \<longleftrightarrow>
     intr_wf (intr m) \<and> mem_wf (mem m) \<and> cpu_wf (cpu m) \<and> tv_wf (tv m) \<and> ctv_wf (ctv m) \<and>
     disk_wf (dsk m) \<and> tape_wf (tape m) \<and> uch_wf (uch m) \<and> kb_wf (kbd m)"

text \<open>
  What a bus cycle leaves alone: the configuration, everything outside the bus (the rest of the
  record, with the virtual memory map), and all of the processor but the debug IR and MD.
\<close>

definition bus_cpu :: "cpu \<Rightarrow> cpu \<Rightarrow> bool" where
  "bus_cpu c c' \<longleftrightarrow> c' = c\<lparr>debug_ir := debug_ir c', md_reg := md_reg c'\<rparr>"

definition bus_frame :: "'a diag_sys_scheme \<Rightarrow> 'a diag_sys_scheme \<Rightarrow> bool" where
  "bus_frame m m' \<longleftrightarrow>
     ndebug m' = ndebug m \<and> indet m' = indet m \<and> diag_sys.more m' = diag_sys.more m \<and>
     kbd m' = kbd m \<and> halted (ms m') = halted (ms m) \<and> vmaok (ms m') = vmaok (ms m) \<and>
     bus_cpu (cpu m) (cpu m')"

lemma bus_cpu_refl [simp]: "bus_cpu c c"
  by (simp add: bus_cpu_def)

lemma bus_cpu_trans: "bus_cpu c c1 \<Longrightarrow> bus_cpu c1 c2 \<Longrightarrow> bus_cpu c c2"
  unfolding bus_cpu_def by (rule trans, assumption) (erule ssubst, simp)

lemma bus_cpu_upd [simp]:
  "bus_cpu c (c\<lparr>debug_ir := x\<rparr>)" "bus_cpu c (c\<lparr>md_reg := y\<rparr>)"
  by (simp_all add: bus_cpu_def)

lemma bus_cpu_wf: "bus_cpu c c' \<Longrightarrow> cpu_wf c' = cpu_wf c"
  unfolding bus_cpu_def by (erule ssubst) (simp add: cpu_wf_def)

lemma bus_frame_refl [simp, intro!]: "bus_frame m m"
  by (simp add: bus_frame_def)

lemma bus_frame_trans: "bus_frame m m1 \<Longrightarrow> bus_frame m1 m2 \<Longrightarrow> bus_frame m m2"
  by (auto simp: bus_frame_def intro: bus_cpu_trans)

text \<open>\<open>bus_ok m m'\<close>: from a state with the invariant, a step within the frame that keeps it.\<close>

definition bus_ok :: "'a diag_sys_scheme \<Rightarrow> 'a diag_sys_scheme \<Rightarrow> bool" where
  "bus_ok m m' \<longleftrightarrow> (sys_inv m \<longrightarrow> sys_inv m' \<and> bus_frame m m')"

lemma bus_ok_refl [simp, intro!]: "bus_ok m m"
  by (simp add: bus_ok_def)

lemma bus_ok_trans: "bus_ok m m1 \<Longrightarrow> bus_ok m1 m2 \<Longrightarrow> bus_ok m m2"
  by (auto simp: bus_ok_def intro: bus_frame_trans)

lemma bus_okI: "(sys_inv m \<Longrightarrow> bus_ok m m') \<Longrightarrow> bus_ok m m'"
  by (auto simp: bus_ok_def)

lemma sys_invD:
  assumes "sys_inv m"
  shows "intr_wf (intr m)" "mem_wf (mem m)" "cpu_wf (cpu m)" "tv_wf (tv m)" "ctv_wf (ctv m)"
    "disk_wf (dsk m)" "tape_wf (tape m)" "uch_wf (uch m)" "kb_wf (kbd m)"
  using assms by (simp_all add: sys_inv_def)

section \<open>A step that writes one slot\<close>

lemma bus_ok_slot:
  "intr_wf i \<Longrightarrow> bus_ok m (m\<lparr>intr := i\<rparr>)"
  "mem_wf me \<Longrightarrow> bus_ok m (m\<lparr>mem := me\<rparr>)"
  "tv_wf t \<Longrightarrow> bus_ok m (m\<lparr>tv := t\<rparr>)"
  "ctv_wf c \<Longrightarrow> bus_ok m (m\<lparr>ctv := c\<rparr>)"
  "disk_wf d \<Longrightarrow> bus_ok m (m\<lparr>dsk := d\<rparr>)"
  "tape_wf ta \<Longrightarrow> bus_ok m (m\<lparr>tape := ta\<rparr>)"
  "uch_wf u \<Longrightarrow> bus_ok m (m\<lparr>uch := u\<rparr>)"
  "bus_ok m (m\<lparr>bif := b\<rparr>)"
  "bus_ok m (m\<lparr>lash := l\<rparr>)"
  "bus_ok m (m\<lparr>umap := um\<rparr>)"
  "bus_ok m (m\<lparr>idl := id'\<rparr>)"
  "bus_ok m (m\<lparr>iob := io\<rparr>)"
  "bus_ok m (m\<lparr>spy_params := sp\<rparr>)"
  "bus_ok m (m\<lparr>cpu := (cpu m)\<lparr>md_reg := x\<rparr>\<rparr>)"
  "bus_ok m (m\<lparr>cpu := (cpu m)\<lparr>debug_ir := y\<rparr>\<rparr>)"
  "bus_ok m (m\<lparr>ms := (ms m)\<lparr>promdisabled := pd\<rparr>\<rparr>)"
  by (simp_all add: bus_ok_def sys_inv_def bus_frame_def bus_cpu_wf [OF bus_cpu_upd(1)]
      bus_cpu_wf [OF bus_cpu_upd(2)])

lemmas bus_ok_after = bus_ok_trans [OF _ bus_ok_slot(1)] bus_ok_trans [OF _ bus_ok_slot(2)]
  bus_ok_trans [OF _ bus_ok_slot(3)] bus_ok_trans [OF _ bus_ok_slot(4)]
  bus_ok_trans [OF _ bus_ok_slot(5)] bus_ok_trans [OF _ bus_ok_slot(6)]
  bus_ok_trans [OF _ bus_ok_slot(7)] bus_ok_trans [OF _ bus_ok_slot(8)]
  bus_ok_trans [OF _ bus_ok_slot(9)] bus_ok_trans [OF _ bus_ok_slot(10)]
  bus_ok_trans [OF _ bus_ok_slot(11)] bus_ok_trans [OF _ bus_ok_slot(12)]

section \<open>The devices\<close>

text \<open>Each device writes the slots its frame names, and its own invariant holds afterwards.\<close>

lemma bus_ok_disk:
  assumes "disk_controller_write off v m = Inr m'"
  shows "bus_ok m m'"
proof (rule bus_okI)
  assume inv: "sys_inv m"
  then have "disk_inv m"
    by (simp add: disk_inv_def sys_invD)
  then have "disk_inv m'" and eq: "m' = m\<lparr>intr := intr m', mem := mem m', idl := idl m', dsk := dsk m'\<rparr>"
    using disk_controller_write_inv [OF assms] by (simp_all add: disk_only_def)
  then have "bus_ok m (m\<lparr>intr := intr m', mem := mem m', idl := idl m', dsk := dsk m'\<rparr>)"
    by (intro bus_ok_after bus_ok_refl) (simp_all add: disk_inv_def)
  then show "bus_ok m m'"
    using eq by simp
qed

lemma bus_ok_tape:
  assumes "tape_controller_unibus_write uaddr v m = Inr m'"
  shows "bus_ok m m'"
proof (rule bus_okI)
  assume "sys_inv m"
  then have "tape_inv m"
    by (simp add: tape_inv_def sys_invD)
  then have "tape_inv m'" and eq: "m' = m\<lparr>intr := intr m', tape := tape m'\<rparr>"
    using tape_inv_write assms tape_write_only [OF assms] by (auto simp: tape_only_def)
  then have "bus_ok m (m\<lparr>intr := intr m', tape := tape m'\<rparr>)"
    by (intro bus_ok_after bus_ok_refl) (simp_all add: tape_inv_def)
  then show "bus_ok m m'"
    using eq by simp
qed

lemma bus_ok_iob:
  assumes "iob_only m m'" and "uch_inv m \<Longrightarrow> uch_inv m'"
  shows "bus_ok m m'"
proof (rule bus_okI)
  assume "sys_inv m"
  then have "uch_inv m"
    by (simp add: uch_inv_def sys_invD)
  then have "uch_inv m'"
    by (rule assms(2))
  then have "bus_ok m (m\<lparr>intr := intr m', idl := idl m', uch := uch m', iob := iob m'\<rparr>)"
    by (intro bus_ok_after bus_ok_refl) (simp_all add: uch_inv_def)
  then show "bus_ok m m'"
    using assms(1) by (simp add: iob_only_def)
qed

lemma bus_ok_bif:
  assumes "bif_frame m m'" and "intr_wf (intr m) \<Longrightarrow> intr_wf (intr m')"
  shows "bus_ok m m'"
proof (rule bus_okI)
  assume "sys_inv m"
  then have "intr_wf (intr m')"
    using assms(2) by (simp add: sys_invD)
  then have "bus_ok m (m\<lparr>intr := intr m', bif := bif m', lash := lash m'\<rparr>)"
    by (intro bus_ok_after bus_ok_refl)
  then show "bus_ok m m'"
    using assms(1) by (simp add: bif_frame_def)
qed

lemma bus_ok_nxm:
  "bus_ok m (bus_interface_set_xbus_nxm m)" "bus_ok m (bus_interface_set_unibus_nxm m)"
  "bus_ok m (bus_interface_set_unibus_map_error m)"
  by (simp_all add: bif_error_defs bus_ok_slot)

lemma bus_ok_tv:
  "tv_screen_write off v m = Inr m' \<Longrightarrow> bus_ok m m'"
  "tv_control_write off v m = Inr m' \<Longrightarrow> bus_ok m m'"
  "bus_ok m (snd (tv_control_read off pv m))"
proof -
  show "bus_ok m m'" if w: "tv_screen_write off v m = Inr m'"
  proof (rule bus_okI)
    assume "sys_inv m"
    then have "bus_ok m (m\<lparr>tv := tv m'\<rparr>)"
      by (intro bus_ok_slot tv_screen_write_wf [OF _ w]) (simp add: sys_invD)
    then show "bus_ok m m'"
      using tv_screen_write_only [OF w] by simp
  qed
  show "bus_ok m m'" if w: "tv_control_write off v m = Inr m'"
  proof (rule bus_okI)
    assume "sys_inv m"
    then have "tv_wf (tv m')" and eq: "m' = m\<lparr>bif := bif m', tv := tv m'\<rparr>"
      using tv_control_write_ok [of m off v] w by (auto simp: sys_invD)
    then have "bus_ok m (m\<lparr>bif := bif m', tv := tv m'\<rparr>)"
      by (intro bus_ok_after bus_ok_refl)
    then show "bus_ok m m'"
      using eq by simp
  qed
  show "bus_ok m (snd (tv_control_read off pv m))"
    by (simp add: tv_control_read_def bus_ok_nxm)
qed

lemma bus_ok_ctv:
  "colortv_screen_write off v m = Inr m' \<Longrightarrow> bus_ok m m'"
  "colortv_control_write off v m = Inr m' \<Longrightarrow> bus_ok m m'"
  "bus_ok m (snd (colortv_control_read off pv m))"
proof -
  show "bus_ok m m'" if w: "colortv_screen_write off v m = Inr m'"
  proof (rule bus_okI)
    assume "sys_inv m"
    then have "ctv_wf (ctv m')" and eq: "m' = m\<lparr>ctv := ctv m'\<rparr>"
      using colortv_screen_write_ok [OF w] by (auto simp: sys_invD)
    then have "bus_ok m (m\<lparr>ctv := ctv m'\<rparr>)"
      by (intro bus_ok_slot)
    then show "bus_ok m m'"
      using eq by simp
  qed
  show "bus_ok m m'" if w: "colortv_control_write off v m = Inr m'"
  proof (rule bus_okI)
    assume "sys_inv m"
    then have "ctv_wf (ctv m')" and eq: "m' = m\<lparr>bif := bif m', ctv := ctv m'\<rparr>"
      using colortv_control_write_ok [OF w] by (auto simp: sys_invD)
    then have "bus_ok m (m\<lparr>bif := bif m', ctv := ctv m'\<rparr>)"
      by (intro bus_ok_after bus_ok_refl)
    then show "bus_ok m m'"
      using eq by simp
  qed
  show "bus_ok m (snd (colortv_control_read off pv m))"
    by (simp add: colortv_control_read_def Let_def bus_ok_nxm)
qed

lemma bus_ok_diag:
  "diagnostic_interface_read uaddr pv m = Inr (w, m') \<Longrightarrow> bus_ok m m'"
  "diagnostic_interface_write uaddr v m = Inr m' \<Longrightarrow> bus_ok m m'"
  by (auto simp: diagnostic_interface_read_def diagnostic_interface_write_def Let_def case_prod_beta
      bus_ok_nxm bus_ok_slot split: if_splits)

lemma bus_ok_umap:
  "bus_ok m (snd (unibus_mapping_read uaddr pv m))" "bus_ok m (unibus_mapping_write uaddr v m)"
  by (simp_all add: unibus_mapping_read_def unibus_mapping_write_def unibus_mapping_rw_def Let_def
      bus_ok_nxm bus_ok_slot)

lemma bus_ok_mem: "bus_ok m (snd (main_memory_write paddr v m))"
proof (rule bus_okI)
  assume "sys_inv m"
  then have "mem_wf (mem (snd (main_memory_write paddr v m)))"
    by (intro mem_wf_write) (simp add: sys_invD)
  then show "bus_ok m (snd (main_memory_write paddr v m))"
    by (subst mem_only) (rule bus_ok_slot)
qed

section \<open>Bus cycles\<close>

lemma bus_ok_xbusio:
  "bus_adaptor_xbusio_rw write paddr pv m = Inr (w, m') \<Longrightarrow> bus_ok m m'"
  using bus_ok_tv(3) [of m "paddr - 0x3DFFF0" pv] bus_ok_ctv(3) [of m "paddr - 0x3DFFE8" pv]
  by (auto simp: bus_adaptor_xbusio_rw_def fault_simps bus_ok_nxm
      intro: bus_ok_tv bus_ok_ctv bus_ok_disk split: if_splits)

lemma bus_ok_xbus:
  "bus_adaptor_xbus_rw write paddr pv m = Inr (w, m') \<Longrightarrow> bus_ok m m'"
  by (auto simp: bus_adaptor_xbus_rw_def Let_def bus_ok_nxm bus_ok_mem
      intro: bus_ok_xbusio split: if_splits)

lemma bus_ok_map:
  "unibus_map_rw write uaddr pv m = Inr (w, m') \<Longrightarrow> bus_ok m m'"
  by (auto simp: unibus_map_rw_def unibus_map_xbus_def unibus_map_md_def unibus_map_buffer_def
      Let_def fault_simps bus_ok_nxm bus_ok_slot
      intro: bus_ok_xbus bus_ok_trans [OF bus_ok_xbus] split: if_splits)

lemma bus_ok_unibus:
  "bus_adaptor_unibus_rw write uaddr pv m = Inr (w, m') \<Longrightarrow> bus_ok m m'"
proof -
  assume rw: "bus_adaptor_unibus_rw write uaddr pv m = Inr (w, m')"
  have bif: "bus_ok m (snd (bus_interface_read uaddr pv m))" "bus_ok m (bus_interface_write uaddr pv m)"
    using bus_interface_frame intr_wf_bus_interface by (blast intro: bus_ok_bif)+
  have umap: "bus_ok m (snd (unibus_mapping_read uaddr pv m))"
    by (rule bus_ok_umap)
  have iob: "iob_unibus_read uaddr m = Inr (w, m') \<Longrightarrow> bus_ok m m'"
    "iob_unibus_write uaddr pv m = Inr m' \<Longrightarrow> bus_ok m m'"
    by (blast intro: bus_ok_iob iob_read_only iob_read_inv iob_write_only iob_write_inv)+
  let ?d = "\<lambda>lo hi. lo \<le> uaddr \<and> uaddr \<le> (hi :: u32)"
  consider "?d 0xC000 0xFFFF" | "\<not> ?d 0xC000 0xFFFF" "?d 0x3E800 0x3E87E"
    | "\<not> ?d 0xC000 0xFFFF" "\<not> ?d 0x3E800 0x3E87E" "?d 0x3EC00 0x3EC1E"
    | "\<not> ?d 0xC000 0xFFFF" "\<not> ?d 0x3E800 0x3E87E" "\<not> ?d 0x3EC00 0x3EC1E" "?d 0x3EC20 0x3EC5E"
    | "\<not> ?d 0xC000 0xFFFF" "\<not> ?d 0x3E800 0x3E87E" "\<not> ?d 0x3EC00 0x3EC1E" "\<not> ?d 0x3EC20 0x3EC5E"
      "?d 0x3EC60 0x3EC7E"
    | "\<not> ?d 0xC000 0xFFFF" "\<not> ?d 0x3E800 0x3E87E" "\<not> ?d 0x3EC00 0x3EC1E" "\<not> ?d 0x3EC20 0x3EC5E"
      "\<not> ?d 0x3EC60 0x3EC7E"
    by blast
  then show ?thesis
  proof cases
    case 1
    then show ?thesis
      using rw bus_ok_map unfolding bus_adaptor_unibus_rw_def by simp
  next
    case 2
    then show ?thesis
      using rw iob unfolding bus_adaptor_unibus_rw_def if_not_P [OF 2(1)] if_P [OF 2(2)]
      by (cases "write") (auto simp: fault_simps)
  next
    case 3
    then show ?thesis
      using rw bus_ok_diag
      unfolding bus_adaptor_unibus_rw_def if_not_P [OF 3(1)] if_not_P [OF 3(2)] if_P [OF 3(3)]
      by (cases "write") (auto simp: fault_simps)
  next
    case 4
    then show ?thesis
      using rw bif unfolding bus_adaptor_unibus_rw_def if_not_P [OF 4(1)] if_not_P [OF 4(2)]
        if_not_P [OF 4(3)] if_P [OF 4(4)]
      by (cases "write") auto
  next
    case 5
    then show ?thesis
      using rw umap bus_ok_umap(2) unfolding bus_adaptor_unibus_rw_def if_not_P [OF 5(1)]
        if_not_P [OF 5(2)] if_not_P [OF 5(3)] if_not_P [OF 5(4)] if_P [OF 5(5)]
      by (cases "write") auto
  next
    case 6
    then show ?thesis
      using rw bus_ok_tape bus_ok_nxm(2) unfolding bus_adaptor_unibus_rw_def if_not_P [OF 6(1)]
        if_not_P [OF 6(2)] if_not_P [OF 6(3)] if_not_P [OF 6(4)] if_not_P [OF 6(5)]
      by (auto simp: fault_simps split: if_splits)
  qed
qed

lemma bus_ok_rw:
  "bus_adaptor_rw write paddr pv m = Inr (w, m') \<Longrightarrow> bus_ok m m'"
  by (auto simp: bus_adaptor_rw_def Let_def fault_simps intro: bus_ok_xbus bus_ok_unibus
      split: if_splits)

interpretation bus: bus_device "\<lambda>a. True" bus_adaptor_read bus_adaptor_write sys_inv
  by unfold_locales
    (auto simp: bus_adaptor_read_def bus_adaptor_write_def fault_simps bus_ok_def
      dest!: bus_ok_rw)

end
