(* ===== verification/Vm.thy ===== *)
theory Vm
  imports Bus_Adaptor
begin

text \<open>
  Virtual memory access (\<^verbatim>\<open>usim/uvmem.c\<close>: \<open>vm\<close>, \<open>vmRead\<close>, \<open>vmWrite\<close>): translate, check the access rights
  and go on to the bus.  With the virtual memory map, this is the state of the whole machine:
  \<open>cadr_sys\<close>.
\<close>

unbundle bit_operations_syntax

record cadr_sys = diag_sys +
  vmem :: uvmem

definition set_vmaok :: "bool \<Rightarrow> 'a cadr_sys_scheme \<Rightarrow> 'a cadr_sys_scheme" where
  "set_vmaok ok m = m\<lparr>ms := (ms m)\<lparr>vmaok := ok\<rparr>\<rparr>"

text \<open>Pages \<open>035774\<close> to \<open>035777\<close> stand for the A memory; the code does not expect them (\<open>assert (false)\<close>).\<close>

definition vm_amem ::
    "bool \<Rightarrow> u32 \<Rightarrow> u32 \<Rightarrow> u32 \<Rightarrow> 'a cadr_sys_scheme \<Rightarrow> fault + u32 \<times> 'a cadr_sys_scheme" where
  "vm_amem write vaddr pn pv m =
     (let offset = unat (push_bit 8 (pn - 0x3BFC) + (vaddr AND 0xFF)) in
      and_then (c_assert (ndebug m) False ''false'') (\<lambda>_.
      and_then (in_bounds 1024 offset ''amem'') (\<lambda>_.
      Inr (if write then (pv, m\<lparr>cpu := (cpu m)\<lparr>amem := (amem (cpu m))(offset := pv)\<rparr>\<rparr>)
           else (amem (cpu m) offset, m)))))"

text \<open>Screen accesses take the address bits below the page from the virtual address.\<close>

definition vm_paddr :: "u32 \<Rightarrow> vtop \<Rightarrow> u32" where
  "vm_paddr vaddr t =
     (if vt_pn t = 0x3C00 then 0x3C0000 OR (vaddr AND 0x7FFF) else vt_paddr t)"

definition vm ::
    "bool \<Rightarrow> u32 \<Rightarrow> u32 \<Rightarrow> 'a cadr_sys_scheme \<Rightarrow> fault + u32 \<times> 'a cadr_sys_scheme" where
  "vm write vaddr0 pv m =
     (let vaddr = vaddr0 AND 0x00FFFFFF in
      and_then (uvmem_vtop (ndebug m) vaddr (vmem m)) (\<lambda>t.
        let ok = (if write then vt_access_permission t \<and> vt_write_permission t
                  else vt_access_permission t);
            m1 = set_vmaok ok m;
            pn = vt_pn t
        in if \<not> ok then Inr (0, m1)
           else if 0x3BFC \<le> pn \<and> pn \<le> 0x3BFF then vm_amem write vaddr pn pv m1
           else if pn \<le> 0x3FFF then
             (if write then and_then (bus_adaptor_write (vm_paddr vaddr t) pv m1) (\<lambda>m2. Inr (pv, m2))
              else bus_adaptor_read (vm_paddr vaddr t) pv m1)
           else Inl (Errx ''vm: impossible vaddr'')))"

definition vmRead :: "u32 \<Rightarrow> u32 \<Rightarrow> 'a cadr_sys_scheme \<Rightarrow> fault + u32 \<times> 'a cadr_sys_scheme" where
  "vmRead vaddr pv m = vm False vaddr pv m"

definition vmWrite :: "u32 \<Rightarrow> u32 \<Rightarrow> 'a cadr_sys_scheme \<Rightarrow> fault + 'a cadr_sys_scheme" where
  "vmWrite vaddr v m = and_then (vm True vaddr v m) (\<lambda>(_, m1). Inr m1)"

section \<open>The invariant of the machine\<close>

definition machine_wf :: "'a cadr_sys_scheme \<Rightarrow> bool" where
  "machine_wf m \<longleftrightarrow> sys_inv m \<and> uvmem_wf (vmem m)"

lemma machine_wfD: "machine_wf m \<Longrightarrow> sys_inv m" "machine_wf m \<Longrightarrow> uvmem_wf (vmem m)"
  "machine_wf m \<Longrightarrow> cpu_wf (cpu m)"
  by (simp_all add: machine_wf_def sys_inv_def)

text \<open>
  What a memory access leaves alone besides: the map, and of the processor all but the A memory, the
  debug IR and MD.
\<close>

definition vm_frame :: "'a cadr_sys_scheme \<Rightarrow> 'a cadr_sys_scheme \<Rightarrow> bool" where
  "vm_frame m m' \<longleftrightarrow>
     ndebug m' = ndebug m \<and> vmem m' = vmem m \<and> kbd m' = kbd m \<and> halted (ms m') = halted (ms m) \<and>
     cpu m' = (cpu m)\<lparr>amem := amem (cpu m'), debug_ir := debug_ir (cpu m'),
                      md_reg := md_reg (cpu m')\<rparr>"

lemma vmem_eq_more: "diag_sys.more m' = diag_sys.more m \<Longrightarrow> vmem m' = vmem m"
  by (cases m, cases m') simp

lemma bus_ok_machine:
  assumes "bus_ok m m'" and "machine_wf m"
  shows "machine_wf m'" "vm_frame m m'"
proof -
  from assms have inv: "sys_inv m'" and frame: "bus_frame m m'"
    by (simp_all add: bus_ok_def machine_wf_def)
  have "vmem m' = vmem m"
    using frame by (intro vmem_eq_more) (simp add: bus_frame_def)
  then show "machine_wf m'"
    using inv assms(2) by (simp add: machine_wf_def)
  have "cpu m' = (cpu m)\<lparr>amem := amem (cpu m'), debug_ir := debug_ir (cpu m'),
      md_reg := md_reg (cpu m')\<rparr>"
    using frame unfolding bus_frame_def bus_cpu_def
    by (elim conjE) (erule ssubst [where P = "\<lambda>c. c = _ c"], simp)
  then show "vm_frame m m'"
    using frame \<open>vmem m' = vmem m\<close> by (simp add: vm_frame_def bus_frame_def)
qed

end
