(* ===== verification/Usym.thy ===== *)
theory Usym
  imports C_Strings
begin

text \<open>
  Symbol tables (\<^verbatim>\<open>usim/usym.c\<close>): a list of symbols in the order of their values.  A table is read from
  the lines of a symbol file; \<open>sscan\<close> is what the code uses of \<open>sscanf\<close>.  Names and types of 64
  characters or more overflow the buffers of the reader.
\<close>

section \<open>Tables\<close>

datatype symtype_t = IMEM | DMEM | AMEM | MMEM | NUMBER

record sym_t =
  sym_name :: string
  sym_v :: u32
  sym_mtype :: symtype_t

type_synonym symtab = "sym_t list"

text \<open>
  Insertion: at the head when the first value is not smaller, otherwise after the last symbol with a
  smaller value.  \<open>insert_after_last P s ss\<close> puts \<open>s\<close> behind the last element with \<open>P\<close>.
\<close>

fun insert_after_last :: "('a \<Rightarrow> bool) \<Rightarrow> 'a \<Rightarrow> 'a list \<Rightarrow> 'a list" where
  "insert_after_last P s [] = []"
| "insert_after_last P s (x # xs) =
     (if P x \<and> (\<forall>y \<in> set xs. \<not> P y) then x # s # xs else x # insert_after_last P s xs)"

definition sym_add :: "symtype_t \<Rightarrow> string \<Rightarrow> u32 \<Rightarrow> symtab \<Rightarrow> symtab" where
  "sym_add memory name v tab =
     (let s = \<lparr>sym_name = name, sym_v = v, sym_mtype = memory\<rparr> in
      case tab of
        [] \<Rightarrow> [s]
      | p # _ \<Rightarrow> if sym_v p \<ge> v then s # tab else insert_after_last (\<lambda>ss. sym_v ss < v) s tab)"

text \<open>
  The search by value: an exact match ends it, a larger value too; \<open>closest\<close> is the last smaller one.
  The result is the name and the offset; without an \<open>offset\<close> argument only exact matches are found.
\<close>

fun sym_search :: "symtype_t \<Rightarrow> u32 \<Rightarrow> sym_t option \<Rightarrow> symtab \<Rightarrow> sym_t option" where
  "sym_search memory v closest [] = closest"
| "sym_search memory v closest (s # ss) =
     (if sym_mtype s \<noteq> memory then sym_search memory v closest ss
      else if sym_v s = v then Some s
      else if sym_v s < v then sym_search memory v (Some s) ss
      else closest)"

definition sym_find_by_type_val ::
    "symtab \<Rightarrow> symtype_t \<Rightarrow> u32 \<Rightarrow> bool \<Rightarrow> (string \<times> u32) option" where
  "sym_find_by_type_val tab memory v want_offset =
     (case sym_search memory v None tab of
        None \<Rightarrow> None
      | Some s \<Rightarrow>
          if sym_v s = v then Some (sym_name s, 0)
          else if want_offset then Some (sym_name s, v - sym_v s) else None)"

fun sym_find :: "symtab \<Rightarrow> string \<Rightarrow> u32 option" where
  "sym_find [] name = None"
| "sym_find (s # ss) name = (if c_strcaseeq name (sym_name s) then Some (sym_v s) else sym_find ss name)"

definition sym_typeno :: "string \<Rightarrow> fault + symtype_t" where
  "sym_typeno n =
     (if n = ''I-MEM'' then Inr IMEM else if n = ''D-MEM'' then Inr DMEM
      else if n = ''A-MEM'' then Inr AMEM else if n = ''M-MEM'' then Inr MMEM
      else if n = ''NUMBER'' then Inr NUMBER
      else Inl (Errx ''unknown section type in symbol table''))"

section \<open>Reading a file\<close>

text \<open>\<open>%s\<close>: the next word and what follows it.\<close>

definition scan_word :: "string \<Rightarrow> (string \<times> string) option" where
  "scan_word l =
     (let l1 = dropWhile c_isspace l; w = takeWhile (\<lambda>c. \<not> c_isspace c) l1
      in if w = [] then None else Some (w, dropWhile (\<lambda>c. \<not> c_isspace c) l1))"

definition c_isoctal :: "char \<Rightarrow> bool" where
  "c_isoctal c = (let n = of_char c :: nat in 48 \<le> n \<and> n \<le> 55)"

definition octal_value :: "string \<Rightarrow> nat" where
  "octal_value ds = foldl (\<lambda>a c. a * 8 + (of_char c - 48)) 0 ds"

text \<open>\<open>%o\<close>: an optional sign and octal digits, reduced to 32 bits.\<close>

definition scan_octal :: "string \<Rightarrow> u32 option" where
  "scan_octal l =
     (let l1 = dropWhile c_isspace l;
          neg = (l1 \<noteq> [] \<and> hd l1 = CHR ''-'');
          l2 = (if l1 \<noteq> [] \<and> (hd l1 = CHR ''-'' \<or> hd l1 = CHR ''+'') then tl l1 else l1);
          ds = takeWhile c_isoctal l2
      in if ds = [] then None
         else Some (if neg then - of_nat (octal_value ds) else of_nat (octal_value ds)))"

text \<open>\<open>sscanf(l, "%s %s %o")\<close> into buffers of 64 characters: \<open>None\<close> if not all three are converted.\<close>

definition sscan :: "string \<Rightarrow> fault + (string \<times> string \<times> u32) option" where
  "sscan l =
     (case scan_word l of
        None \<Rightarrow> Inr None
      | Some (w, l1) \<Rightarrow> and_then (in_bounds 64 (length w) ''sym'') (\<lambda>_.
     (case scan_word l1 of
        None \<Rightarrow> Inr None
      | Some (t, l2) \<Rightarrow> and_then (in_bounds 64 (length t) ''symtype'') (\<lambda>_.
          Inr (map_option (\<lambda>v. (w, t, v)) (scan_octal l2))))))"

definition add_line :: "string \<times> string \<times> u32 \<Rightarrow> symtab \<Rightarrow> fault + symtab" where
  "add_line p tab =
     (case p of (w, t, v) \<Rightarrow> and_then (sym_typeno t) (\<lambda>ty. Inr (sym_add ty w v tab)))"

fun sym_read_lines :: "string list \<Rightarrow> symtab \<Rightarrow> fault + symtab" where
  "sym_read_lines [] tab = Inl (Errx ''failed to eof section marker (-1)'')"
| "sym_read_lines (l # ls) tab =
     (if l = ''-1 '' then Inr tab
      else and_then (sscan l) (\<lambda>r. case r of
        None \<Rightarrow> sym_read_lines ls tab
      | Some p \<Rightarrow> and_then (add_line p tab) (sym_read_lines ls)))"

text \<open>
  The file is given by its lines, with their newlines.  The first symbol follows the marker \<open>-2\<close> on
  its line.
\<close>

definition sym_read_file :: "string list option \<Rightarrow> fault + symtab" where
  "sym_read_file file =
     (case file of
        None \<Rightarrow> Inl (Errx ''failed to open'')
      | Some (l1 # l2 # l3 # l4 # ls) \<Rightarrow>
          if l2 \<noteq> ''-4 '' @ [CHR 0x0A] then Inl (Errx ''failed to find assembler state info section'')
          else if take 2 l4 \<noteq> ''-2'' then Inl (Errx ''failed to find symbol dump section'')
          else and_then (sscan (drop 2 l4)) (\<lambda>r. case r of
                  None \<Rightarrow> Inl (Errx ''failed to find symbol dump section'')
                | Some p \<Rightarrow> and_then (add_line p []) (sym_read_lines ls))
      | Some _ \<Rightarrow> Inl (Errx ''failed to find assembler state info section''))"

section \<open>Tables are sorted\<close>

definition symtab_sorted :: "symtab \<Rightarrow> bool" where
  "symtab_sorted tab \<longleftrightarrow> sorted (map sym_v tab)"

lemma insert_after_last_set:
  "\<exists>x \<in> set xs. P x \<Longrightarrow> set (insert_after_last P s xs) = insert s (set xs)"
  by (induction xs) auto

lemma insert_after_last_sorted:
  assumes "symtab_sorted tab" and "\<exists>x \<in> set tab. sym_v x < sym_v s"
  shows "symtab_sorted (insert_after_last (\<lambda>x. sym_v x < sym_v s) s tab)"
  using assms
proof (induction tab)
  case (Cons x xs)
  show ?case
  proof (cases "\<exists>y \<in> set xs. sym_v y < sym_v s")
    case True
    then have "set (insert_after_last (\<lambda>x. sym_v x < sym_v s) s xs) = insert s (set xs)"
      by (rule insert_after_last_set)
    moreover have "sym_v x \<le> sym_v s"
      using True Cons.prems(1) by (force simp: symtab_sorted_def)
    ultimately show ?thesis
      using True Cons by (auto simp: symtab_sorted_def)
  next
    case False
    with Cons.prems show ?thesis
      by (force simp: symtab_sorted_def not_less)
  qed
qed simp

lemma sym_add_sorted:
  assumes "symtab_sorted tab"
  shows "symtab_sorted (sym_add memory name v tab)"
proof (cases tab)
  case (Cons p ps)
  show ?thesis
  proof (cases "sym_v p \<ge> v")
    case True
    then show ?thesis
      using assms Cons by (force simp: sym_add_def symtab_sorted_def)
  next
    case False
    then have "\<exists>x \<in> set tab. sym_v x < sym_v \<lparr>sym_name = name, sym_v = v, sym_mtype = memory\<rparr>"
      by (auto simp: Cons not_le)
    from insert_after_last_sorted [OF assms this] False show ?thesis
      by (simp add: sym_add_def Cons Let_def)
  qed
qed (simp add: sym_add_def symtab_sorted_def)

lemma sym_add_set:
  "set (sym_add memory name v tab) =
     insert \<lparr>sym_name = name, sym_v = v, sym_mtype = memory\<rparr> (set tab)"
proof (cases tab)
  case (Cons p ps)
  have "\<not> v \<le> sym_v p \<Longrightarrow> \<exists>x \<in> set tab. sym_v x < v"
    by (auto simp: Cons not_le)
  from insert_after_last_set [OF this] show ?thesis
    by (auto simp: sym_add_def Cons Let_def split: if_splits)
qed (simp add: sym_add_def)

lemma add_line_sorted: "add_line p tab = Inr tab' \<Longrightarrow> symtab_sorted tab \<Longrightarrow> symtab_sorted tab'"
  by (cases p) (auto simp: add_line_def fault_simps sym_add_sorted)

lemma sym_read_lines_sorted:
  "sym_read_lines ls tab = Inr tab' \<Longrightarrow> symtab_sorted tab \<Longrightarrow> symtab_sorted tab'"
  by (induction ls arbitrary: tab)
    (fastforce simp: fault_simps dest: add_line_sorted split: if_splits option.splits)+

lemma sym_read_file_sorted: "sym_read_file f = Inr tab \<Longrightarrow> symtab_sorted tab"
  by (auto simp: sym_read_file_def fault_simps split: option.splits list.splits if_splits
      elim!: sym_read_lines_sorted add_line_sorted) (simp_all add: symtab_sorted_def)

section \<open>The search finds the nearest symbol below\<close>

text \<open>The symbols of a kind at or below a value.\<close>

definition candidates :: "symtype_t \<Rightarrow> u32 \<Rightarrow> symtab \<Rightarrow> sym_t set" where
  "candidates memory v tab = {t \<in> set tab. sym_mtype t = memory \<and> sym_v t \<le> v}"

lemma sym_search_nearest:
  assumes "symtab_sorted tab"
  shows "(candidates memory v tab = {} \<longrightarrow> sym_search memory v c tab = c) \<and>
    (candidates memory v tab \<noteq> {} \<longrightarrow>
      (\<exists>s \<in> candidates memory v tab. sym_search memory v c tab = Some s \<and>
        (\<forall>t \<in> candidates memory v tab. sym_v t \<le> sym_v s)))"
  using assms
proof (induction tab arbitrary: c)
  case Nil
  then show ?case by (simp add: candidates_def)
next
  case (Cons s ss)
  have sorted_ss: "symtab_sorted ss" and le: "\<forall>t \<in> set ss. sym_v s \<le> sym_v t"
    using Cons.prems by (auto simp: symtab_sorted_def)
  note IH = Cons.IH [OF sorted_ss]
  consider "sym_mtype s \<noteq> memory" | "sym_mtype s = memory" "sym_v s = v"
    | "sym_mtype s = memory" "sym_v s < v" | "sym_mtype s = memory" "v < sym_v s"
    by fastforce
  then show ?case
  proof cases
    case 1
    then have "candidates memory v (s # ss) = candidates memory v ss"
      by (auto simp: candidates_def)
    with 1 IH show ?thesis by simp
  next
    case 2
    then show ?thesis by (auto simp: candidates_def)
  next
    case 3
    then have eq: "candidates memory v (s # ss) = insert s (candidates memory v ss)"
      by (auto simp: candidates_def)
    show ?thesis
    proof (cases "candidates memory v ss = {}")
      case True
      with 3 IH [of "Some s"] show ?thesis
        by (simp add: eq)
    next
      case False
      with IH [of "Some s"] obtain t where "t \<in> candidates memory v ss"
        "sym_search memory v (Some s) ss = Some t" "\<forall>t' \<in> candidates memory v ss. sym_v t' \<le> sym_v t"
        by blast
      moreover from this have "sym_v s \<le> sym_v t"
        using le by (auto simp: candidates_def)
      ultimately show ?thesis
        using 3 by (auto simp: eq)
    qed
  next
    case 4
    then have "candidates memory v (s # ss) = {}"
      using le by (force simp: candidates_def)
    moreover have "\<not> sym_v s < v" "sym_v s \<noteq> v"
      using 4 by auto
    ultimately show ?thesis
      using 4 by simp
  qed
qed

lemma sym_find_by_type_val_nearest:
  assumes "symtab_sorted tab" and "sym_find_by_type_val tab memory v True = Some (name, off)"
  shows "\<exists>s \<in> candidates memory v tab. sym_name s = name \<and> off = v - sym_v s \<and>
    (\<forall>t \<in> candidates memory v tab. sym_v t \<le> sym_v s)"
proof -
  obtain s where s: "sym_search memory v None tab = Some s" and n: "name = sym_name s" "off = v - sym_v s"
    using assms(2) by (auto simp: sym_find_by_type_val_def split: option.splits if_splits)
  then show ?thesis
    using sym_search_nearest [OF assms(1), of memory v None] by (metis option.distinct(1) option.inject)
qed

end
