(* ===== verification/Sdl3_Mouse.thy ===== *)
theory Sdl3_Mouse
  imports Vm Usym
begin

text \<open>
  The mouse of the SDL3 build (\<^verbatim>\<open>usim/sdl3-mouse.c\<close>): positions and buttons go to the A memory locations
  that the microcode's symbol table names, and to the I/O board.

  \<open>mouse_unscale\<close> is the conversion of a window coordinate to screen coordinates, the quotient by the
  floating-point \<open>sdl3_video_scale\<close>; \<open>mouse_warps\<close> records the pointer positions passed to the host,
  latest first.
\<close>

unbundle bit_operations_syntax

record sdl_mouse =
  sm_x :: u32
  sm_y :: u32
  sm_tail :: u32
  sm_middle :: u32
  sm_head :: u32
  a_mouse_x :: u32
  a_mouse_y :: u32
  a_mouse_wakeup :: u32
  a_v_true :: u32
  a_mouse_cursor_state :: u32
  sm_prevstate :: u32
  mouse_unscale :: "u32 \<Rightarrow> u32"
  mouse_warps :: "(u32 \<times> u32) list"

record mouse_sys = cadr_sys +
  mouse :: sdl_mouse

definition DTP_FIX_VAL :: "u32 \<Rightarrow> u32" where
  "DTP_FIX_VAL x = x AND (push_bit 24 1 - 1)"

definition DTP_FIX :: "u32 \<Rightarrow> u32" where
  "DTP_FIX x = DTP_FIX_VAL x OR push_bit 25 5"

definition upd_mouse :: "(sdl_mouse \<Rightarrow> sdl_mouse) \<Rightarrow> 'a mouse_sys_scheme \<Rightarrow> 'a mouse_sys_scheme" where
  "upd_mouse f m = m\<lparr>mouse := f (mouse m)\<rparr>"

text \<open>Access to the A memory at a location given by a symbol.\<close>

definition amem_at :: "u32 \<Rightarrow> 'a mouse_sys_scheme \<Rightarrow> fault + u32" where
  "amem_at a m = and_then (in_bounds 1024 (unat a) ''amem'') (\<lambda>_. Inr (amem (cpu m) (unat a)))"

definition amem_put :: "u32 \<Rightarrow> u32 \<Rightarrow> 'a mouse_sys_scheme \<Rightarrow> fault + 'a mouse_sys_scheme" where
  "amem_put a v m =
     and_then (in_bounds 1024 (unat a) ''amem'') (\<lambda>_.
     Inr (m\<lparr>cpu := (cpu m)\<lparr>amem := (amem (cpu m))(unat a := v)\<rparr>\<rparr>))"

text \<open>The cursor state 3 is \<open>Son\<close>.\<close>

definition sdl3_mouse_warp_if_needed :: "'a mouse_sys_scheme \<Rightarrow> fault + 'a mouse_sys_scheme" where
  "sdl3_mouse_warp_if_needed m =
     (let s = mouse m in
      and_then (amem_at (a_mouse_cursor_state s) m) (\<lambda>v.
      let state = DTP_FIX_VAL v in
      and_then
        (if state \<noteq> sm_prevstate s \<and> state = 3 then
           and_then (amem_at (a_mouse_x s) m) (\<lambda>x.
           and_then (amem_at (a_mouse_y s) m) (\<lambda>y.
           Inr (upd_mouse (\<lambda>s. s\<lparr>mouse_warps := (DTP_FIX_VAL x, DTP_FIX_VAL y) # mouse_warps s\<rparr>) m)))
         else Inr m) (\<lambda>m1.
      Inr (upd_mouse (sm_prevstate_update (\<lambda>_. state)) m1))))"

definition sdl3_mouse_set_mouse_ready :: "'a mouse_sys_scheme \<Rightarrow> fault + 'a mouse_sys_scheme" where
  "sdl3_mouse_set_mouse_ready m0 =
     and_then (sdl3_mouse_warp_if_needed m0) (\<lambda>m.
     let s = mouse m in
     and_then (amem_put (a_mouse_x s) (DTP_FIX (mouse_unscale s (sm_x s))) m) (\<lambda>m1.
     and_then (amem_put (a_mouse_y s) (DTP_FIX (mouse_unscale s (sm_y s))) m1) (\<lambda>m2.
     and_then (amem_at (a_v_true s) m2) (\<lambda>t.
     and_then (amem_put (a_mouse_wakeup s) t m2) (\<lambda>m3.
     Inr (iob_set_mouse_ready 0 0 0 0 (sm_head s) (sm_middle s) (sm_tail s) m3))))))"

definition sdl3_mouse_init :: "symtab \<Rightarrow> 'a mouse_sys_scheme \<Rightarrow> fault + bool \<times> 'a mouse_sys_scheme" where
  "sdl3_mouse_init sym_mcr m =
     (let intern = (\<lambda>name. case sym_find sym_mcr name of
            None \<Rightarrow> Inl (Errx ''can't find in microcode symbols'') | Some v \<Rightarrow> Inr v)
      in and_then (intern ''A-MOUSE-X'') (\<lambda>x.
         and_then (intern ''A-MOUSE-Y'') (\<lambda>y.
         and_then (intern ''A-MOUSE-WAKEUP'') (\<lambda>w.
         and_then (intern ''A-V-TRUE'') (\<lambda>t.
         and_then (intern ''A-MOUSE-CURSOR-STATE'') (\<lambda>c.
         Inr (True, upd_mouse (\<lambda>s. s\<lparr>a_mouse_x := x, a_mouse_y := y, a_mouse_wakeup := w,
                a_v_true := t, a_mouse_cursor_state := c\<rparr>) m)))))))"

definition sdl3_mouse_motion ::
    "u32 \<Rightarrow> u32 \<Rightarrow> 'a mouse_sys_scheme \<Rightarrow> fault + 'a mouse_sys_scheme" where
  "sdl3_mouse_motion x y m = sdl3_mouse_set_mouse_ready (upd_mouse (\<lambda>s. s\<lparr>sm_x := x, sm_y := y\<rparr>) m)"

definition set_button :: "u8 \<Rightarrow> u32 \<Rightarrow> sdl_mouse \<Rightarrow> sdl_mouse" where
  "set_button button v s =
     (if button = 1 then s\<lparr>sm_tail := v\<rparr> else if button = 2 then s\<lparr>sm_middle := v\<rparr>
      else if button = 3 then s\<lparr>sm_head := v\<rparr> else s)"

definition sdl3_mouse_button_down :: "u8 \<Rightarrow> 'a mouse_sys_scheme \<Rightarrow> fault + 'a mouse_sys_scheme" where
  "sdl3_mouse_button_down button m = sdl3_mouse_set_mouse_ready (upd_mouse (set_button button 0) m)"

definition sdl3_mouse_button_up :: "u8 \<Rightarrow> 'a mouse_sys_scheme \<Rightarrow> fault + 'a mouse_sys_scheme" where
  "sdl3_mouse_button_up button m = sdl3_mouse_set_mouse_ready (upd_mouse (set_button button 1) m)"

section \<open>Invariant\<close>

lemma machine_wf_mouse [simp]: "machine_wf (upd_mouse f m) = machine_wf m"
  by (simp add: machine_wf_def sys_inv_def upd_mouse_def)

lemma machine_wf_amem_put: "amem_put a v m = Inr m' \<Longrightarrow> machine_wf m \<Longrightarrow> machine_wf m'"
  by (auto simp: amem_put_def fault_simps machine_wf_def sys_inv_def cpu_wf_def)

lemma machine_wf_set_mouse_ready:
  "machine_wf m \<Longrightarrow> machine_wf (iob_set_mouse_ready a b c d e f g m)"
  by (auto simp: iob_set_mouse_ready_def Let_def upd_iob_def machine_wf_def sys_inv_def intr_defs
      intr_wf_def)

lemma machine_wf_warp: "sdl3_mouse_warp_if_needed m = Inr m' \<Longrightarrow> machine_wf m \<Longrightarrow> machine_wf m'"
  by (auto simp: sdl3_mouse_warp_if_needed_def Let_def fault_simps split: if_splits)

lemma machine_wf_mouse_ready:
  "sdl3_mouse_set_mouse_ready m = Inr m' \<Longrightarrow> machine_wf m \<Longrightarrow> machine_wf m'"
  by (auto simp: sdl3_mouse_set_mouse_ready_def Let_def fault_simps
      dest!: machine_wf_warp machine_wf_amem_put intro!: machine_wf_set_mouse_ready)

lemma machine_wf_mouse_events:
  "sdl3_mouse_motion x y m = Inr m' \<Longrightarrow> machine_wf m \<Longrightarrow> machine_wf m'"
  "sdl3_mouse_button_down b m = Inr m' \<Longrightarrow> machine_wf m \<Longrightarrow> machine_wf m'"
  "sdl3_mouse_button_up b m = Inr m' \<Longrightarrow> machine_wf m \<Longrightarrow> machine_wf m'"
  by (auto simp: sdl3_mouse_motion_def sdl3_mouse_button_down_def sdl3_mouse_button_up_def
      dest: machine_wf_mouse_ready)

end
