(* ===== verification/Uexec_Alu.thy ===== *)
theory Uexec_Alu
  imports Uexec_State
begin

text \<open>
  The arithmetic and logic unit (\<^verbatim>\<open>usim/uexec.c\<close>: \<open>qControl\<close>, \<open>outControl\<close>, \<open>arithOps\<close>, \<open>logiOps\<close>, \<open>divOps\<close>
  and the part of \<open>alu\<close> before the destination is written), the masker and the byte position of the
  location counter.  The operands \<open>mdata\<close> and \<open>adata\<close> are signed; the 64-bit intermediate \<open>lv\<close> of the
  code is an integer here, since its value always fits.
\<close>

unbundle bit_operations_syntax

section \<open>Q and output control\<close>

definition qControl :: "cpu \<Rightarrow> cpu" where
  "qControl c0 =
     (let c = c0\<lparr>old_q := q_r c0\<rparr>; f = ir 0 2 c in
      if f = 1 then
        c\<lparr>q_r := (if alu_out c AND 0x80000000 = 0 then push_bit 1 (q_r c) OR 1
                  else push_bit 1 (q_r c))\<rparr>
      else if f = 2 then
        c\<lparr>q_r := (if alu_out c AND 1 \<noteq> 0 then drop_bit 1 (q_r c) OR 0x80000000
                  else drop_bit 1 (q_r c))\<rparr>
      else if f = 3 then c\<lparr>q_r := alu_out c\<rparr>
      else c)"

definition outControl :: "cpu \<Rightarrow> cpu" where
  "outControl c =
     (let f = drop_bit 12 (p0 c) AND 3 in
      if f = 0 then c\<lparr>out_r := rol32 (mdata c) (unat (p0 c AND 0x1F))\<rparr>
      else if f = 1 then c\<lparr>out_r := alu_out c\<rparr>
      else if f = 2 then
        c\<lparr>out_r := drop_bit 1 (alu_out c) OR (if alu_carry c \<noteq> 0 then 0x80000000 else 0)\<rparr>
      else c\<lparr>out_r := push_bit 1 (alu_out c) OR (if old_q c AND 0x80000000 \<noteq> 0 then 1 else 0)\<rparr>)"

section \<open>Operations\<close>

definition cin :: "cpu \<Rightarrow> bool" where
  "cin c \<longleftrightarrow> ir 2 1 c \<noteq> 0"

definition set_lv :: "int \<Rightarrow> cpu \<Rightarrow> cpu" where
  "set_lv lv c = c\<lparr>alu_out := word_of_int lv, alu_carry := (if drop_bit 32 lv \<noteq> 0 then 1 else 0)\<rparr>"

definition set_add :: "u32 \<Rightarrow> u32 \<Rightarrow> bool \<Rightarrow> cpu \<Rightarrow> cpu" where
  "set_add a b ci c = c\<lparr>alu_out := add32_out a b ci, alu_carry := add32_co a b ci\<rparr>"

definition set_sub :: "u32 \<Rightarrow> u32 \<Rightarrow> bool \<Rightarrow> cpu \<Rightarrow> cpu" where
  "set_sub a b ci c = c\<lparr>alu_out := sub32_out a b ci, alu_carry := sub32_co a b ci\<rparr>"

definition arithOps :: "u32 \<Rightarrow> cpu \<Rightarrow> cpu" where
  "arithOps op c =
     (let m = mdata c; a = adata c; ci = cin c;
          c1 = (if ci then 1 else 0 :: int); c0 = (if ci then 0 else 1 :: int) in
      if op = 0x10 then c\<lparr>alu_out := (if ci then 0 else - 1), alu_carry := 0\<rparr>
      else if op = 0x11 then set_lv (sint (m AND a) - c0) c
      else if op = 0x12 then set_lv (sint (m AND NOT a) - c0) c
      else if op = 0x13 then set_lv (sint m - c0) c
      else if op = 0x14 then set_lv (sint (m OR NOT a) + c1) c
      else if op = 0x15 then set_lv (sint (m OR NOT a) + sint (m AND a) + c1) c
      else if op = 0x16 then set_sub m a ci c
      else if op = 0x17 then set_lv (sint (m OR NOT a) + sint m + c1) c
      else if op = 0x18 then set_lv (sint (m OR a) + c1) c
      else if op = 0x19 then set_add m a ci c
      else if op = 0x1A then set_lv (sint (m OR a) + sint (m AND NOT a) + c1) c
      else if op = 0x1B then set_lv (sint (m OR a) + sint m + c1) c
      else if op = 0x1C then
        c\<lparr>alu_out := m + (if ci then 1 else 0), alu_carry := (if m = 0xFFFFFFFF \<and> ci then 1 else 0)\<rparr>
      else if op = 0x1D then set_lv (sint m + sint (m AND a) + c1) c
      else if op = 0x1E then set_lv (sint m + sint (m OR NOT a) + c1) c
      else if op = 0x1F then set_add m m ci c
      else c)"

definition logi_out :: "u32 \<Rightarrow> u32 \<Rightarrow> u32 \<Rightarrow> u32 option" where
  "logi_out op m a =
     (if op = 0 then Some 0
      else if op = 1 then Some (m AND a)
      else if op = 2 then Some (m AND NOT a)
      else if op = 3 then Some m
      else if op = 4 then Some (NOT m AND a)
      else if op = 5 then Some a
      else if op = 6 then Some (m XOR a)
      else if op = 7 then Some (m OR a)
      else if op = 8 then Some (NOT a AND NOT m)
      else if op = 9 then Some (if a = m then 1 else 0)
      else if op = 10 then Some (NOT a)
      else if op = 11 then Some (m OR NOT a)
      else if op = 12 then Some (NOT m)
      else if op = 13 then Some (NOT m OR a)
      else if op = 14 then Some (NOT m OR NOT a)
      else if op = 15 then Some (NOT 0)
      else None)"

definition logiOps :: "u32 \<Rightarrow> cpu \<Rightarrow> cpu" where
  "logiOps op c =
     (case logi_out op (mdata c) (adata c) of None \<Rightarrow> c | Some v \<Rightarrow> c\<lparr>alu_out := v\<rparr>)"

text \<open>
  The remainder correction (045) passes \<open>alu_out\<close> as both an operand and the result of the macro
  \<open>add32\<close>, so its carry is computed from the new value.
\<close>

definition divOps :: "u32 \<Rightarrow> cpu \<Rightarrow> cpu" where
  "divOps op c =
     (let m = mdata c; a = adata c; ci = cin c; q0 = (q_r c AND 1 \<noteq> 0) in
      if op = 0x20 then
        (if q0 then set_add a m ci c
         else c\<lparr>alu_out := m, alu_carry := (if m AND 0x80000000 \<noteq> 0 then 1 else 0)\<rparr>)
      else if op = 0x21 then
        (if q0 then set_sub m (abs32 a) (\<not> ci) c else set_add m (abs32 a) ci c)
      else if op = 0x25 then
        (if q0 then c\<lparr>alu_carry := 0\<rparr>
         else
           let v = add32_out (alu_out c) (abs32 a) ci
           in c\<lparr>alu_out := v, alu_carry := add32_co v (abs32 a) ci\<rparr>)
      else if op = 0x29 then set_sub m (abs32 a) (\<not> ci) c
      else c)"

text \<open>\<open>alu\<close> up to the call of \<open>writeDest\<close>.\<close>

definition alu_compute :: "cpu \<Rightarrow> cpu" where
  "alu_compute c0 =
     (let aluop = ir32 3 6 c0;
          c = c0\<lparr>alu_carry := 0\<rparr>;
          c1 = (if aluop \<le> 0xF then logiOps aluop c
                else if aluop \<le> 0x1F then arithOps aluop c
                else if aluop = 0x20 \<or> aluop = 0x21 \<or> aluop = 0x25 \<or> aluop = 0x29 then divOps aluop c
                else c)
      in outControl (qControl c1))"

section \<open>The masker and the byte position\<close>

definition msk :: "nat \<Rightarrow> cpu \<Rightarrow> u32" where
  "msk pos c =
     (let widthm1 = unat (ir 5 5 c);
          left_mask_index = (pos + widthm1) mod 32
      in drop_bit (31 - left_mask_index) (- 1) AND push_bit pos (- 1))"

text \<open>The bits are C \<open>int\<close>s 0 and 1.\<close>

definition word_bit :: "'w::len word \<Rightarrow> nat \<Rightarrow> u32" where
  "word_bit w n = (if bit w n then 1 else 0)"

definition lcbytemode :: "cpu \<Rightarrow> u32" where
  "lcbytemode c =
     (if bit (interrupt_control c) 29 then
        let ir4 = word_bit (p0 c) 4; ir3 = word_bit (p0 c) 3;
            lc1 = word_bit (lc c) 1; lc0 = word_bit (lc c) 0
        in ucast (p0 c AND 7) OR (push_bit 4 (ir4 XOR (lc1 XOR lc0)) OR push_bit 3 (ir3 XOR lc0))
      else
        let ir4 = word_bit (p0 c) 4; lc1 = word_bit (lc c) 1
        in ucast (p0 c AND 0xF) OR push_bit 4 (if ir4 XOR lc1 \<noteq> 0 then 0 else 1))"

end
