(* ===== verification/Uexec.thy ===== *)
theory Uexec
  imports Vm Uexec_Alu
begin

text \<open>
  The instruction cycle (\<^verbatim>\<open>usim/uexec.c\<close>): functional sources and destinations, the location counter, the
  four instruction classes and \<open>uexec_step\<close>.  Tracing, history buffers and dumps at a given LC or PC
  are output only and left out.
\<close>

unbundle bit_operations_syntax

definition upd_cpu :: "(cpu \<Rightarrow> cpu) \<Rightarrow> 'a cadr_sys_scheme \<Rightarrow> 'a cadr_sys_scheme" where
  "upd_cpu f m = m\<lparr>cpu := f (cpu m)\<rparr>"

section \<open>Memory cycles and the location counter\<close>

text \<open>Starting a read: the data arrives in MD two instructions later.\<close>

definition start_memory_read :: "u32 \<Rightarrow> 'a cadr_sys_scheme \<Rightarrow> fault + 'a cadr_sys_scheme" where
  "start_memory_read vaddr m =
     and_then (vmRead vaddr (new_md (cpu m)) m) (\<lambda>(v, m1).
       Inr (upd_cpu (\<lambda>c. c\<lparr>new_md := v, new_md_delay := 2\<rparr>) m1))"

definition byte_mode :: "cpu \<Rightarrow> bool" where
  "byte_mode c \<longleftrightarrow> bit (interrupt_control c) 29"

definition lc_need_fetch :: "cpu \<Rightarrow> cpu" where
  "lc_need_fetch c =
     (let lc0b = byte_mode c \<and> bit (lc c) 0;
          lc1 = bit (lc c) 1
      in if \<not> lc0b \<and> \<not> lc1 then c\<lparr>lc := lc c OR 0x80000000\<rparr> else c)"

definition advanceLC :: "u32 \<Rightarrow> 'a cadr_sys_scheme \<Rightarrow> fault + u32 \<times> 'a cadr_sys_scheme" where
  "advanceLC ppc m =
     (let old_lc = lc (cpu m) AND 0x03FFFFFF;
          m1 = upd_cpu (\<lambda>c. c\<lparr>lc := lc c + (if byte_mode c then 1 else 2)\<rparr>) m
      in and_then
        (if bit (lc (cpu m1)) 31 then
           and_then (start_memory_read (drop_bit 2 old_lc)
             (upd_cpu (\<lambda>c. c\<lparr>lc := lc c AND NOT 0x80000000, vma_reg := drop_bit 2 old_lc\<rparr>) m1))
             (\<lambda>m2. Inr (ppc, m2))
         else Inr (ppc OR 2, m1))
        (\<lambda>(ppc', m2). Inr (ppc', upd_cpu lc_need_fetch m2)))"

section \<open>Functional sources and destinations\<close>

definition spc_word :: "cpu \<Rightarrow> u32" where
  "spc_word c = push_bit 24 (spcptr c) OR (spc c (unat (spcptr c)) AND 0x7FFFF)"

definition map_word :: "vtop \<Rightarrow> u32" where
  "map_word t =
     (if vt_write_permission t then 0 else 0x80000000) OR
     (if vt_access_permission t then 0 else 0x40000000) OR 0x20000000 OR
     push_bit 24 (vt_l1_data t AND 0x1F) OR (vt_l2_data t AND 0x00FFFFFF)"

definition mfread :: "u32 \<Rightarrow> 'a cadr_sys_scheme \<Rightarrow> fault + u32 \<times> 'a cadr_sys_scheme" where
  "mfread addr m =
     (let c = cpu m; f = unat (addr AND 0x1F) in
      if f = 0 then Inr (dispatch_constant c, m)
      else if f = 1 then Inr (spc_word c, m)
      else if f = 2 then Inr (pdl_pointer c AND 0x3FF, m)
      else if f = 3 then Inr (pdl_index c AND 0x3FF, m)
      else if f = 5 then Inr (pdl c (unat (pdl_index c)), m)
      else if f = 6 then Inr (opc c, m)
      else if f = 7 then Inr (q_r c, m)
      else if f = 8 then Inr (vma_reg c, m)
      else if f = 9 then
        and_then (uvmem_vtop (ndebug m) (md_reg c) (vmem m)) (\<lambda>t. Inr (map_word t, m))
      else if f = 10 then Inr (md_reg c, m)
      else if f = 11 then Inr (if byte_mode c then lc c else lc c AND NOT 1, m)
      else if f = 12 then
        Inr (spc_word c, upd_cpu (\<lambda>c. c\<lparr>spcptr := (spcptr c - 1) AND 0x1F\<rparr>) m)
      else if f = 13 then Inr (0, m)
      else if f = 20 then
        Inr (pdl c (unat (pdl_pointer c)),
             upd_cpu (\<lambda>c. c\<lparr>pdl_pointer := (pdl_pointer c - 1) AND 0x3FF\<rparr>) m)
      else if f = 21 then Inr (pdl c (unat (pdl_pointer c)), m)
      else if f = 22 then Inr (0, m)
      else Inl (Errx ''unknown MF register read''))"

definition write_lc :: "u32 \<Rightarrow> cpu \<Rightarrow> cpu" where
  "write_lc v c =
     (let l = (lc c AND NOT 0x03FFFFFF) OR (v AND 0x03FFFFFF);
          l' = (if byte_mode c then l else l AND NOT 1)
      in c\<lparr>lc := l' OR 0x80000000\<rparr>)"

definition write_interrupt_control :: "u32 \<Rightarrow> 'a cadr_sys_scheme \<Rightarrow> 'a cadr_sys_scheme" where
  "write_interrupt_control v m =
     (let m1 = upd_cpu (interrupt_control_update (\<lambda>_. v)) m;
          m2 = (if bit v 28 then bus_interface_bus_reset m1 else m1)
      in upd_cpu (\<lambda>c. c\<lparr>lc := (lc c AND NOT 0x3C000000) OR
                             (interrupt_control c AND 0x3C000000)\<rparr>) m2)"

definition write_map :: "'a cadr_sys_scheme \<Rightarrow> fault + 'a cadr_sys_scheme" where
  "write_map m =
     and_then (uvmem_write_map (ndebug m) (vma_reg (cpu m)) (md_reg (cpu m)) (vmem m)) (\<lambda>v.
       Inr (m\<lparr>vmem := v\<rparr>))"

definition push_pdl :: "u32 \<Rightarrow> cpu \<Rightarrow> cpu" where
  "push_pdl v c =
     (let p = (pdl_pointer c + 1) AND 0x3FF in c\<lparr>pdl_pointer := p, pdl := (pdl c)(unat p := v)\<rparr>)"

text \<open>The destination is \<open>dest >> 5\<close>; an unknown one writes nothing.\<close>

definition mfwrite :: "u32 \<Rightarrow> u32 \<Rightarrow> 'a cadr_sys_scheme \<Rightarrow> fault + 'a cadr_sys_scheme" where
  "mfwrite dest v m =
     (let d = unat (drop_bit 5 dest) in
      if d = 0 then Inr m
      else if d = 1 then Inr (upd_cpu (write_lc v) m)
      else if d = 2 then Inr (write_interrupt_control v m)
      else if d = 8 then Inr (upd_cpu (\<lambda>c. c\<lparr>pdl := (pdl c)(unat (pdl_pointer c) := v)\<rparr>) m)
      else if d = 9 then Inr (upd_cpu (push_pdl v) m)
      else if d = 10 then Inr (upd_cpu (\<lambda>c. c\<lparr>pdl := (pdl c)(unat (pdl_index c) := v)\<rparr>) m)
      else if d = 11 then Inr (upd_cpu (pdl_index_update (\<lambda>_. v AND 0x3FF)) m)
      else if d = 12 then Inr (upd_cpu (pdl_pointer_update (\<lambda>_. v AND 0x3FF)) m)
      else if d = 13 then Inr (upd_cpu (pushSPC v) m)
      else if d = 14 then Inr (upd_cpu (\<lambda>c. c\<lparr>oa_reg_low := v AND 0x03FFFFFF, oal := True\<rparr>) m)
      else if d = 15 then Inr (upd_cpu (\<lambda>c. c\<lparr>oa_reg_high := v AND 0x007FFFFF, oah := True\<rparr>) m)
      else if d = 16 then Inr (upd_cpu (vma_reg_update (\<lambda>_. v)) m)
      else if d = 17 then start_memory_read v (upd_cpu (vma_reg_update (\<lambda>_. v)) m)
      else if d = 18 then
        (let m1 = upd_cpu (vma_reg_update (\<lambda>_. v)) m in vmWrite v (md_reg (cpu m1)) m1)
      else if d = 19 then write_map (upd_cpu (vma_reg_update (\<lambda>_. v)) m)
      else if d = 24 then Inr (upd_cpu (md_reg_update (\<lambda>_. v)) m)
      else if d = 25 then
        (let m1 = upd_cpu (md_reg_update (\<lambda>_. v)) m in start_memory_read (vma_reg (cpu m1)) m1)
      else if d = 26 then
        (let m1 = upd_cpu (md_reg_update (\<lambda>_. v)) m in vmWrite (vma_reg (cpu m1)) v m1)
      else if d = 27 then write_map (upd_cpu (md_reg_update (\<lambda>_. v)) m)
      else Inr m)"

text \<open>Destinations with bit 11 set name an A memory location of 11 bits; the memory has 1024 words.\<close>

definition writeDest :: "u32 \<Rightarrow> 'a cadr_sys_scheme \<Rightarrow> fault + 'a cadr_sys_scheme" where
  "writeDest dest m =
     (let v = out_r (cpu m) in
      if dest AND 0x800 \<noteq> 0 then
        and_then (in_bounds 1024 (unat (dest AND 0x7FF)) ''amem'') (\<lambda>_.
        Inr (upd_cpu (\<lambda>c. c\<lparr>amem := (amem c)(unat (dest AND 0x7FF) := v)\<rparr>) m))
      else
        and_then (mfwrite dest v m) (\<lambda>m1.
        Inr (upd_cpu (\<lambda>c. c\<lparr>amem := (amem c)(unat (dest AND 0x1F) := v),
                           mmem := (mmem c)(unat (dest AND 0x1F) := v)\<rparr>) m1)))"

section \<open>The instruction classes\<close>

definition alu :: "'a cadr_sys_scheme \<Rightarrow> fault + 'a cadr_sys_scheme" where
  "alu m = (let dest = ir32 14 12 (cpu m) in writeDest dest (upd_cpu alu_compute m))"

definition byt_compute :: "cpu \<Rightarrow> cpu" where
  "byt_compute c =
     (let mr_sr_bits = ir 12 2 c;
          pos = (if ir 10 2 c = 3 then unat (lcbytemode c) else unat (ir 0 5 c));
          mask = msk (if bit mr_sr_bits 1 then pos else 0) c;
          rotated = rol32 (mdata c) pos
      in if mr_sr_bits = 0 then c\<lparr>out_r := 0\<rparr>
         else if mr_sr_bits = 1 \<or> mr_sr_bits = 3 then
           c\<lparr>mdata := rotated, out_r := (rotated AND mask) OR (adata c AND NOT mask)\<rparr>
         else c\<lparr>out_r := (mdata c AND mask) OR (adata c AND NOT mask)\<rparr>)"

definition byt :: "'a cadr_sys_scheme \<Rightarrow> fault + 'a cadr_sys_scheme" where
  "byt m = (let dest = ir32 14 12 (cpu m) in writeDest dest (upd_cpu byt_compute m))"

text \<open>
  The jump condition: a bit of the rotated M source (which stays rotated) or an internal condition.
\<close>

definition check_jcond :: "'a cadr_sys_scheme \<Rightarrow> fault + bool \<times> 'a cadr_sys_scheme" where
  "check_jcond m =
     (let c = cpu m; f = ir 0 4 c;
          page_fault = \<not> vmaok (ms m);
          interrupt = bit (interrupt_control c) 27 \<and> interrupt_pending_flag (intr m) \<noteq> 0;
          sequence_break = bit (interrupt_control c) 26
      in if ir 5 1 c = 0 then
           let rotated = rol32 (mdata c) (unat (ir 0 5 c))
           in Inr (bit rotated 0, upd_cpu (mdata_update (\<lambda>_. rotated)) m)
         else if f = 1 then Inr (mdata c <s adata c, m)
         else if f = 2 then Inr (mdata c \<le>s adata c, m)
         else if f = 3 then Inr (mdata c = adata c, m)
         else if f = 4 then Inr (page_fault, m)
         else if f = 5 then Inr (page_fault \<or> interrupt, m)
         else if f = 6 then Inr (page_fault \<or> interrupt \<or> sequence_break, m)
         else if f = 7 then Inr (True, m)
         else Inl (Errx ''unknown jump condition''))"

text \<open>Returning through the microcode stack; bit 14 of the return address advances the LC.\<close>

definition push_return :: "bool \<Rightarrow> cpu \<Rightarrow> cpu" where
  "push_return n c = (if \<not> n then pushSPC (npc c) c else pushSPC (npc c - 1) c)"

definition return_target :: "'a cadr_sys_scheme \<Rightarrow> fault + u32 \<times> 'a cadr_sys_scheme" where
  "return_target m =
     (let (target, c) = popSPC (cpu m); m1 = upd_cpu (\<lambda>_. c) m in
      and_then (if bit target 14 then advanceLC target m1 else Inr (target, m1)) (\<lambda>(t, m2).
        Inr (t AND 0x3FFF, m2)))"

definition jmp_to :: "u32 \<Rightarrow> bool \<Rightarrow> 'a cadr_sys_scheme \<Rightarrow> 'a cadr_sys_scheme" where
  "jmp_to target n m =
     upd_cpu (\<lambda>c. c\<lparr>inhibit := (n \<or> inhibit c), npc := target, popj := False\<rparr>) m"

definition jmp :: "'a cadr_sys_scheme \<Rightarrow> fault + 'a cadr_sys_scheme" where
  "jmp m =
     (let c = cpu m;
          target = ir32 12 14 c; r = (ir 9 1 c \<noteq> 0); p = (ir 8 1 c \<noteq> 0); n = (ir 7 1 c \<noteq> 0);
          invert_sense = (ir 6 1 c \<noteq> 0);
          m1 = (if ir 10 2 c = 1 then m\<lparr>ms := (ms m)\<lparr>halted := True\<rparr>\<rparr> else m)
      in if p \<and> r then Inr (upd_cpu (\<lambda>c. c\<lparr>imem := (imem c)(unat target := iwr c)\<rparr>) m1)
         else and_then (check_jcond m1) (\<lambda>(cond0, m2).
           let cond = (if invert_sense then \<not> cond0 else cond0);
               m3 = (if p \<and> cond then upd_cpu (push_return n) m2 else m2)
           in if \<not> cond then Inr m3
              else if r then and_then (return_target m3) (\<lambda>(t, m4). Inr (jmp_to t n m4))
              else Inr (jmp_to target n m3)))"

text \<open>The dispatch mask for a field of \<open>len\<close> bits.\<close>

definition dispatch_mask :: "nat \<Rightarrow> u32" where
  "dispatch_mask len =
     (if len = 0 then 0 else drop_bit (31 - (len - 1) mod 32) (- 1))"

definition dispatch_map_bits :: "u64 \<Rightarrow> u32 \<Rightarrow> u32" where
  "dispatch_map_bits map_field l2 =
     (let bit19 = word_bit l2 19; bit18 = word_bit l2 18 in
      if map_field = 1 then bit18 else if map_field = 2 then bit19
      else if map_field = 3 then bit18 OR bit19 else 0)"

definition dsp_address :: "'a cadr_sys_scheme \<Rightarrow> fault + u32 \<times> 'a cadr_sys_scheme" where
  "dsp_address m =
     (let c = cpu m;
          pos = (if ir 10 2 c = 3 then unat (lcbytemode c) else unat (ir 0 5 c));
          rotated = rol32 (mdata c) pos;
          m1 = upd_cpu (mdata_update (\<lambda>_. rotated)) m;
          addr = ir32 12 11 c OR (rotated AND dispatch_mask (unat (ir 5 3 c)));
          map_field = ir 8 2 c
      in if map_field \<noteq> 0 then
           and_then (uvmem_vtop (ndebug m) (md_reg c) (vmem m)) (\<lambda>t.
             Inr ((addr OR dispatch_map_bits map_field (vt_l2_data t)) AND 0x7FF, m1))
         else Inr (addr AND 0x7FF, m1))"

definition dsp_transfer :: "u32 \<Rightarrow> 'a cadr_sys_scheme \<Rightarrow> fault + 'a cadr_sys_scheme" where
  "dsp_transfer entry m =
     (let target = entry AND 0x3FFF; n = bit entry 14; p = bit entry 15; r = bit entry 16;
          m1 = (if n then upd_cpu (inhibit_update (\<lambda>_. True)) m else m)
      in if p \<and> r then Inr m1
         else
           let m2 = (if p then upd_cpu (push_return n) m1 else m1)
           in and_then (if r then return_target m2 else Inr (target, m2)) (\<lambda>(t, m3).
                Inr (upd_cpu (\<lambda>c. c\<lparr>npc := t, popj := False\<rparr>) m3)))"

definition dsp :: "'a cadr_sys_scheme \<Rightarrow> fault + 'a cadr_sys_scheme" where
  "dsp m =
     (let c = cpu m; n_plus1 = (ir 25 1 c \<noteq> 0); enable_ish = (ir 24 1 c \<noteq> 0);
          disp_const = ir32 32 10 c
      in if ir 10 2 c = 2 then
           Inr (upd_cpu (\<lambda>c. c\<lparr>dmem := (dmem c)(unat (ir32 12 11 c) := adata c)\<rparr>) m)
         else and_then (dsp_address m) (\<lambda>(disp_addr, m1).
           let entry = dmem (cpu m1) (unat disp_addr);
               m2 = upd_cpu (dispatch_constant_update (\<lambda>_. disp_const)) m1;
               m3 = (if n_plus1 \<and> bit entry 14 then upd_cpu (\<lambda>c. c\<lparr>npc := npc c - 1\<rparr>) m2 else m2)
           in and_then (if enable_ish then and_then (advanceLC 0 m3) (\<lambda>(_, m4). Inr m4)
                        else Inr m3)
                (dsp_transfer entry)))"

section \<open>The cycle\<close>

definition incNPC :: "'a cadr_sys_scheme \<Rightarrow> fault + 'a cadr_sys_scheme" where
  "incNPC m =
     (let c = cpu m; from_imem = promdisabled (ms m); n = unat (npc c) in
      and_then (if from_imem then in_bounds 16384 n ''imem'' else in_bounds 512 n ''prom'') (\<lambda>_.
        Inr (upd_cpu (\<lambda>c. c\<lparr>p0_imem := p1_imem c, p0 := p1 c, p0_pc := p1_pc c,
               p1_imem := from_imem, p1 := (if from_imem then imem c n else prom c n),
               p1_pc := npc c, npc := (if npc c = 0x3FFF then 0 else npc c + 1),
               opc := p1_pc c\<rparr>) m)))"

definition arrive_md :: "cpu \<Rightarrow> cpu" where
  "arrive_md c =
     (if new_md_delay c \<noteq> 0 then
        let d = new_md_delay c - 1
        in c\<lparr>new_md_delay := d, md_reg := (if d = 0 then new_md c else md_reg c)\<rparr>
      else c)"

definition merge_oa :: "cpu \<Rightarrow> cpu" where
  "merge_oa c =
     (let c1 = (if oal c then c\<lparr>oal := False, p0 := p0 c OR ucast (oa_reg_low c)\<rparr> else c)
      in if oah c1
         then c1\<lparr>oah := False, p0 := p0 c1 OR push_bit 26 (ucast (oa_reg_high c1))\<rparr> else c1)"

text \<open>Decoding: the operation, POPJ, the A and M operands and the microcode write register.\<close>

definition decode :: "'a cadr_sys_scheme \<Rightarrow> fault + 'a cadr_sys_scheme" where
  "decode m0 =
     (let m = upd_cpu (\<lambda>c. c\<lparr>op_r := ir32 43 2 c, popj := (ir 42 1 c = 1), aaddr := ir32 32 10 c,
                maddr := ir32 26 5 c\<rparr>) m0;
          c = cpu m
      in and_then (if ir 31 1 c = 0 then Inr (mmem c (unat (maddr c)), m) else mfread (maddr c) m)
           (\<lambda>(v, m1). Inr (upd_cpu (\<lambda>c.
              let a = amem c (unat (aaddr c))
              in c\<lparr>mdata := v, adata := a,
                   iwr := push_bit 32 (ucast (a AND 0xFFFF)) OR ucast v\<rparr>) m1)))"

definition execute :: "'a cadr_sys_scheme \<Rightarrow> fault + 'a cadr_sys_scheme" where
  "execute m =
     (let opn = op_r (cpu m) in
      if opn = 0 then alu m else if opn = 1 then jmp m else if opn = 2 then dsp m
      else if opn = 3 then byt m else Inr m)"

text \<open>Here the popped address is in \<open>npc\<close> already while the LC advances.\<close>

definition do_popj :: "'a cadr_sys_scheme \<Rightarrow> fault + 'a cadr_sys_scheme" where
  "do_popj m =
     (if popj (cpu m) then
        let (target, c) = popSPC (cpu m); m1 = upd_cpu (\<lambda>_. c\<lparr>npc := target\<rparr>) m in
        and_then (if bit target 14 then advanceLC target m1 else Inr (target, m1)) (\<lambda>(t, m2).
          Inr (upd_cpu (npc_update (\<lambda>_. t AND 0x3FFF)) m2))
      else Inr m)"

definition uexec_step :: "'a cadr_sys_scheme \<Rightarrow> fault + 'a cadr_sys_scheme" where
  "uexec_step m0 =
     and_then (incNPC (upd_cpu (uexec_has_run_once_update (\<lambda>_. True)) m0)) (\<lambda>m1.
       let m2 = upd_cpu arrive_md m1 in
       if inhibit (cpu m2) then Inr (upd_cpu (inhibit_update (\<lambda>_. False)) m2)
       else
         and_then (decode (upd_cpu merge_oa m2)) (\<lambda>m3.
         and_then (execute m3) do_popj))"

end
