(* ===== verification/Uexec_Inv.thy ===== *)
theory Uexec_Inv
  imports Uexec
begin

text \<open>
  The invariant of the machine is kept by every operation of the instruction cycle: memory accesses
  first, then functional sources and destinations, the instruction classes and \<open>uexec_step\<close>.
\<close>

unbundle bit_operations_syntax

section \<open>Memory accesses\<close>

lemma machine_wf_set_vmaok: "machine_wf (set_vmaok ok m) = machine_wf m"
  by (simp add: machine_wf_def sys_inv_def set_vmaok_def)

lemma vm_frame_refl [simp, intro!]: "vm_frame m m"
  by (simp add: vm_frame_def)

lemma vm_frame_cpu_trans:
  "\<lbrakk>c1 = c\<lparr>amem := a1, debug_ir := d1, md_reg := e1\<rparr>; c2 = c1\<lparr>amem := a2, debug_ir := d2, md_reg := e2\<rparr>\<rbrakk>
    \<Longrightarrow> c2 = c\<lparr>amem := amem c2, debug_ir := debug_ir c2, md_reg := md_reg c2\<rparr>"
  by simp

lemma vm_frame_trans: "vm_frame m m1 \<Longrightarrow> vm_frame m1 m2 \<Longrightarrow> vm_frame m m2"
  unfolding vm_frame_def by (elim conjE, intro conjI vm_frame_cpu_trans) simp_all

lemma vm_frame_set_vmaok: "vm_frame m (set_vmaok ok m)"
  by (simp add: vm_frame_def set_vmaok_def)

text \<open>What a bus cycle of the machine guarantees, from the bus adaptor's interface.\<close>

lemma vm_bus:
  assumes "bus_adaptor_rw w paddr pv m = Inr (v, m')" and "machine_wf m"
  shows "machine_wf m' \<and> vm_frame m m'"
  using bus_ok_machine [OF bus_ok_rw [OF assms(1)] assms(2)] by simp

lemma vm_amem_ok:
  assumes "vm_amem w vaddr pn pv m = Inr (v, m')" and "machine_wf m"
  shows "machine_wf m' \<and> vm_frame m m'"
  using assms
  by (auto simp: vm_amem_def Let_def fault_simps machine_wf_def sys_inv_def cpu_wf_def vm_frame_def
      split: if_splits)

lemma vm_ok:
  assumes "vm w vaddr pv m = Inr (v, m')" and wf: "machine_wf m"
  shows "machine_wf m' \<and> vm_frame m m'"
proof -
  let ?va = "vaddr AND 0x00FFFFFF"
  obtain t where t: "uvmem_vtop (ndebug m) ?va (vmem m) = Inr t"
    using uvmem_vtop_ok machine_wfD(2) [OF wf] by blast
  let ?ok = "if w then vt_access_permission t \<and> vt_write_permission t else vt_access_permission t"
  let ?m1 = "set_vmaok ?ok m"
  have wf1: "machine_wf ?m1" and fr1: "vm_frame m ?m1"
    by (simp_all add: machine_wf_set_vmaok wf vm_frame_set_vmaok)
  have "m' = ?m1 \<or> vm_amem w ?va (vt_pn t) pv ?m1 = Inr (v, m') \<or>
      (\<exists>v. bus_adaptor_rw w (vm_paddr ?va t) pv ?m1 = Inr (v, m'))"
    using assms(1) unfolding vm_def Let_def t and_then.simps
    by (auto simp: bus_adaptor_read_def bus_adaptor_write_def fault_simps split: if_splits)
  then have "machine_wf m' \<and> vm_frame ?m1 m'"
    using vm_amem_ok [OF _ wf1] vm_bus [OF _ wf1] wf1 by (metis vm_frame_refl)
  with fr1 show ?thesis
    using vm_frame_trans by blast
qed

text \<open>An access without the right stops before the bus: only \<open>vmaok\<close> changes.\<close>

lemma vm_denied:
  assumes "uvmem_vtop (ndebug m) (vaddr AND 0x00FFFFFF) (vmem m) = Inr t"
    and "\<not> vt_access_permission t \<or> w \<and> \<not> vt_write_permission t"
  shows "vm w vaddr pv m = Inr (0, set_vmaok False m)"
  using assms by (auto simp: vm_def Let_def)

section \<open>Functional sources and destinations\<close>

lemma machine_wf_upd:
  assumes "machine_wf m" and "cpu_wf (cpu m) \<Longrightarrow> cpu_wf (f (cpu m))"
  shows "machine_wf (upd_cpu f m)"
  using assms by (simp add: machine_wf_def sys_inv_def upd_cpu_def)

lemma machine_wf_upd_keep:
  assumes "machine_wf m" and "\<And>c. cpu_wf c \<Longrightarrow> cpu_wf (f c)"
  shows "machine_wf (upd_cpu f m)"
  using assms by (simp add: machine_wf_upd)

section \<open>Sequences of operations that keep the invariant\<close>

text \<open>
  \<open>ok1\<close> is for an operation that returns a state, \<open>ok2\<close> for one that returns a value and a state;
  the rules follow the shape of the definitions.
\<close>

definition ok1 :: "fault + 'a cadr_sys_scheme \<Rightarrow> bool" where
  "ok1 r \<longleftrightarrow> all_ok machine_wf r"

definition ok2 :: "fault + 'v \<times> 'a cadr_sys_scheme \<Rightarrow> bool" where
  "ok2 r \<longleftrightarrow> all_ok (\<lambda>(v, m). machine_wf m) r"

named_theorems ok_intros \<open>operations that keep the invariant of the machine\<close>

lemma ok_Inr:
  "machine_wf m \<Longrightarrow> ok1 (Inr m)" "machine_wf m \<Longrightarrow> ok2 (Inr (v, m))"
  by (simp_all add: ok1_def ok2_def)

lemma ok_Inl [simp, ok_intros]: "ok1 (Inl e)" "ok2 (Inl e)"
  by (simp_all add: ok1_def ok2_def)

lemma ok_if:
  "(b \<Longrightarrow> ok1 x) \<Longrightarrow> (\<not> b \<Longrightarrow> ok1 y) \<Longrightarrow> ok1 (if b then x else y)"
  "(b \<Longrightarrow> ok2 z) \<Longrightarrow> (\<not> b \<Longrightarrow> ok2 w) \<Longrightarrow> ok2 (if b then z else w)"
  by simp_all

lemma ok1_then:
  "ok1 r \<Longrightarrow> (\<And>m. machine_wf m \<Longrightarrow> ok1 (f m)) \<Longrightarrow> ok1 (and_then r f)"
  "ok1 r \<Longrightarrow> (\<And>m. machine_wf m \<Longrightarrow> ok2 (g m)) \<Longrightarrow> ok2 (and_then r g)"
  by (cases r; simp add: ok1_def ok2_def)+

lemma ok2_then:
  "ok2 r \<Longrightarrow> (\<And>v m. machine_wf m \<Longrightarrow> ok1 (f v m)) \<Longrightarrow> ok1 (and_then r (\<lambda>(v, m). f v m))"
  "ok2 r \<Longrightarrow> (\<And>v m. machine_wf m \<Longrightarrow> ok2 (g v m)) \<Longrightarrow> ok2 (and_then r (\<lambda>(v, m). g v m))"
  by (cases r; auto simp: ok1_def ok2_def split: prod.splits)+

lemma ok_after:
  "(\<And>x. r = Inr x \<Longrightarrow> ok1 (f x)) \<Longrightarrow> ok1 (and_then r f)"
  "(\<And>x. r = Inr x \<Longrightarrow> ok2 (g x)) \<Longrightarrow> ok2 (and_then r g)"
  by (cases r; simp add: ok1_def ok2_def)+

lemma ok1D: "ok1 r \<Longrightarrow> r = Inr m \<Longrightarrow> machine_wf m"
  by (simp add: ok1_def)

lemma ok2D: "ok2 r \<Longrightarrow> r = Inr (v, m) \<Longrightarrow> machine_wf m"
  by (simp add: ok2_def)

lemma machine_wf_if:
  "(b \<Longrightarrow> machine_wf x) \<Longrightarrow> (\<not> b \<Longrightarrow> machine_wf y) \<Longrightarrow> machine_wf (if b then x else y)"
  by simp

lemmas ok_seq = ok_Inr ok_if ok1_then ok2_then machine_wf_if ok_Inl

lemma ok_vm: "machine_wf m \<Longrightarrow> ok2 (vm w vaddr pv m)"
  using vm_ok [of w vaddr pv m] by (cases "vm w vaddr pv m") (auto simp: ok2_def)

lemma ok_start_memory_read [ok_intros]: "machine_wf m \<Longrightarrow> ok1 (start_memory_read vaddr m)"
  unfolding start_memory_read_def vmRead_def
  by (intro ok_seq ok_vm machine_wf_upd_keep) (auto simp: cpu_wf_def)

lemma ok_vmWrite [ok_intros]: "machine_wf m \<Longrightarrow> ok1 (vmWrite vaddr v m)"
  unfolding vmWrite_def by (intro ok_seq ok_vm)

lemma cpu_wf_lc [simp]: "cpu_wf (c\<lparr>lc := x\<rparr>) = cpu_wf c" "cpu_wf (c\<lparr>vma_reg := x\<rparr>) = cpu_wf c"
  "cpu_wf (c\<lparr>md_reg := x\<rparr>) = cpu_wf c" "cpu_wf (c\<lparr>interrupt_control := x\<rparr>) = cpu_wf c"
  "cpu_wf (c\<lparr>pdl := f\<rparr>) = cpu_wf c" "cpu_wf (c\<lparr>amem := f\<rparr>) = cpu_wf c"
  "cpu_wf (c\<lparr>mmem := f\<rparr>) = cpu_wf c" "cpu_wf (c\<lparr>imem := g\<rparr>) = cpu_wf c"
  "cpu_wf (c\<lparr>dmem := f\<rparr>) = cpu_wf c" "cpu_wf (c\<lparr>inhibit := b\<rparr>) = cpu_wf c"
  "cpu_wf (c\<lparr>mdata := x\<rparr>) = cpu_wf c"
  "cpu_wf (c\<lparr>adata := x\<rparr>) = cpu_wf c" "cpu_wf (c\<lparr>out_r := x\<rparr>) = cpu_wf c"
  "cpu_wf (c\<lparr>q_r := x\<rparr>) = cpu_wf c" "cpu_wf (c\<lparr>old_q := x\<rparr>) = cpu_wf c"
  "cpu_wf (c\<lparr>alu_out := x\<rparr>) = cpu_wf c" "cpu_wf (c\<lparr>alu_carry := x\<rparr>) = cpu_wf c"
  "cpu_wf (c\<lparr>iwr := y\<rparr>) = cpu_wf c" "cpu_wf (c\<lparr>op_r := x\<rparr>) = cpu_wf c"
  "cpu_wf (c\<lparr>aaddr := x\<rparr>) = cpu_wf c" "cpu_wf (c\<lparr>maddr := x\<rparr>) = cpu_wf c"
  "cpu_wf (c\<lparr>uexec_has_run_once := b\<rparr>) = cpu_wf c"
  by (simp_all add: cpu_wf_def)

lemma cpu_wf_lc_need_fetch: "cpu_wf c \<Longrightarrow> cpu_wf (lc_need_fetch c)"
  by (simp add: lc_need_fetch_def Let_def)

lemma ok_advanceLC [ok_intros]: "machine_wf m \<Longrightarrow> ok2 (advanceLC ppc m)"
  unfolding advanceLC_def Let_def
  by (intro ok_seq ok_start_memory_read machine_wf_upd_keep)
    (simp_all add: cpu_wf_lc_need_fetch)

lemma ok_mfread [ok_intros]: "machine_wf m \<Longrightarrow> ok2 (mfread addr m)"
  unfolding mfread_def Let_def
  by (intro ok_Inr ok_if ok_Inl ok_after machine_wf_upd_keep) (simp_all add: cpu_wf_def)

lemma ok_write_map [ok_intros]: "machine_wf m \<Longrightarrow> ok1 (write_map m)"
  using uvmem_write_map_ok [of "vmem m" "ndebug m" "vma_reg (cpu m)" "md_reg (cpu m)"]
  by (auto simp: write_map_def ok1_def machine_wf_def sys_inv_def)

lemma sys_inv_bus_reset: "sys_inv m \<Longrightarrow> sys_inv (bus_interface_bus_reset m)"
  by (simp add: bus_interface_bus_reset_def tape_controller_bus_reset_def sys_inv_def tape_wf_def
      mtc_reset_def)

lemma vmem_bus_reset [simp]: "vmem (bus_interface_bus_reset m) = vmem m"
  by (simp add: bus_interface_bus_reset_def tape_controller_bus_reset_def)

lemma machine_wf_bus_reset: "machine_wf m \<Longrightarrow> machine_wf (bus_interface_bus_reset m)"
  by (simp add: machine_wf_def sys_inv_bus_reset)

lemma write_interrupt_control_wf: "machine_wf m \<Longrightarrow> machine_wf (write_interrupt_control v m)"
  unfolding write_interrupt_control_def Let_def
  by (intro machine_wf_upd_keep machine_wf_if machine_wf_bus_reset) simp_all

lemma masked_bounds [simp]:
  "unat ((v :: u32) AND 0x03FFFFFF) < 67108864" "unat ((v :: u32) AND 0x007FFFFF) < 8388608"
  by (rule unat_and_mask_less; simp)+

lemma cpu_wf_writes:
  "cpu_wf c \<Longrightarrow> cpu_wf (write_lc v c)"
  "cpu_wf c \<Longrightarrow> cpu_wf (push_pdl v c)"
  "cpu_wf c \<Longrightarrow> cpu_wf (c\<lparr>pdl_index := v AND 0x3FF\<rparr>)"
  "cpu_wf c \<Longrightarrow> cpu_wf (c\<lparr>pdl_pointer := v AND 0x3FF\<rparr>)"
  "cpu_wf c \<Longrightarrow> cpu_wf (c\<lparr>oa_reg_low := v AND 0x03FFFFFF, oal := True\<rparr>)"
  "cpu_wf c \<Longrightarrow> cpu_wf (c\<lparr>oa_reg_high := v AND 0x007FFFFF, oah := True\<rparr>)"
  by (simp_all add: write_lc_def push_pdl_def Let_def) (simp_all add: cpu_wf_def)

lemma ok_mfwrite [ok_intros]: "machine_wf m \<Longrightarrow> ok1 (mfwrite dest v m)"
  unfolding mfwrite_def Let_def
  by (intro ok_Inr ok_if ok_intros machine_wf_upd_keep write_interrupt_control_wf)
    (simp_all add: cpu_wf_writes cpu_wf_pushSPC)

lemma ok_writeDest [ok_intros]: "machine_wf m \<Longrightarrow> ok1 (writeDest dest m)"
  unfolding writeDest_def Let_def
  by (intro ok_Inr ok_if ok1_then ok_mfwrite ok_after(1) [where r = "in_bounds _ _ _"]
      machine_wf_upd_keep) simp_all

section \<open>The instruction classes\<close>

lemma cpu_wf_set [simp]:
  "cpu_wf (set_lv lv c) = cpu_wf c" "cpu_wf (set_add a b ci c) = cpu_wf c"
  "cpu_wf (set_sub a b ci c) = cpu_wf c"
  by (simp_all add: set_lv_def set_add_def set_sub_def)

lemma cpu_wf_alu_parts [simp]:
  "cpu_wf (logiOps opn c) = cpu_wf c" "cpu_wf (arithOps opn c) = cpu_wf c"
  "cpu_wf (divOps opn c) = cpu_wf c" "cpu_wf (qControl c) = cpu_wf c"
  "cpu_wf (outControl c) = cpu_wf c"
  by (simp_all add: logiOps_def arithOps_def divOps_def qControl_def outControl_def Let_def
      if_distrib [where f = cpu_wf] split: option.split cong del: if_weak_cong split del: if_split)

lemma cpu_wf_compute:
  "cpu_wf c \<Longrightarrow> cpu_wf (alu_compute c)" "cpu_wf c \<Longrightarrow> cpu_wf (byt_compute c)"
  by (simp_all add: alu_compute_def byt_compute_def Let_def if_distrib [where f = cpu_wf]
      cong del: if_weak_cong split del: if_split)

lemma ok_alu [ok_intros]:
  "machine_wf m \<Longrightarrow> ok1 (alu m)" "machine_wf m \<Longrightarrow> ok1 (byt m)"
  unfolding alu_def byt_def Let_def
  by (intro ok_writeDest machine_wf_upd_keep; simp add: cpu_wf_compute)+

lemma ok_check_jcond [ok_intros]: "machine_wf m \<Longrightarrow> ok2 (check_jcond m)"
  unfolding check_jcond_def Let_def
  by (intro ok_Inr ok_if ok_Inl machine_wf_upd_keep) simp_all

lemma cpu_wf_push_return: "cpu_wf c \<Longrightarrow> cpu_wf (push_return n c)"
  by (simp add: push_return_def cpu_wf_pushSPC)

lemma machine_wf_popped: "machine_wf m \<Longrightarrow> machine_wf (upd_cpu (\<lambda>_. snd (popSPC (cpu m))) m)"
  by (intro machine_wf_upd cpu_wf_popSPC)

lemma ok_return_target [ok_intros]: "machine_wf m \<Longrightarrow> ok2 (return_target m)"
  unfolding return_target_def Let_def case_prod_beta
  by (rule ok2_then [unfolded case_prod_beta]) (intro ok_if ok_Inr ok_advanceLC machine_wf_popped; assumption)+

lemma return_target_bound: "return_target m = Inr (t, m') \<Longrightarrow> unat t < 16384"
  by (auto simp: return_target_def case_prod_beta Let_def fault_simps)

lemma jmp_to_wf: "machine_wf m \<Longrightarrow> npc_ok t \<Longrightarrow> machine_wf (jmp_to t n m)"
  unfolding jmp_to_def by (rule machine_wf_upd) (simp_all add: cpu_wf_def)

lemma machine_wf_ms: "machine_wf (m\<lparr>ms := x\<rparr>) = machine_wf m"
  by (simp add: machine_wf_def sys_inv_def)

lemma npc_ok_ir: "npc_ok (ir32 12 14 c)"
  using ir32_bound [of 14 12 c] by (simp add: npc_ok_def)

lemma ok_jmp_return:
  assumes "machine_wf m"
  shows "ok1 (and_then (return_target m) (\<lambda>(t, m1). Inr (jmp_to t n m1)))"
  using return_target_bound [of m] ok_return_target [OF assms]
  by (cases "return_target m") (auto simp: ok1_def ok2_def npc_ok_def intro!: jmp_to_wf)

lemma ok_jmp [ok_intros]: "machine_wf m \<Longrightarrow> ok1 (jmp m)"
  unfolding jmp_def Let_def
  by (intro ok_Inr ok_if ok_jmp_return ok2_then ok_check_jcond jmp_to_wf npc_ok_ir machine_wf_if
      machine_wf_upd_keep cpu_wf_push_return) (simp_all add: machine_wf_ms)

text \<open>
  A dispatch may decrement the next PC: it starts from a 14-bit one, since the fetch that comes first
  has left it so.
\<close>

definition npc14 :: "'a cadr_sys_scheme \<Rightarrow> bool" where
  "npc14 m \<longleftrightarrow> unat (npc (cpu m)) < 16384"

lemma npc_ok_pred: "unat (n :: u32) < 16384 \<Longrightarrow> npc_ok (n - 1)"
proof (cases "n = 0")
  case False
  assume "unat n < 16384"
  moreover have "unat (n - 1) = unat n - 1"
    using False by (simp add: unat_minus_one)
  ultimately have "unat (n - 1) < 16384"
    by linarith
  then show ?thesis
    by (simp add: npc_ok_def)
qed (simp add: npc_ok_def)

lemma dsp_address_keeps:
  assumes "dsp_address m = Inr (a, m')"
  shows "m' = upd_cpu (mdata_update (\<lambda>_. mdata (cpu m'))) m" "npc14 m' = npc14 m"
    "machine_wf m \<Longrightarrow> machine_wf m'"
  using assms
  by (auto simp: dsp_address_def Let_def fault_simps upd_cpu_def npc14_def machine_wf_def sys_inv_def
      split: if_splits)

lemma dispatch_bound [simp]: "unat (ir32 32 10 c) < 1024"
  using ir32_bound [of 10 32 c] by simp

lemma ok_dsp_transfer [ok_intros]: "machine_wf m \<Longrightarrow> ok1 (dsp_transfer entry m)"
proof -
  assume m: "machine_wf m"
  let ?n = "bit entry 14"
  have trans: "ok1 (and_then (if r then return_target m2 else Inr (entry AND 0x3FFF, m2))
      (\<lambda>(t, m3). Inr (upd_cpu (\<lambda>c. c\<lparr>npc := t, popj := False\<rparr>) m3)))"
    if "machine_wf m2" for m2 :: "'a cadr_sys_scheme" and r
    using return_target_bound [of m2] ok_return_target [OF that] that
    by (cases "return_target m2")
      (auto simp: ok1_def ok2_def cpu_wf_def npc_ok_def intro!: machine_wf_upd)
  show ?thesis
    unfolding dsp_transfer_def Let_def
    by (intro ok_if ok_Inr trans machine_wf_if machine_wf_upd_keep cpu_wf_push_return m)
      (simp_all add: m)
qed

lemma ok_dsp [ok_intros]:
  assumes m: "machine_wf m" and n: "npc14 m"
  shows "ok1 (dsp m)"
proof -
  have rest: "ok1 (and_then (if enable_ish then and_then (advanceLC 0 m3) (\<lambda>(_, m4). Inr m4) else Inr m3)
      (dsp_transfer entry))" if "machine_wf m3" for m3 :: "'a cadr_sys_scheme" and enable_ish entry
    using that by (intro ok1_then ok2_then ok_if ok_Inr ok_advanceLC ok_dsp_transfer)
  have "machine_wf (upd_cpu (dispatch_constant_update (\<lambda>_. ir32 32 10 (cpu m))) m1)"
    if "machine_wf m1" for m1 :: "'a cadr_sys_scheme"
    using that by (intro machine_wf_upd) (simp_all add: cpu_wf_def)
  moreover have "machine_wf (upd_cpu (\<lambda>c. c\<lparr>npc := npc c - 1\<rparr>)
      (upd_cpu (dispatch_constant_update (\<lambda>_. ir32 32 10 (cpu m))) m1))"
    if "machine_wf m1" "npc14 m1" for m1 :: "'a cadr_sys_scheme"
    using that npc_ok_pred by (auto simp: npc14_def upd_cpu_def machine_wf_def sys_inv_def cpu_wf_def)
  ultimately have after: "ok1 (and_then (if e then and_then (advanceLC 0 m3) (\<lambda>(_, m4). Inr m4) else Inr m3)
      (dsp_transfer entry))"
    if "m3 = (if b then upd_cpu (\<lambda>c. c\<lparr>npc := npc c - 1\<rparr>)
        (upd_cpu (dispatch_constant_update (\<lambda>_. ir32 32 10 (cpu m))) m1)
      else upd_cpu (dispatch_constant_update (\<lambda>_. ir32 32 10 (cpu m))) m1)"
      "machine_wf m1" "npc14 m1" for b e entry and m1 m3 :: "'a cadr_sys_scheme"
    using that by (intro rest) simp
  show ?thesis
  proof (cases "ir 10 2 (cpu m) = 2")
    case True
    then show ?thesis
      using m by (simp add: dsp_def Let_def ok1_def machine_wf_upd_keep)
  next
    case False
    show ?thesis
      unfolding dsp_def Let_def if_not_P [OF False]
      using dsp_address_keeps(2,3) [of m] m n
      by (intro ok_after) (auto intro!: after [OF refl])
  qed
qed

section \<open>The cycle\<close>

lemma ok_incNPC:
  assumes "machine_wf m" and "incNPC m = Inr m'"
  shows "machine_wf m' \<and> npc14 m'"
proof -
  have b: "unat (npc (cpu m)) < 16384"
    using assms(2) by (auto simp: incNPC_def Let_def fault_simps split: if_splits)
  then have next_npc: "unat (if npc (cpu m) = 0x3FFF then 0 else npc (cpu m) + 1) < 16384"
  proof (cases "npc (cpu m) = 0x3FFF")
    case False
    then have "unat (npc (cpu m)) \<noteq> unat (0x3FFF :: u32)"
      by (metis unsigned_word_eqI)
    with b have "unat (npc (cpu m)) < 0x3FFF" by simp
    moreover from this have "unat (npc (cpu m) + 1) = unat (npc (cpu m)) + 1"
      by (simp add: unat_word_ariths)
    ultimately show ?thesis
      using False by simp
  qed simp
  then show ?thesis
    using assms
    by (auto simp: incNPC_def Let_def fault_simps upd_cpu_def npc14_def machine_wf_def sys_inv_def
        cpu_wf_def npc_ok_def split: if_splits)
qed

lemma arrive_md_wf: "cpu_wf c \<Longrightarrow> cpu_wf (arrive_md c)"
proof -
  assume c: "cpu_wf c"
  have "unat (new_md_delay c - 1) \<le> 2" if "new_md_delay c \<noteq> 0"
  proof -
    have "unat (new_md_delay c - 1) = unat (new_md_delay c) - 1"
      using that by (rule unat_minus_one)
    also have "\<dots> \<le> 2"
      using c unfolding cpu_wf_def by linarith
    finally show ?thesis .
  qed
  with c show ?thesis
    by (simp add: arrive_md_def Let_def cpu_wf_def)
qed

lemma merge_oa_wf: "cpu_wf c \<Longrightarrow> cpu_wf (merge_oa c)"
  by (simp add: merge_oa_def Let_def cpu_wf_def)

lemma npc_arrive_merge [simp]: "npc (arrive_md c) = npc c" "npc (merge_oa c) = npc c"
  by (simp_all add: arrive_md_def merge_oa_def Let_def)

lemma mfread_npc: "mfread addr m = Inr (v, m') \<Longrightarrow> npc (cpu m') = npc (cpu m)"
  by (auto simp: mfread_def Let_def fault_simps upd_cpu_def split: if_splits)

lemma decode_keeps:
  assumes "decode m = Inr m'"
  shows "npc14 m' = npc14 m"
  using assms mfread_npc
  by (auto simp: decode_def Let_def fault_simps upd_cpu_def npc14_def split: if_splits)
     (fastforce dest: mfread_npc)+

lemma ok_decode [ok_intros]:
  assumes m: "machine_wf m" and n: "npc14 m"
  shows "ok1 (decode m)"
proof -
  let ?m = "upd_cpu (\<lambda>c. c\<lparr>op_r := ir32 43 2 c, popj := (ir 42 1 c = 1), aaddr := ir32 32 10 c,
                maddr := ir32 26 5 c\<rparr>) m"
  have "machine_wf ?m"
    using m n by (intro machine_wf_upd) (auto simp: cpu_wf_def npc14_def npc_ok_def)
  then have "ok2 (if b then Inr (v, ?m) else mfread a ?m)" for b v a
    by (intro ok_if ok_Inr ok_mfread)
  then show ?thesis
    unfolding decode_def Let_def
    by (rule ok2_then) (intro ok_Inr machine_wf_upd_keep; simp)
qed

lemma ok_execute [ok_intros]: "machine_wf m \<Longrightarrow> npc14 m \<Longrightarrow> ok1 (execute m)"
  unfolding execute_def Let_def by (intro ok_if ok_Inr ok_alu ok_jmp ok_dsp)

lemma do_popj_ok:
  assumes m: "machine_wf m" and step: "do_popj m = Inr m'"
  shows "machine_wf m' \<and> npc_ok (npc (cpu m'))"
proof (cases "popj (cpu m)")
  case False
  then show ?thesis
    using assms machine_wfD(3) [OF m] by (simp add: do_popj_def cpu_wf_def)
next
  case True
  obtain target c where pop: "popSPC (cpu m) = (target, c)" by (cases "popSPC (cpu m)")
  have "cpu_wf c"
    using cpu_wf_popSPC [of "cpu m"] machine_wfD(3) [OF m] pop by simp
  moreover have "popj c"
    using pop True by (auto simp: popSPC_def)
  ultimately have m1: "machine_wf (upd_cpu (\<lambda>_. c\<lparr>npc := target\<rparr>) m)"
    by (intro machine_wf_upd m) (simp add: cpu_wf_def)
  obtain t m2 where "machine_wf m2" and m': "m' = upd_cpu (npc_update (\<lambda>_. t AND 0x3FFF)) m2"
  proof (cases "bit target 14")
    case T14: True
    then obtain t m2 where "advanceLC target (upd_cpu (\<lambda>_. c\<lparr>npc := target\<rparr>) m) = Inr (t, m2)"
      "m' = upd_cpu (npc_update (\<lambda>_. t AND 0x3FFF)) m2"
      using step True by (auto simp: do_popj_def pop Let_def fault_simps)
    then show thesis
      using that ok2D [OF ok_advanceLC [OF m1]] by blast
  qed (use step True m1 that in \<open>auto simp: do_popj_def pop Let_def\<close>)
  then show ?thesis
    by (auto simp: npc_ok_def upd_cpu_def machine_wf_def sys_inv_def cpu_wf_def)
qed

text \<open>
  One step of the processor keeps the invariant of the machine, and leaves a next PC that is a 14-bit
  address or, after a dispatch, all ones.
\<close>

lemma uexec_step_wf:
  assumes m: "machine_wf m" and step: "uexec_step m = Inr m'"
  shows "machine_wf m' \<and> npc_ok (npc (cpu m'))"
proof -
  let ?m0 = "upd_cpu (uexec_has_run_once_update (\<lambda>_. True)) m"
  obtain m1 where m1: "incNPC ?m0 = Inr m1"
    using step by (auto simp: uexec_step_def fault_simps)
  have wf1: "machine_wf m1" and n1: "npc14 m1"
    using ok_incNPC [OF machine_wf_upd_keep [OF m] m1] by simp_all
  have m2: "machine_wf (upd_cpu arrive_md m1)"
    by (rule machine_wf_upd_keep [OF wf1 arrive_md_wf])
  have n2: "npc14 (upd_cpu arrive_md m1)"
    using n1 by (simp add: npc14_def upd_cpu_def)
  show ?thesis
  proof (cases "inhibit (cpu (upd_cpu arrive_md m1))")
    case True
    then have "m' = upd_cpu (inhibit_update (\<lambda>_. False)) (upd_cpu arrive_md m1)"
      using step by (simp add: uexec_step_def m1 Let_def)
    then show ?thesis
      using m2 n2 by (auto simp: npc14_def npc_ok_def upd_cpu_def intro!: machine_wf_upd_keep)
        (auto simp: machine_wf_def sys_inv_def cpu_wf_def)
  next
    case False
    let ?m3 = "upd_cpu merge_oa (upd_cpu arrive_md m1)"
    have m3: "machine_wf ?m3"
      by (rule machine_wf_upd_keep [OF m2 merge_oa_wf])
    have n3: "npc14 ?m3"
      using n2 by (simp add: npc14_def upd_cpu_def)
    obtain m4 m5 where "decode ?m3 = Inr m4" "execute m4 = Inr m5" "do_popj m5 = Inr m'"
      using step False by (auto simp: uexec_step_def m1 Let_def fault_simps)
    moreover from this have "machine_wf m5"
      using ok1D [OF ok_decode [OF m3 n3]] decode_keeps n3 ok1D [OF ok_execute] by blast
    ultimately show ?thesis
      using do_popj_ok by blast
  qed
qed

end
