(* ===== verification/Tape_Go.thy ===== *)
theory Tape_Go
  imports Bus_Adaptor
begin

text \<open>
  The commands of the tape controller (\<^verbatim>\<open>usim/tape-controller.c\<close>: \<open>tape_controller_go\<close> and the
  operations it selects, and the controller thread \<open>tape_controller_run\<close>).  Data go between the tape
  and memory through the bus adaptor, a Unibus word at a time.

  The transfer and spacing loops take the number of iterations they may make; running out of it is
  the fault \<open>No_return\<close>.  The thread is three steps: waking up, executing the command, and going back to
  \<open>pthread_cond_wait\<close>; a GO that arrives in between wakes nobody.
\<close>

unbundle bit_operations_syntax

definition upd_tape :: "(tape \<Rightarrow> tape) \<Rightarrow> 'a tape_sys_scheme \<Rightarrow> 'a tape_sys_scheme" where
  "upd_tape f m = m\<lparr>tape := f (tape m)\<rparr>"

definition mtbrc_up :: "'a tape_sys_scheme \<Rightarrow> 'a tape_sys_scheme" where
  "mtbrc_up m = upd_tape (\<lambda>t. t\<lparr>mtbrc := mtbrc t + 1\<rparr>) m"

definition mtcma_up :: "'a tape_sys_scheme \<Rightarrow> 'a tape_sys_scheme" where
  "mtcma_up m = upd_tape (\<lambda>t. t\<lparr>mtcma := mtcma t + 2\<rparr>) m"

definition set_nxm :: "'a tape_sys_scheme \<Rightarrow> 'a tape_sys_scheme" where
  "set_nxm m = upd_mts (mts_nxm_update (\<lambda>_. True)) m"

text \<open>The bus error test after each word of a transfer.\<close>

definition bus_failed :: "'a bif_sys_scheme \<Rightarrow> bool" where
  "bus_failed m \<longleftrightarrow> bus_interface_is_unibus_map_error m \<or> bus_interface_is_unibus_nxm m"

section \<open>Read\<close>

definition tape_next_byte :: "nat \<Rightarrow> string \<Rightarrow> 'a tape_sys_scheme \<Rightarrow> u8 \<times> 'a tape_sys_scheme" where
  "tape_next_byte u name m =
     (let (v, m1) = tape_drive_read_uint8 u m
      in (case v of None \<Rightarrow> ucast (indet m name) | Some x \<Rightarrow> x, mtbrc_up m1))"

fun tape_read_loop ::
    "nat \<Rightarrow> nat \<Rightarrow> u32 \<Rightarrow> 'a diag_sys_scheme \<Rightarrow> fault + u32 \<times> 'a diag_sys_scheme" where
  "tape_read_loop 0 u record_length m = Inl (No_return ''tape_controller_read'')"
| "tape_read_loop (Suc k) u record_length m =
     (if mtbrc (tape m) <s 0 \<and> record_length > 0 then
        let (v1, m1) = tape_next_byte u ''v1'' m;
            (v2, m2) = tape_next_byte u ''v2'' m1;
            record_length' = record_length - 2;
            data = push_bit 8 (ucast v2) OR ucast v1 :: u16
        in and_then (bus_adaptor_unibus_write (mtcma (tape m2)) data m2) (\<lambda>m3.
           if bus_failed m3 then Inr (record_length', set_nxm m3)
           else tape_read_loop k u record_length' (mtcma_up m3))
      else Inr (record_length, m))"

definition tape_read_end :: "nat \<Rightarrow> u32 \<Rightarrow> 'a tape_sys_scheme \<Rightarrow> 'a tape_sys_scheme" where
  "tape_read_end u record_length m =
     (if mts_nxm (mts (tape m)) then m
      else if record_length > 0 then upd_mts (mts_rle_update (\<lambda>_. True)) m
      else
        let (_, m1) = tape_drive_read_uint32 u m;
            (w, m2) = tape_drive_read_uint32 u m1
        in if assigned w ''maybe_filemark'' m = 0xFFFFFFFF
           then upd_mts (mts_eof_update (\<lambda>_. True)) m2
           else tape_drive_seek u (- 4) SEEK_CUR m2)"

definition tape_controller_read ::
    "nat \<Rightarrow> nat \<Rightarrow> 'a diag_sys_scheme \<Rightarrow> fault + 'a diag_sys_scheme" where
  "tape_controller_read k u m0 =
     (let m = bus_interface_reset_bus_error_status m0;
          (v, m1) = tape_drive_read_uint32 u m;
          preamble = assigned v ''preamble'' m
      in if preamble = 0xFFFFFFFF then Inr (upd_mts (mts_eof_update (\<lambda>_. True)) m1)
         else and_then (tape_read_loop k u preamble m1) (\<lambda>(record_length, m2).
                Inr (tape_read_end u record_length m2)))"

section \<open>Write\<close>

definition tape_put_word :: "nat \<Rightarrow> u16 \<Rightarrow> 'a tape_sys_scheme \<Rightarrow> 'a tape_sys_scheme" where
  "tape_put_word u data m =
     (let (_, m1) = tape_drive_write_uint8 u (ucast (data AND 0xFF)) m;
          (_, m2) = tape_drive_write_uint8 u (ucast (drop_bit 8 data AND 0xFF)) (mtbrc_up m1)
      in mtbrc_up m2)"

fun tape_write_loop ::
    "nat \<Rightarrow> nat \<Rightarrow> 'a diag_sys_scheme \<Rightarrow> fault + 'a diag_sys_scheme" where
  "tape_write_loop 0 u m = Inl (No_return ''tape_controller_write'')"
| "tape_write_loop (Suc k) u m =
     (if mtbrc (tape m) <s 0 then
        and_then (bus_adaptor_unibus_read (mtcma (tape m)) (ucast (indet m ''data'')) m) (\<lambda>(data, m1).
        if bus_failed m1 then Inr (set_nxm m1)
        else tape_write_loop k u (tape_put_word u data (mtcma_up m1)))
      else Inr m)"

text \<open>The record length is \<open>-mtbrc\<close> as a \<open>size_t\<close>.\<close>

definition tape_controller_write ::
    "nat \<Rightarrow> nat \<Rightarrow> 'a diag_sys_scheme \<Rightarrow> fault + 'a diag_sys_scheme" where
  "tape_controller_write k u m =
     (let record_length = - scast (mtbrc (tape m)) :: u64 in
      if td_read_only (drive_of u m) then Inr (upd_mts (mts_ilc_update (\<lambda>_. True)) m)
      else if record_length < 4 then Inr (upd_mts (mts_ilc_update (\<lambda>_. True)) m)
      else if record_length AND 3 \<noteq> 0 then Inr (upd_mts (mts_ilc_update (\<lambda>_. True)) m)
      else
        let m1 = bus_interface_reset_bus_error_status m;
            (_, m2) = tape_drive_write_record_length u record_length m1;
            m3 = bus_interface_reset_bus_error_status m2
        in and_then (tape_write_loop k u m3) (\<lambda>m4.
             if mts_nxm (mts (tape m4)) then Inr m4
             else if mtbrc (tape m4) = 0
             then Inr (snd (tape_drive_write_record_length u record_length m4))
             else Inr m4))"

definition tape_controller_write_eof :: "nat \<Rightarrow> 'a tape_sys_scheme \<Rightarrow> 'a tape_sys_scheme" where
  "tape_controller_write_eof u m =
     (if td_read_only (drive_of u m) then upd_mts (mts_ilc_update (\<lambda>_. True)) m
      else upd_mts (mts_eof_update (\<lambda>_. True)) (snd (tape_drive_write_file_mark u m)))"

section \<open>Spacing\<close>

abbreviation (input) tape_eof :: "'a tape_sys_scheme \<Rightarrow> bool" where
  "tape_eof m \<equiv> mts_eof (mts (tape m))"

abbreviation (input) tape_eot :: "'a tape_sys_scheme \<Rightarrow> bool" where
  "tape_eot m \<equiv> mts_eot (mts (tape m))"

abbreviation (input) tape_bot :: "nat \<Rightarrow> 'a tape_sys_scheme \<Rightarrow> bool" where
  "tape_bot u m \<equiv> td_bot (drive_of u m)"

text \<open>The loops without a record count (\<open>mtbrc = 0\<close>) go on to a file mark or an end of the tape.\<close>

fun space_forward_file :: "nat \<Rightarrow> nat \<Rightarrow> 'a tape_sys_scheme \<Rightarrow> fault + 'a tape_sys_scheme" where
  "space_forward_file 0 u m = Inl (No_return ''tape_controller_space_forward'')"
| "space_forward_file (Suc k) u m =
     (if \<not> tape_eof m \<and> \<not> tape_eot m then space_forward_file k u (tape_drive_space_forward u m)
      else Inr m)"

fun space_reverse_file :: "nat \<Rightarrow> nat \<Rightarrow> 'a tape_sys_scheme \<Rightarrow> fault + 'a tape_sys_scheme" where
  "space_reverse_file 0 u m = Inl (No_return ''tape_controller_space_reverse'')"
| "space_reverse_file (Suc k) u m =
     (if \<not> tape_eof m \<and> \<not> tape_bot u m
      then space_reverse_file k u (tape_drive_space_reverse u True m) else Inr m)"

text \<open>The loops that count records in \<open>mtbrc\<close>.\<close>

fun space_forward_records :: "nat \<Rightarrow> nat \<Rightarrow> 'a tape_sys_scheme \<Rightarrow> fault + 'a tape_sys_scheme" where
  "space_forward_records 0 u m = Inl (No_return ''tape_controller_space_forward'')"
| "space_forward_records (Suc k) u m =
     (if mtbrc (tape m) <s 0 then
        let m1 = tape_drive_space_forward u m in
        if tape_eof m1 \<or> tape_eot m1 then Inr m1 else space_forward_records k u (mtbrc_up m1)
      else Inr m)"

fun space_reverse_records :: "nat \<Rightarrow> nat \<Rightarrow> 'a tape_sys_scheme \<Rightarrow> fault + 'a tape_sys_scheme" where
  "space_reverse_records 0 u m = Inl (No_return ''tape_controller_space_reverse'')"
| "space_reverse_records (Suc k) u m =
     (if mtbrc (tape m) <s 0 then
        let m1 = tape_drive_space_reverse u True m in
        if tape_eof m1 \<or> tape_bot u m1 then Inr m1 else space_reverse_records k u (mtbrc_up m1)
      else Inr m)"

definition tape_controller_space_forward ::
    "nat \<Rightarrow> nat \<Rightarrow> 'a tape_sys_scheme \<Rightarrow> fault + 'a tape_sys_scheme" where
  "tape_controller_space_forward k u m =
     (if tape_eot m then Inr m
      else if mtbrc (tape m) = 0 then space_forward_file k u m
      else space_forward_records k u m)"

definition tape_controller_space_reverse ::
    "nat \<Rightarrow> nat \<Rightarrow> 'a tape_sys_scheme \<Rightarrow> fault + 'a tape_sys_scheme" where
  "tape_controller_space_reverse k u m =
     (if tape_bot u m then Inr m
      else if mtbrc (tape m) = 0 then space_reverse_file k u (tape_drive_space_reverse u False m)
      else
        let m1 = mtbrc_up (tape_drive_space_reverse u False m) in
        if \<not> tape_bot u m1 then space_reverse_records k u m1 else Inr m1)"

definition tape_controller_rewind :: "nat \<Rightarrow> 'a tape_sys_scheme \<Rightarrow> 'a tape_sys_scheme" where
  "tape_controller_rewind u m =
     (let m1 = tape_drive_rewind u m
      in if tape_bot u m1 then tape_controller_assert_unibus_interrupt m1 else m1)"

section \<open>The command and the thread\<close>

definition tape_command :: "nat \<Rightarrow> nat \<Rightarrow> 'a diag_sys_scheme \<Rightarrow> fault + 'a diag_sys_scheme" where
  "tape_command k u m =
     (let f = mtc_fun (mtc (tape m)) in
      if f = 0 then Inr (tape_drive_rewind_and_offline u m)
      else if f = 1 then tape_controller_read k u m
      else if f = 2 \<or> f = 6 then tape_controller_write k u m
      else if f = 3 then Inr (tape_controller_write_eof u m)
      else if f = 4 then tape_controller_space_forward k u m
      else if f = 5 then tape_controller_space_reverse k u m
      else if f = 7 then Inr (tape_controller_rewind u m)
      else Inl (Errx ''invalid command, possible bug''))"

definition tape_controller_go :: "nat \<Rightarrow> 'a diag_sys_scheme \<Rightarrow> fault + 'a diag_sys_scheme" where
  "tape_controller_go k m0 =
     (let m = tape_controller_reset_mtc_err m0 in
      if \<not> mts_selr (mts (tape m)) then Inr (upd_mts (mts_ilc_update (\<lambda>_. True)) m)
      else
        let u = selected_drive m;
            m1 = upd_drive u (td_ready_update (\<lambda>_. False)) m;
            m2 = tape_drive_set_bpi u (if mtc_den8 (mtc (tape m1)) then 800 else 1600) m1
        in and_then (tape_command k u m2) (\<lambda>m3.
             Inr (upd_drive u (td_ready_update (\<lambda>_. True)) m3)))"

definition tape_thread_wait :: "'a tape_sys_scheme \<Rightarrow> 'a tape_sys_scheme" where
  "tape_thread_wait m =
     upd_tape (\<lambda>t. t\<lparr>go_waiting := True, go_signalled := False, go_running := False\<rparr>) m"

definition tape_thread_start :: "'a tape_sys_scheme \<Rightarrow> 'a tape_sys_scheme" where
  "tape_thread_start m =
     (let m1 = upd_tape (go_signalled_update (\<lambda>_. False)) m in
      if \<not> mtc_cur (mtc (tape m1))
      then tape_thread_wait (tape_controller_assert_unibus_interrupt
             (upd_mts (mts_ilc_update (\<lambda>_. True)) m1))
      else upd_tape (go_running_update (\<lambda>_. True)) (upd_mtc (mtc_cur_update (\<lambda>_. False)) m1))"

definition tape_thread_finish :: "nat \<Rightarrow> 'a diag_sys_scheme \<Rightarrow> fault + 'a diag_sys_scheme" where
  "tape_thread_finish k m =
     and_then (tape_controller_go k m) (\<lambda>m1.
       Inr (tape_thread_wait (tape_controller_assert_unibus_interrupt
              (upd_mtc (mtc_cur_update (\<lambda>_. True)) m1))))"

section \<open>The invariant\<close>

text \<open>\<open>tape_ok\<close>: from a state with the tape invariant, a step of the tape parts that keeps it.\<close>

definition tape_ok :: "'a tape_sys_scheme \<Rightarrow> 'a tape_sys_scheme \<Rightarrow> bool" where
  "tape_ok m m' \<longleftrightarrow> (tape_inv m \<longrightarrow> tape_inv m' \<and> tape_only m m')"

lemma tape_ok_refl [simp, intro!]: "tape_ok m m"
  by (simp add: tape_ok_def)

lemma tape_ok_trans: "tape_ok m m1 \<Longrightarrow> tape_ok m1 m2 \<Longrightarrow> tape_ok m m2"
  by (auto simp: tape_ok_def intro: tape_only_trans)

lemma bus_ok_of_tape: "tape_ok m m' \<Longrightarrow> bus_ok m m'"
proof (rule bus_okI)
  assume ok: "tape_ok m m'" and "sys_inv m"
  then have "tape_inv m"
    by (simp add: tape_inv_def sys_invD)
  with ok have "tape_inv m'" and eq: "m' = m\<lparr>intr := intr m', tape := tape m'\<rparr>"
    by (simp_all add: tape_ok_def tape_only_def)
  then have "bus_ok m (m\<lparr>intr := intr m', tape := tape m'\<rparr>)"
    by (intro bus_ok_after bus_ok_refl) (simp_all add: tape_inv_def)
  then show "bus_ok m m'"
    using eq by simp
qed

lemma tape_ok_mts [intro!]: "tape_ok m m1 \<Longrightarrow> tape_ok m (upd_mts f m1)"
  by (erule tape_ok_trans)
    (simp add: tape_ok_def tape_inv_def tape_wf_def upd_mts_def tape_only_def)

lemma tape_ok_up [intro!]:
  "tape_ok m m1 \<Longrightarrow> tape_ok m (mtbrc_up m1)" "tape_ok m m1 \<Longrightarrow> tape_ok m (mtcma_up m1)"
  "tape_ok m m1 \<Longrightarrow> tape_ok m (set_nxm m1)"
  by (erule tape_ok_trans,
      simp add: tape_ok_def tape_inv_def tape_wf_def mtbrc_up_def mtcma_up_def set_nxm_def upd_tape_def
        upd_mts_def tape_only_def)+

lemma tape_ok_int [intro!]:
  "tape_ok m m1 \<Longrightarrow> tape_ok m (tape_controller_assert_unibus_interrupt m1)"
  by (erule tape_ok_trans)
    (simp add: tape_ok_def tape_inv_def tape_only_def tape_controller_assert_unibus_interrupt_def
      intr_wf_ops intr_defs Let_def intr_wf_def)

lemma tape_ok_drive:
  assumes "tape_ok m m1" and "\<And>p. td_wf p \<Longrightarrow> td_wf (f p)"
  shows "tape_ok m (upd_drive u f m1)"
  using assms(1) by (rule tape_ok_trans)
    (auto simp: tape_ok_def tape_inv_def tape_wf_def upd_drive_def tape_only_def assms(2))

lemma tape_ok_seek [intro!]:
  assumes "tape_ok m m1"
  shows "tape_ok m (tape_drive_seek u off wh m1)"
proof -
  define pos where "pos = (case wh of SEEK_SET \<Rightarrow> off | SEEK_CUR \<Rightarrow> td_pos (drive_of u m1) + off)"
  define pos' where "pos' = (if pos < 0 then 0 else if pos > td_mmsz (drive_of u m1)
    then td_mmsz (drive_of u m1) else pos)"
  have "tape_ok m1 (upd_drive u (\<lambda>p. p\<lparr>td_pos := pos', td_bot := (pos' = 0)\<rparr>) m1)"
    by (auto simp: tape_ok_def tape_inv_def tape_wf_def upd_drive_def tape_only_def td_wf_def pos'_def)
  then have "tape_ok m (upd_drive u (\<lambda>p. p\<lparr>td_pos := pos', td_bot := (pos' = 0)\<rparr>) m1)"
    by (rule tape_ok_trans [OF assms])
  then show ?thesis
    by (auto simp: tape_drive_seek_def Let_def tape_controller_set_mts_eot_def
        tape_controller_reset_mts_eot_def pos'_def pos_def)
qed

lemma tape_ok_read8 [intro!]: "tape_ok m m1 \<Longrightarrow> tape_ok m (snd (tape_drive_read_uint8 u m1))"
  by (auto simp: tape_drive_read_uint8_def Let_def)

lemma tape_ok_read32 [intro!]:
  assumes "tape_ok m m1"
  shows "tape_ok m (snd (tape_drive_read_uint32 u m1))"
proof -
  note step = tape_ok_read8 [where u = u]
  obtain v1 m2 where 1: "tape_drive_read_uint8 u m1 = (v1, m2)" by fastforce
  obtain v2 m3 where 2: "tape_drive_read_uint8 u m2 = (v2, m3)" by fastforce
  obtain v3 m4 where 3: "tape_drive_read_uint8 u m3 = (v3, m4)" by fastforce
  obtain v4 m5 where 4: "tape_drive_read_uint8 u m4 = (v4, m5)" by fastforce
  have "tape_ok m m2" "tape_ok m m3" "tape_ok m m4" "tape_ok m m5"
    using step [OF assms] step [of m m2] step [of m m3] step [of m m4] 1 2 3 4 by auto
  then show ?thesis
    by (simp add: tape_drive_read_uint32_def 1 2 3 4 split: option.split)
qed

lemma tape_ok_write8 [intro!]: "tape_ok m m1 \<Longrightarrow> tape_ok m (snd (tape_drive_write_uint8 u v m1))"
  by (auto simp: tape_drive_write_uint8_def Let_def td_wf_def intro!: tape_ok_drive)

lemma tape_ok_write32 [intro!]: "tape_ok m m1 \<Longrightarrow> tape_ok m (snd (tape_drive_write_uint32 u v m1))"
  by (auto simp: tape_drive_write_uint32_def Let_def case_prod_beta)

lemma tape_ok_records [intro!]:
  "tape_ok m m1 \<Longrightarrow> tape_ok m (snd (tape_drive_write_record_length u n m1))"
  "tape_ok m m1 \<Longrightarrow> tape_ok m (snd (tape_drive_write_file_mark u m1))"
  by (auto simp: tape_drive_write_record_length_def tape_drive_write_file_mark_def)

lemma tape_ok_space [intro!]:
  "tape_ok m m1 \<Longrightarrow> tape_ok m (tape_drive_space_forward u m1)"
  "tape_ok m m1 \<Longrightarrow> tape_ok m (tape_drive_space_reverse u stop m1)"
  by (auto simp: tape_drive_space_forward_def tape_drive_space_reverse_def Let_def case_prod_beta
      tape_controller_set_mts_eof_def tape_controller_reset_mts_eot_def)

lemma tape_ok_rewind [intro!]:
  "tape_ok m m1 \<Longrightarrow> tape_ok m (tape_drive_rewind u m1)"
  "tape_ok m m1 \<Longrightarrow> tape_ok m (tape_drive_rewind_and_offline u m1)"
  unfolding tape_drive_rewind_def tape_drive_rewind_and_offline_def tape_drive_rewind_ex_def
    Let_def tape_controller_reset_mts_eot_def
  by (intro tape_ok_mts tape_ok_drive tape_ok_seek; simp add: td_wf_def)+

lemma tape_ok_bpi [intro!]: "tape_ok m m1 \<Longrightarrow> tape_ok m (tape_drive_set_bpi u b m1)"
  by (auto simp: tape_drive_set_bpi_def td_wf_def intro!: tape_ok_drive)

lemma tape_ok_clear_signal [intro!]:
  "tape_ok m m1 \<Longrightarrow> tape_ok m (upd_tape (go_signalled_update (\<lambda>_. False)) m1)"
  by (erule tape_ok_trans) (simp add: tape_ok_def tape_inv_def tape_wf_def upd_tape_def tape_only_def)

text \<open>The thread goes back to waiting when the controller is ready.\<close>

lemma tape_ok_wait: "mtc_cur (mtc (tape m1)) \<Longrightarrow> tape_ok m m1 \<Longrightarrow> tape_ok m (tape_thread_wait m1)"
  by (erule tape_ok_trans)
    (simp add: tape_ok_def tape_inv_def tape_wf_def tape_thread_wait_def upd_tape_def tape_only_def)

lemma tape_ok_ready_again:
  "tape_ok m m1 \<Longrightarrow> tape_ok m (tape_thread_wait (tape_controller_assert_unibus_interrupt
     (upd_mtc (mtc_cur_update (\<lambda>_. True)) m1)))"
  by (rule tape_ok_wait, simp add: upd_mtc_def, rule tape_ok_int, erule tape_ok_trans)
    (simp add: tape_ok_def tape_inv_def tape_wf_def upd_mtc_def tape_only_def)

text \<open>Commands: a step of the tape parts or a bus cycle, each of which keeps the invariant.\<close>

lemma bus_ok_after_tape: "bus_ok m m1 \<Longrightarrow> tape_ok m1 m2 \<Longrightarrow> bus_ok m m2"
  by (rule bus_ok_trans [OF _ bus_ok_of_tape])

lemma bus_ok_error_reset: "bus_ok m m1 \<Longrightarrow> bus_ok m (bus_interface_reset_bus_error_status m1)"
  by (erule bus_ok_trans) (simp add: bif_error_defs bus_ok_slot)

lemma tape_ok_next_byte: "tape_next_byte u name m = (v, m1) \<Longrightarrow> tape_ok m m1"
  using tape_ok_up(1) [OF tape_ok_read8 [OF tape_ok_refl [of m], of u]]
  by (auto simp: tape_next_byte_def case_prod_beta)

lemma bus_ok_unibus_write: "bus_adaptor_unibus_write a v m = Inr m' \<Longrightarrow> bus_ok m m'"
  by (auto simp: bus_adaptor_unibus_write_def fault_simps dest: bus_ok_unibus)

lemma bus_ok_unibus_read: "bus_adaptor_unibus_read a v m = Inr (w, m') \<Longrightarrow> bus_ok m m'"
  by (auto simp: bus_adaptor_unibus_read_def dest: bus_ok_unibus)

lemma bus_ok_read_loop:
  "tape_read_loop k u rl m = Inr (rl', m') \<Longrightarrow> bus_ok m m'"
proof (induction k arbitrary: rl m)
  case (Suc k)
  show ?case
  proof (cases "mtbrc (tape m) <s 0 \<and> rl > 0")
    case False
    with Suc.prems show ?thesis by auto
  next
    case True
    obtain v1 m1 v2 m2 where b: "tape_next_byte u ''v1'' m = (v1, m1)"
        "tape_next_byte u ''v2'' m1 = (v2, m2)" by fastforce
    with Suc.prems True obtain m3 where w: "bus_adaptor_unibus_write (mtcma (tape m2))
        (push_bit 8 (ucast v2) OR ucast v1) m2 = Inr m3"
      and rest: "rl' = rl - 2 \<and> m' = set_nxm m3 \<or> tape_read_loop k u (rl - 2) (mtcma_up m3) = Inr (rl', m')"
      by (auto simp: Let_def fault_simps split: if_splits)
    have "bus_ok m m2"
      using b by (meson bus_ok_of_tape bus_ok_trans tape_ok_next_byte)
    then have m3: "bus_ok m m3"
      by (rule bus_ok_trans) (rule bus_ok_unibus_write [OF w])
    from rest show ?thesis
    proof
      assume "rl' = rl - 2 \<and> m' = set_nxm m3"
      then show ?thesis
        using bus_ok_after_tape [OF m3 tape_ok_up(3) [OF tape_ok_refl]] by simp
    next
      assume "tape_read_loop k u (rl - 2) (mtcma_up m3) = Inr (rl', m')"
      then show ?thesis
        using bus_ok_trans [OF bus_ok_after_tape [OF m3 tape_ok_up(2) [OF tape_ok_refl]] Suc.IH] by simp
    qed
  qed
qed simp

lemma bus_ok_write_loop: "tape_write_loop k u m = Inr m' \<Longrightarrow> bus_ok m m'"
proof (induction k arbitrary: m)
  case (Suc k)
  show ?case
  proof (cases "mtbrc (tape m) <s 0")
    case False
    with Suc.prems show ?thesis by auto
  next
    case True
    let ?next = "\<lambda>w m1. tape_put_word u w (mtcma_up m1)"
    from Suc.prems True obtain w m1 where r: "bus_adaptor_unibus_read (mtcma (tape m))
        (ucast (indet m ''data'')) m = Inr (w, m1)"
      and rest: "(if bus_failed m1 then Inr (set_nxm m1) else tape_write_loop k u (?next w m1)) = Inr m'"
      by (auto simp: fault_simps)
    note m1 = bus_ok_unibus_read [OF r]
    show ?thesis
    proof (cases "bus_failed m1")
      case True
      then show ?thesis
        using rest bus_ok_after_tape [OF m1 tape_ok_up(3) [OF tape_ok_refl]] by simp
    next
      case False
      have "bus_ok m (?next w m1)"
        by (rule bus_ok_after_tape [OF m1]) (auto simp: tape_put_word_def case_prod_beta Let_def)
      then show ?thesis
        using rest False Suc.IH bus_ok_trans by auto
    qed
  qed
qed simp

lemma tape_ok_read_end: "tape_ok m (tape_read_end u rl m)"
  by (auto simp: tape_read_end_def Let_def case_prod_beta)

lemma tape_ok_loops:
  "space_forward_file k u m = Inr m' \<Longrightarrow> tape_ok m m'"
  "space_reverse_file k u m = Inr m' \<Longrightarrow> tape_ok m m'"
  "space_forward_records k u m = Inr m' \<Longrightarrow> tape_ok m m'"
  "space_reverse_records k u m = Inr m' \<Longrightarrow> tape_ok m m'"
proof -
  show "space_forward_file k u m = Inr m' \<Longrightarrow> tape_ok m m'"
    by (induction k arbitrary: m)
      (auto split: if_splits intro: tape_ok_trans [OF tape_ok_space(1) [OF tape_ok_refl]])
  show "space_reverse_file k u m = Inr m' \<Longrightarrow> tape_ok m m'"
    by (induction k arbitrary: m)
      (auto split: if_splits intro: tape_ok_trans [OF tape_ok_space(2) [OF tape_ok_refl]])
  show "space_forward_records k u m = Inr m' \<Longrightarrow> tape_ok m m'"
    by (induction k arbitrary: m)
      (auto simp: Let_def split: if_splits
        intro: tape_ok_trans [OF tape_ok_up(1) [OF tape_ok_space(1) [OF tape_ok_refl]]])
  show "space_reverse_records k u m = Inr m' \<Longrightarrow> tape_ok m m'"
    by (induction k arbitrary: m)
      (auto simp: Let_def split: if_splits
        intro: tape_ok_trans [OF tape_ok_up(1) [OF tape_ok_space(2) [OF tape_ok_refl]]])
qed

lemma tape_ok_spacing:
  "tape_controller_space_forward k u m = Inr m' \<Longrightarrow> tape_ok m m'"
  "tape_controller_space_reverse k u m = Inr m' \<Longrightarrow> tape_ok m m'"
  by (auto simp: tape_controller_space_forward_def tape_controller_space_reverse_def Let_def
      split: if_splits dest: tape_ok_loops
      intro: tape_ok_trans [OF tape_ok_space(2) [OF tape_ok_refl]]
        tape_ok_trans [OF tape_ok_up(1) [OF tape_ok_space(2) [OF tape_ok_refl]]])

lemma bus_ok_tape_read: "tape_controller_read k u m = Inr m' \<Longrightarrow> bus_ok m m'"
proof -
  assume r: "tape_controller_read k u m = Inr m'"
  let ?m = "bus_interface_reset_bus_error_status m"
  obtain v m1 where v: "tape_drive_read_uint32 u ?m = (v, m1)" by fastforce
  have m1: "bus_ok m m1"
    using bus_ok_after_tape [OF bus_ok_error_reset [OF bus_ok_refl] tape_ok_read32 [OF tape_ok_refl]] v
    by (metis snd_conv)
  from r v have "m' = upd_mts (mts_eof_update (\<lambda>_. True)) m1 \<or>
      (\<exists>rl rl' m2. tape_read_loop k u rl m1 = Inr (rl', m2) \<and> m' = tape_read_end u rl' m2)"
    by (auto simp: tape_controller_read_def Let_def fault_simps split: if_splits)
  then show ?thesis
    using bus_ok_after_tape [OF m1] bus_ok_trans [OF m1 bus_ok_read_loop]
    by (meson bus_ok_after_tape tape_ok_mts tape_ok_read_end tape_ok_refl)
qed

lemma bus_ok_tape_write: "tape_controller_write k u m = Inr m' \<Longrightarrow> bus_ok m m'"
proof -
  assume w: "tape_controller_write k u m = Inr m'"
  let ?rl = "- scast (mtbrc (tape m)) :: u64"
  let ?m3 = "bus_interface_reset_bus_error_status (snd (tape_drive_write_record_length u ?rl
      (bus_interface_reset_bus_error_status m)))"
  have m3: "bus_ok m ?m3"
    by (rule bus_ok_error_reset, rule bus_ok_after_tape [OF bus_ok_error_reset [OF bus_ok_refl]]) blast
  from w have "tape_ok m m' \<or> (\<exists>m4. tape_write_loop k u ?m3 = Inr m4 \<and> tape_ok m4 m')"
    by (auto simp: tape_controller_write_def Let_def case_prod_beta fault_simps split: if_splits)
  then show ?thesis
    using bus_ok_of_tape bus_ok_after_tape [OF bus_ok_trans [OF m3 bus_ok_write_loop]] by blast
qed

lemma bus_ok_command: "tape_command k u m = Inr m' \<Longrightarrow> bus_ok m m'"
proof -
  assume c: "tape_command k u m = Inr m'"
  then have "tape_controller_read k u m = Inr m' \<or> tape_controller_write k u m = Inr m' \<or> tape_ok m m'"
    by (auto simp: tape_command_def Let_def tape_controller_write_eof_def tape_controller_rewind_def
        split: if_splits dest: tape_ok_spacing)
  then show ?thesis
    using bus_ok_tape_read bus_ok_tape_write bus_ok_of_tape by blast
qed

lemma tape_ok_ready: "tape_ok m m1 \<Longrightarrow> tape_ok m (upd_drive u (td_ready_update f) m1)"
  by (erule tape_ok_drive) (simp add: td_wf_def)

lemma bus_ok_go: "tape_controller_go k m = Inr m' \<Longrightarrow> bus_ok m m'"
proof -
  assume g: "tape_controller_go k m = Inr m'"
  let ?m0 = "tape_controller_reset_mtc_err m"
  have reset: "tape_ok m ?m0"
    by (auto simp: tape_controller_reset_mtc_err_def)
  show ?thesis
  proof (cases "mts_selr (mts (tape ?m0))")
    case False
    then have "tape_ok m m'"
      using g tape_ok_mts [OF reset, of "mts_ilc_update (\<lambda>_. True)"]
      by (simp add: tape_controller_go_def Let_def)
    then show ?thesis
      by (rule bus_ok_of_tape)
  next
    case True
    let ?u = "selected_drive ?m0"
    let ?m1 = "upd_drive ?u (td_ready_update (\<lambda>_. False)) ?m0"
    let ?m2 = "tape_drive_set_bpi ?u (if mtc_den8 (mtc (tape ?m1)) then 800 else 1600) ?m1"
    obtain m3 where c: "tape_command k ?u ?m2 = Inr m3"
      and m': "m' = upd_drive ?u (td_ready_update (\<lambda>_. True)) m3"
      using g True by (auto simp: tape_controller_go_def Let_def fault_simps)
    have "tape_ok m ?m2"
      by (intro tape_ok_bpi tape_ok_ready reset)
    then have "bus_ok m m3"
      by (rule bus_ok_trans [OF bus_ok_of_tape bus_ok_command [OF c]])
    then show ?thesis
      unfolding m' by (rule bus_ok_after_tape) (rule tape_ok_ready [OF tape_ok_refl])
  qed
qed

lemma bus_ok_thread:
  "tape_thread_finish k m = Inr m' \<Longrightarrow> bus_ok m m'"
  by (auto simp: tape_thread_finish_def fault_simps dest!: bus_ok_go
      intro!: tape_ok_ready_again elim!: bus_ok_after_tape)

text \<open>
  The thread step \<open>tape_thread_start\<close> is taken only when the thread has been woken; then the controller is
  ready, so the branch that reports a command during an operation (ILC) is never taken.
\<close>

lemma woken_ready: "tape_wf t \<Longrightarrow> go_signalled t \<Longrightarrow> mtc_cur (mtc t)"
  by (auto simp: tape_wf_def)

lemma tape_start_runs:
  assumes "tape_wf (tape m)" and "go_signalled (tape m)"
  shows "tape_thread_start m =
    m\<lparr>tape := (tape m)\<lparr>go_signalled := False, go_running := True,
       mtc := (mtc (tape m))\<lparr>mtc_cur := False\<rparr>\<rparr>\<rparr>"
  using woken_ready [OF assms] by (simp add: tape_thread_start_def Let_def upd_tape_def upd_mtc_def)

lemma tape_ok_start:
  assumes "go_signalled (tape m)"
  shows "tape_ok m (tape_thread_start m)"
proof (cases "tape_inv m")
  case True
  then have "tape_wf (tape m)"
    by (simp add: tape_inv_def)
  with True assms show ?thesis
    by (simp add: tape_start_runs tape_ok_def tape_inv_def tape_only_def) (simp add: tape_wf_def)
qed (simp add: tape_ok_def)

end
