(* ===== verification/Zero_State.thy ===== *)
theory Zero_State
  imports Sdl3_Mouse Uexec_Inv Tape_Go
begin

text \<open>
  The state of the process before anything is configured: C initialises its globals to zero.  It serves
  as the concrete state of examples; \<open>ndebug\<close> is false, so the assertions are checked.
\<close>

definition zero_interrupts :: interrupts where
  "zero_interrupts = \<lparr>interrupt_status_reg = 0, interrupt_pending_flag = 0\<rparr>"

definition zero_main_memory :: main_memory where
  "zero_main_memory = \<lparr>main_memory_npages = 0, pages = \<lambda>_ _. 0\<rparr>"

definition zero_cpu :: cpu where
  "zero_cpu = \<lparr>p0 = 0, p0_pc = 0, p0_imem = False, p1 = 0, p1_pc = 0, p1_imem = False, npc = 0,
     debug_ir = 0, iwr = 0, prom = \<lambda>_. 0, imem = \<lambda>_. 0, amem = \<lambda>_. 0,
     aaddr = 0, adata = 0, mmem = \<lambda>_. 0, maddr = 0, mdata = 0, dmem = \<lambda>_. 0,
     pdl = \<lambda>_. 0, spc = \<lambda>_. 0, spcptr = 0, dispatch_constant = 0, pdl_pointer
     = 0, pdl_index = 0, vma_reg = 0, md_reg = 0, lc = 0, oa_reg_low = 0, oa_reg_high = 0,
     opc = 0, q_r = 0, old_q = 0, interrupt_control = 0, inhibit = False, op_r = 0, popj =
     False, new_md = 0, new_md_delay = 0, alu_carry = 0, alu_out = 0, oal = False, oah =
     False, out_r = 0, uexec_has_run_once = False\<rparr>"

definition zero_machine_state_s :: machine_state_s where
  "zero_machine_state_s = \<lparr>halted = False, vmaok = False, promdisabled = False\<rparr>"

definition zero_bus_interface :: bus_interface where
  "zero_bus_interface = \<lparr>bus_error_status = 0, nxm_inhibited = False, modifier_reset = False,
     debuggee_bus_error_status = 0, addr17 = False, bif_addr = 0\<rparr>"

definition zero_lashup :: lashup where
  "zero_lashup = \<lparr>lashup_target_port = 0, lashup_reply_data = 0, lashup_replies = [], lashup_sent = []\<rparr>"

definition zero_tv_state :: tv_state where
  "zero_tv_state = \<lparr>tv_monitor = 0, tv_width = 0, tv_height = 0, tv_screen_buffer = \<lambda>_. 0,
     tv_background = 0, tv_foreground = 0, tv_mode = 0, tv_vert_spacing = 0, tv_sync_ptr = 0,
     tv_sync_ram = \<lambda>_. 0\<rparr>"

definition zero_colortv_state :: colortv_state where
  "zero_colortv_state = \<lparr>colortv_enabled = False, colortv_screen_buffer = \<lambda>_. 0, colortv_color_map =
     \<lambda>_. 0, colortv_mode = 0, colortv_vsync = False, colortv_hsync = False,
     sync_prom_enb = False, colortv_vert_spacing = 0, colortv_sync_ptr = 0, colortv_sync_ram
     = \<lambda>_. 0\<rparr>"

definition zero_unibus_mapping :: unibus_mapping where
  "zero_unibus_mapping = \<lparr>unibus_mapping_registers = \<lambda>_. 0, unibus_mapping_buffers = \<lambda>_. 0\<rparr>"

definition zero_idle :: idle where
  "zero_idle = \<lparr>machine_cycles = 0, idle_enabled = False, idle_cycles = 0, idle_quantum = 0, is_idle =
     False, last_work = 0, idle_count = 0, pselect_fails = \<lambda>_. False\<rparr>"

definition zero_disk_unit_s :: disk_unit_s where
  "zero_disk_unit_s = \<lparr>du_unit = 0, du_ncylinders = 0, du_nheads = 0, du_nblocks_per_track = 0,
     du_nblocks_per_cylinder = 0, du_configured = False, du_online = False, du_read_only =
     False, du_seek_error = False, du_has_fault = False, du_attention = False,
     du_last_memory_address = 0, du_mm = \<lambda>_. 0, du_mmsz = 0, du_cylinder = 0, du_head
     = 0, du_sector = 0, du_lba = 0\<rparr>"

definition zero_xfer_req_s :: xfer_req_s where
  "zero_xfer_req_s = \<lparr>xr_ready = False, xr_unit = 0, xr_read = False, xr_compare = False, xr_clp = 0,
     xr_cylinder = 0, xr_head = 0, xr_block = 0\<rparr>"

definition zero_status_s :: status_s where
  "zero_status_s = \<lparr>read_compare_difference = False, ccw_cycle = False, nonexistent_memory_error = False,
     interrupt_request = False, not_active = False\<rparr>"

definition zero_disk :: disk where
  "zero_disk = \<lparr>dc_cmd = 0, dc_clp = 0, dc_da = 0, xfer_req = zero_xfer_req_s, reset_condition = False,
     dc_status = zero_status_s, done_interrupt_enable = False, attention_interrupt_enable =
     False, disk_units = \<lambda>_. zero_disk_unit_s\<rparr>"

definition zero_tape_drive_s :: tape_drive_s where
  "zero_tape_drive_s = \<lparr>td_unit = 0, td_configured = False, td_length_ft = 0, td_read_only = False, td_mm =
     \<lambda>_. 0, td_mmsz = 0, td_online = False, td_bpi = 0, td_eotpos = 0, td_pos = 0,
     td_bot = False, td_rws = False, td_ready = False\<rparr>"

definition zero_mts_s :: mts_s where
  "zero_mts_s = \<lparr>mts_ilc = False, mts_eof = False, mts_eot = False, mts_rle = False, mts_bte = False,
     mts_nxm = False, mts_selr = False\<rparr>"

definition zero_mtc_s :: mtc_s where
  "zero_mtc_s = \<lparr>mtc_den8 = False, mtc_den5 = False, mtc_pevn = False, mtc_slt = 0, mtc_cur = False,
     mtc_int_enb = False, mtc_fun = 0\<rparr>"

definition zero_tape :: tape where
  "zero_tape = \<lparr>tape_drives = \<lambda>_. zero_tape_drive_s, mts = zero_mts_s, mtc = zero_mtc_s, mtbrc =
     0, mtcma = 0, mtd = 0, mtrd = 0, go_waiting = False, go_signalled = False, go_running =
     False\<rparr>"

definition zero_uch11 :: uch11 where
  "zero_uch11 = \<lparr>uch11_myaddr = 0, uch11_csr = 0, uch11_bit_count = 0, uch11_lost_count = 0,
     uch11_xmit_buffer = \<lambda>_. 0, uch11_xmit_buffer_size = 0, uch11_xmit_buffer_ptr =
     0, uch11_rcv_buffer = \<lambda>_. 0, uch11_rcv_buffer_ptr = 0, uch11_rcv_buffer_size =
     0, uch11_rcv_buffer_empty = False, uch11_queue = [], uch11_sent = []\<rparr>"

definition zero_iob :: iob where
  "zero_iob = \<lparr>iob_csr = 0, iob_usec = 0, the_60_cycle_clock = 0, iob_scancode = 0, iob_mouse_x = 0,
     iob_mouse_y = 0, interval_timer = (0, 0), time_of_day = (0, 0), us_base = (0, 0)\<rparr>"

definition zero_keyboard :: keyboard where
  "zero_keyboard = \<lparr>kb_queue = \<lambda>_. 0, kb_queue_read = 0, kb_queue_write = 0, kb_queue_nelem = 0,
     kb_sem = 0, kb_pending = None, kb_quit = False, key_map = \<lambda>_. 0,
     special_key_scancode = 0, disable_up_codes_for_boot = False, caps_lock_down = False,
     alt_lock_down = False, mode_lock_down = False\<rparr>"

definition zero_uvmem :: uvmem where
  "zero_uvmem = \<lparr>l1_map = \<lambda>_. 0, l2_map = \<lambda>_. 0\<rparr>"

definition zero_sdl_mouse :: sdl_mouse where
  "zero_sdl_mouse = \<lparr>sm_x = 0, sm_y = 0, sm_tail = 0, sm_middle = 0, sm_head = 0, a_mouse_x = 0, a_mouse_y =
     0, a_mouse_wakeup = 0, a_v_true = 0, a_mouse_cursor_state = 0, sm_prevstate = 0,
     mouse_unscale = \<lambda>_. 0, mouse_warps = []\<rparr>"

type_synonym machine = mouse_sys

definition zero_machine :: machine where
  "zero_machine = \<lparr>ndebug = False, indet = \<lambda>_. 0, intr = zero_interrupts, mem = zero_main_memory,
     ms = zero_machine_state_s, cpu = zero_cpu, bif = zero_bus_interface, lash = zero_lashup,
     tv = zero_tv_state, ctv = zero_colortv_state, umap = zero_unibus_mapping, idl =
     zero_idle, dsk = zero_disk, tape = zero_tape, uch = zero_uch11, iob = zero_iob, kbd =
     zero_keyboard, spy_params = (0, 0, 0), vmem = zero_uvmem, mouse = zero_sdl_mouse\<rparr>"

lemmas zero_defs = zero_machine_def zero_interrupts_def zero_main_memory_def zero_cpu_def
  zero_machine_state_s_def zero_bus_interface_def zero_lashup_def zero_tv_state_def
  zero_colortv_state_def zero_unibus_mapping_def zero_idle_def zero_disk_unit_s_def
  zero_xfer_req_s_def zero_status_s_def zero_disk_def zero_tape_drive_s_def zero_mts_s_def
  zero_mtc_s_def zero_tape_def zero_uch11_def zero_iob_def zero_keyboard_def zero_uvmem_def
  zero_sdl_mouse_def

text \<open>Powering on (which resets the buses) establishes the invariant of the machine.\<close>

lemma zero_powered_on: "machine_wf (machine_control_power_on zero_machine)"
  by (simp add: machine_wf_def sys_inv_def machine_control_power_on_def machine_control_reset_def
      bus_interface_bus_reset_def tape_controller_bus_reset_def mtc_reset_def zero_defs intr_wf_def
      mem_wf_def cpu_wf_def npc_ok_def tv_wf_def ctv_wf_def disk_wf_def tape_wf_def td_wf_def
      uch_wf_def kb_wf_def uvmem_wf_def)

end
