(* ===== verification/Tape_Spacing.thy ===== *)
theory Tape_Spacing
  imports Tape_Go
begin

text \<open>
  How the tape moves: where a seek and the reads of bytes and words leave the drive, the progress
  every spacing operation makes, and from it the termination of the spacing and transfer loops.
\<close>

unbundle bit_operations_syntax

section \<open>Seeks and reads\<close>

definition clamp :: "tape_drive_s \<Rightarrow> int \<Rightarrow> int" where
  "clamp d x = (if x < 0 then 0 else if x > td_mmsz d then td_mmsz d else x)"

text \<open>\<open>moved u m m'\<close>: the drive has at most moved, and the flags other than EOT and the count are kept.\<close>

definition moved :: "nat \<Rightarrow> 'a tape_sys_scheme \<Rightarrow> 'a tape_sys_scheme \<Rightarrow> bool" where
  "moved u m m' \<longleftrightarrow>
     drive_of u m' = (drive_of u m)\<lparr>td_pos := td_pos (drive_of u m'), td_bot := td_bot (drive_of u m')\<rparr> \<and>
     tape_eof m' = tape_eof m \<and> mtbrc (tape m') = mtbrc (tape m) \<and> indet m' = indet m"

lemma moved_refl [simp]: "moved u m m"
  by (simp add: moved_def)

lemma moved_twice:
  "d1 = d\<lparr>td_pos := x1, td_bot := b1\<rparr> \<Longrightarrow> d2 = d1\<lparr>td_pos := x2, td_bot := b2\<rparr> \<Longrightarrow>
    d2 = d\<lparr>td_pos := x2, td_bot := b2\<rparr>"
  by simp

lemma moved_trans: "moved u m m1 \<Longrightarrow> moved u m1 m2 \<Longrightarrow> moved u m m2"
  unfolding moved_def by (elim conjE, intro conjI) (rule moved_twice, assumption, assumption, simp_all)

lemma moved_medium:
  assumes "moved u m m'"
  shows "td_mmsz (drive_of u m') = td_mmsz (drive_of u m)"
    "td_eotpos (drive_of u m') = td_eotpos (drive_of u m)"
    "td_mm (drive_of u m') = td_mm (drive_of u m)"
    "td_length_ft (drive_of u m') = td_length_ft (drive_of u m)"
proof -
  have eq: "drive_of u m' = (drive_of u m)\<lparr>td_pos := td_pos (drive_of u m'), td_bot := td_bot (drive_of u m')\<rparr>"
    using assms by (simp add: moved_def)
  show "td_mmsz (drive_of u m') = td_mmsz (drive_of u m)"
    "td_eotpos (drive_of u m') = td_eotpos (drive_of u m)"
    "td_mm (drive_of u m') = td_mm (drive_of u m)"
    "td_length_ft (drive_of u m') = td_length_ft (drive_of u m)"
    by (subst eq, simp)+
qed

lemma seek_moved [simp]: "moved u m (tape_drive_seek u off wh m)"
  by (simp add: moved_def tape_drive_seek_def Let_def tape_upd_defs)

lemma seek_result:
  "td_pos (drive_of u (tape_drive_seek u off SEEK_CUR m)) =
     clamp (drive_of u m) (td_pos (drive_of u m) + off)"
  "td_pos (drive_of u (tape_drive_seek u off SEEK_SET m)) = clamp (drive_of u m) off"
  "td_bot (drive_of u (tape_drive_seek u off wh m)) \<longleftrightarrow>
     td_pos (drive_of u (tape_drive_seek u off wh m)) = 0"
  "tape_eot (tape_drive_seek u off wh m) \<longleftrightarrow>
     td_eotpos (drive_of u m) \<le> td_pos (drive_of u (tape_drive_seek u off wh m))"
  by (auto simp: tape_drive_seek_def Let_def tape_upd_defs clamp_def)

text \<open>A position on the medium.\<close>

definition on_medium :: "tape_drive_s \<Rightarrow> bool" where
  "on_medium d \<longleftrightarrow> 0 \<le> td_pos d \<and> td_pos d \<le> td_mmsz d"

lemma clamp_range: "0 \<le> td_mmsz d \<Longrightarrow> 0 \<le> clamp d x \<and> clamp d x \<le> td_mmsz d"
  by (simp add: clamp_def)

lemma on_medium_seek:
  assumes "on_medium (drive_of u m)"
  shows "on_medium (drive_of u (tape_drive_seek u off wh m))"
proof -
  have "td_mmsz (drive_of u (tape_drive_seek u off wh m)) = td_mmsz (drive_of u m)"
    by (rule moved_medium(1)) simp
  then show ?thesis
    using assms by (cases wh) (auto simp: on_medium_def seek_result clamp_def)
qed

lemma read8_result:
  assumes "on_medium (drive_of u m)" and r: "tape_drive_read_uint8 u m = (v, m')"
  shows "moved u m m'" "on_medium (drive_of u m')"
    "td_pos (drive_of u m) < td_mmsz (drive_of u m) \<Longrightarrow>
       td_pos (drive_of u m') = td_pos (drive_of u m) + 1 \<and>
       v = Some (td_mm (drive_of u m) (td_pos (drive_of u m)))"
    "td_pos (drive_of u m) = td_mmsz (drive_of u m) \<Longrightarrow>
       td_pos (drive_of u m') = td_mmsz (drive_of u m) \<and> v = None"
  using assms by (auto simp: tape_drive_read_uint8_def Let_def seek_result clamp_def on_medium_def
      on_medium_seek moved_medium(1) [OF seek_moved] split: if_splits)

text \<open>Reading a word: four bytes, or the end of the medium.\<close>

lemma read32_result:
  assumes on: "on_medium (drive_of u m)" and r: "tape_drive_read_uint32 u m = (v, m')"
  shows "moved u m m' \<and> on_medium (drive_of u m') \<and>
    (if td_pos (drive_of u m) + 4 \<le> td_mmsz (drive_of u m)
     then td_pos (drive_of u m') = td_pos (drive_of u m) + 4 \<and> v \<noteq> None
     else td_pos (drive_of u m') = td_mmsz (drive_of u m) \<and> v = None)"
proof -
  obtain v1 m1 where 1: "tape_drive_read_uint8 u m = (v1, m1)" by fastforce
  obtain v2 m2 where 2: "tape_drive_read_uint8 u m1 = (v2, m2)" by fastforce
  obtain v3 m3 where 3: "tape_drive_read_uint8 u m2 = (v3, m3)" by fastforce
  obtain v4 m4 where 4: "tape_drive_read_uint8 u m3 = (v4, m4)" by fastforce
  note r1 = read8_result [OF on 1]
  note r2 = read8_result [OF r1(2) 2]
  note r3 = read8_result [OF r2(2) 3]
  note r4 = read8_result [OF r3(2) 4]
  have mv: "moved u m m2" "moved u m m3" "moved u m m4"
    using r1(1) r2(1) r3(1) r4(1) moved_trans by blast+
  have sz: "td_mmsz (drive_of u m1) = td_mmsz (drive_of u m)" "td_mmsz (drive_of u m2) = td_mmsz (drive_of u m)"
    "td_mmsz (drive_of u m3) = td_mmsz (drive_of u m)" "td_mmsz (drive_of u m4) = td_mmsz (drive_of u m)"
    using moved_medium(1) r1(1) mv by blast+
  let ?p = "td_pos (drive_of u m)" and ?s = "td_mmsz (drive_of u m)"
  have ps: "?p \<le> ?s" using on by (simp add: on_medium_def)
  consider "?p + 4 \<le> ?s" | "?p = ?s" | "?p + 1 = ?s" | "?p + 2 = ?s" | "?p + 3 = ?s"
    using ps by linarith
  then show ?thesis
    using r1 r2 r3 r4 r sz mv by cases (auto simp: tape_drive_read_uint32_def 1 2 3 4)
qed

section \<open>Progress of the spacing operations\<close>

text \<open>
  The EOT position set by a command lies at least 4 bytes before the end of the medium (the file
  holds the whole length at the highest density).
\<close>

definition eot_early :: "tape_drive_s \<Rightarrow> bool" where
  "eot_early d \<longleftrightarrow> td_eotpos d + 4 \<le> td_mmsz d"

lemma set_bpi_eot_early:
  assumes "td_wf (drive_of u m)" and "b = 800 \<or> b = 1600"
  shows "eot_early (drive_of u (tape_drive_set_bpi u b m))"
proof -
  let ?d = "drive_of u m"
  have "(td_length_ft ?d - 4) * 12 * uint b + 4 \<le> td_mmsz ?d"
  proof (cases "td_length_ft ?d \<ge> 4")
    case True
    then show ?thesis
      using assms by (auto simp: td_wf_def)
  next
    case False
    then show ?thesis
      using assms by (auto simp: td_wf_def)
  qed
  then show ?thesis
    by (simp add: eot_early_def tape_drive_set_bpi_def upd_drive_def)
qed

lemma eof_after_set [simp]:
  "tape_eof (tape_controller_set_mts_eof m)"
  "mtbrc (tape (tape_controller_set_mts_eof m)) = mtbrc (tape m)"
  "drive_of u (tape_controller_set_mts_eof m) = drive_of u m"
  by (simp_all add: tape_upd_defs)

text \<open>
  What a spacing operation may change: it moves the drive, may set EOF and leaves the count alone.
\<close>

definition spaced :: "nat \<Rightarrow> 'a tape_sys_scheme \<Rightarrow> 'a tape_sys_scheme \<Rightarrow> bool" where
  "spaced u m m' \<longleftrightarrow>
     on_medium (drive_of u m') \<and> td_mmsz (drive_of u m') = td_mmsz (drive_of u m) \<and>
     td_eotpos (drive_of u m') = td_eotpos (drive_of u m) \<and> mtbrc (tape m') = mtbrc (tape m)"

lemma spaced_of_moved: "moved u m m' \<Longrightarrow> on_medium (drive_of u m') \<Longrightarrow> spaced u m m'"
  by (simp add: spaced_def moved_medium) (simp add: moved_def)

lemma space_forward_progress:
  assumes on: "on_medium (drive_of u m)" and early: "eot_early (drive_of u m)"
  defines "m' \<equiv> tape_drive_space_forward u m"
  shows "spaced u m m' \<and>
    (tape_eof m' \<or> tape_eot m' \<or> td_pos (drive_of u m) + 4 \<le> td_pos (drive_of u m'))"
proof -
  obtain v m1 where 1: "tape_drive_read_uint32 u m = (v, m1)" by fastforce
  define off where "off = uint (assigned v ''preamble'' m + 4)"
  define m2 where "m2 = tape_drive_seek u off SEEK_CUR m1"
  obtain w m3 where 3: "tape_drive_read_uint32 u m2 = (w, m3)" by fastforce
  have off: "0 \<le> off" by (simp add: off_def)
  note r1 = read32_result [OF on 1]
  have on2: "on_medium (drive_of u m2)"
    unfolding m2_def by (rule on_medium_seek) (use r1 in blast)
  note r3 = read32_result [OF on2 3]
  have mv2: "moved u m m2"
    using r1 moved_trans [of u m m1 m2] by (simp add: m2_def)
  then have mv3: "moved u m m3"
    using r3 moved_trans by blast
  note sz = moved_medium(1,2) [OF mv2] moved_medium(1,2) [OF mv3] moved_medium(1,2) [of u m m1]
  have pos2: "td_pos (drive_of u m2) = clamp (drive_of u m1) (td_pos (drive_of u m1) + off)"
    by (simp add: m2_def seek_result)
  show ?thesis
  proof (cases "assigned w ''maybe_filemark'' m = 0xFFFFFFFF")
    case True
    then have "m' = tape_controller_set_mts_eof m3"
      by (simp add: m'_def tape_drive_space_forward_def 1 3 off_def [symmetric] m2_def [symmetric] Let_def)
    then show ?thesis
      using spaced_of_moved [OF mv3] r3 by (simp add: spaced_def)
  next
    case False
    then have m': "m' = tape_drive_seek u (- 4) SEEK_CUR m3"
      by (simp add: m'_def tape_drive_space_forward_def 1 3 off_def [symmetric] m2_def [symmetric] Let_def)
    have "on_medium (drive_of u m')"
      unfolding m' by (rule on_medium_seek) (use r3 in blast)
    then have sp: "spaced u m m'"
      using moved_trans [OF mv3, of m'] by (intro spaced_of_moved) (simp_all add: m')
    have pos': "td_pos (drive_of u m') = clamp (drive_of u m3) (td_pos (drive_of u m3) - 4)"
      and eot': "tape_eot m' \<longleftrightarrow> td_eotpos (drive_of u m3) \<le> td_pos (drive_of u m')"
      by (simp_all add: m' seek_result)
    show ?thesis
    proof (cases "td_pos (drive_of u m2) + 4 \<le> td_mmsz (drive_of u m2)")
      case True
      then have "td_pos (drive_of u m') = td_pos (drive_of u m2)"
        using r3 pos' sz on2 by (simp add: clamp_def on_medium_def)
      moreover have "td_pos (drive_of u m) + 4 \<le> td_pos (drive_of u m2)"
        using True r1 pos2 sz off by (auto simp: clamp_def split: if_splits)
      ultimately show ?thesis
        using sp by simp
    next
      case False
      then have "td_mmsz (drive_of u m) - 4 \<le> td_pos (drive_of u m')"
        using r3 pos' sz on by (auto simp: clamp_def on_medium_def)
      then show ?thesis
        using sp eot' sz early by (simp add: eot_early_def)
    qed
  qed
qed

lemma space_reverse_progress:
  assumes on: "on_medium (drive_of u m)"
  defines "m' \<equiv> tape_drive_space_reverse u True m"
  shows "spaced u m m' \<and>
    (tape_eof m' \<or> tape_bot u m' \<or> td_pos (drive_of u m') + 4 \<le> td_pos (drive_of u m))"
proof -
  define m1 where "m1 = tape_drive_seek u (- 4) SEEK_CUR m"
  obtain v m2 where 2: "tape_drive_read_uint32 u m1 = (v, m2)" by fastforce
  let ?pa = "assigned v ''postamble'' m"
  have on1: "on_medium (drive_of u m1)"
    unfolding m1_def by (rule on_medium_seek [OF on])
  note r2 = read32_result [OF on1 2]
  have mv: "moved u m m1" "moved u m m2"
    using r2 moved_trans [of u m m1 m2] by (simp_all add: m1_def)
  note sz = moved_medium(1,2) [OF mv(1)] moved_medium(1,2) [OF mv(2)]
  have pos1: "td_pos (drive_of u m1) = clamp (drive_of u m) (td_pos (drive_of u m) - 4)"
    by (simp add: m1_def seek_result)
  show ?thesis
  proof (cases "?pa = 0xFFFFFFFF")
    case True
    then have "m' = tape_controller_set_mts_eof m2"
      by (simp add: m'_def tape_drive_space_reverse_def m1_def [symmetric] 2 Let_def)
    then show ?thesis
      using spaced_of_moved [OF mv(2)] r2 by (simp add: spaced_def)
  next
    case False
    define rl where "rl = uint ?pa"
    define m4 where "m4 = tape_drive_seek u (- (rl + 8)) SEEK_CUR m2"
    have rl: "0 \<le> rl" by (simp add: rl_def)
    have m': "m' = tape_controller_reset_mts_eot m4 \<or> m' = m4"
      using False by (simp add: m'_def tape_drive_space_reverse_def m1_def [symmetric] 2 Let_def m4_def rl_def)
    have "moved u m m4" and on4: "on_medium (drive_of u m4)"
      using mv(2) r2 moved_trans [of u m m2 m4] by (simp_all add: m4_def on_medium_seek)
    then have sp: "spaced u m m4"
      by (rule spaced_of_moved)
    have pos4: "td_pos (drive_of u m4) = clamp (drive_of u m2) (td_pos (drive_of u m2) - (rl + 8))"
      and bot4: "tape_bot u m4 \<longleftrightarrow> td_pos (drive_of u m4) = 0"
      by (simp_all add: m4_def seek_result algebra_simps)
    have "td_pos (drive_of u m4) = 0 \<or> td_pos (drive_of u m4) + 4 \<le> td_pos (drive_of u m)"
    proof (cases "td_pos (drive_of u m1) + 4 \<le> td_mmsz (drive_of u m1)")
      case True
      then show ?thesis
        using r2 pos1 pos4 sz on rl by (auto simp: clamp_def on_medium_def)
    next
      case False
      then show ?thesis
        using r2 pos1 pos4 sz on rl by (auto simp: clamp_def on_medium_def split: if_splits)
    qed
    then have "spaced u m m4 \<and>
        (tape_eof m4 \<or> tape_bot u m4 \<or> td_pos (drive_of u m4) + 4 \<le> td_pos (drive_of u m))"
      using sp bot4 by blast
    then show ?thesis
      using m' by (auto simp: spaced_def tape_upd_defs)
  qed
qed

section \<open>Termination\<close>

text \<open>The loops to a file mark: the fuel is the way left to the end of the medium.\<close>

lemma space_forward_file_returns:
  assumes "on_medium (drive_of u m)" and "eot_early (drive_of u m)"
    and "nat (td_mmsz (drive_of u m) - td_pos (drive_of u m)) + 1 < k"
  shows "\<exists>m'. space_forward_file k u m = Inr m'"
  using assms
proof (induction k arbitrary: m)
  case (Suc k)
  show ?case
  proof (cases "tape_eof m \<or> tape_eot m")
    case False
    let ?m1 = "tape_drive_space_forward u m"
    note p = space_forward_progress [OF Suc.prems(1,2)]
    show ?thesis
    proof (cases "tape_eof ?m1 \<or> tape_eot ?m1")
      case True
      obtain k' where "k = Suc k'"
        using Suc.prems(3) by (cases k) auto
      with True False show ?thesis by auto
    next
      case no: False
      then have "td_pos (drive_of u m) + 4 \<le> td_pos (drive_of u ?m1)" and sp: "spaced u m ?m1"
        using p by blast+
      then have "nat (td_mmsz (drive_of u ?m1) - td_pos (drive_of u ?m1)) + 1 < k"
        using Suc.prems(3) by (auto simp: spaced_def on_medium_def)
      then have "\<exists>m'. space_forward_file k u ?m1 = Inr m'"
        using sp Suc.prems(2) by (intro Suc.IH) (simp_all add: spaced_def eot_early_def)
      with False show ?thesis by simp
    qed
  qed auto
qed simp

lemma space_reverse_file_returns:
  assumes "on_medium (drive_of u m)" and "nat (td_pos (drive_of u m)) + 1 < k"
  shows "\<exists>m'. space_reverse_file k u m = Inr m'"
  using assms
proof (induction k arbitrary: m)
  case (Suc k)
  show ?case
  proof (cases "tape_eof m \<or> tape_bot u m")
    case False
    let ?m1 = "tape_drive_space_reverse u True m"
    note p = space_reverse_progress [OF Suc.prems(1)]
    show ?thesis
    proof (cases "tape_eof ?m1 \<or> tape_bot u ?m1")
      case True
      obtain k' where "k = Suc k'"
        using Suc.prems(2) by (cases k) auto
      with True False show ?thesis by auto
    next
      case no: False
      then have "td_pos (drive_of u ?m1) + 4 \<le> td_pos (drive_of u m)" and sp: "spaced u m ?m1"
        using p by blast+
      then have "nat (td_pos (drive_of u ?m1)) + 1 < k"
        using Suc.prems(2) by (auto simp: spaced_def on_medium_def)
      then have "\<exists>m'. space_reverse_file k u ?m1 = Inr m'"
        using sp by (intro Suc.IH) (simp_all add: spaced_def)
      with False show ?thesis by simp
    qed
  qed auto
qed simp

text \<open>The counted loops: \<open>mtbrc\<close> goes up to 0.\<close>

lemma sint_up: "(x :: u16) <s 0 \<Longrightarrow> sint (x + 1) = sint x + 1"
proof -
  assume "x <s 0"
  then have "- (2 ^ 15) \<le> sint x" "sint x < 0"
    using sint_greater_eq [of x] by (simp_all add: word_sless_alt)
  then have "signed_take_bit 15 (sint x + 1) = sint x + 1"
    by (intro signed_take_bit_int_eq_self) auto
  then show ?thesis
    by (simp add: sint_word_ariths(1))
qed

lemma mtbrc_up_simps [simp]:
  "mtbrc (tape (mtbrc_up m)) = mtbrc (tape m) + 1" "drive_of u (mtbrc_up m) = drive_of u m"
  "tape_eof (mtbrc_up m) = tape_eof m" "tape_eot (mtbrc_up m) = tape_eot m"
  by (simp_all add: mtbrc_up_def upd_tape_def)

lemma space_forward_records_returns:
  assumes "on_medium (drive_of u m)" and "eot_early (drive_of u m)"
    and "nat (- sint (mtbrc (tape m))) < k"
  shows "\<exists>m'. space_forward_records k u m = Inr m'"
  using assms
proof (induction k arbitrary: m)
  case (Suc k)
  let ?m1 = "tape_drive_space_forward u m"
  have sp: "spaced u m ?m1"
    using space_forward_progress [OF Suc.prems(1,2)] by blast
  show ?case
  proof (cases "mtbrc (tape m) <s 0")
    case True
    then have "sint (mtbrc (tape m)) < 0"
      by (simp add: word_sless_alt)
    then have "nat (- sint (mtbrc (tape ?m1) + 1)) < k"
      using sint_up [OF True] Suc.prems(3) sp by (simp add: spaced_def)
    then have "\<exists>m'. space_forward_records k u (mtbrc_up ?m1) = Inr m'"
      using sp Suc.prems(2) by (intro Suc.IH) (simp_all add: spaced_def eot_early_def)
    with True show ?thesis by (simp add: Let_def)
  qed simp
qed simp

lemma space_reverse_records_returns:
  assumes "on_medium (drive_of u m)" and "nat (- sint (mtbrc (tape m))) < k"
  shows "\<exists>m'. space_reverse_records k u m = Inr m'"
  using assms
proof (induction k arbitrary: m)
  case (Suc k)
  let ?m1 = "tape_drive_space_reverse u True m"
  have sp: "spaced u m ?m1"
    using space_reverse_progress [OF Suc.prems(1)] by blast
  show ?case
  proof (cases "mtbrc (tape m) <s 0")
    case True
    then have "sint (mtbrc (tape m)) < 0"
      by (simp add: word_sless_alt)
    then have "nat (- sint (mtbrc (tape ?m1) + 1)) < k"
      using sint_up [OF True] Suc.prems(2) sp by (simp add: spaced_def)
    then have "\<exists>m'. space_reverse_records k u (mtbrc_up ?m1) = Inr m'"
      using sp by (intro Suc.IH) (simp_all add: spaced_def)
    with True show ?thesis by (simp add: Let_def)
  qed simp
qed simp

text \<open>The first record of a reverse spacing may end in a file mark, which does not stop it.\<close>

lemma space_reverse_first:
  assumes on: "on_medium (drive_of u m)"
  shows "spaced u m (tape_drive_space_reverse u False m)"
proof -
  have move: "spaced u m m1 \<Longrightarrow> spaced u m (tape_drive_seek u off wh m1)" for m1 off wh
    using on_medium_seek [of m1 u off wh] moved_medium(1,2) [OF seek_moved [of u m1 off wh]]
      seek_moved [of u m1 off wh]
    by (auto simp: spaced_def moved_def)
  have read: "spaced u m m1 \<Longrightarrow> spaced u m (snd (tape_drive_read_uint32 u m1))" for m1
    using read32_result [of m1 u "fst (tape_drive_read_uint32 u m1)" "snd (tape_drive_read_uint32 u m1)"]
      moved_medium(1,2) [of u m1 "snd (tape_drive_read_uint32 u m1)"]
    by (auto simp: spaced_def moved_def)
  have eot: "spaced u m m1 \<Longrightarrow> spaced u m (tape_controller_reset_mts_eot m1)" for m1
    by (simp add: spaced_def tape_upd_defs)
  have "spaced u m m"
    using on by (simp add: spaced_def)
  then show ?thesis
    by (auto simp: tape_drive_space_reverse_def Let_def case_prod_beta intro!: eot move read)
qed

lemma mtbrc_bound: "nat (- sint (x :: u16)) \<le> 32768"
  using sint_greater_eq [of x] by simp

text \<open>Enough iterations for any spacing command: a whole count, or the medium byte by byte.\<close>

definition spacing_fuel :: "tape_drive_s \<Rightarrow> nat" where
  "spacing_fuel d = 32769 + nat (td_mmsz d)"

lemma spacing_returns:
  assumes "on_medium (drive_of u m)" and "eot_early (drive_of u m)" and "spacing_fuel (drive_of u m) < k"
  shows "\<exists>m'. tape_controller_space_forward k u m = Inr m'"
    and "\<exists>m'. tape_controller_space_reverse k u m = Inr m'"
proof -
  have "nat (- sint (mtbrc (tape m))) < k"
    using assms(3) mtbrc_bound [of "mtbrc (tape m)"] by (simp add: spacing_fuel_def)
  moreover have "nat (td_mmsz (drive_of u m) - td_pos (drive_of u m)) + 1 < k"
    using assms unfolding spacing_fuel_def on_medium_def by linarith
  ultimately show "\<exists>m'. tape_controller_space_forward k u m = Inr m'"
    using space_forward_file_returns [OF assms(1,2)] space_forward_records_returns [OF assms(1,2)]
    by (simp add: tape_controller_space_forward_def)
  let ?m1 = "tape_drive_space_reverse u False m"
  have sp: "spaced u m ?m1"
    by (rule space_reverse_first [OF assms(1)])
  then have on1: "on_medium (drive_of u ?m1)" and "nat (td_pos (drive_of u ?m1)) + 1 < k"
    using assms(3) by (auto simp: spaced_def spacing_fuel_def on_medium_def)
  moreover have "nat (- sint (mtbrc (tape (mtbrc_up ?m1)))) < k"
    using assms(3) mtbrc_bound [of "mtbrc (tape (mtbrc_up ?m1))"] by (simp add: spacing_fuel_def)
  ultimately show "\<exists>m'. tape_controller_space_reverse k u m = Inr m'"
    using space_reverse_file_returns [OF on1] space_reverse_records_returns [of "mtbrc_up ?m1" u k] on1
    by (simp add: tape_controller_space_reverse_def Let_def)
qed

lemma go_spacing_returns:
  assumes wf: "tape_wf (tape m)" and f: "mtc_fun (mtc (tape m)) = 4 \<or> mtc_fun (mtc (tape m)) = 5"
    and k: "spacing_fuel (drive_of (selected_drive m) m) < k"
  shows "\<exists>m'. tape_controller_go k m = Inr m'"
proof -
  let ?m0 = "tape_controller_reset_mtc_err m" and ?u = "selected_drive m"
  let ?m1 = "upd_drive ?u (td_ready_update (\<lambda>_. False)) ?m0"
  let ?b = "if mtc_den8 (mtc (tape m)) then 800 else 1600"
  let ?m2 = "tape_drive_set_bpi ?u ?b ?m1"
  have sel: "selected_drive ?m0 = ?u" "mtc (tape ?m1) = mtc (tape m)"
    by (simp_all add: selected_drive_def tape_controller_reset_mtc_err_def upd_mts_def upd_drive_def)
  have "td_wf (drive_of ?u m)"
    using wf by (simp add: tape_wf_def selected_drive_def)
  then have w1: "td_wf (drive_of ?u ?m1)"
    by (simp add: td_wf_def upd_drive_def tape_controller_reset_mtc_err_def upd_mts_def)
  then have "eot_early (drive_of ?u ?m2)"
    by (intro set_bpi_eot_early) auto
  moreover have "on_medium (drive_of ?u ?m2)"
    using w1 by (simp add: on_medium_def td_wf_def tape_drive_set_bpi_def upd_drive_def)
  moreover have "spacing_fuel (drive_of ?u ?m2) < k"
    using k by (simp add: spacing_fuel_def tape_drive_set_bpi_def upd_drive_def
        tape_controller_reset_mtc_err_def upd_mts_def)
  ultimately have "\<exists>m'. tape_controller_space_forward k ?u ?m2 = Inr m'"
    "\<exists>m'. tape_controller_space_reverse k ?u ?m2 = Inr m'"
    using spacing_returns [of ?m2 ?u k] by blast+
  moreover have "mtc_fun (mtc (tape ?m2)) = mtc_fun (mtc (tape m))"
    by (simp add: tape_drive_set_bpi_def upd_drive_def tape_controller_reset_mtc_err_def upd_mts_def)
  ultimately have "\<exists>m'. tape_command k ?u ?m2 = Inr m'"
    using f by (auto simp: tape_command_def)
  then show ?thesis
    using sel by (auto simp: tape_controller_go_def Let_def)
qed

section \<open>Transfers end\<close>

text \<open>Bus reads leave the tape controller alone.\<close>

lemma tape_of_nxm [simp]:
  "tape (bus_interface_set_xbus_nxm m) = tape m" "tape (bus_interface_set_unibus_nxm m) = tape m"
  "tape (bus_interface_set_unibus_map_error m) = tape m"
  by (simp_all add: bif_error_defs)

lemma tape_of_xbus_read:
  "bus_adaptor_xbus_rw False paddr pv m = Inr (w, m') \<Longrightarrow> tape m' = tape m"
  by (auto simp: bus_adaptor_xbus_rw_def bus_adaptor_xbusio_rw_def Let_def fault_simps
      colortv_control_read_def tv_control_read_def split: if_splits)

lemma tape_of_map_read: "unibus_map_rw False a pv m = Inr (w, m') \<Longrightarrow> tape m' = tape m"
  by (auto simp: unibus_map_rw_def unibus_map_md_def unibus_map_xbus_def unibus_map_buffer_def Let_def
      fault_simps split: if_splits dest!: tape_of_xbus_read)

lemma tape_of_iob_only: "iob_only m m' \<Longrightarrow> tape m' = tape m"
  unfolding iob_only_def by (erule ssubst) simp

lemma tape_of_bif_frame: "bif_frame m m' \<Longrightarrow> tape m' = tape m"
  unfolding bif_frame_def by (erule ssubst) simp

lemma tape_of_unibus_read:
  "bus_adaptor_unibus_read a pv m = Inr (w, m') \<Longrightarrow> tape m' = tape m"
proof -
  assume r: "bus_adaptor_unibus_read a pv m = Inr (w, m')"
  have "tape (snd (bus_interface_read a pv m)) = tape m"
    by (rule tape_of_bif_frame [OF bus_interface_frame(1)])
  then have bif: "bus_interface_read a pv m = (w, m') \<Longrightarrow> tape m' = tape m"
    by simp
  have iob: "iob_unibus_read a m = Inr (w, m') \<Longrightarrow> tape m' = tape m"
    by (blast intro: tape_of_iob_only iob_read_only)
  have diag: "diagnostic_interface_read a pv m = Inr (w, m') \<Longrightarrow> tape m' = tape m"
    by (auto simp: diagnostic_interface_read_def Let_def split: if_splits)
  have umap: "unibus_mapping_read a pv m = (w, m') \<Longrightarrow> tape m' = tape m"
    by (auto simp: unibus_mapping_read_def unibus_mapping_rw_def Let_def split: if_splits)
  from r show ?thesis
    unfolding bus_adaptor_unibus_read_def bus_adaptor_unibus_rw_def
    by (auto simp: fault_simps split: if_splits dest: tape_of_map_read bif iob diag umap)
qed

lemma write8_count [simp]:
  "mtbrc (tape (snd (tape_drive_write_uint8 u v m))) = mtbrc (tape m)"
  by (simp add: tape_drive_write_uint8_def Let_def tape_drive_seek_def tape_upd_defs)

lemma put_word_count: "mtbrc (tape (tape_put_word u w m)) = mtbrc (tape m) + 2"
  by (simp add: tape_put_word_def Let_def case_prod_beta)

lemma sint_up_2:
  assumes "(x :: u16) <s 0"
  shows "nat (- sint (x + 2)) < nat (- sint x)"
proof -
  have 1: "sint (x + 1) = sint x + 1"
    by (rule sint_up [OF assms])
  have neg: "sint x < 0"
    using assms by (simp add: word_sless_alt)
  show ?thesis
  proof (cases "x + 1 <s 0")
    case True
    have "sint (x + 1 + 1) = sint x + 2"
      using sint_up [OF True] 1 by simp
    then show ?thesis
      using neg by (simp add: add.assoc)
  next
    case False
    then have "sint (x + 1) = 0"
      using 1 neg by (simp add: word_sless_alt)
    then have "x + 1 = 0"
      by (metis signed_0 signed_word_eqI)
    then have "x + 2 = 1"
      by (metis add.assoc add_0 one_add_one)
    then have "sint (x + 2) = sint (1 :: u16)"
      by (rule arg_cong)
    then show ?thesis
      using neg by simp
  qed
qed

text \<open>A write ends within the byte count, whatever it reads: more iterations change nothing.\<close>

lemma write_loop_ends:
  "nat (- sint (mtbrc (tape m))) < k \<Longrightarrow> tape_write_loop (k + j) u m = tape_write_loop k u m"
proof (induction k arbitrary: m)
  case (Suc k)
  show ?case
  proof (cases "mtbrc (tape m) <s 0")
    case True
    have "tape_write_loop (k + j) u (tape_put_word u w (mtcma_up m1)) =
        tape_write_loop k u (tape_put_word u w (mtcma_up m1))"
      if "bus_adaptor_unibus_read (mtcma (tape m)) (ucast (indet m ''data'')) m = Inr (w, m1)" for w m1
    proof (rule Suc.IH)
      have eq: "mtbrc (tape (tape_put_word u w (mtcma_up m1))) = mtbrc (tape m) + 2"
        using tape_of_unibus_read [OF that] by (simp add: put_word_count mtcma_up_def upd_tape_def)
      have "nat (- sint (mtbrc (tape m) + 2)) < k"
        using sint_up_2 [OF True] Suc.prems by linarith
      then show "nat (- sint (mtbrc (tape (tape_put_word u w (mtcma_up m1))))) < k"
        unfolding eq .
    qed
    then show ?thesis
      using True by (auto intro!: and_then_cong)
  qed simp
qed simp

text \<open>A read of an even record ends within the record.\<close>

lemma read_loop_ends:
  fixes m :: "'a diag_sys_scheme"
  shows "even (unat rl) \<Longrightarrow> unat rl div 2 < k \<Longrightarrow>
    tape_read_loop (k + j) u rl m = tape_read_loop k u rl m"
proof (induction k arbitrary: rl m)
  case (Suc k)
  show ?case
  proof (cases "mtbrc (tape m) <s 0 \<and> rl > 0")
    case True
    then have "unat rl \<noteq> 0"
      by (simp add: word_less_nat_alt)
    with Suc.prems(1) have two: "2 \<le> unat rl" by presburger
    then have "unat (rl - 2) = unat rl - 2"
      by (simp add: unat_sub word_le_nat_alt)
    then have "even (unat (rl - 2)) \<and> unat (rl - 2) div 2 < k"
      using Suc.prems two by auto
    then have "tape_read_loop (k + j) u (rl - 2) m3 = tape_read_loop k u (rl - 2) m3"
      for m3 :: "'a diag_sys_scheme"
      using Suc.IH by blast
    then show ?thesis
      using True by (auto simp: Let_def intro!: and_then_cong split: prod.split)
  qed auto
qed simp

end
