(* ===== verification/Machine.thy ===== *)
theory Machine
  imports Zero_State Tape_Spacing
begin

text \<open>
  The machine as a whole: the main clock (\<^verbatim>\<open>usim/ucode.c\<close>: \<open>ucode_run\<close>), the events of the SDL
  application (\<^verbatim>\<open>usim/usim.c\<close>), the keyboard and tape threads and the timers, interleaved at the
  granularity of one operation.  An interleaving inside an operation (a data race of the C program) is
  not modelled.
\<close>

unbundle bit_operations_syntax

section \<open>The clock\<close>

text \<open>One turn of the loop of \<open>ucode_run\<close>: a processor step, the idle check and the polls.\<close>

definition ucode_cycle :: "'a cadr_sys_scheme \<Rightarrow> fault + 'a cadr_sys_scheme" where
  "ucode_cycle m0 =
     and_then (uexec_step m0) (\<lambda>m.
     let cycles = machine_cycles (idl m) in
     and_then (if idle_enabled (idl m) then idle_check cycles m else Inr m) (\<lambda>m1.
     let m2 = (if cycles AND 0x0FFFF = 0 then iob_poll m1 else m1)
     in Inr (m2\<lparr>idl := (idl m2)\<lparr>machine_cycles := machine_cycles (idl m2) + 1\<rparr>\<rparr>)))"

text \<open>The loop, stopped after at most \<open>n\<close> turns (\<open>No_return\<close>: it has not halted by then).\<close>

fun ucode_loop :: "nat \<Rightarrow> 'a cadr_sys_scheme \<Rightarrow> fault + 'a cadr_sys_scheme" where
  "ucode_loop 0 m = (if halted (ms m) then Inr m else Inl (No_return ''ucode_run''))"
| "ucode_loop (Suc n) m = (if halted (ms m) then Inr m else and_then (ucode_cycle m) (ucode_loop n))"

definition ucode_start :: "'a cadr_sys_scheme \<Rightarrow> 'a cadr_sys_scheme" where
  "ucode_start m = machine_control_boot (m\<lparr>idl := (idl m)\<lparr>machine_cycles := 0\<rparr>\<rparr>)"

definition ucode_run :: "nat \<Rightarrow> 'a cadr_sys_scheme \<Rightarrow> fault + 'a cadr_sys_scheme" where
  "ucode_run n m = ucode_loop n (ucode_start m)"

definition machine_control_start_blocking :: "nat \<Rightarrow> 'a cadr_sys_scheme \<Rightarrow> fault + 'a cadr_sys_scheme" where
  "machine_control_start_blocking n m = ucode_run n (machine_control_power_on m)"

lemma machine_wf_slots [simp]:
  "machine_wf (m\<lparr>idl := i\<rparr>) = machine_wf m"
  "machine_wf (m\<lparr>iob := io\<rparr>) = machine_wf m"
  "machine_wf (m\<lparr>ms := s\<rparr>) = machine_wf m"
  by (simp_all add: machine_wf_def sys_inv_def)

lemma machine_wf_bus_ok: "bus_ok m m' \<Longrightarrow> machine_wf m \<Longrightarrow> machine_wf m'"
  by (rule bus_ok_machine(1))

lemma machine_wf_idle_check: "idle_check c m = Inr m' \<Longrightarrow> machine_wf m' = machine_wf m"
  by (auto simp: idle_check_def Let_def split: if_splits)

lemma machine_wf_poll: "machine_wf m \<Longrightarrow> machine_wf (iob_poll m)"
proof (rule machine_wf_bus_ok)
  have "iob_only m (iob_poll m)"
    unfolding iob_poll_def by (rule uch_iob_only [OF uch_only_handlers(3)])
  then show "bus_ok m (iob_poll m)"
    by (rule bus_ok_iob) (simp add: iob_poll_def uch11_poll_def)
qed

lemma ucode_cycle_wf:
  assumes "machine_wf m" and "ucode_cycle m = Inr m'"
  shows "machine_wf m'"
proof -
  obtain m1 m2 where 1: "uexec_step m = Inr m1"
    and 2: "(if idle_enabled (idl m1) then idle_check (machine_cycles (idl m1)) m1 else Inr m1) = Inr m2"
    and m': "m' = (let m3 = (if machine_cycles (idl m1) AND 0x0FFFF = 0 then iob_poll m2 else m2)
      in m3\<lparr>idl := (idl m3)\<lparr>machine_cycles := machine_cycles (idl m3) + 1\<rparr>\<rparr>)"
    using assms(2) by (auto simp: ucode_cycle_def Let_def fault_simps)
  have "machine_wf m1"
    using uexec_step_wf [OF assms(1) 1] by simp
  then have "machine_wf m2"
    using 2 by (auto simp: machine_wf_idle_check split: if_splits)
  then show ?thesis
    unfolding m' Let_def by (auto intro: machine_wf_poll)
qed

interpretation clock: fallible_system ucode_cycle machine_wf
  by unfold_locales (rule ucode_cycle_wf)

text \<open>
  The loop runs turns of the clock until the machine is halted: its result is the first halted state.
\<close>

definition first_halt :: "nat \<Rightarrow> 'a cadr_sys_scheme \<Rightarrow> 'a cadr_sys_scheme \<Rightarrow> bool" where
  "first_halt k m m' \<longleftrightarrow>
     run_steps ucode_cycle k m = Inr m' \<and> halted (ms m') \<and>
     (\<forall>j<k. \<exists>mj. run_steps ucode_cycle j m = Inr mj \<and> \<not> halted (ms mj))"

lemma first_halt_0 [simp]: "first_halt 0 m m' \<longleftrightarrow> m' = m \<and> halted (ms m)"
  by (auto simp: first_halt_def)

lemma first_halt_Suc:
  "first_halt (Suc k) m m' \<longleftrightarrow>
     \<not> halted (ms m) \<and> (\<exists>m1. ucode_cycle m = Inr m1 \<and> first_halt k m1 m')"
  by (auto simp: first_halt_def fault_simps All_less_Suc2)

lemma ucode_loop_iff: "ucode_loop n m = Inr m' \<longleftrightarrow> (\<exists>k\<le>n. first_halt k m m')"
proof (induction n arbitrary: m)
  case (Suc n)
  have "(\<exists>k\<le>Suc n. first_halt k m m') \<longleftrightarrow> first_halt 0 m m' \<or> (\<exists>k\<le>n. first_halt (Suc k) m m')"
    by (metis le0 not0_implies_Suc Suc_le_mono)
  then show ?case
    by (auto simp: Suc.IH first_halt_Suc fault_simps)
qed auto

section \<open>Events\<close>

text \<open>What the SDL application does with an event: activity first, then the handler.\<close>

definition key_down_event :: "nat \<Rightarrow> (nat \<Rightarrow> bool) \<Rightarrow> nat \<Rightarrow> 'a kbd_sys_scheme \<Rightarrow> 'a kbd_sys_scheme" where
  "key_down_event sc state n m =
     (let m1 = idle_activity m in m1\<lparr>kbd := sdl3_keyboard_key_down sc state n (kbd m1)\<rparr>)"

definition key_up_event :: "nat \<Rightarrow> (nat \<Rightarrow> bool) \<Rightarrow> nat \<Rightarrow> 'a kbd_sys_scheme \<Rightarrow> 'a kbd_sys_scheme" where
  "key_up_event sc state n m =
     (let m1 = idle_activity m in m1\<lparr>kbd := sdl3_keyboard_key_up sc state n (kbd m1)\<rparr>)"

text \<open>
  The steps of the whole: the CPU thread while it is not halted, the SDL thread, the keyboard and the
  tape thread, the signal handlers, the host's clock.
\<close>

inductive machine_step :: "machine \<Rightarrow> machine \<Rightarrow> bool" where
  cycle: "\<not> halted (ms m) \<Longrightarrow> ucode_cycle m = Inr m' \<Longrightarrow> machine_step m m'"
| key_down: "machine_step m (key_down_event sc state n m)"
| key_up: "machine_step m (key_up_event sc state n m)"
| keyboard: "machine_step m (keyboard_thread_step m)"
| motion: "sdl3_mouse_motion x y (idle_activity m) = Inr m' \<Longrightarrow> machine_step m m'"
| button_down: "sdl3_mouse_button_down b (idle_activity m) = Inr m' \<Longrightarrow> machine_step m m'"
| button_up: "sdl3_mouse_button_up b (idle_activity m) = Inr m' \<Longrightarrow> machine_step m m'"
| sixty_hz: "machine_step m (run_at_60hz m)"
| interval_timer: "machine_step m (interval_timer_over m)"
| host_clock: "machine_step m (upd_iob (time_of_day_update (\<lambda>_. t)) m)"
| tape_idle: "\<not> go_waiting (tape m) \<Longrightarrow> \<not> go_signalled (tape m) \<Longrightarrow> \<not> go_running (tape m) \<Longrightarrow>
    machine_step m (tape_thread_wait m)"
| tape_start: "go_signalled (tape m) \<Longrightarrow> machine_step m (tape_thread_start m)"
| tape_finish: "go_running (tape m) \<Longrightarrow> tape_thread_finish k m = Inr m' \<Longrightarrow> machine_step m m'"
| shutdown: "machine_step m (machine_control_shutdown m)"

inductive_cases machine_stepE: "machine_step m m'"

text \<open>The states reachable after power-on and boot of a configured machine \<open>m0\<close>.\<close>

inductive machine_reachable :: "machine \<Rightarrow> machine \<Rightarrow> bool" for m0 where
  power_on: "machine_reachable m0 (ucode_start (machine_control_power_on m0))"
| step: "machine_reachable m0 m \<Longrightarrow> machine_step m m' \<Longrightarrow> machine_reachable m0 m'"

section \<open>Every step keeps the invariant\<close>

lemma machine_wf_idle_activity [simp]: "machine_wf (idle_activity m) = machine_wf m"
  by (simp add: idle_activity_def)

lemma machine_wf_kbd: "machine_wf m \<Longrightarrow> kb_wf k \<Longrightarrow> machine_wf (m\<lparr>kbd := k\<rparr>)"
  by (simp add: machine_wf_def sys_inv_def)

lemma machine_wf_kb: "machine_wf m \<Longrightarrow> kb_wf (kbd m)"
  by (simp add: machine_wf_def sys_inv_def)

lemma kbd_idle_activity [simp]: "kbd (idle_activity m) = kbd m"
  by (simp add: idle_activity_def)

lemma machine_wf_key_events:
  assumes "machine_wf m"
  shows "machine_wf (key_down_event sc state n m)" "machine_wf (key_up_event sc state n m)"
  using machine_wf_kb [OF assms] assms
  by (simp_all add: key_down_event_def key_up_event_def Let_def machine_wf_kbd kb_wf_key_down
      kb_wf_key_up)

lemma machine_wf_boot: "machine_wf m \<Longrightarrow> machine_wf (machine_control_boot m)"
proof -
  assume m: "machine_wf m"
  have "cpu_wf (cpu (machine_control_boot m))"
    by (rule cpu_wf_boot) (rule machine_wfD(3) [OF m])
  then show ?thesis
    using m by (subst boot_only) (simp add: machine_wf_def sys_inv_def)
qed

lemma machine_wf_unibus_interrupt: "machine_wf m \<Longrightarrow> machine_wf (assert_unibus_interrupt v m)"
  by (simp add: machine_wf_def sys_inv_def intr_defs intr_wf_def Let_def)

lemma machine_wf_xbus_interrupt: "machine_wf m \<Longrightarrow> machine_wf (assert_xbus_interrupt m)"
  by (simp add: machine_wf_def sys_inv_def intr_defs intr_wf_def)

lemma machine_wf_set_keyboard_ready: "machine_wf m \<Longrightarrow> machine_wf (iob_set_keyboard_ready sc m)"
  by (auto simp: iob_set_keyboard_ready_def Let_def upd_iob_def
      intro!: machine_wf_unibus_interrupt machine_wf_boot)

lemma machine_wf_keyboard: "machine_wf m \<Longrightarrow> machine_wf (keyboard_thread_step m)"
  using kb_wf_dequeue [of "kbd m\<lparr>kb_sem := kb_sem (kbd m) - 1\<rparr>"] machine_wf_kb [of m]
  by (auto simp: keyboard_thread_step_def Let_def case_prod_beta
      intro!: machine_wf_set_keyboard_ready machine_wf_kbd split: option.splits)

lemma machine_wf_60hz: "machine_wf m \<Longrightarrow> machine_wf (run_at_60hz m)"
proof -
  assume m: "machine_wf m"
  have tv: "machine_wf (tv_assert_interrupt m)"
    using m by (simp add: tv_assert_interrupt_def machine_wf_xbus_interrupt machine_wf_def sys_inv_def
        tv_wf_def intr_defs intr_wf_def Let_def)
  have "machine_wf (colortv_assert_interrupt m1)" if "machine_wf m1" for m1 :: "'a cadr_sys_scheme"
    using that by (simp add: colortv_assert_interrupt_def machine_wf_def sys_inv_def ctv_wf_def
        intr_defs intr_wf_def Let_def)
  then show ?thesis
    using tv by (simp add: run_at_60hz_def Let_def upd_iob_def)
qed

lemma tape_ok_machine: "tape_ok m m' \<Longrightarrow> machine_wf m \<Longrightarrow> machine_wf m'"
  by (rule machine_wf_bus_ok [OF bus_ok_of_tape])

lemma machine_wf_tape: "machine_wf m \<Longrightarrow> tape_wf (tape m)"
  by (simp add: machine_wf_def sys_inv_def)

lemma machine_step_wf:
  assumes "machine_step m m'" and wf: "machine_wf m"
  shows "machine_wf m'"
  using assms(1)
proof cases
  case cycle
  then show ?thesis using ucode_cycle_wf wf by blast
next
  case (tape_idle)
  then have "mtc_cur (mtc (tape m))"
    using machine_wf_tape [OF wf] by (simp add: tape_wf_def)
  then show ?thesis
    using tape_ok_machine [OF tape_ok_wait [OF _ tape_ok_refl] wf] tape_idle by blast
next
  case tape_start
  then show ?thesis using tape_ok_machine [OF tape_ok_start wf] by simp
next
  case tape_finish
  then show ?thesis using machine_wf_bus_ok [OF bus_ok_thread wf] by blast
qed (use wf in \<open>auto simp: upd_iob_def interval_timer_over_def machine_control_shutdown_def
      intro: machine_wf_key_events machine_wf_keyboard machine_wf_60hz machine_wf_unibus_interrupt
      dest: machine_wf_mouse_events\<close>)

lemma machine_reachable_wf:
  assumes "machine_reachable m0 m" and "machine_wf (machine_control_power_on m0)"
  shows "machine_wf m"
  using assms(1)
proof induction
  case power_on
  then show ?case
    using assms(2) by (simp add: ucode_start_def machine_wf_boot)
next
  case (step m m')
  then show ?case by (blast intro: machine_step_wf)
qed

end
