(* ===== verification/Instruction_Faults.thy ===== *)
theory Instruction_Faults
  imports Uexec_Inv Disk_Transfers
begin

text \<open>
  How an instruction can stop the simulator: with one of its messages, or with one of a short list of
  array accesses and the one assertion that the code expects never to reach.  Every other array access
  and every other assertion on the way to the devices is in range, and every loop ends.
\<close>

unbundle bit_operations_syntax

section \<open>The faults and the shape of operations\<close>

definition instruction_fault :: "fault \<Rightarrow> bool" where
  "instruction_fault e \<longleftrightarrow>
     (\<exists>s. e = Errx s) \<or>
     e \<in> {Out_of_bounds ''amem'', Out_of_bounds ''imem'', Out_of_bounds ''prom'',
          Out_of_bounds ''uch11_xmit_buffer'', Assertion ''false''}"

definition stops_in :: "fault + 'b \<Rightarrow> bool" where
  "stops_in r \<longleftrightarrow> (\<forall>e. r = Inl e \<longrightarrow> instruction_fault e)"

named_theorems stops \<open>operations that stop only with the faults of an instruction\<close>

lemma stops_Inr [simp, stops]: "stops_in (Inr x)"
  by (simp add: stops_in_def)

lemma stops_Inl [simp]: "stops_in (Inl e) = instruction_fault e"
  by (simp add: stops_in_def)

lemma instruction_fault_Errx [simp]: "instruction_fault (Errx s)"
  by (simp add: instruction_fault_def)

lemma stops_Errx [stops]: "stops_in (Inl (Errx s))"
  by simp

lemma stops_if [stops]:
  "(b \<Longrightarrow> stops_in x) \<Longrightarrow> (\<not> b \<Longrightarrow> stops_in y) \<Longrightarrow> stops_in (if b then x else y)"
  by simp

lemma stops_then [stops]:
  "stops_in r \<Longrightarrow> (\<And>x. r = Inr x \<Longrightarrow> stops_in (f x)) \<Longrightarrow> stops_in (and_then r f)"
  by (cases r) auto

lemma stops_bounds [simp, stops]:
  "stops_in (in_bounds n i ''amem'')" "stops_in (in_bounds n i ''imem'')"
  "stops_in (in_bounds n i ''prom'')" "stops_in (in_bounds n i ''uch11_xmit_buffer'')"
  "stops_in (c_assert nd b ''false'')"
  by (simp_all add: in_bounds_def c_assert_def instruction_fault_def)

section \<open>Devices\<close>

lemma stops_tv:
  "unat offset < 32768 \<Longrightarrow> stops_in (tv_screen_write offset v m)"
  "unat offset < 32768 \<Longrightarrow> stops_in (tv_screen_read offset m)"
  "unat offset < 32768 \<Longrightarrow> stops_in (colortv_screen_write offset v mc)"
  "unat offset < 32768 \<Longrightarrow> stops_in (colortv_screen_read offset mc)"
  by (simp_all add: tv_screen_write_def tv_screen_read_def colortv_screen_write_def
      colortv_screen_read_def)

lemma stops_tv_control: "tv_wf (tv m) \<Longrightarrow> stops_in (tv_control_write offset v m)"
  unfolding tv_control_write_def Let_def
  by (intro stops) (simp add: tv_redraw_id tv_wf_def)

lemma stops_colortv_control: "stops_in (colortv_control_write offset v m)"
  by (simp add: colortv_control_write_def colortv_write_color_map_def Let_def split: if_splits)

lemma stops_disk:
  "stops_in (disk_controller_read offset v m)"
  "disk_wf (dsk m) \<Longrightarrow> stops_in (disk_controller_write offset v m)"
proof -
  show "stops_in (disk_controller_read offset v m)"
    by (simp add: disk_controller_read_def Let_def)
  assume "disk_wf (dsk m)"
  then have "stops_in (disk_start m)"
    using disk_start_stops by (auto simp: stops_in_def instruction_fault_def)
  then show "stops_in (disk_controller_write offset v m)"
    by (simp add: disk_controller_write_def Let_def)
qed

lemma stops_uch11:
  "uch_wf (uch m) \<Longrightarrow> stops_in (uch11_get_rcv_buffer m)" "stops_in (uch11_xmit_pkt m)"
  by (auto simp: uch11_get_rcv_buffer_def uch11_xmit_pkt_def uch_wf_def Let_def intro!: stops)

lemma stops_iob:
  "uch_wf (uch m) \<Longrightarrow> stops_in (iob_unibus_read uaddr m)" "stops_in (iob_unibus_write uaddr v m)"
  unfolding iob_unibus_read_def iob_unibus_write_def Let_def
  by (intro stops stops_uch11; simp add: case_prod_beta)+

section \<open>Bus cycles\<close>

lemma stops_diag:
  "stops_in (diagnostic_interface_read uaddr pv m)" "stops_in (diagnostic_interface_write uaddr v m)"
  by (simp_all add: diagnostic_interface_read_def diagnostic_interface_write_def Let_def case_prod_beta)

lemma stops_tape:
  "stops_in (tape_controller_unibus_read uaddr pv m)" "stops_in (tape_controller_unibus_write uaddr v m)"
  by (simp_all add: tape_controller_unibus_read_def tape_controller_unibus_write_def)

lemma offset_bound:
  fixes a b c :: u32
  assumes "a \<le> b" "b \<le> a + 0x7FFF" "a \<le> a + 0x7FFF"
  shows "unat (b - a) < 32768"
proof -
  have "b - a \<le> 0x7FFF"
    using assms by (metis add_diff_cancel_left' word_le_minus_mono_left word_sub_le)
  then show ?thesis
    by (simp add: word_le_nat_alt)
qed

lemma stops_xbusio:
  assumes "sys_inv m"
  shows "stops_in (bus_adaptor_xbusio_rw w paddr pv m)"
proof -
  have tv: "unat (paddr - 0x3C0000) < 32768" if "0x3C0000 \<le> paddr \<and> paddr \<le> 0x3C7FFF"
    using that by (intro offset_bound) simp_all
  have ctv: "unat (paddr - 0x3D0000) < 32768" if "0x3D0000 \<le> paddr \<and> paddr \<le> 0x3D7FFF"
    using that by (intro offset_bound) simp_all
  show ?thesis
    unfolding bus_adaptor_xbusio_rw_def
    by (intro stops stops_tv stops_tv_control stops_colortv_control stops_disk tv ctv)
      (use sys_invD [OF assms] in simp_all)
qed

lemma stops_xbus: "sys_inv m \<Longrightarrow> stops_in (bus_adaptor_xbus_rw w paddr pv m)"
  unfolding bus_adaptor_xbus_rw_def Let_def by (intro stops stops_xbusio)

lemma stops_map: "sys_inv m \<Longrightarrow> stops_in (unibus_map_rw w uaddr pv m)"
  unfolding unibus_map_rw_def unibus_map_xbus_def Let_def
  by (intro stops stops_xbus; simp add: case_prod_beta)

lemma stops_unibus: "sys_inv m \<Longrightarrow> stops_in (bus_adaptor_unibus_rw w uaddr pv m)"
  unfolding bus_adaptor_unibus_rw_def
  by (intro stops stops_map stops_iob stops_diag stops_tape; simp add: sys_inv_def)

lemma stops_rw:
  assumes "sys_inv m" "paddr AND 0xFFC00000 = 0"
  shows "stops_in (bus_adaptor_rw w paddr pv m)"
  unfolding bus_adaptor_rw_def Let_def assms(2)
  by (intro stops stops_xbus stops_unibus assms(1); simp add: case_prod_beta)

section \<open>Memory accesses\<close>

text \<open>A physical address has 22 bits.\<close>

lemma bits_below_22: "(\<And>i. bit (w :: u32) i \<Longrightarrow> i < 22) \<Longrightarrow> w AND 0xFFC00000 = 0"
proof -
  assume w: "\<And>i. bit w i \<Longrightarrow> i < 22"
  have eq: "(0xFFC00000 :: u32) = NOT (mask 22)"
    by (simp add: mask_eq_exp_minus_1)
  show ?thesis
    unfolding eq using w by (auto intro!: bit_word_eqI simp: bit_simps)
qed

lemma bit_3FFF: "bit (0x3FFF :: u32) i \<longleftrightarrow> i < 14" "bit (0xFF :: u32) i \<longleftrightarrow> i < 8"
    "bit (0x7FFF :: u32) i \<longleftrightarrow> i < 15"
proof -
  have "(0x3FFF :: u32) = mask 14" "(0xFF :: u32) = mask 8" "(0x7FFF :: u32) = mask 15"
    by (simp_all add: mask_eq_exp_minus_1)
  then show "bit (0x3FFF :: u32) i \<longleftrightarrow> i < 14" "bit (0xFF :: u32) i \<longleftrightarrow> i < 8"
    "bit (0x7FFF :: u32) i \<longleftrightarrow> i < 15"
    by (simp_all only: bit_mask_iff) (auto simp: possible_bit_def)
qed

lemma bit_screen_base: "bit (0x3C0000 :: u32) i \<Longrightarrow> i < 22"
proof -
  have "(0x3C0000 :: u32) = 0x3C0000 AND mask 22"
    by (simp add: mask_eq_exp_minus_1)
  then show "bit (0x3C0000 :: u32) i \<Longrightarrow> i < 22"
    by (metis bit_and_iff bit_mask_iff)
qed

lemma vm_paddr_22:
  assumes "uvmem_vtop nd va u = Inr t"
  shows "vm_paddr va t AND 0xFFC00000 = 0"
proof (rule bits_below_22)
  fix i assume b: "bit (vm_paddr va t) i"
  have t: "\<exists>x y. vt_pn t = x AND 0x3FFF \<and> vt_paddr t = push_bit 8 (x AND 0x3FFF) OR (y AND 0xFF)"
    using assms unfolding uvmem_vtop_def Let_def and_then_Inr_iff sum.inject
    by (elim exE conjE, hypsubst) (unfold vtop.simps, blast)
  show "i < 22"
  proof (cases "vt_pn t = 0x3C00")
    case True
    then have "bit (0x3C0000 OR (va AND 0x7FFF)) i"
      using b by (simp add: vm_paddr_def)
    then show ?thesis
      using bit_screen_base [of i] by (auto simp: bit_or_iff bit_and_iff bit_3FFF
          simp del: bit_numeral_word_iff)
  next
    case False
    obtain x y where p: "vt_paddr t = push_bit 8 (x AND 0x3FFF) OR (y AND 0xFF)"
      using t by blast
    have "bit (push_bit 8 (x AND 0x3FFF) OR (y AND 0xFF)) i"
      using b False by (simp only: vm_paddr_def if_False p)
    then show ?thesis
      unfolding bit_or_iff bit_push_bit_iff bit_and_iff bit_3FFF by auto
  qed
qed

lemma stops_vtop: "uvmem_wf u \<Longrightarrow> stops_in (uvmem_vtop nd vaddr u)"
  using uvmem_vtop_ok [of u nd vaddr] by auto

lemma stops_vm:
  assumes "machine_wf m"
  shows "stops_in (vm w vaddr pv m)"
proof -
  have rw: "stops_in (bus_adaptor_rw b (vm_paddr (vaddr AND 0x00FFFFFF) t) pv (set_vmaok ok m))"
    if "uvmem_vtop (ndebug m) (vaddr AND 0x00FFFFFF) (vmem m) = Inr t" for b t ok
    using assms vm_paddr_22 [OF that]
    by (intro stops_rw) (simp_all add: machine_wf_def sys_inv_def set_vmaok_def)
  show ?thesis
    unfolding vm_def vm_amem_def Let_def bus_adaptor_write_def bus_adaptor_read_def
    by (intro stops stops_vtop rw; simp add: case_prod_beta machine_wfD(2) [OF assms])
qed

section \<open>The instruction cycle\<close>

lemma stops_then1:
  "stops_in r \<Longrightarrow> ok1 r \<Longrightarrow> (\<And>m. machine_wf m \<Longrightarrow> stops_in (f m)) \<Longrightarrow> stops_in (and_then r f)"
  using ok1D by (cases r) auto

lemma stops_then2:
  "stops_in r \<Longrightarrow> ok2 r \<Longrightarrow> (\<And>v m. machine_wf m \<Longrightarrow> stops_in (f v m)) \<Longrightarrow>
    stops_in (and_then r (\<lambda>(v, m). f v m))"
  by (cases r) (auto simp: ok2_def)

lemma stops_pair:
  "stops_in r \<Longrightarrow> (\<And>v m. r = Inr (v, m) \<Longrightarrow> stops_in (f v m)) \<Longrightarrow>
    stops_in (and_then r (\<lambda>(v, m). f v m))"
  by (cases r) auto

lemma machine_wf_vma_md: "machine_wf m \<Longrightarrow> machine_wf (upd_cpu (vma_reg_update (\<lambda>_. v)) m)"
  "machine_wf m \<Longrightarrow> machine_wf (upd_cpu (md_reg_update (\<lambda>_. v)) m)"
  by (rule machine_wf_upd_keep; simp)+

lemma stops_vmWrite: "machine_wf m \<Longrightarrow> stops_in (vmWrite vaddr v m)"
  unfolding vmWrite_def by (intro stops_pair stops_vm stops_Inr)

lemma stops_start_memory_read: "machine_wf m \<Longrightarrow> stops_in (start_memory_read vaddr m)"
  unfolding start_memory_read_def vmRead_def by (intro stops_pair stops_vm stops_Inr)

lemma stops_advanceLC: "machine_wf m \<Longrightarrow> stops_in (advanceLC ppc m)"
  unfolding advanceLC_def Let_def
  by (intro stops_pair stops_then stops_if stops_Inr stops_start_memory_read machine_wf_upd_keep) simp_all

lemma stops_mfread: "machine_wf m \<Longrightarrow> stops_in (mfread addr m)"
  unfolding mfread_def Let_def by (intro stops_Inr stops_if stops_Errx stops_then stops_vtop machine_wfD)

lemma stops_write_map: "machine_wf m \<Longrightarrow> stops_in (write_map m)"
  using uvmem_write_map_ok [OF machine_wfD(2), of m "ndebug m" "vma_reg (cpu m)" "md_reg (cpu m)"]
  by (auto simp: write_map_def)

lemma stops_mfwrite: "machine_wf m \<Longrightarrow> stops_in (mfwrite dest v m)"
  unfolding mfwrite_def Let_def
  by (intro stops_Inr stops_if stops_vmWrite stops_start_memory_read stops_write_map machine_wf_vma_md)

lemma stops_writeDest: "machine_wf m \<Longrightarrow> stops_in (writeDest dest m)"
  unfolding writeDest_def Let_def by (intro stops_Inr stops_if stops_then stops_mfwrite stops_bounds)

lemma stops_alu: "machine_wf m \<Longrightarrow> stops_in (alu m)" "machine_wf m \<Longrightarrow> stops_in (byt m)"
  unfolding alu_def byt_def Let_def
  by (intro stops_writeDest machine_wf_upd_keep; simp add: cpu_wf_compute)+

lemma stops_check_jcond: "stops_in (check_jcond m)"
  unfolding check_jcond_def Let_def by (intro stops)

lemma stops_return_target: "machine_wf m \<Longrightarrow> stops_in (return_target m)"
  unfolding return_target_def Let_def case_prod_beta
  by (intro stops_then stops_if stops_Inr stops_advanceLC machine_wf_popped)

lemma stops_jmp: "machine_wf m \<Longrightarrow> stops_in (jmp m)"
  unfolding jmp_def Let_def
  by (intro stops_Inr stops_if stops_then2 stops_pair stops_return_target stops_check_jcond ok_check_jcond
      machine_wf_if machine_wf_upd_keep cpu_wf_push_return) (simp_all add: machine_wf_ms)

lemma stops_dsp_transfer: "machine_wf m \<Longrightarrow> stops_in (dsp_transfer entry m)"
  unfolding dsp_transfer_def Let_def
  by (intro stops_Inr stops_if stops_pair stops_return_target machine_wf_if machine_wf_upd_keep
      cpu_wf_push_return) simp_all

lemma stops_dsp_address: "machine_wf m \<Longrightarrow> stops_in (dsp_address m)"
  unfolding dsp_address_def Let_def by (intro stops_Inr stops_if stops_then stops_vtop machine_wfD)

lemma stops_incNPC: "stops_in (incNPC m)"
  unfolding incNPC_def Let_def by (intro stops_then stops_if stops_Inr stops_bounds)

lemma stops_decode:
  assumes m: "machine_wf m" and n: "npc14 m"
  shows "stops_in (decode m)"
proof -
  have "machine_wf (upd_cpu (\<lambda>c. c\<lparr>op_r := x c, popj := y c, aaddr := z c, maddr := w c\<rparr>) m)"
    for x y z w
    using m n by (intro machine_wf_upd) (auto simp: cpu_wf_def npc14_def npc_ok_def)
  then show ?thesis
    unfolding decode_def Let_def by (intro stops_pair stops_if stops_Inr stops_mfread)
qed

lemma machine_wf_dispatch:
  assumes "machine_wf m"
  shows "machine_wf (upd_cpu (dispatch_constant_update (\<lambda>_. ir32 32 10 c)) m)"
    and "npc14 m \<Longrightarrow> machine_wf (upd_cpu (\<lambda>c. c\<lparr>npc := npc c - 1\<rparr>)
      (upd_cpu (dispatch_constant_update (\<lambda>_. ir32 32 10 c)) m))"
  using assms npc_ok_pred
  by (auto simp: npc14_def upd_cpu_def machine_wf_def sys_inv_def cpu_wf_def)

lemma stops_dsp:
  assumes m: "machine_wf m" and n: "npc14 m"
  shows "stops_in (dsp m)"
proof -
  have keep: "machine_wf m1 \<and> npc14 m1" if "dsp_address m = Inr (a, m1)" for a m1
    using dsp_address_keeps(2,3) [OF that] m n by simp
  have rest: "stops_in (and_then (if e then and_then (advanceLC 0 m3) (\<lambda>(_, m4). Inr m4) else Inr m3)
      (dsp_transfer entry))" if "machine_wf m3" for m3 :: "'a cadr_sys_scheme" and e entry
    using that
    by (intro stops_then1 stops_if stops_pair stops_Inr stops_advanceLC stops_dsp_transfer ok_if ok_Inr
        ok2_then ok_advanceLC)
  show ?thesis
    unfolding dsp_def Let_def
    by (intro stops_if stops_pair stops_Inr rest machine_wf_if machine_wf_dispatch stops_dsp_address m)
      (simp_all add: keep)
qed

lemma stops_execute: "machine_wf m \<Longrightarrow> npc14 m \<Longrightarrow> stops_in (execute m)"
  unfolding execute_def Let_def by (intro stops_if stops_Inr stops_alu stops_jmp stops_dsp)

lemma stops_do_popj:
  assumes "machine_wf m"
  shows "stops_in (do_popj m)"
proof (cases "popj (cpu m)")
  case True
  have "machine_wf (upd_cpu (\<lambda>_. (snd (popSPC (cpu m)))\<lparr>npc := t\<rparr>) m)" for t
    using assms cpu_wf_popSPC [of "cpu m"] True
    by (intro machine_wf_upd) (auto simp: cpu_wf_def popSPC_def)
  then show ?thesis
    unfolding do_popj_def Let_def case_prod_beta
    by (intro stops_if stops_then stops_Inr stops_advanceLC)
qed (simp add: do_popj_def)

lemma uexec_step_stops:
  assumes m: "machine_wf m"
  shows "stops_in (uexec_step m)"
proof -
  let ?m0 = "upd_cpu (uexec_has_run_once_update (\<lambda>_. True)) m"
  have cycle: "stops_in (and_then (decode (upd_cpu merge_oa (upd_cpu arrive_md m1))) (\<lambda>m3.
      and_then (execute m3) do_popj))" if "incNPC ?m0 = Inr m1" for m1
  proof -
    let ?m3 = "upd_cpu merge_oa (upd_cpu arrive_md m1)"
    have wf: "machine_wf ?m3" and n: "npc14 ?m3"
      using ok_incNPC [OF machine_wf_upd_keep [OF m] that]
      by (simp_all add: machine_wf_upd_keep arrive_md_wf merge_oa_wf npc14_def upd_cpu_def)
        (simp_all add: machine_wf_def sys_inv_def arrive_md_wf merge_oa_wf)
    have exec: "stops_in (and_then (execute m4) do_popj)" if "decode ?m3 = Inr m4" for m4
      using ok1D [OF ok_decode [OF wf n] that] decode_keeps [OF that] n
      by (intro stops_then1 stops_execute ok_execute stops_do_popj) simp_all
    show ?thesis
      by (rule stops_then [OF stops_decode [OF wf n] exec])
  qed
  show ?thesis
    unfolding uexec_step_def Let_def
    by (intro stops_then [OF stops_incNPC] stops_if stops_Inr cycle)
qed

end
