(* ===== verification/Machine_Properties.thy ===== *)
theory Machine_Properties
  imports Machine Instruction_Faults
begin

text \<open>
  The properties of the machine as a whole: its invariant in every reachable state, how an instruction
  can end, and what a run of the microcode returns.
\<close>

unbundle bit_operations_syntax

section \<open>Runs\<close>

lemma ucode_cycle_stops:
  assumes "machine_wf m"
  shows "stops_in (ucode_cycle m)"
proof -
  have idle: "stops_in (idle_check n m1)" for n and m1 :: "'a cadr_sys_scheme"
    by (simp add: idle_check_def Let_def)
  show ?thesis
    unfolding ucode_cycle_def Let_def
    by (intro stops_then [OF uexec_step_stops [OF assms]] stops_then stops_if idle stops_Inr)
qed

lemma ucode_loop_wf: "machine_wf m \<Longrightarrow> ucode_loop n m = Inr m' \<Longrightarrow> machine_wf m'"
  by (auto simp: ucode_loop_iff first_halt_def intro: clock.steps_inv)

lemma ucode_loop_stops:
  "machine_wf m \<Longrightarrow> ucode_loop n m = Inl e \<Longrightarrow> instruction_fault e \<or> e = No_return ''ucode_run''"
proof (induction n arbitrary: m)
  case (Suc n)
  then show ?case
    using ucode_cycle_stops [OF Suc.prems(1)]
    by (auto simp: and_then_Inl_iff stops_in_def intro: ucode_cycle_wf split: if_splits)
qed (auto split: if_splits)

lemma machine_wf_start: "machine_wf m \<Longrightarrow> machine_wf (ucode_start m)"
  by (simp add: ucode_start_def machine_wf_boot)

text \<open>A machine whose PROM holds a jump instruction with the halt bit.\<close>

definition halting_machine :: machine where
  "halting_machine = zero_machine\<lparr>cpu := zero_cpu\<lparr>prom := \<lambda>_. 0x80000000400\<rparr>\<rparr>"

lemma halting_machine_halts:
  "case ucode_run 4 halting_machine of Inl e \<Rightarrow> False | Inr m \<Rightarrow> npc (cpu m) = 2 \<and> halted (ms m)"
  by code_simp

section \<open>Properties\<close>

text \<open>
  C1: in every state that the machine can reach after power-on and boot, by any interleaving of processor
  cycles, key and mouse events, timers, the keyboard and the tape thread, the invariant of every
  component holds.
\<close>

theorem reachable_states_wf:
  assumes "machine_reachable m0 m" and "machine_wf (machine_control_power_on m0)"
  shows "machine_wf m"
  by (rule machine_reachable_wf [OF assms])

theorem reachable_states_wf_witness:
  "machine_wf (run_at_60hz (key_down_event 4 (\<lambda>_. False) 0
     (ucode_start (machine_control_power_on zero_machine))))"
  by (rule reachable_states_wf [OF machine_reachable.step [OF machine_reachable.step
        [OF machine_reachable.power_on machine_step.key_down] machine_step.sixty_hz] zero_powered_on])

text \<open>
  C2: an instruction that starts in a state with the invariant ends in such a state with a program
  counter of 14 bits (or one below zero), or stops the process in one of the listed ways: an
  explicit error exit, the unreachable assertion, or one of four array accesses out of bounds.
\<close>

theorem instruction_outcome:
  assumes "machine_wf m"
  shows "case uexec_step m of
    Inl e \<Rightarrow> (\<exists>s. e = Errx s) \<or> e \<in> {Out_of_bounds ''amem'', Out_of_bounds ''imem'', Out_of_bounds ''prom'',
        Out_of_bounds ''uch11_xmit_buffer'', Assertion ''false''}
  | Inr m' \<Rightarrow> machine_wf m' \<and> (unat (npc (cpu m')) < 16384 \<or> npc (cpu m') = - 1)"
  using uexec_step_stops [OF assms] uexec_step_wf [OF assms]
  by (auto simp: stops_in_def instruction_fault_def npc_ok_def split: sum.split)

theorem instruction_outcome_witness:
  "case uexec_step (machine_control_power_on zero_machine) of
    Inl e \<Rightarrow> (\<exists>s. e = Errx s) \<or> e \<in> {Out_of_bounds ''amem'', Out_of_bounds ''imem'', Out_of_bounds ''prom'',
        Out_of_bounds ''uch11_xmit_buffer'', Assertion ''false''}
  | Inr m' \<Rightarrow> machine_wf m' \<and> (unat (npc (cpu m')) < 16384 \<or> npc (cpu m') = - 1)"
  by (rule instruction_outcome [OF zero_powered_on])

text \<open>
  a run of the microcode returns exactly when one of the first \<open>n\<close> turns of the clock reaches a halted
  state without a fault before, and then returns the first halted state.
\<close>

lemma ucode_run_first_halt:
  "ucode_run n m = Inr m' \<longleftrightarrow>
     (\<exists>k\<le>n. run_steps ucode_cycle k (ucode_start m) = Inr m' \<and> halted (ms m') \<and>
        (\<forall>j<k. \<exists>mj. run_steps ucode_cycle j (ucode_start m) = Inr mj \<and> \<not> halted (ms mj)))"
  by (simp add: ucode_run_def ucode_loop_iff first_halt_def)

text \<open>
  C4: a run from a state with the invariant ends halted with the invariant, or stops with a fault of an
  instruction, or is still running after \<open>n\<close> turns; there is no other outcome.
\<close>

theorem ucode_run_outcome:
  assumes "machine_wf m"
  shows "case ucode_run n m of
    Inl e \<Rightarrow> instruction_fault e \<or> e = No_return ''ucode_run''
  | Inr m' \<Rightarrow> machine_wf m' \<and> halted (ms m')"
  using machine_wf_start [OF assms] ucode_loop_wf [of "ucode_start m" n] ucode_loop_stops [of "ucode_start m" n]
  by (auto simp: ucode_run_def first_halt_def ucode_loop_iff split: sum.split)

theorem ucode_run_outcome_witness:
  "case ucode_run 1000000 (machine_control_power_on zero_machine) of
    Inl e \<Rightarrow> instruction_fault e \<or> e = No_return ''ucode_run''
  | Inr m' \<Rightarrow> machine_wf m' \<and> halted (ms m')"
  by (rule ucode_run_outcome [OF zero_powered_on])

end
