(* ===== verification/Alu_Theory.thy ===== *)
theory Alu_Theory
  imports Uexec
begin

text \<open>
  What the processor's data paths compute: the arithmetic operations against the function table of the
  74181 chip the hardware is built from, the logic operations against their truth tables, the shifted
  sum, the multiply step, and the byte operations bit by bit.
\<close>

unbundle bit_operations_syntax

section \<open>Arithmetic\<close>

text \<open>
  The 74181 adds two inputs derived from the operands: bits 3-2 of the operation select the first, bits
  1-0 the second.
\<close>

definition alu181_first :: "u32 \<Rightarrow> u32 \<Rightarrow> u32 \<Rightarrow> u32" where
  "alu181_first op m a =
     (case (bit op 3, bit op 2) of
        (False, False) \<Rightarrow> - 1 | (False, True) \<Rightarrow> m OR NOT a
      | (True, False) \<Rightarrow> m OR a | (True, True) \<Rightarrow> m)"

definition alu181_second :: "u32 \<Rightarrow> u32 \<Rightarrow> u32 \<Rightarrow> u32" where
  "alu181_second op m a =
     (case (bit op 1, bit op 0) of
        (False, False) \<Rightarrow> 0 | (False, True) \<Rightarrow> m AND a
      | (True, False) \<Rightarrow> m AND NOT a | (True, True) \<Rightarrow> m)"

definition alu181 :: "u32 \<Rightarrow> u32 \<Rightarrow> u32 \<Rightarrow> bool \<Rightarrow> u32" where
  "alu181 op m a ci = alu181_first op m a + alu181_second op m a + (if ci then 1 else 0)"

lemma or_plus_and: "((x :: 'a::len word) OR y) + (x AND y) = x + y"
  by (metis add.commute word_plus_and_or)

lemma minus_as_not: "x - y = x + NOT y + (1 :: 'a::len word)"
  by (simp add: not_eq_complement)

lemma set_lv_out [simp]: "alu_out (set_lv lv c) = word_of_int lv"
  by (simp add: set_lv_def)

lemma set_add_out [simp]: "alu_out (set_add a b ci c) = a + b + (if ci then 1 else 0)"
  by (simp add: set_add_def add32_out_def)

lemma set_sub_out [simp]: "alu_out (set_sub a b ci c) = a - b - (if ci then 0 else 1)"
  by (simp add: set_sub_def sub32_out_def)

lemma arith_op_cases:
  fixes op :: u32
  assumes "0x10 \<le> op" "op \<le> 0x1F"
  obtains "op = 0x10" | "op = 0x11" | "op = 0x12" | "op = 0x13" | "op = 0x14" | "op = 0x15"
    | "op = 0x16" | "op = 0x17" | "op = 0x18" | "op = 0x19" | "op = 0x1A" | "op = 0x1B"
    | "op = 0x1C" | "op = 0x1D" | "op = 0x1E" | "op = 0x1F"
proof -
  have "16 \<le> unat op \<and> unat op < 32"
    using assms by (simp add: word_le_nat_alt)
  then have "unat op \<in> set [16..<32]"
    unfolding set_upt by simp
  then have "op \<in> set (map of_nat [16..<32])"
    by (metis image_eqI list.set_map of_nat_unat ucast_id)
  then show thesis
    by (simp add: upt_rec) (use that in blast)
qed

lemma arith_181:
  assumes "0x10 \<le> op" "op \<le> 0x1F" "op \<noteq> 0x1E"
  shows "alu_out (arithOps op c) = alu181 op (mdata c) (adata c) (cin c)"
proof -
  have sub: "alu_out (arithOps 0x16 c) = alu181 0x16 (mdata c) (adata c) (cin c)"
    by (simp add: arithOps_def Let_def alu181_def alu181_first_def alu181_second_def or_plus_and
        minus_as_not [of "mdata c"])
  show ?thesis
    using assms(1,2)
    by (cases rule: arith_op_cases)
      (use assms(3) sub in \<open>simp_all add: arithOps_def Let_def alu181_def alu181_first_def
        alu181_second_def or_plus_and\<close>)
qed

section \<open>Logic\<close>

text \<open>
  A logic operation applies one of the 16 boolean functions of two bits to every bit; the operation's own
  bits are its truth table, for (1,1), (1,0), (0,1) and (0,0) from bit 0 up.
\<close>

definition truth_row :: "bool \<Rightarrow> bool \<Rightarrow> nat" where
  "truth_row x y = (if x then if y then 0 else 1 else if y then 2 else 3)"

lemma logic_op_cases:
  fixes op :: u32
  assumes "op \<le> 0xF"
  obtains "op = 0" | "op = 1" | "op = 2" | "op = 3" | "op = 4" | "op = 5" | "op = 6" | "op = 7"
    | "op = 8" | "op = 9" | "op = 10" | "op = 11" | "op = 12" | "op = 13" | "op = 14" | "op = 15"
proof -
  have "unat op < 16"
    using assms by (simp add: word_le_nat_alt)
  then have "unat op \<in> set [0..<16]"
    unfolding set_upt by simp
  then have "op \<in> set (map of_nat [0..<16])"
    by (metis image_eqI list.set_map of_nat_unat ucast_id)
  then show thesis
    by (simp add: upt_rec) (use that in blast)
qed

lemma logic_truth_table:
  assumes "op \<le> 0xF" "op \<noteq> 9" "n < 32"
  shows "bit (alu_out (logiOps op c)) n = bit op (truth_row (bit (mdata c) n) (bit (adata c) n))"
  using assms(1)
  by (cases rule: logic_op_cases)
    (use assms(2,3) in \<open>simp_all add: logiOps_def logi_out_def truth_row_def bit_simps\<close>)

text \<open>
  Two operations do something else: 011 compares the operands instead of complementing their
  exclusive or, and 036 repeats 027.
\<close>

lemma logic_eqv: "alu_out (logiOps 9 c) = (if adata c = mdata c then 1 else 0)"
  by (simp add: logiOps_def logi_out_def)

lemma arith_036: "arithOps 0x1E c = arithOps 0x17 c"
  by (simp add: arithOps_def Let_def add.commute [of "sint (mdata c)"])

section \<open>The shifted result\<close>

lemma bit_33rd:
  assumes "- (2 ^ 32) \<le> s" "s < 2 ^ 32"
  shows "bit (s :: int) 32 \<longleftrightarrow> s < 0"
proof -
  have "s div 4294967296 = (if s < 0 then - 1 else 0)"
    using assms by (auto intro: int_div_pos_eq [where r = s] int_div_pos_eq [where r = "s + 2 ^ 32"])
  then show ?thesis
    by (auto simp: bit_iff_odd)
qed

text \<open>A 33-bit sum, halved: 32 bits of the sum shifted right with its sign shifted in.\<close>

definition shifted :: "int \<Rightarrow> u32" where
  "shifted s = drop_bit 1 (word_of_int s) OR (if s < 0 then 0x80000000 else 0)"

lemma shifted_half:
  assumes "- (2 ^ 32) \<le> s" "s < 2 ^ 32"
  shows "sint (shifted s) = s div 2"
proof -
  have "shifted s = word_of_int (s div 2)"
  proof (rule bit_word_eqI)
    fix i assume "i < LENGTH(32)"
    then show "bit (shifted s) i = bit (word_of_int (s div 2) :: u32) i"
      using bit_33rd [OF assms] bit_sign_bit
      by (cases "i = 31") (auto simp: shifted_def bit_simps simp flip: bit_Suc simp del: bit_numeral_word_iff)
  qed
  moreover have "signed_take_bit 31 (s div 2) = s div 2"
    using assms by (intro signed_take_bit_int_eq_self) auto
  ultimately show ?thesis
    by (simp add: sint_sbintrunc')
qed

lemma alu_compute_arith:
  assumes "ir32 3 6 c = op" "0x10 \<le> op" "op \<le> 0x1F"
  shows "alu_compute c = outControl (qControl (arithOps op (c\<lparr>alu_carry := 0\<rparr>)))"
proof -
  have "\<not> op \<le> 0xF"
    using assms(2) by (simp add: word_le_nat_alt)
  then show ?thesis
    using assms by (simp add: alu_compute_def Let_def)
qed

lemma qControl_keeps [simp]:
  "alu_out (qControl c) = alu_out c" "alu_carry (qControl c) = alu_carry c"
  "mdata (qControl c) = mdata c" "p0 (qControl c) = p0 c" "adata (qControl c) = adata c"
  by (simp_all add: qControl_def Let_def)

lemma add_shifted:
  assumes "ir32 3 6 c = 0x19" "drop_bit 12 (p0 c) AND 3 = 2"
  shows "sint (out_r (alu_compute c)) = (sint (mdata c) + sint (adata c) + (if cin c then 1 else 0)) div 2"
proof -
  let ?s = "sint (mdata c) + sint (adata c) + (if cin c then 1 else 0)"
  have "cin (c\<lparr>alu_carry := 0\<rparr>) = cin c"
    by (simp add: cin_def ir_def)
  then have "out_r (alu_compute c) = shifted ?s"
    using assms
    by (simp add: alu_compute_arith [OF assms(1)] arithOps_def Let_def outControl_def set_add_def
        shifted_def add32_out_int add32_co_sign)
  then show ?thesis
    using sint_range32 [of "mdata c"] sint_range32 [of "adata c"] by (subst shifted_half [symmetric]) simp_all
qed

section \<open>Multiplication\<close>

text \<open>
  A multiply instruction (operation 040, shifting the output and Q right) whose output is its own next M
  operand, as in a loop of the microcode.
\<close>

definition multiply_instruction :: "cpu \<Rightarrow> bool" where
  "multiply_instruction c \<longleftrightarrow>
     ir32 3 6 c = 0x20 \<and> drop_bit 12 (p0 c) AND 3 = 2 \<and> ir 0 2 c = 2 \<and> \<not> cin c"

definition multiply_step :: "cpu \<Rightarrow> cpu" where
  "multiply_step c = (let c' = alu_compute c in c'\<lparr>mdata := out_r c'\<rparr>)"

text \<open>M and Q together hold the partial product.\<close>

definition product :: "cpu \<Rightarrow> int" where
  "product c = sint (mdata c) * 2 ^ 32 + uint (q_r c)"

lemma alu_compute_div:
  assumes "ir32 3 6 c = 0x20"
  shows "alu_compute c = outControl (qControl (divOps 0x20 (c\<lparr>alu_carry := 0\<rparr>)))"
  using assms by (simp add: alu_compute_def Let_def)

lemma outControl_keeps [simp]:
  "q_r (outControl c) = q_r c" "p0 (outControl c) = p0 c" "adata (outControl c) = adata c"
  by (simp_all add: outControl_def Let_def)

lemma odd_word_and_1: "(w :: u32) AND 1 \<noteq> 0 \<longleftrightarrow> odd (uint w)"
  by (simp add: and_one_eq mod_2_eq_odd) (transfer, simp add: even_take_bit_eq)

lemma multiply_step_sum:
  assumes "multiply_instruction c"
  defines "s \<equiv> sint (mdata c) + (if odd (uint (q_r c)) then sint (adata c) else 0)"
  shows "mdata (multiply_step c) = shifted s"
    and "q_r (multiply_step c) = drop_bit 1 (q_r c) OR (if odd s then 0x80000000 else 0)"
    and "adata (multiply_step c) = adata c" "p0 (multiply_step c) = p0 c"
proof -
  let ?d = "divOps 0x20 (c\<lparr>alu_carry := 0\<rparr>)"
  have cin: "cin (c\<lparr>alu_carry := 0\<rparr>) = cin c"
    by (simp add: cin_def ir_def)
  have sign: "(x AND 0x80000000 \<noteq> 0) = (sint x < 0)" for x :: u32
    using and_push_bit_1_iff [of 31 x] bit_last_iff [of x] by simp
  have d: "alu_out ?d = word_of_int s" "alu_carry ?d = (if s < 0 then 1 else 0)"
    "mdata ?d = mdata c" "adata ?d = adata c" "p0 ?d = p0 c" "q_r ?d = q_r c"
    using assms(1)
    by (simp_all add: divOps_def Let_def cin multiply_instruction_def odd_word_and_1 set_add_def
        add32_out_int add32_co_sign s_def sign add.commute)
  have ir: "ir 0 2 (?d\<lparr>old_q := x\<rparr>) = 2" for x
    using assms(1) by (simp add: ir_def d multiply_instruction_def)
  have "word_of_int s AND (1 :: u32) \<noteq> 0 \<longleftrightarrow> odd s"
    unfolding odd_word_and_1 by (simp add: uint_word_of_int dvd_mod_iff)
  then show "mdata (multiply_step c) = shifted s"
    "q_r (multiply_step c) = drop_bit 1 (q_r c) OR (if odd s then 0x80000000 else 0)"
    "adata (multiply_step c) = adata c" "p0 (multiply_step c) = p0 c"
    using assms(1) ir
    by (simp_all add: multiply_step_def Let_def multiply_instruction_def alu_compute_div
        outControl_def shifted_def d qControl_def)
qed

lemma uint_drop_1_or_top:
  fixes q :: u32
  shows "uint (drop_bit 1 q OR (if b then 0x80000000 else 0)) = uint q div 2 + (if b then 2 ^ 31 else 0)"
proof -
  have dis: "drop_bit 1 q AND 0x80000000 = 0"
    by (rule bit_word_eqI)
      (auto simp: bit_and_iff bit_drop_bit_eq bit_sign_bit simp del: bit_numeral_word_iff
        dest: bit_imp_le_length)
  have u: "uint (drop_bit 1 q) = uint q div 2"
    by (simp add: uint_div_distrib drop_bit_eq_div)
  have lt: "uint q div 2 < 2 ^ 31"
    using uint_lt2p [of q] by simp
  show ?thesis
  proof (cases b)
    case True
    have "drop_bit 1 q OR 0x80000000 = drop_bit 1 q + 0x80000000"
      using dis by (metis add_0 word_plus_and_or)
    moreover have "uint (drop_bit 1 q + 0x80000000) = uint q div 2 + 2 ^ 31"
      using lt u by (subst uint_plus_if') simp
    ultimately show ?thesis
      using True by simp
  qed (use u in simp)
qed

lemma multiply_step_product:
  assumes "multiply_instruction c"
  shows "2 * product (multiply_step c) =
      product c + (uint (q_r c) mod 2) * (sint (adata c) * 2 ^ 32 - 1)"
    and "uint (q_r (multiply_step c)) mod 2 ^ 31 = uint (q_r c) div 2"
proof -
  let ?s = "sint (mdata c) + (if odd (uint (q_r c)) then sint (adata c) else 0)"
  have s: "- (2 ^ 32) \<le> ?s" "?s < 2 ^ 32"
    using sint_range32 [of "mdata c"] sint_range32 [of "adata c"] by auto
  note step = multiply_step_sum [OF assms]
  have q: "uint (q_r (multiply_step c)) = uint (q_r c) div 2 + (if odd ?s then 2 ^ 31 else 0)"
    unfolding step(2) by (rule uint_drop_1_or_top)
  have m: "sint (mdata (multiply_step c)) = ?s div 2"
    unfolding step(1) by (rule shifted_half [OF s])
  have lt: "uint (q_r c) div 2 < 2 ^ 31"
    using uint_lt2p [of "q_r c"] by simp
  then show "uint (q_r (multiply_step c)) mod 2 ^ 31 = uint (q_r c) div 2"
    using q by simp
  show "2 * product (multiply_step c) =
      product c + (uint (q_r c) mod 2) * (sint (adata c) * 2 ^ 32 - 1)"
    unfolding product_def m q
    by (auto simp: algebra_simps elim!: oddE evenE)
qed

lemma mod_pow:
  "k \<le> n \<Longrightarrow> (x :: int) mod 2 ^ n mod 2 ^ k = x mod 2 ^ k"
  "(x :: int) mod 2 ^ Suc k div 2 = x div 2 mod 2 ^ k"
  "(x :: int) mod 2 ^ Suc k = x mod 2 ^ k + 2 ^ k * (x div 2 ^ k mod 2)"
proof -
  show "k \<le> n \<Longrightarrow> x mod 2 ^ n mod 2 ^ k = x mod 2 ^ k"
    by (metis min.absorb1 take_bit_eq_mod take_bit_take_bit)
  show "x mod 2 ^ Suc k div 2 = x div 2 mod 2 ^ k"
    by (simp add: take_bit_Suc del: power_Suc flip: take_bit_eq_mod)
  show "x mod 2 ^ Suc k = x mod 2 ^ k + 2 ^ k * (x div 2 ^ k mod 2)"
    using zmod_zmult2_eq [of 2 x "2 ^ k"] by (simp add: mult.commute)
qed

lemma multiply_step_instruction:
  "multiply_instruction c \<Longrightarrow> multiply_instruction (multiply_step c)"
  using multiply_step_sum(4) [of c] by (simp add: multiply_instruction_def ir32_def ir_def cin_def)

text \<open>
  After \<open>n\<close> steps the low \<open>n\<close> bits of Q have been used up; after 32 the product of the signed A operand
  and the unsigned Q, plus the initial M, is in M and Q.
\<close>

lemma multiply_steps:
  assumes "multiply_instruction c" "n \<le> 32"
  defines "c' \<equiv> (multiply_step ^^ n) c"
  shows "2 ^ n * product c' = product c + (uint (q_r c) mod 2 ^ n) * (sint (adata c) * 2 ^ 32 - 1)"
    and "uint (q_r c') mod 2 ^ (32 - n) = uint (q_r c) div 2 ^ n"
    and "multiply_instruction c'" and "adata c' = adata c"
proof -
  let ?a = "sint (adata c) * 2 ^ 32 - 1"
  have "2 ^ n * product c' = product c + (uint (q_r c) mod 2 ^ n) * ?a \<and>
      uint (q_r c') mod 2 ^ (32 - n) = uint (q_r c) div 2 ^ n \<and>
      multiply_instruction c' \<and> adata c' = adata c"
    unfolding c'_def using assms(2)
  proof (induction n)
    case 0
    have "uint (q_r c) mod 2 ^ 32 = uint (q_r c)"
      using uint_lt2p [of "q_r c"] by simp
    with assms(1) show ?case by simp
  next
    case (Suc n)
    let ?c = "(multiply_step ^^ n) c"
    let ?Q = "uint (q_r c)"
    have IH: "2 ^ n * product ?c = product c + (?Q mod 2 ^ n) * ?a"
      "uint (q_r ?c) mod 2 ^ (32 - n) = ?Q div 2 ^ n" "multiply_instruction ?c" "adata ?c = adata c"
      using Suc by simp_all
    have low: "uint (q_r ?c) mod 2 = (?Q div 2 ^ n) mod 2"
    proof -
      have "uint (q_r ?c) mod 2 = uint (q_r ?c) mod 2 ^ (32 - n) mod 2"
        using mod_pow(1) [of 1 "32 - n" "uint (q_r ?c)"] Suc.prems by simp
      then show ?thesis by (simp only: IH(2))
    qed
    have "2 ^ Suc n * product (multiply_step ?c) = 2 ^ n * (2 * product (multiply_step ?c))"
      by simp
    also have "\<dots> = 2 ^ n * product ?c + 2 ^ n * ((?Q div 2 ^ n) mod 2) * ?a"
      unfolding multiply_step_product(1) [OF IH(3)] IH(4) low by (simp add: algebra_simps)
    also have "\<dots> = product c + (?Q mod 2 ^ n + 2 ^ n * ((?Q div 2 ^ n) mod 2)) * ?a"
      unfolding IH(1) by (simp add: algebra_simps)
    also have "?Q mod 2 ^ n + 2 ^ n * ((?Q div 2 ^ n) mod 2) = ?Q mod 2 ^ Suc n"
      by (rule mod_pow(3) [symmetric])
    finally have 1: "2 ^ Suc n * product (multiply_step ?c) = product c + ?Q mod 2 ^ Suc n * ?a" .
    have "uint (q_r (multiply_step ?c)) mod 2 ^ (32 - Suc n) =
        uint (q_r (multiply_step ?c)) mod 2 ^ 31 mod 2 ^ (32 - Suc n)"
      using Suc.prems by (intro mod_pow(1) [symmetric]) simp
    also have "\<dots> = (uint (q_r ?c) div 2) mod 2 ^ (32 - Suc n)"
      unfolding multiply_step_product(2) [OF IH(3)] ..
    also have "\<dots> = (uint (q_r ?c) mod 2 ^ (32 - n)) div 2"
    proof -
      have e: "(32 - n) = Suc (32 - Suc n)" using Suc.prems by simp
      show ?thesis
        unfolding e by (rule mod_pow(2) [symmetric])
    qed
    also have "\<dots> = ?Q div 2 ^ Suc n"
      using zdiv_zmult2_eq [of 2 ?Q "2 ^ n"] unfolding IH(2) by (simp add: mult.commute)
    finally have 2: "uint (q_r (multiply_step ?c)) mod 2 ^ (32 - Suc n) = ?Q div 2 ^ Suc n" .
    show ?case
      using 1 2 multiply_step_instruction [OF IH(3)] multiply_step_sum(3) [OF IH(3)] IH(4) by simp
  qed
  then show "2 ^ n * product c' = product c + (uint (q_r c) mod 2 ^ n) * ?a"
    "uint (q_r c') mod 2 ^ (32 - n) = uint (q_r c) div 2 ^ n"
    "multiply_instruction c'" "adata c' = adata c"
    by blast+
qed

lemma multiply_32:
  assumes "multiply_instruction c"
  shows "product ((multiply_step ^^ 32) c) = sint (adata c) * uint (q_r c) + sint (mdata c)"
proof -
  have q: "uint (q_r c) mod 2 ^ 32 = uint (q_r c)"
    using uint_lt2p [of "q_r c"] by simp
  have "2 ^ 32 * product ((multiply_step ^^ 32) c) =
      2 ^ 32 * (sint (adata c) * uint (q_r c) + sint (mdata c))"
    unfolding multiply_steps(1) [OF assms le_refl] q by (simp add: product_def algebra_simps)
  then show ?thesis by simp
qed

section \<open>Byte operations\<close>

lemma bit_msk:
  assumes "pos < 32"
  shows "bit (msk pos c) i \<longleftrightarrow> pos \<le> i \<and> i \<le> (pos + unat (ir 5 5 c)) mod 32"
  using assms mod_less_divisor [of 32 "pos + unat (ir 5 5 c)"]
  by (auto simp: msk_def Let_def bit_simps simp del: mod_less_divisor)

text \<open>
  The kind, the width less one and the position of a byte instruction: the position is immediate, or comes
  from the location counter in the mode of byte accesses.
\<close>

definition byte_position :: "cpu \<Rightarrow> nat" where
  "byte_position c = (if ir 10 2 c = 3 then unat (lcbytemode c) else unat (ir 0 5 c))"

definition byte_instruction :: "u64 \<Rightarrow> nat \<Rightarrow> nat \<Rightarrow> cpu \<Rightarrow> bool" where
  "byte_instruction kind pos w c \<longleftrightarrow> ir 12 2 c = kind \<and> byte_position c = pos \<and> unat (ir 5 5 c) = w"

lemma ir_5_less [simp]: "unat (ir k 5 c) < 32"
  using ir32_bound [of 5 k c]
  by (simp add: ir_mask mask_eq_exp_minus_1) (rule unat_and_mask_less, simp)

lemma bit_word_bit [simp]: "bit (word_bit w n) i \<longleftrightarrow> i = 0 \<and> bit w n"
  by (auto simp: word_bit_def bit_1_iff)

lemma lcbytemode_less: "unat (lcbytemode c) < 32"
proof -
  have m: "(7 :: u64) = mask 3" "(0xF :: u64) = mask 4"
    by (simp_all add: mask_eq_exp_minus_1)
  have "\<not> bit (lcbytemode c) i" if "5 \<le> i" for i
    using that by (auto simp: lcbytemode_def Let_def m bit_simps)
  then have "take_bit 5 (lcbytemode c) = lcbytemode c"
    by (intro bit_word_eqI) (metis bit_take_bit_iff not_le)
  then have "take_bit 5 (unat (lcbytemode c)) = unat (lcbytemode c)"
    by (simp flip: unsigned_take_bit_eq)
  then show ?thesis
    using take_bit_nat_less_exp [of 5 "unat (lcbytemode c)"] by simp
qed

lemma byte_position_less [simp]: "byte_position c < 32"
  by (simp add: byte_position_def lcbytemode_less)

lemma byte_instruction_less:
  assumes "byte_instruction kind pos w c"
  shows "pos < 32" "w < 32"
  using assms by (auto simp: byte_instruction_def)

text \<open>The mask of a field that begins at the position; it is empty when the field runs over the top of the word.\<close>

lemma bit_field_msk:
  assumes "byte_instruction kind pos w c"
  shows "bit (msk pos c) i \<longleftrightarrow> pos \<le> i \<and> i \<le> pos + w \<and> pos + w < 32"
proof -
  have "(pos + w) mod 32 = (if pos + w < 32 then pos + w else pos + w - 32)"
    using byte_instruction_less [OF assms] by (simp add: mod_if)
  moreover have "bit (msk pos c) i \<longleftrightarrow> pos \<le> i \<and> i \<le> (pos + w) mod 32"
    using assms byte_instruction_less(1) [OF assms] by (simp add: bit_msk byte_instruction_def)
  ultimately show ?thesis
    using byte_instruction_less [OF assms] by (cases "pos + w < 32") (simp_all, linarith)
qed

lemma byte_kind:
  assumes "byte_instruction kind pos w c"
  shows "kind = 0 \<or> kind = 1 \<or> kind = 2 \<or> kind = 3"
proof -
  have "kind = p0_field AND mask 2" if "p0_field = drop_bit 12 (p0 c)" for p0_field
    using assms that by (simp add: byte_instruction_def ir_mask)
  then have "kind < 4"
    using and_mask_less' [of 2 "drop_bit 12 (p0 c)"] by simp
  then have "unat kind < 4"
    by (simp add: word_less_nat_alt)
  then have "unat kind = 0 \<or> unat kind = 1 \<or> unat kind = 2 \<or> unat kind = 3"
    by auto
  then show ?thesis
    by (simp add: word_unat_eq_iff)
qed

lemma byt_clear:
  assumes "byte_instruction 0 pos w c"
  shows "out_r (byt_compute c) = 0"
  using assms by (simp add: byte_instruction_def byt_compute_def Let_def)

lemma byt_ldb:
  assumes "byte_instruction 1 pos w c" "i < 32"
  shows "bit (out_r (byt_compute c)) i =
    (if i \<le> w then bit (mdata c) (if pos \<le> i then i - pos else i + 32 - pos) else bit (adata c) i)"
  using assms byte_instruction_less [OF assms(1)]
  by (simp add: byte_instruction_def byte_position_def [symmetric] byt_compute_def Let_def bit_or_iff bit_and_iff bit_not_iff
      bit_msk bit_rol32)

lemma byt_deposit:
  assumes "byte_instruction 3 pos w c" "i < 32"
  shows "bit (out_r (byt_compute c)) i =
    (if pos \<le> i \<and> i \<le> pos + w \<and> pos + w < 32 then bit (mdata c) (i - pos) else bit (adata c) i)"
proof -
  have p: "(if ir 10 2 c = 3 then unat (lcbytemode c) else unat (ir 0 5 c)) = pos" "ir 12 2 c = 3"
    using assms(1) by (simp_all add: byte_instruction_def byte_position_def)
  have "out_r (byt_compute c) = (rol32 (mdata c) pos AND msk pos c) OR (adata c AND NOT (msk pos c))"
    unfolding byt_compute_def Let_def p by (simp add: bit_numeral_rec)
  then show ?thesis
    using assms byte_instruction_less [OF assms(1)]
    by (auto simp: bit_or_iff bit_and_iff bit_not_iff bit_field_msk [OF assms(1)] bit_rol32)
qed

text \<open>Selective deposit: the field of M in place, the rest from A.\<close>

lemma byt_selective:
  assumes "byte_instruction 2 pos w c" "i < 32"
  shows "bit (out_r (byt_compute c)) i =
    bit (if pos \<le> i \<and> i \<le> pos + w \<and> pos + w < 32 then mdata c else adata c) i"
proof -
  have p: "(if ir 10 2 c = 3 then unat (lcbytemode c) else unat (ir 0 5 c)) = pos" "ir 12 2 c = 2"
    using assms(1) by (simp_all add: byte_instruction_def byte_position_def)
  have "out_r (byt_compute c) = (mdata c AND msk pos c) OR (adata c AND NOT (msk pos c))"
    unfolding byt_compute_def Let_def p by (simp add: bit_numeral_rec)
  then show ?thesis
    using assms(2) by (auto simp: bit_or_iff bit_and_iff bit_not_iff bit_field_msk [OF assms(1)])
qed

lemma byt_dpb:
  assumes "byte_instruction 3 pos w c" "pos + w < 32" "i < 32"
  shows "bit (out_r (byt_compute c)) i =
    (if pos \<le> i \<and> i \<le> pos + w then bit (mdata c) (i - pos) else bit (adata c) i)"
  using byt_deposit [OF assms(1,3)] assms(2) by simp

text \<open>What a deposit has put into a field, a load of that field takes out.\<close>

lemma dpb_ldb:
  assumes "byte_instruction 3 pos w c" "pos + w < 32"
    and "byte_instruction 1 ((32 - pos) mod 32) w c'" "mdata c' = out_r (byt_compute c)"
    and "i \<le> w"
  shows "bit (out_r (byt_compute c')) i = bit (mdata c) i"
proof -
  have i: "i < 32" using assms(2,5) by simp
  have "bit (out_r (byt_compute c')) i = bit (out_r (byt_compute c)) (i + pos)"
    using assms(2,5) byt_ldb [OF assms(3) i] by (cases "pos = 0") (auto simp: assms(4) algebra_simps)
  also have "\<dots> = bit (mdata c) i"
    using assms(2,5) byt_dpb [OF assms(1,2), of "i + pos"] by simp
  finally show ?thesis .
qed

end
