(* ===== verification/Pdl_Stack.thy ===== *)
theory Pdl_Stack
  imports Uexec
begin

text \<open>
  The PDL buffer as a stack: pushing through the functional destination 011, popping through the
  functional source 024.  It is a ring of 1024 words, so the oldest words are overwritten.
\<close>

unbundle bit_operations_syntax

definition pdl_push :: "u32 \<Rightarrow> 'a cadr_sys_scheme \<Rightarrow> 'a cadr_sys_scheme" where
  "pdl_push v = upd_cpu (push_pdl v)"

definition pdl_pop :: "'a cadr_sys_scheme \<Rightarrow> u32 \<times> 'a cadr_sys_scheme" where
  "pdl_pop m =
     (pdl (cpu m) (unat (pdl_pointer (cpu m))),
      upd_cpu (\<lambda>c. c\<lparr>pdl_pointer := (pdl_pointer c - 1) AND 0x3FF\<rparr>) m)"

definition pdl_look :: "'a cadr_sys_scheme \<Rightarrow> nat \<Rightarrow> u32" where
  "pdl_look m i = pdl (cpu m) (unat ((pdl_pointer (cpu m) - of_nat i) AND 0x3FF))"

lemma mfwrite_push: "drop_bit 5 dest = 9 \<Longrightarrow> mfwrite dest v m = Inr (pdl_push v m)"
  by (simp add: mfwrite_def Let_def pdl_push_def)

lemma mfread_pop: "mfread 20 m = Inr (pdl_pop m)"
  by (simp add: mfread_def Let_def pdl_pop_def)

interpretation pdl_stack: ring_stack 1024 "\<lambda>m. unat (pdl_pointer (cpu m)) < 1024" pdl_push pdl_pop
  pdl_look
proof unfold_locales
  fix m :: "'a cadr_sys_scheme" and v :: u32 and i :: nat
  assume m: "unat (pdl_pointer (cpu m)) < 1024"
  note defs = pdl_push_def pdl_pop_def pdl_look_def push_pdl_def upd_cpu_def Let_def
  note ring = defs unat_and_3FF ucast_and_low ucast_arith_low
  show "unat (pdl_pointer (cpu (pdl_push v m))) < 1024"
    "unat (pdl_pointer (cpu (snd (pdl_pop m)))) < 1024"
    by (simp_all add: defs)
  show "pdl_look (pdl_push v m) 0 = v"
    by (simp add: defs and.assoc)
  show "fst (pdl_pop m) = pdl_look m 0"
    using m by (simp add: defs and_low_id)
  show "pdl_look (pdl_push v m) (Suc i) = pdl_look m i" if "Suc i < 1024"
  proof -
    let ?p = "ucast (pdl_pointer (cpu m)) :: 10 word"
    have "Suc i < 2 ^ LENGTH(10)"
      using that by simp
    then have "unat (?p - of_nat i) \<noteq> unat (1 + ?p)"
      by (rule ring_apart)
    moreover have "?p + 1 - of_nat (Suc i) = ?p - of_nat i"
      by simp
    ultimately show ?thesis
      by (simp only: ring ucast_of_nat_low fun_upd_apply) (simp add: ring ucast_of_nat_low add.commute)
  qed
  show "pdl_look (snd (pdl_pop m)) i = pdl_look m (Suc i)" if "Suc i < 1024"
    by (simp add: ring algebra_simps)
qed

end
