(* ===== verification/Cpu_Properties.thy ===== *)
theory Cpu_Properties
  imports Machine_Properties Alu_Theory Pdl_Stack
begin

text \<open>
  The properties of the processor: its arithmetic and byte operations, its two stacks, calls and returns
  of the microcode, and the accesses an instruction makes out of bounds.
\<close>

unbundle bit_operations_syntax

section \<open>Arithmetic and logic\<close>

text \<open>
  C8: every arithmetic operation but 036 computes what the function table of the 74181 says: the sum of
  the two inputs that its low four bits select, and the carry in.
\<close>

theorem arithmetic_is_74181:
  assumes "0x10 \<le> op" "op \<le> 0x1F" "op \<noteq> 0x1E"
  shows "alu_out (arithOps op c) = alu181_first op (mdata c) (adata c) + alu181_second op (mdata c) (adata c) +
    (if cin c then 1 else 0)"
  using arith_181 [OF assms, of c] by (simp add: alu181_def)

theorem arithmetic_is_74181_witness:
  "alu_out (arithOps 0x16 (zero_cpu\<lparr>mdata := 3, adata := 5\<rparr>)) =
     alu181_first 0x16 3 5 + alu181_second 0x16 3 5"
  using arithmetic_is_74181 [of "0x16" "zero_cpu\<lparr>mdata := 3, adata := 5\<rparr>"]
  by (simp add: cin_def ir_def zero_cpu_def)

text \<open>
  C9: every logic operation but 011 applies to each bit the boolean function whose truth table is the
  operation's own four bits; 011 yields 1 when the operands are equal and 0 otherwise.
\<close>

theorem logic_operations:
  assumes "op \<le> 0xF" "n < 32"
  shows "bit (alu_out (logiOps op c)) n =
    (if op = 9 then n = 0 \<and> adata c = mdata c
     else bit op (if bit (mdata c) n then if bit (adata c) n then 0 else 1
                  else if bit (adata c) n then 2 else 3))"
  using logic_truth_table [OF assms(1) _ assms(2), of c]
  by (cases "op = 9") (auto simp: logic_eqv truth_row_def bit_1_iff)

theorem logic_operations_witness:
  "bit (alu_out (logiOps 6 (zero_cpu\<lparr>mdata := 12, adata := 10\<rparr>))) 2"
  using logic_operations [of 6 2 "zero_cpu\<lparr>mdata := 12, adata := 10\<rparr>"] by simp

text \<open>
  An addition whose output is shifted right delivers half of the exact signed sum of the operands and
  the carry in, rounded down: the 33rd bit of the sum is the sign that is shifted in.
\<close>

lemma add_then_halve:
  assumes "ir32 3 6 c = 0x19" "drop_bit 12 (p0 c) AND 3 = 2"
  shows "sint (out_r (alu_compute c)) = (sint (mdata c) + sint (adata c) + (if cin c then 1 else 0)) div 2"
  by (rule add_shifted [OF assms])

text \<open>
  C10: 32 multiply steps, each taking the last output as its M operand, leave in M and Q the 64-bit product
  of the signed A operand and the unsigned Q, plus the signed M they started from.
\<close>

theorem multiply_32_steps:
  assumes "multiply_instruction c"
  shows "product (((\<lambda>c. let c' = alu_compute c in c'\<lparr>mdata := out_r c'\<rparr>) ^^ 32) c) =
    sint (adata c) * uint (q_r c) + sint (mdata c)"
  using multiply_32 [OF assms] by (simp add: multiply_step_def [abs_def])

theorem multiply_32_steps_witness:
  "product (((\<lambda>c. let c' = alu_compute c in c'\<lparr>mdata := out_r c'\<rparr>) ^^ 32)
     (zero_cpu\<lparr>p0 := 0x2102, adata := - 3, q_r := 7, mdata := 2\<rparr>)) = - 19"
  using multiply_32_steps [of "zero_cpu\<lparr>p0 := 0x2102, adata := - 3, q_r := 7, mdata := 2\<rparr>"]
  by (simp add: multiply_instruction_def ir32_def ir_def cin_def)

section \<open>Byte operations\<close>

text \<open>
  C11: a byte instruction, bit by bit, for every kind and every position, immediate or taken from the location counter: kind 0
  gives zero; a load takes the rotated M in the low bits and A elsewhere; a selective deposit takes M in the field and A
  elsewhere; a deposit takes the low bits of M in the field and A elsewhere.  A field that runs over the top of the
  word is no field: the index of its last bit is taken modulo 32, so that its mask is empty and a deposit gives A.
\<close>

theorem byte_operations:
  assumes "byte_instruction kind pos w c" "i < 32"
  shows "bit (out_r (byt_compute c)) i =
    (if kind = 0 then False
     else if kind = 1 then if i \<le> w then bit (mdata c) ((i + 32 - pos) mod 32) else bit (adata c) i
     else if pos \<le> i \<and> i \<le> pos + w \<and> pos + w < 32 then bit (mdata c) (if kind = 2 then i else i - pos)
     else bit (adata c) i)"
proof -
  have "(i + 32 - pos) mod 32 = (if pos \<le> i then i - pos else i + 32 - pos)"
    using assms(2) byte_instruction_less [OF assms(1)] by (auto simp: mod_if)
  with byte_kind [OF assms(1)] show ?thesis
    using assms byt_clear [of pos w c] byt_ldb [of pos w c i] byt_selective [of pos w c i] byt_deposit [of pos w c i] by auto
qed

theorem byte_operations_witness:
  "bit (out_r (byt_compute (zero_cpu\<lparr>p0 := 0x3064, mdata := 0xA, adata := 0\<rparr>))) 5"
  using byte_operations [of 3 4 3 "zero_cpu\<lparr>p0 := 0x3064, mdata := 0xA, adata := 0\<rparr>" 5]
  by (simp add: byte_instruction_def byte_position_def ir_def)

text \<open>
  round trip of the byte operations: what a deposit has put into a field, a load of that field
  takes out.
\<close>

lemma deposit_then_load:
  assumes "byte_instruction 3 pos w c" "pos + w < 32"
    and "byte_instruction 1 ((32 - pos) mod 32) w c'" "mdata c' = out_r (byt_compute c)"
    and "i \<le> w"
  shows "bit (out_r (byt_compute c')) i = bit (mdata c) i"
  by (rule dpb_ldb [OF assms])

section \<open>Stacks\<close>

text \<open>
  the microcode stack is last in, first out for up to 32 return addresses, in spite of its pointer
  wrapping around.
\<close>

lemma spc_lifo:
  assumes "unat (spcptr c) < 32" "length vs \<le> 32"
  shows "popped popSPC (length vs) (fold pushSPC vs c) = rev vs"
  by (rule spc_stack.push_pop [OF assms])

text \<open>
  the PDL buffer is last in, first out for up to 1024 words: what the functional destination 011 has
  written, the functional source 024 reads back in the reverse order.
\<close>

lemma pdl_lifo:
  assumes "unat (pdl_pointer (cpu m)) < 1024" "length vs \<le> 1024" "drop_bit 5 dest = 9"
  shows "popped (\<lambda>m. projr (mfread 20 m)) (length vs) (fold (\<lambda>v m. projr (mfwrite dest v m)) vs m) = rev vs"
  using pdl_stack.push_pop [OF assms(1,2)] by (simp add: mfwrite_push [OF assms(3)] mfread_pop)

section \<open>Calls and returns\<close>

text \<open>An unconditional jump, with its return and push bits.\<close>

definition jump_always :: "cpu \<Rightarrow> bool \<Rightarrow> bool \<Rightarrow> bool" where
  "jump_always c r p \<longleftrightarrow>
     ir 5 1 c \<noteq> 0 \<and> ir 0 4 c = 7 \<and> ir 6 1 c = 0 \<and> (ir 9 1 c \<noteq> 0) = r \<and> (ir 8 1 c \<noteq> 0) = p"

lemma jmp_always:
  assumes "jump_always (cpu m) r p" "\<not> (r \<and> p)"
  shows "jmp m =
    (let m1 = (if ir 10 2 (cpu m) = 1 then m\<lparr>ms := (ms m)\<lparr>halted := True\<rparr>\<rparr> else m);
         n = (ir 7 1 (cpu m) \<noteq> 0);
         m3 = (if p then upd_cpu (push_return n) m1 else m1)
     in if r then and_then (return_target m3) (\<lambda>(t, m4). Inr (jmp_to t n m4))
        else Inr (jmp_to (ir32 12 14 (cpu m)) n m3))"
  using assms by (auto simp: jmp_def jump_always_def check_jcond_def Let_def)

lemma low_14:
  assumes "unat (w :: u32) < 16384"
  shows "\<not> bit w 14" "w AND 0x3FFF = w"
proof -
  show w: "w AND 0x3FFF = w"
    by (rule and_low_id(3) [OF assms])
  have "\<not> bit (w AND mask 14) 14"
    by (simp add: bit_simps)
  then show "\<not> bit w 14"
    using w by (simp add: mask_eq_exp_minus_1)
qed

lemma spc_up_down:
  assumes "unat (p :: u32) < 32"
  shows "(((p + 1) AND 0x1F) - 1) AND 0x1F = p"
proof -
  have "unat ((((p + 1) AND 0x1F) - 1) AND 0x1F) = unat (p AND 0x1F)"
    by (simp add: unat_and_1F ucast_and_low ucast_arith_low)
  then show ?thesis
    using and_low_id(1) [OF assms] by (simp add: word_unat_eq_iff)
qed

text \<open>
  C12: a call pushes the address that follows it (the one before the next program counter when the
  following instruction is inhibited), and a return, executed with the microcode stack as the call left
  it, continues there and restores the stack pointer.
\<close>

theorem call_return:
  assumes call: "jump_always (cpu m) False True" "jmp m = Inr m1"
    and ret: "jump_always (cpu m2) True False" "spc (cpu m2) = spc (cpu m1)" "spcptr (cpu m2) = spcptr (cpu m1)"
    and r: "r = (if ir 7 1 (cpu m) \<noteq> 0 then npc (cpu m) - 1 else npc (cpu m))" "unat r < 16384"
    and ptr: "unat (spcptr (cpu m)) < 32"
  shows "npc (cpu m1) = ir32 12 14 (cpu m) \<and>
    (\<exists>m3. jmp m2 = Inr m3 \<and> npc (cpu m3) = r \<and> spcptr (cpu m3) = spcptr (cpu m))"
proof -
  have m1: "npc (cpu m1) = ir32 12 14 (cpu m)" "spc (cpu m1) = spc (pushSPC r (cpu m))"
    "spcptr (cpu m1) = spcptr (pushSPC r (cpu m))"
    using call(2) jmp_always [OF call(1)] r(1)
    by (auto simp: Let_def jmp_to_def upd_cpu_def push_return_def pushSPC_def)
  have "\<not> bit r 14" "r AND 0x3FFF = r"
    using r(2) by (simp_all add: low_14)
  moreover have "(spcptr (cpu m1) - 1) AND 0x1F = spcptr (cpu m)"
    using ptr by (simp add: m1 pushSPC_def Let_def spc_up_down)
  moreover have "spc (cpu m2) (unat (spcptr (cpu m2))) = r"
    by (simp add: ret m1 pushSPC_def Let_def)
  ultimately show ?thesis
    using m1(1) jmp_always [OF ret(1)] ret(3)
    by (simp add: Let_def return_target_def popSPC_def upd_cpu_def jmp_to_def)
qed

text \<open>A call at 8 and a return, as the first instructions of a machine.\<close>

definition calling_machine :: machine where
  "calling_machine = zero_machine\<lparr>cpu := zero_cpu\<lparr>p0 := 0x80000005127, npc := 9\<rparr>\<rparr>"

definition returning_machine :: machine where
  "returning_machine = zero_machine\<lparr>cpu := zero_cpu\<lparr>p0 := 0x80000000227, spcptr := 1, spc := (\<lambda>_. 0)(1 := 9)\<rparr>\<rparr>"

lemmas calling_defs = calling_machine_def returning_machine_def zero_machine_def zero_cpu_def

theorem call_return_witness:
  "\<exists>m3. jmp returning_machine = Inr m3 \<and> npc (cpu m3) = 9"
proof -
  have 1: "jump_always (cpu calling_machine) False True" "jump_always (cpu returning_machine) True False"
    "ir 7 1 (cpu calling_machine) = 0" "ir 10 2 (cpu calling_machine) = 0" "ir32 12 14 (cpu calling_machine) = 5"
    by (simp_all add: jump_always_def ir_def ir32_def calling_defs)
  then obtain m1 where m1: "jmp calling_machine = Inr m1" "spc (cpu m1) = (\<lambda>_. 0)(1 := 9)" "spcptr (cpu m1) = 1"
    by (simp add: jmp_always Let_def jmp_to_def upd_cpu_def push_return_def pushSPC_def)
      (simp add: calling_defs)
  have 2: "spc (cpu returning_machine) = spc (cpu m1)" "spcptr (cpu returning_machine) = spcptr (cpu m1)"
    "9 = (if ir 7 1 (cpu calling_machine) \<noteq> 0 then npc (cpu calling_machine) - 1 else npc (cpu calling_machine))"
    "unat (spcptr (cpu calling_machine)) < 32"
    using 1(3) by (simp_all add: m1 calling_defs)
  show ?thesis
    using call_return [OF 1(1) m1(1) 1(2) 2(1,2,3) _ 2(4)] by auto
qed

section \<open>Accesses out of bounds\<close>

text \<open>
  C13: a fetch succeeds when the program counter is an address of the memory it fetches from, the 512 words
  of the PROM or the 16384 of the instruction memory; otherwise the instruction accesses that array out
  of bounds.
\<close>

theorem fetch_bounds:
  "if unat (npc (cpu m)) < (if promdisabled (ms m) then 16384 else 512)
   then \<exists>m1. incNPC m = Inr m1 \<and>
     p1 (cpu m1) = (if promdisabled (ms m) then imem else prom) (cpu m) (unat (npc (cpu m))) \<and>
     unat (npc (cpu m1)) < 16384
   else uexec_step m = Inl (Out_of_bounds (if promdisabled (ms m) then ''imem'' else ''prom''))"
proof (cases "unat (npc (cpu m)) < (if promdisabled (ms m) then 16384 else 512)")
  case True
  then have n: "unat (npc (cpu m)) < 16384"
    by (simp split: if_splits)
  have "unat (npc (cpu m) + 1) < 16384" if "npc (cpu m) \<noteq> 0x3FFF"
  proof -
    have "unat (npc (cpu m)) \<noteq> 0x3FFF"
      using that by (simp add: word_unat_eq_iff)
    with n show ?thesis
      by (simp add: unat_word_ariths)
  qed
  with True show ?thesis
    by (cases "promdisabled (ms m)") (auto simp: incNPC_def Let_def in_bounds_def upd_cpu_def)
next
  case False
  then have "incNPC (upd_cpu (uexec_has_run_once_update (\<lambda>_. True)) m) =
      Inl (Out_of_bounds (if promdisabled (ms m) then ''imem'' else ''prom''))"
    by (cases "promdisabled (ms m)") (simp_all add: incNPC_def Let_def in_bounds_def upd_cpu_def)
  with False show ?thesis
    by (simp add: uexec_step_def)
qed

text \<open>
  A dispatch that reads the M memory and does not consult the map, has the N-plus-1 bit and neither POPJ
  nor the bit that advances the location counter, and the entry of the dispatch memory it selects.
\<close>

definition plain_dispatch :: "cpu \<Rightarrow> bool" where
  "plain_dispatch c \<longleftrightarrow> ir32 43 2 c = 2 \<and> ir 42 1 c \<noteq> 1 \<and> ir 31 1 c = 0 \<and> ir 10 2 c \<noteq> 2 \<and>
     ir 25 1 c \<noteq> 0 \<and> ir 24 1 c = 0 \<and> ir 8 2 c = 0"

definition dispatch_entry :: "cpu \<Rightarrow> u32" where
  "dispatch_entry c =
     (let rotated = rol32 (mmem c (unat (ir32 26 5 c))) (byte_position c)
      in dmem c (unat ((ir32 12 11 c OR (rotated AND dispatch_mask (unat (ir 5 3 c)))) AND 0x7FF)))"

lemma three_bits:
  assumes "drop_bit 14 (e :: u32) AND 7 = 7"
  shows "bit e 14" "bit e 15" "bit e 16"
proof -
  have "bit (drop_bit 14 e AND 7) i \<longleftrightarrow> i < 32 \<and> i < 3" for i
    unfolding assms using bit_mask_iff [of 3 i, where 'a = "32 word"] by (simp add: mask_eq_exp_minus_1)
  from this [of 0] this [of 1] this [of 2] show "bit e 14" "bit e 15" "bit e 16"
    by (simp_all add: bit_simps)
qed

lemma dsp_back_one:
  assumes "plain_dispatch (cpu m)" "mdata (cpu m) = mmem (cpu m) (unat (ir32 26 5 (cpu m)))"
    and "drop_bit 14 (dispatch_entry (cpu m)) AND 7 = 7"
  shows "\<exists>m1. dsp m = Inr m1 \<and> npc (cpu m1) = npc (cpu m) - 1 \<and> popj (cpu m1) = popj (cpu m) \<and> ms m1 = ms m"
proof -
  let ?a = "(ir32 12 11 (cpu m) OR (rol32 (mdata (cpu m)) (byte_position (cpu m)) AND
    dispatch_mask (unat (ir 5 3 (cpu m))))) AND 0x7FF"
  have "\<exists>m0. dsp_address m = Inr (?a, m0)"
    using assms(1) by (simp add: dsp_address_def Let_def plain_dispatch_def byte_position_def [symmetric])
  then obtain m0 where m0: "dsp_address m = Inr (?a, m0)" ..
  obtain v where "m0 = upd_cpu (mdata_update (\<lambda>_. v)) m"
    using dsp_address_keeps(1) [OF m0] by blast
  then have keep: "npc (cpu m0) = npc (cpu m)" "dmem (cpu m0) = dmem (cpu m)" "ms m0 = ms m" "popj (cpu m0) = popj (cpu m)"
    by (simp_all add: upd_cpu_def)
  have e: "dmem (cpu m0) (unat ?a) = dispatch_entry (cpu m)"
    by (simp add: keep assms(2) dispatch_entry_def Let_def)
  show ?thesis
    using assms(1) three_bits [OF assms(3)] m0 keep e
    by (simp add: dsp_def Let_def dsp_transfer_def upd_cpu_def plain_dispatch_def)
qed

lemma same_instruction:
  assumes "p0 c' = p0 c"
  shows "ir pos len c' = ir pos len c" "ir32 pos len c' = ir32 pos len c"
  using assms by (simp_all add: ir_def ir32_def)

lemma same_dispatch:
  assumes "p0 c' = p0 c" "mmem c' = mmem c" "dmem c' = dmem c" "interrupt_control c' = interrupt_control c" "lc c' = lc c"
  shows "plain_dispatch c' = plain_dispatch c" "dispatch_entry c' = dispatch_entry c"
  by (simp_all add: plain_dispatch_def dispatch_entry_def byte_position_def lcbytemode_def Let_def
      same_instruction [OF assms(1)] assms)

lemma decode_plain:
  assumes "plain_dispatch (cpu m)"
  shows "\<exists>m3. decode m = Inr m3 \<and> npc (cpu m3) = npc (cpu m) \<and> p0 (cpu m3) = p0 (cpu m) \<and> mmem (cpu m3) = mmem (cpu m) \<and>
    dmem (cpu m3) = dmem (cpu m) \<and> interrupt_control (cpu m3) = interrupt_control (cpu m) \<and> lc (cpu m3) = lc (cpu m) \<and>
    ms m3 = ms m \<and> op_r (cpu m3) = 2 \<and> \<not> popj (cpu m3) \<and> mdata (cpu m3) = mmem (cpu m) (unat (ir32 26 5 (cpu m)))"
  using assms by (simp add: decode_def Let_def upd_cpu_def plain_dispatch_def ir_def ir32_def)

text \<open>
  C14: an instruction executes when the next one has been fetched, so the one at 037776 executes with the program counter wrapped
  around to 0.  If it is executed as it stands in memory (not inhibited, no OA modification) and is a dispatch on an M memory
  location with the N-plus-1 bit, without POPJ, map bits and the advance of the location counter, whose entry has all of its R, P
  and N bits, then the program counter is left one below zero, and the next instruction stops at its fetch, out of the bounds of the
  instruction memory.
\<close>

theorem dispatch_below_zero:
  assumes "promdisabled (ms m)" "npc (cpu m) = 0x3FFF" "\<not> inhibit (cpu m)" "\<not> oal (cpu m)" "\<not> oah (cpu m)"
    and "c = (cpu m)\<lparr>p0 := p1 (cpu m)\<rparr>" "plain_dispatch c" "drop_bit 14 (dispatch_entry c) AND 7 = 7"
  shows "\<exists>m1. uexec_step m = Inr m1 \<and> npc (cpu m1) = - 1 \<and> uexec_step m1 = Inl (Out_of_bounds ''imem'')"
proof -
  obtain m2 where m2: "incNPC (upd_cpu (uexec_has_run_once_update (\<lambda>_. True)) m) = Inr m2"
    and c2: "npc (cpu m2) = 0" "p0 (cpu m2) = p1 (cpu m)" "mmem (cpu m2) = mmem (cpu m)" "dmem (cpu m2) = dmem (cpu m)"
      "interrupt_control (cpu m2) = interrupt_control (cpu m)" "lc (cpu m2) = lc (cpu m)"
      "\<not> inhibit (cpu m2)" "\<not> oal (cpu m2)" "\<not> oah (cpu m2)" "ms m2 = ms m"
    using assms(1-5) by (simp add: incNPC_def Let_def in_bounds_def upd_cpu_def)
  let ?m = "upd_cpu merge_oa (upd_cpu arrive_md m2)"
  have c: "npc (cpu ?m) = 0" "p0 (cpu ?m) = p0 c" "mmem (cpu ?m) = mmem c" "dmem (cpu ?m) = dmem c"
      "interrupt_control (cpu ?m) = interrupt_control c" "lc (cpu ?m) = lc c" "ms ?m = ms m"
      "\<not> inhibit (cpu (upd_cpu arrive_md m2))"
    using c2 assms(6) by (simp_all add: upd_cpu_def merge_oa_def arrive_md_def Let_def)
  note i = same_instruction [OF c(2)] and d = same_dispatch [OF c(2-6)]
  obtain m3 where m3: "decode ?m = Inr m3" and c3: "npc (cpu m3) = 0" "p0 (cpu m3) = p0 c" "mmem (cpu m3) = mmem c"
      "dmem (cpu m3) = dmem c" "interrupt_control (cpu m3) = interrupt_control c" "lc (cpu m3) = lc c"
      "ms m3 = ms m" "op_r (cpu m3) = 2" "\<not> popj (cpu m3)" "mdata (cpu m3) = mmem c (unat (ir32 26 5 c))"
    using decode_plain [of ?m] assms(7) unfolding c i d by auto
  obtain m1 where m1: "dsp m3 = Inr m1" "npc (cpu m1) = - 1" "\<not> popj (cpu m1)" "ms m1 = ms m"
    using dsp_back_one [of m3] same_dispatch [OF c3(2-6)] same_instruction [OF c3(2)] assms(7,8) c3 by auto
  have "uexec_step m = Inr m1"
    using m2 c(8) m3 c3(8) m1 by (simp add: uexec_step_def Let_def execute_def do_popj_def)
  moreover have "unat (- 1 :: u32) = 0xFFFFFFFF"
    by (simp add: unsigned_minus_1_eq_mask mask_eq_exp_minus_1)
  then have "uexec_step m1 = Inl (Out_of_bounds ''imem'')"
    using assms(1) by (simp add: m1 uexec_step_def incNPC_def Let_def in_bounds_def upd_cpu_def)
  ultimately show ?thesis
    using m1(2) by blast
qed

text \<open>Such a dispatch, fetched from 037776.\<close>

definition dispatching_machine :: machine where
  "dispatching_machine = zero_machine\<lparr>cpu := zero_cpu\<lparr>p1 := 0x100002000000, p1_pc := 0x3FFE, p1_imem := True,
     npc := 0x3FFF, dmem := (\<lambda>_. 0x1C000)\<rparr>, ms := (ms zero_machine)\<lparr>promdisabled := True\<rparr>\<rparr>"

theorem dispatch_below_zero_witness:
  "\<exists>m1. uexec_step dispatching_machine = Inr m1 \<and> npc (cpu m1) = - 1 \<and> uexec_step m1 = Inl (Out_of_bounds ''imem'')"
proof (rule dispatch_below_zero [OF _ _ _ _ _ refl])
  show "plain_dispatch ((cpu dispatching_machine)\<lparr>p0 := p1 (cpu dispatching_machine)\<rparr>)"
    by (simp add: plain_dispatch_def dispatching_machine_def ir_def ir32_def)
qed (simp_all add: dispatch_entry_def dispatching_machine_def zero_machine_def zero_cpu_def)

lemma ir32_destination:
  assumes "bit (p0 c) 25"
  shows "ir32 14 12 c AND 0x800 \<noteq> 0"
    and "unat (ir32 14 12 c AND 0x7FF) = unat (ir 14 10 c) + (if bit (p0 c) 24 then 1024 else 0)"
    and "unat (ir 14 10 c) < 1024"
proof -
  let ?x = "unat (drop_bit 14 (p0 c))"
  have ir: "unat (ir 14 n c) = take_bit n ?x" for n
    by (simp only: ir_mask flip: take_bit_eq_mask unsigned_take_bit_eq)
  have d: "unat (ir32 14 12 c) = take_bit 12 ?x"
    by (simp add: ir32_def unsigned_ucast_eq ir)
  have low: "unat (ir32 14 12 c AND mask 11) = take_bit (Suc 10) ?x"
    unfolding take_bit_eq_mask [symmetric] unsigned_take_bit_eq d by simp
  have "bit ?x 10 = bit (p0 c) 24"
    by (simp add: bit_unsigned_iff bit_simps)
  then show "unat (ir32 14 12 c AND 0x7FF) = unat (ir 14 10 c) + (if bit (p0 c) 24 then 1024 else 0)"
    using low take_bit_Suc_from_most [of 10 ?x] by (simp add: ir mask_eq_exp_minus_1)
  show "unat (ir 14 10 c) < 1024"
    unfolding ir using take_bit_nat_less_exp [of 10 ?x] by simp
  have "bit (ir32 14 12 c) 11"
    using assms by (simp add: bit_simps)
  then show "ir32 14 12 c AND 0x800 \<noteq> 0"
    using and_push_bit_1_iff [of 11 "ir32 14 12 c"] by simp
qed

lemma write_amem_destination:
  assumes "bit (p0 (cpu m)) 25"
  shows "writeDest (ir32 14 12 (cpu m)) m1 =
    (if bit (p0 (cpu m)) 24 then Inl (Out_of_bounds ''amem'')
     else Inr (upd_cpu (\<lambda>c. c\<lparr>amem := (amem c)(unat (ir 14 10 (cpu m)) := out_r c)\<rparr>) m1))"
  using ir32_destination [OF assms]
  by (simp add: writeDest_def Let_def in_bounds_def upd_cpu_def)

lemma amem_parts [simp]:
  "amem (set_lv lv c) = amem c" "amem (set_add a b ci c) = amem c" "amem (set_sub a b ci c) = amem c"
  "amem (logiOps opn c) = amem c" "amem (arithOps opn c) = amem c" "amem (divOps opn c) = amem c"
  "amem (qControl c) = amem c" "amem (outControl c) = amem c"
  by (simp_all add: set_lv_def set_add_def set_sub_def logiOps_def arithOps_def divOps_def qControl_def
      outControl_def Let_def if_distrib [where f = amem] split: option.split cong del: if_weak_cong split del: if_split)

lemma compute_amem: "amem (alu_compute c) = amem c" "amem (byt_compute c) = amem c"
  by (simp_all add: alu_compute_def byt_compute_def Let_def if_distrib [where f = amem]
      cong del: if_weak_cong split del: if_split)

text \<open>
  C15: an ALU or byte instruction with bit 11 of its destination set writes the A memory word its low ten
  bits name, and accesses the A memory out of bounds when bit 10 is set as well.
\<close>

theorem a_memory_destination:
  assumes "bit (p0 (cpu m)) 25"
  shows "alu m = (if bit (p0 (cpu m)) 24 then Inl (Out_of_bounds ''amem'')
      else Inr (upd_cpu (\<lambda>c. (alu_compute c)\<lparr>amem := (amem c)(unat (ir 14 10 c) := out_r (alu_compute c))\<rparr>) m)) \<and>
    byt m = (if bit (p0 (cpu m)) 24 then Inl (Out_of_bounds ''amem'')
      else Inr (upd_cpu (\<lambda>c. (byt_compute c)\<lparr>amem := (amem c)(unat (ir 14 10 c) := out_r (byt_compute c))\<rparr>) m))"
  by (simp add: alu_def byt_def Let_def write_amem_destination [OF assms])
    (simp add: upd_cpu_def compute_amem)

theorem a_memory_destination_witness:
  "alu (calling_machine\<lparr>cpu := zero_cpu\<lparr>p0 := 0x3000000\<rparr>\<rparr>) = Inl (Out_of_bounds ''amem'')"
  using a_memory_destination [of "calling_machine\<lparr>cpu := zero_cpu\<lparr>p0 := 0x3000000\<rparr>\<rparr>"] by simp

end
