(* ===== verification/Memory_Paths.thy ===== *)
theory Memory_Paths
  imports Uexec_Inv
begin

text \<open>
  Paths to main memory through several components: what a map write makes of later translations, a
  virtual write followed by a virtual read, and a 32-bit word moved by two Unibus cycles through the
  mapping registers.
\<close>

unbundle bit_operations_syntax

section \<open>Translation after a map write\<close>

text \<open>The index of the second level map that a virtual address selects.\<close>

definition l2_slot :: "uvmem \<Rightarrow> u32 \<Rightarrow> nat" where
  "l2_slot u va =
     unat (push_bit 5 (l1_map u (unat (drop_bit 13 va AND 0x7FF)) AND 0x1F) OR (drop_bit 8 va AND 0x1F))"

text \<open>The translation, for maps of the widths the hardware has.\<close>

definition translation :: "uvmem \<Rightarrow> u32 \<Rightarrow> vtop" where
  "translation u va =
     (let l2 = l2_map u (l2_slot u va) in
      \<lparr>vt_paddr = push_bit 8 (l2 AND 0x3FFF) OR (va AND 0xFF),
       vt_l1_data = l1_map u (unat (drop_bit 13 va AND 0x7FF)), vt_l2_data = l2, vt_pn = l2 AND 0x3FFF,
       vt_write_permission = bit l2 22, vt_access_permission = bit l2 23\<rparr>)"

lemma low_24_fields:
  "drop_bit 13 (va AND 0x00FFFFFF) AND 0x7FF = drop_bit 13 va AND (0x7FF :: u32)"
  "drop_bit 8 (va AND 0x00FFFFFF) AND 0x1F = drop_bit 8 va AND (0x1F :: u32)"
  "(va AND 0x00FFFFFF) AND 0xFF = va AND (0xFF :: u32)"
proof -
  have m: "(0x00FFFFFF :: u32) = mask 24" "(0x7FF :: u32) = mask 11" "(0x1F :: u32) = mask 5"
    "(0xFF :: u32) = mask 8"
    by (simp_all add: mask_eq_exp_minus_1)
  show "drop_bit 13 (va AND 0x00FFFFFF) AND 0x7FF = drop_bit 13 va AND (0x7FF :: u32)"
    "drop_bit 8 (va AND 0x00FFFFFF) AND 0x1F = drop_bit 8 va AND (0x1F :: u32)"
    "(va AND 0x00FFFFFF) AND 0xFF = va AND (0xFF :: u32)"
    unfolding m by (auto intro!: bit_word_eqI simp: bit_simps)
qed

lemma vtop_translation:
  assumes "uvmem_wf u"
  shows "uvmem_vtop nd va u = Inr (translation u va)"
proof -
  have a: "l1_map u i AND 0x1F = l1_map u i" "l2_map u i AND 0x00FFFFFF = l2_map u i" for i
    using assms by (simp_all add: uvmem_wf_def)
  have z: "l1_map u i AND 0xFFFFFFE0 = 0" "l2_map u i AND 0xFF000000 = 0" for i
    using and_masks_zero(1,2) a by blast+
  show ?thesis
    unfolding uvmem_vtop_def Let_def low_24_fields a z
    by (simp only: c_assert_True translation_def l2_slot_def a z Let_def and_then.simps refl)
qed

text \<open>
  A second-level write (VMA bit 25 set, bit 26 clear) maps the page of MD to the page, the permissions
  and the software bits in the VMA, and no other second-level entry.
\<close>

lemma write_map_l2:
  assumes "uvmem_wf u" "bit vma 25" "\<not> bit vma 26"
  shows "uvmem_write_map nd vma md u =
    Inr (u\<lparr>l2_map := (l2_map u)(l2_slot u md := vma AND 0x00FFFFFF)\<rparr>)"
proof -
  have a: "l1_map u i AND 0x1F = l1_map u i" for i
    using assms(1) by (simp add: uvmem_wf_def)
  have z: "l1_map u i AND 0xFFFFFFE0 = 0" "(vma AND 0x00FFFFFF) AND 0xFF000000 = 0" for i
    using and_masks_zero(1) [OF a] and_masks_zero(4) by blast+
  have i: "unat (push_bit 5 (l1_map u (unat (drop_bit 13 md AND 0x7FF))) OR (drop_bit 8 md AND 0x1F)) < 1024"
    by (rule l2_index_bound [OF a])
  show ?thesis
    using assms(2,3) i unfolding uvmem_write_map_def Let_def z l2_slot_def a
    by (simp only: if_True if_False c_assert_True and_then.simps in_bounds_ok z simp_thms)
qed

text \<open>A first-level write (VMA bit 26 set, bit 25 clear).\<close>

lemma write_map_l1:
  assumes "bit vma 26" "\<not> bit vma 25"
  shows "uvmem_write_map nd vma md u =
    Inr (u\<lparr>l1_map := (l1_map u)(unat (drop_bit 13 md AND 0x7FF) := drop_bit 27 vma AND 0x1F)\<rparr>)"
  using assms by (simp add: uvmem_write_map_def Let_def)

lemma translation_after_l2:
  "translation (u\<lparr>l2_map := (l2_map u)(l2_slot u md := e)\<rparr>) va =
     (if l2_slot u va = l2_slot u md
      then \<lparr>vt_paddr = push_bit 8 (e AND 0x3FFF) OR (va AND 0xFF),
            vt_l1_data = l1_map u (unat (drop_bit 13 va AND 0x7FF)), vt_l2_data = e, vt_pn = e AND 0x3FFF,
            vt_write_permission = bit e 22, vt_access_permission = bit e 23\<rparr>
      else translation u va)"
  by (simp add: translation_def l2_slot_def Let_def)

section \<open>A virtual write and a virtual read\<close>

lemma set_vmaok_twice [simp]: "set_vmaok a (set_vmaok b m) = set_vmaok a m"
  by (simp add: set_vmaok_def)

lemma set_vmaok_sel [simp]: "mem (set_vmaok a m) = mem m" "vmem (set_vmaok a m) = vmem m"
  "ndebug (set_vmaok a m) = ndebug m" "vmaok (ms (set_vmaok a m)) = a"
  by (simp_all add: set_vmaok_def)

lemma bits_pn:
  "drop_bit 8 (push_bit 8 (w AND 0x3FFF) OR (va AND 0xFF)) AND 0x3FFF = (w AND 0x3FFF :: u32)"
  "(push_bit 8 (w AND 0x3FFF) OR (va AND 0xFF)) AND 0xFF = (va AND 0xFF :: u32)"
proof -
  have m: "(0x3FFF :: u32) = mask 14" "(0xFF :: u32) = mask 8"
    by (simp_all add: mask_eq_exp_minus_1)
  show "drop_bit 8 (push_bit 8 (w AND 0x3FFF) OR (va AND 0xFF)) AND 0x3FFF = (w AND 0x3FFF :: u32)"
    "(push_bit 8 (w AND 0x3FFF) OR (va AND 0xFF)) AND 0xFF = (va AND 0xFF :: u32)"
    unfolding m by (auto intro!: bit_word_eqI simp: bit_simps)
qed

lemma bits_22: "(push_bit 8 (w AND 0x3FFF) OR (va AND 0xFF)) AND 0xFFC00000 = (0 :: u32)"
proof -
  have m: "(0x3FFF :: u32) = mask 14" "(0xFF :: u32) = mask 8" "(0xFFC00000 :: u32) = NOT (mask 22)"
    by (simp_all add: mask_eq_exp_minus_1)
  show ?thesis
    unfolding m by (auto intro!: bit_word_eqI simp: bit_simps)
qed

text \<open>A virtual address that is mapped to a present page of main memory, with both rights.\<close>

definition mapped_to_ram :: "'a cadr_sys_scheme \<Rightarrow> u32 \<Rightarrow> bool" where
  "mapped_to_ram m va \<longleftrightarrow>
     (let t = translation (vmem m) (va AND 0x00FFFFFF) in
      vt_access_permission t \<and> vt_write_permission t \<and> vt_pn t \<le> 0x3BFB \<and>
      vt_pn t < main_memory_npages (mem m))"

definition ram_cell :: "'a cadr_sys_scheme \<Rightarrow> u32 \<Rightarrow> nat \<times> nat" where
  "ram_cell m va = (unat (vt_pn (translation (vmem m) (va AND 0x00FFFFFF))), unat (va AND 0xFF))"

definition store_word :: "nat \<times> nat \<Rightarrow> u32 \<Rightarrow> 'a mem_sys_scheme \<Rightarrow> 'a mem_sys_scheme" where
  "store_word k v m = m\<lparr>mem := (mem m)\<lparr>pages :=
     (pages (mem m))(fst k := (pages (mem m) (fst k))(snd k := v))\<rparr>\<rparr>"

lemma translation_paddr:
  "vt_paddr (translation u va) = push_bit 8 (vt_l2_data (translation u va) AND 0x3FFF) OR (va AND 0xFF)"
  "vt_pn (translation u va) = vt_l2_data (translation u va) AND 0x3FFF"
  by (simp_all add: translation_def Let_def)

lemma vm_ram:
  assumes "uvmem_wf (vmem m)" "mapped_to_ram m va"
  shows "vm True va v m = Inr (v, store_word (ram_cell m va) v (set_vmaok True m))"
    and "vm False va pv m =
      Inr (pages (mem m) (fst (ram_cell m va)) (snd (ram_cell m va)), set_vmaok True m)"
proof -
  let ?va = "va AND 0x00FFFFFF"
  let ?t = "translation (vmem m) ?va"
  let ?l = "vt_l2_data ?t"
  have t: "uvmem_vtop nd ?va (vmem m) = Inr ?t" for nd
    by (rule vtop_translation [OF assms(1)])
  have pn: "vt_pn ?t \<le> 0x3BFB" "vt_pn ?t < main_memory_npages (mem m)"
    and ok: "vt_access_permission ?t" "vt_write_permission ?t"
    using assms(2) by (simp_all add: mapped_to_ram_def Let_def)
  have not_amem: "\<not> (0x3BFC \<le> vt_pn ?t)" and le: "vt_pn ?t \<le> 0x3FFF" and no_tv: "vt_pn ?t \<noteq> 0x3C00"
    using pn(1) by (auto simp: word_le_nat_alt)
  have pa: "vm_paddr ?va ?t = push_bit 8 (?l AND 0x3FFF) OR (?va AND 0xFF)"
    using no_tv by (simp only: vm_paddr_def if_False translation_paddr(1))
  have a: "drop_bit 8 (vm_paddr ?va ?t) AND 0x3FFF = vt_pn ?t" "vm_paddr ?va ?t AND 0xFF = va AND 0xFF"
    "vm_paddr ?va ?t AND 0xFFC00000 = 0"
    unfolding pa bits_pn bits_22 translation_paddr(2) low_24_fields(3) by (rule refl)+
  have rw: "bus_adaptor_rw w (vm_paddr ?va ?t) pv m1 =
    Inr (if w then (pv, snd (main_memory_write (vm_paddr ?va ?t) pv m1))
         else (snd (main_memory_read (vm_paddr ?va ?t) m1), m1))" for w pv and m1 :: "'a cadr_sys_scheme"
    unfolding bus_adaptor_rw_def bus_adaptor_xbus_rw_def Let_def a by (simp add: pn)
  show "vm True va v m = Inr (v, store_word (ram_cell m va) v (set_vmaok True m))"
    using not_amem le ok pn(2)
    by (simp only: vm_def Let_def t and_then.simps bus_adaptor_write_def rw)
      (simp add: main_memory_write_def Let_def a store_word_def ram_cell_def)
  show "vm False va pv m =
      Inr (pages (mem m) (fst (ram_cell m va)) (snd (ram_cell m va)), set_vmaok True m)"
    using not_amem le ok pn(2)
    by (simp only: vm_def Let_def t and_then.simps bus_adaptor_read_def rw)
      (simp add: main_memory_read_def Let_def a ram_cell_def)
qed

lemma store_word_sel [simp]:
  "vmem (store_word k v m) = vmem m" "ndebug (store_word k v m) = ndebug m"
  "main_memory_npages (mem (store_word k v m)) = main_memory_npages (mem m)"
  by (simp_all add: store_word_def)

lemma mapped_to_ram_after [simp]:
  "mapped_to_ram (store_word k v m) va = mapped_to_ram m va"
  "mapped_to_ram (set_vmaok b m) va = mapped_to_ram m va"
  "ram_cell (store_word k v m) va = ram_cell m va" "ram_cell (set_vmaok b m) va = ram_cell m va"
  by (simp_all add: mapped_to_ram_def ram_cell_def Let_def)

lemma vm_write_read:
  assumes "uvmem_wf (vmem m)" "mapped_to_ram m va" "mapped_to_ram m va'"
  shows "\<exists>m1. vmWrite va v m = Inr m1 \<and>
    (\<exists>m2. vmRead va' pv m1 =
      Inr (if ram_cell m va' = ram_cell m va then v
           else pages (mem m) (fst (ram_cell m va')) (snd (ram_cell m va')), m2))"
proof -
  let ?m1 = "store_word (ram_cell m va) v (set_vmaok True m)"
  have "vmWrite va v m = Inr ?m1"
    by (simp add: vmWrite_def vm_ram(1) [OF assms(1,2)])
  moreover have "vmRead va' pv ?m1 = Inr (pages (mem ?m1) (fst (ram_cell m va')) (snd (ram_cell m va')),
      set_vmaok True ?m1)"
    unfolding vmRead_def using vm_ram(2) [of ?m1 va' pv] assms by simp
  ultimately show ?thesis
    by (auto simp: store_word_def prod_eq_iff)
qed

section \<open>A word through the Unibus map\<close>

text \<open>The byte address of half \<open>h\<close> of word \<open>w\<close> of page \<open>p\<close> of the mapped window.\<close>

definition window_address :: "nat \<Rightarrow> nat \<Rightarrow> nat \<Rightarrow> u32" where
  "window_address p w h = of_nat (0xC000 + 0x400 * p + 4 * w + 2 * h)"

lemma unat_window:
  assumes "p < 16" "w < 256" "h < 2"
  shows "unat (window_address p w h) = 0xC000 + 0x400 * p + 4 * w + 2 * h"
  using assms by (simp add: window_address_def unat_of_nat del: of_nat_add)

lemma window_fields:
  assumes "p < 16" "w < 256" "h < 2"
  shows "0xC000 \<le> window_address p w h" "window_address p w h \<le> 0xFFFF"
    and "unat ((window_address p w h - 0xC000) div 0x400) = p"
    and "drop_bit 2 (window_address p w h) AND 0xFF = of_nat w"
    and "drop_bit 1 (window_address p w h) AND 1 \<noteq> 0 \<longleftrightarrow> h = 1"
proof -
  note u = unat_window [OF assms]
  show le: "0xC000 \<le> window_address p w h" "window_address p w h \<le> 0xFFFF"
    using assms by (simp_all add: word_le_nat_alt u)
  have "unat (window_address p w h - 0xC000) = 0x400 * p + (4 * w + 2 * h)"
    using le(1) by (simp add: unat_sub u)
  then show "unat ((window_address p w h - 0xC000) div 0x400) = p"
    using assms by (simp add: unat_div)
  have "unat (drop_bit 2 (window_address p w h)) = 0x3000 + 0x100 * p + w"
    by (subst unsigned_drop_bit_eq, subst u) (use assms in \<open>simp add: drop_bit_eq_div take_bit_eq_mod\<close>)
  moreover have "(0x3000 + 0x100 * p + w) mod 2 ^ 8 = w"
  proof -
    have "0x3000 + 0x100 * p + w = w + (48 + p) * 2 ^ 8"
      by simp
    then show ?thesis
      using assms(2) by (simp only: mod_mult_self1) simp
  qed
  ultimately have "unat (drop_bit 2 (window_address p w h) AND mask 8) = w"
    unfolding take_bit_eq_mask [symmetric] unsigned_take_bit_eq by (simp only: take_bit_eq_mod)
  then have "drop_bit 2 (window_address p w h) AND mask 8 = (of_nat w :: u32)"
    by (metis of_nat_unat ucast_id)
  then show "drop_bit 2 (window_address p w h) AND 0xFF = of_nat w"
    by (simp add: mask_eq_exp_minus_1)
  have "unat (drop_bit 1 (window_address p w h)) = 0x6000 + 0x200 * p + 2 * w + h"
    by (subst unsigned_drop_bit_eq, subst u) (use assms in \<open>simp add: drop_bit_eq_div take_bit_eq_mod\<close>)
  then have "odd (unat (drop_bit 1 (window_address p w h))) \<longleftrightarrow> h = 1"
    using assms(3) by (cases "h = 0") (auto simp: less_2_cases_iff)
  then show "drop_bit 1 (window_address p w h) AND 1 \<noteq> 0 \<longleftrightarrow> h = 1"
    using bit_unsigned_iff [where 'a = nat, of "drop_bit 1 (window_address p w h)" 0]
    by (simp add: and_one_eq mod_2_eq_odd bit_0)
qed

text \<open>A window page that is valid, may be written and maps a present page of main memory.\<close>

definition window_to_ram :: "'a diag_sys_scheme \<Rightarrow> nat \<Rightarrow> bool" where
  "window_to_ram m p \<longleftrightarrow>
     (let r = unibus_mapping_registers (umap m) p; pn = ucast (r AND 0x3FFF) :: u32 in
      drop_bit 15 r AND 1 \<noteq> 0 \<and> drop_bit 14 r AND 1 \<noteq> 0 \<and>
      pn \<le> 0x3BFB \<and> pn < main_memory_npages (mem m))"

definition window_cell :: "'a diag_sys_scheme \<Rightarrow> nat \<Rightarrow> nat \<Rightarrow> nat \<times> nat" where
  "window_cell m p w = (unat (unibus_mapping_registers (umap m) p AND 0x3FFF), w)"

lemma bits_pn_of_nat:
  fixes pn :: u32
  assumes "w < 256" "pn \<le> 0x3BFB"
  shows "drop_bit 8 (push_bit 8 pn OR of_nat w) AND 0x3FFF = pn"
    "unat ((push_bit 8 pn OR of_nat w) AND 0xFF) = w"
proof -
  have "pn = pn AND 0x3FFF"
    using assms(2) by (intro and_low_id(3) [symmetric]) (simp add: word_le_nat_alt)
  moreover have "of_nat w = (of_nat w AND 0xFF :: u32)"
  proof -
    have w: "unat (of_nat w :: u32) = w"
      using assms(1) by (simp add: unat_of_nat)
    have "unat (take_bit 8 (of_nat w :: u32)) = unat (of_nat w :: u32)"
      unfolding unsigned_take_bit_eq w using assms(1) by (simp add: take_bit_eq_mod)
    then have "take_bit 8 (of_nat w :: u32) = of_nat w"
      by (rule unsigned_word_eqI)
    then show ?thesis
      by (simp add: take_bit_eq_mask mask_eq_exp_minus_1)
  qed
  ultimately show "drop_bit 8 (push_bit 8 pn OR of_nat w) AND 0x3FFF = pn"
    "unat ((push_bit 8 pn OR of_nat w) AND 0xFF) = w"
    using bits_pn [of pn "of_nat w"] assms(1) by (simp_all add: unat_of_nat)
qed

lemma unat_ucast_16: "unat (ucast (x :: u16) :: u32) = unat x"
proof -
  have "unat x < 2 ^ LENGTH(16)"
    by (rule unsigned_less)
  then have "unat x < 2 ^ LENGTH(32)"
    by simp
  then show ?thesis
    by (simp only: unsigned_ucast_eq take_bit_nat_eq_self_iff)
qed

text \<open>The mapping register that an address of the window selects decides the cycle.\<close>

lemma unibus_window_rw:
  assumes "p < 16" "w < 256" "h < 2" "window_to_ram m p"
  shows "bus_adaptor_unibus_rw wr (window_address p w h) pv m =
    unibus_map_xbus wr (h = 1) p
      (push_bit 8 (ucast (unibus_mapping_registers (umap m) p AND 0x3FFF)) OR of_nat w) pv m"
proof -
  let ?r = "unibus_mapping_registers (umap m) p"
  note f = window_fields [OF assms(1-3)]
  have r: "drop_bit 15 ?r AND 1 \<noteq> 0" "drop_bit 14 ?r AND 1 \<noteq> 0"
    and pn: "(ucast (?r AND 0x3FFF) :: u32) \<le> 0x3BFB"
    using assms(4) by (simp_all add: window_to_ram_def Let_def)
  have "unat (?r AND 0x3FFF) = unat (ucast (?r AND 0x3FFF) :: u32)"
    by (rule unat_ucast_16 [symmetric])
  then have "\<not> ?r AND 0x3FFF \<ge> 0x3E00"
    using pn by (simp add: word_le_nat_alt)
  then show ?thesis
    using f(1,2) r
    by (simp only: bus_adaptor_unibus_rw_def unibus_map_rw_def Let_def f(3,4,5) unibus_map_paddr_def
        if_True if_False simp_thms)
qed

lemma xbus_ram:
  assumes "pn \<le> 0x3BFB" "w < 256" "pn < main_memory_npages (mem m)"
  shows "bus_adaptor_xbus_rw True (push_bit 8 pn OR of_nat w) v m = Inr (v, store_word (unat pn, w) v m)"
    and "bus_adaptor_xbus_rw False (push_bit 8 pn OR of_nat w) v m = Inr (pages (mem m) (unat pn) w, m)"
  unfolding bus_adaptor_xbus_rw_def main_memory_write_def main_memory_read_def Let_def
    bits_pn_of_nat [OF assms(2,1)]
  using assms by (simp_all add: store_word_def)

lemma halves:
  "(push_bit 16 (ucast hi) AND 0xFFFF0000) OR ucast lo = (push_bit 16 (ucast (hi :: u16)) OR ucast (lo :: u16) :: u32)"
  "ucast ((x :: u32) AND 0x0000FFFF) = (ucast x :: u16)"
  "ucast (drop_bit 16 (x :: u32) AND 0x0000FFFF) = (ucast (drop_bit 16 x) :: u16)"
proof -
  have m: "(0xFFFF0000 :: u32) = push_bit 16 (mask 16)" "(0x0000FFFF :: u32) = mask 16"
    by (simp_all add: mask_eq_exp_minus_1)
  show "(push_bit 16 (ucast hi) AND 0xFFFF0000) OR ucast lo = (push_bit 16 (ucast (hi :: u16)) OR ucast (lo :: u16) :: u32)"
    "ucast ((x :: u32) AND 0x0000FFFF) = (ucast x :: u16)"
    "ucast (drop_bit 16 (x :: u32) AND 0x0000FFFF) = (ucast (drop_bit 16 x) :: u16)"
    unfolding m by (auto intro!: bit_word_eqI simp: bit_simps dest: bit_imp_le_length)
qed

lemma window_write:
  assumes "p < 16" "w < 256" "window_to_ram m p"
  shows "and_then (bus_adaptor_unibus_write (window_address p w 0) lo m)
      (bus_adaptor_unibus_write (window_address p w 1) hi) =
    Inr (store_word (window_cell m p w) (push_bit 16 (ucast hi) OR ucast lo) (unibus_map_buffer p lo m))"
proof -
  let ?pn = "ucast (unibus_mapping_registers (umap m) p AND 0x3FFF) :: u32"
  let ?m1 = "unibus_map_buffer p lo m"
  have pn: "?pn \<le> 0x3BFB" "?pn < main_memory_npages (mem m)" "window_to_ram ?m1 p"
    using assms(3) by (simp_all add: window_to_ram_def unibus_map_buffer_def Let_def)
  have 1: "bus_adaptor_unibus_write (window_address p w 0) lo m = Inr ?m1"
    using unibus_window_rw [OF assms(1,2) _ assms(3), of 0]
    by (simp add: bus_adaptor_unibus_write_def unibus_map_xbus_def)
  have "bus_adaptor_unibus_rw True (window_address p w 1) hi ?m1 =
      Inr (hi, store_word (unat ?pn, w) (push_bit 16 (ucast hi) OR ucast lo) ?m1)"
    using unibus_window_rw [OF assms(1,2) _ pn(3), of 1 True hi]
      xbus_ram(1) [OF pn(1) assms(2), of ?m1] pn(2)
    by (simp add: unibus_map_xbus_def halves Let_def unibus_map_buffer_def del: One_nat_def)
  then show ?thesis
    unfolding 1 by (simp add: bus_adaptor_unibus_write_def window_cell_def unat_ucast_16)
qed

lemma window_read:
  assumes "p < 16" "w < 256" "window_to_ram m p"
  defines "v \<equiv> pages (mem m) (fst (window_cell m p w)) w"
  shows "\<exists>m1. bus_adaptor_unibus_read (window_address p w 0) x m = Inr (ucast v, m1) \<and> mem m1 = mem m \<and>
    bus_adaptor_unibus_read (window_address p w 1) y m1 = Inr (ucast (drop_bit 16 v), m1)"
proof -
  let ?pn = "ucast (unibus_mapping_registers (umap m) p AND 0x3FFF) :: u32"
  let ?m1 = "unibus_map_buffer p (ucast (drop_bit 16 v)) m"
  have pn: "?pn \<le> 0x3BFB" "?pn < main_memory_npages (mem m)" "window_to_ram ?m1 p"
    using assms(3) by (simp_all add: window_to_ram_def unibus_map_buffer_def Let_def)
  have v: "pages (mem m) (unat ?pn) w = v"
    by (simp add: v_def window_cell_def unat_ucast_16)
  have "bus_adaptor_unibus_read (window_address p w 0) x m = Inr (ucast v, ?m1)"
    using unibus_window_rw [OF assms(1,2) _ assms(3), of 0 False x] xbus_ram(2) [OF pn(1) assms(2) pn(2)]
    by (simp add: bus_adaptor_unibus_read_def unibus_map_xbus_def halves v)
  moreover have "bus_adaptor_unibus_read (window_address p w 1) y ?m1 = Inr (ucast (drop_bit 16 v), ?m1)"
    using unibus_window_rw [OF assms(1,2) _ pn(3), of 1 False y]
    by (simp add: bus_adaptor_unibus_read_def unibus_map_xbus_def) (simp add: unibus_map_buffer_def)
  ultimately show ?thesis
    by (intro exI [of _ ?m1]) (simp add: unibus_map_buffer_def)
qed

end
