(* ===== verification/Memory_Properties.thy ===== *)
theory Memory_Properties
  imports Cpu_Properties Memory_Paths
begin

text \<open>
  The properties of the memory system: main memory as a store, virtual accesses, the map, words moved
  through the Unibus map, and what a bus cycle can change.
\<close>

unbundle bit_operations_syntax

section \<open>Main memory\<close>

text \<open>
  C16: after any sequence of writes to populated addresses, a populated address reads the last value written
  to its cell, and what it read before when its cell has not been written.
\<close>

theorem main_memory_history:
  assumes "\<forall>p\<in>set ps. fst (main_memory_read (fst p) m)" and "fst (main_memory_read a m)"
  shows "snd (main_memory_read a (fold (\<lambda>(k, v) m. snd (main_memory_write k v m)) ps m)) =
    (case map_of (rev (map (\<lambda>(k, v). (mem_cell k, v)) ps)) (mem_cell a) of
       None \<Rightarrow> snd (main_memory_read a m) | Some v \<Rightarrow> v)"
  using assms main_mem.rd_writes [of ps m a] by (simp add: main_memory_read_ok)

text \<open>A machine with two pages of memory, both mapped for reading and writing at virtual address 0.\<close>

definition mapped_machine :: machine where
  "mapped_machine = zero_machine\<lparr>mem := zero_main_memory\<lparr>main_memory_npages := 2\<rparr>,
     vmem := zero_uvmem\<lparr>l2_map := (\<lambda>_. 0)(0 := 0xC00000, 1 := 0xC00001, 2 := 0x800001)\<rparr>,
     umap := zero_unibus_mapping\<lparr>unibus_mapping_registers := (\<lambda>_. 0)(3 := 0xC001)\<rparr>\<rparr>"

lemmas mapped_defs = mapped_machine_def zero_machine_def zero_main_memory_def zero_uvmem_def zero_unibus_mapping_def

lemma mapped_machine_wf: "uvmem_wf (vmem mapped_machine)"
  by (simp add: uvmem_wf_def mapped_defs)

theorem main_memory_history_witness:
  "snd (main_memory_read 0x105 (fold (\<lambda>(k, v) m. snd (main_memory_write k v m)) [(0x105, 7), (5, 8)] mapped_machine)) = 7"
  using main_memory_history [of "[(0x105, 7), (5, 8)]" mapped_machine "0x105"]
  by (simp add: mem_cell_def main_memory_read_def mapped_defs Let_def)

section \<open>Virtual memory\<close>

text \<open>
  C17: a virtual write to a word of main memory, followed by a virtual read, through pages with access and write rights: the
  read delivers the written value when both addresses map to the same word of the same page, and what that word held before
  otherwise.
\<close>

theorem virtual_write_read:
  assumes "uvmem_wf (vmem m)" "mapped_to_ram m va" "mapped_to_ram m va'"
  shows "\<exists>m1. vmWrite va v m = Inr m1 \<and>
    (\<exists>m2. vmRead va' pv m1 =
      Inr (if ram_cell m va' = ram_cell m va then v
           else pages (mem m) (fst (ram_cell m va')) (snd (ram_cell m va')), m2))"
  by (rule vm_write_read [OF assms])

lemma mapped_machine_ram: "mapped_to_ram mapped_machine 5" "mapped_to_ram mapped_machine 0x105"
  "ram_cell mapped_machine 5 = (0, 5)" "ram_cell mapped_machine 0x105 = (1, 5)"
  by (simp_all add: mapped_to_ram_def ram_cell_def translation_def l2_slot_def Let_def mapped_defs)

theorem virtual_write_read_witness:
  "\<exists>m1. vmWrite 5 9 mapped_machine = Inr m1 \<and> (\<exists>m2. vmRead 0x105 3 m1 = Inr (0, m2))"
proof -
  have "pages (mem mapped_machine) p i = 0" for p i
    by (simp add: mapped_defs)
  then show ?thesis
    using virtual_write_read [OF mapped_machine_wf mapped_machine_ram(1,2), of 9 3]
    by (simp add: mapped_machine_ram)
qed

text \<open>
  C18: an access without the access right, or a write without the write right, clears the \<open>vmaok\<close> flag,
  delivers 0 and changes nothing else.
\<close>

theorem virtual_access_denied:
  assumes "uvmem_wf (vmem m)"
    and "uvmem_vtop (ndebug m) (va AND 0x00FFFFFF) (vmem m) = Inr t"
    and "\<not> vt_access_permission t \<or> w \<and> \<not> vt_write_permission t"
  shows "vm w va v m = Inr (0, m\<lparr>ms := (ms m)\<lparr>vmaok := False\<rparr>\<rparr>)"
  using assms by (auto simp: vm_def Let_def set_vmaok_def)

theorem virtual_access_denied_witness:
  "vm True 0x205 7 mapped_machine = Inr (0, mapped_machine\<lparr>ms := zero_machine_state_s\<lparr>vmaok := False\<rparr>\<rparr>)"
proof -
  obtain t where "uvmem_vtop (ndebug mapped_machine) (0x205 AND 0x00FFFFFF) (vmem mapped_machine) = Inr t"
      "\<not> vt_write_permission t"
    by (simp add: uvmem_vtop_def mapped_defs Let_def c_assert_def)
  from virtual_access_denied [OF mapped_machine_wf this(1), of True] this(2) show ?thesis
    by (simp add: mapped_defs)
qed

lemma entry_fields:
  "(w AND 0x00FFFFFF) AND 0x3FFF = (w :: u32) AND 0x3FFF"
  "bit ((w :: u32) AND 0x00FFFFFF) 22 = bit w 22" "bit ((w :: u32) AND 0x00FFFFFF) 23 = bit w 23"
proof -
  have m: "(0x00FFFFFF :: u32) = mask 24"
    by (simp add: mask_eq_exp_minus_1)
  show "(w AND 0x00FFFFFF) AND 0x3FFF = w AND 0x3FFF"
    by (simp add: and.assoc)
  show "bit (w AND 0x00FFFFFF) 22 = bit w 22" "bit (w AND 0x00FFFFFF) 23 = bit w 23"
    unfolding m by (simp_all add: bit_simps)
qed

text \<open>
  a write of the second level map (VMA bit 25, not bit 26) makes exactly the addresses that select the
  slot of the address in MD translate to the page and the rights given in the VMA; every other address
  translates as before.
\<close>

lemma map_write_translation:
  assumes "uvmem_wf (vmem m)" "bit (vma_reg (cpu m)) 25" "\<not> bit (vma_reg (cpu m)) 26"
  shows "\<exists>m1. write_map m = Inr m1 \<and>
    (\<forall>va. if l2_slot (vmem m) va = l2_slot (vmem m) (md_reg (cpu m))
      then \<exists>t. uvmem_vtop nd va (vmem m1) = Inr t \<and> vt_pn t = vma_reg (cpu m) AND 0x3FFF \<and>
        vt_paddr t = push_bit 8 (vma_reg (cpu m) AND 0x3FFF) OR (va AND 0xFF) \<and>
        vt_write_permission t = bit (vma_reg (cpu m)) 22 \<and> vt_access_permission t = bit (vma_reg (cpu m)) 23
      else uvmem_vtop nd va (vmem m1) = uvmem_vtop nd va (vmem m))"
proof -
  let ?e = "vma_reg (cpu m) AND 0x00FFFFFF"
  let ?u = "(vmem m)\<lparr>l2_map := (l2_map (vmem m))(l2_slot (vmem m) (md_reg (cpu m)) := ?e)\<rparr>"
  have w: "uvmem_write_map nd (vma_reg (cpu m)) (md_reg (cpu m)) (vmem m) = Inr ?u" for nd
    by (rule write_map_l2 [OF assms])
  have wf: "uvmem_wf ?u"
    using uvmem_write_map_ok [OF assms(1), of True "vma_reg (cpu m)" "md_reg (cpu m)"] w by simp
  have e: "?e AND 0x3FFF = vma_reg (cpu m) AND 0x3FFF" "bit ?e 22 = bit (vma_reg (cpu m)) 22"
    "bit ?e 23 = bit (vma_reg (cpu m)) 23"
    by (rule entry_fields)+
  show ?thesis
    by (intro exI [of _ "m\<lparr>vmem := ?u\<rparr>"])
      (simp add: write_map_def w vtop_translation [OF wf] vtop_translation [OF assms(1)]
        translation_after_l2 e)
qed

section \<open>The Unibus map\<close>

text \<open>
  two Unibus writes, of the low and then the high half of a word in the mapped window, store the 32-bit
  word in the main memory word the mapping register names; nothing else changes but the buffer of the
  mapping register.
\<close>

lemma unibus_window_write:
  assumes "p < 16" "w < 256" "window_to_ram m p"
  shows "and_then (bus_adaptor_unibus_write (window_address p w 0) lo m)
      (bus_adaptor_unibus_write (window_address p w 1) hi) =
    Inr (store_word (window_cell m p w) (push_bit 16 (ucast hi) OR ucast lo) (unibus_map_buffer p lo m))"
  by (rule window_write [OF assms])

lemma mapped_machine_window: "window_to_ram mapped_machine 3"
  by (simp add: window_to_ram_def mapped_defs Let_def)

text \<open>
  two Unibus reads in that order deliver the two halves of the word, and main memory is unchanged.
\<close>

lemma unibus_window_read:
  assumes "p < 16" "w < 256" "window_to_ram m p"
    and "v = pages (mem m) (fst (window_cell m p w)) w"
  shows "\<exists>m1. bus_adaptor_unibus_read (window_address p w 0) x m = Inr (ucast v, m1) \<and> mem m1 = mem m \<and>
    bus_adaptor_unibus_read (window_address p w 1) y m1 = Inr (ucast (drop_bit 16 v), m1)"
  unfolding assms(4) by (rule window_read [OF assms(1-3)])

section \<open>Bus cycles\<close>

text \<open>
  C19: a bus cycle keeps the invariant of the machine's components, and leaves alone the virtual memory map
  (and what else lies beyond the buses), the keyboard, the halt flag, and of the processor everything
  but the debug instruction register and MD.
\<close>

theorem bus_cycle_frame:
  assumes "sys_inv m" "bus_adaptor_rw w paddr pv m = Inr (v, m')"
  shows "sys_inv m' \<and> diag_sys.more m' = diag_sys.more m \<and> kbd m' = kbd m \<and> halted (ms m') = halted (ms m) \<and>
    vmaok (ms m') = vmaok (ms m) \<and>
    cpu m' = (cpu m)\<lparr>debug_ir := debug_ir (cpu m'), md_reg := md_reg (cpu m')\<rparr>"
  using bus_ok_rw [OF assms(2)] assms(1) by (auto simp: bus_ok_def bus_frame_def bus_cpu_def)

theorem bus_cycle_frame_witness:
  "sys_inv (snd (projr (bus_adaptor_rw True 0x3DFFFE 5 (machine_control_power_on zero_machine))))"
proof -
  have "\<exists>m'. bus_adaptor_rw True 0x3DFFFE 5 (machine_control_power_on zero_machine) = Inr (5, m')"
    by (simp add: bus_adaptor_rw_def bus_adaptor_xbus_rw_def bus_adaptor_xbusio_rw_def disk_controller_write_def
        machine_control_power_on_def Let_def)
  then obtain m' where "bus_adaptor_rw True 0x3DFFFE 5 (machine_control_power_on zero_machine) = Inr (5, m')" ..
  from bus_cycle_frame [OF _ this] this show ?thesis
    using machine_wfD(1) [OF zero_powered_on] by simp
qed

text \<open>
  a cycle at a Unibus address of the processor that no device answers reads 0 and sets the Unibus NXM
  error, unless non-existent memory errors are inhibited.
\<close>

lemma unibus_nxm:
  assumes "paddr AND 0xFFC00000 = 0" "0x3E00 \<le> drop_bit 8 paddr AND 0x3FFF"
    and "\<forall>(lo, hi) \<in> {(0xC000, 0xFFFF), (0x3E800, 0x3E87E), (0x3EC00, 0x3EC1E), (0x3EC20, 0x3EC5E),
        (0x3EC60, 0x3EC7E), (0x3F550, 0x3F55A)}. \<not> (lo \<le> unibus_address paddr \<and> unibus_address paddr \<le> hi)"
  shows "\<exists>m1. bus_adaptor_read paddr pv m = Inr (0, m1) \<and> bus_adaptor_write paddr v m = Inr m1 \<and>
    (\<not> nxm_inhibited (bif m) \<longrightarrow> bus_interface_is_unibus_nxm m1) \<and> (nxm_inhibited (bif m) \<longrightarrow> m1 = m)"
proof -
  let ?m1 = "bus_interface_set_unibus_nxm m"
  have pn: "\<not> drop_bit 8 paddr AND 0x3FFF \<le> 0x3BFB" "\<not> drop_bit 8 paddr AND 0x3FFF \<le> 0x3DFF"
    "drop_bit 8 paddr AND 0x3FFF \<le> 0x3FFF"
    using assms(2) and_14bits [of "drop_bit 8 paddr"]
    by (auto simp: word_le_nat_alt simp del: and_14bits)
  have u: "bus_adaptor_unibus_rw wr (unibus_address paddr) x m = Inr (if wr then x else 0, ?m1)" for wr x
  proof -
    let ?a = "unibus_address paddr"
    have "(0xC000 \<le> ?a \<and> ?a \<le> 0xFFFF) = False" "(0x3E800 \<le> ?a \<and> ?a \<le> 0x3E87E) = False"
      "(0x3EC00 \<le> ?a \<and> ?a \<le> 0x3EC1E) = False" "(0x3EC20 \<le> ?a \<and> ?a \<le> 0x3EC5E) = False"
      "(0x3EC60 \<le> ?a \<and> ?a \<le> 0x3EC7E) = False" "(0x3F550 \<le> ?a \<and> ?a \<le> 0x3F55A) = False"
      using assms(3) by blast+
    then show ?thesis
      unfolding bus_adaptor_unibus_rw_def by (simp only: if_False)
  qed
  have "bus_adaptor_read paddr pv m = Inr (0, ?m1)" "bus_adaptor_write paddr v m = Inr ?m1"
    using assms(1,2) pn by (simp_all add: bus_adaptor_read_def bus_adaptor_write_def bus_adaptor_rw_def u Let_def)
  then show ?thesis
    by (auto simp: bus_interface_set_unibus_nxm_def bus_interface_is_unibus_nxm_def or_and_absorb)
qed

end
