(* ===== verification/Disk_Commands.thy ===== *)
theory Disk_Commands
  imports Disk_Transfers
begin

text \<open>
  The read and write commands of the disk controller from the write of its start register to the end of the
  transfer: seek to the disk address, run the command list, update the disk address, report completion.
\<close>

unbundle bit_operations_syntax

text \<open>The address in the disk address register lies on the selected unit, at this block.\<close>

definition address_on_unit :: "'a disk_sys_scheme \<Rightarrow> bool" where
  "address_on_unit m \<longleftrightarrow>
     (let p = unit_of (selected_unit (dsk m)) m; (_, c, h, s) = decode_da (dc_da (dsk m))
      in c < du_ncylinders p \<and> h < du_nheads p \<and> s < du_nblocks_per_track p)"

definition addressed_block :: "'a disk_sys_scheme \<Rightarrow> nat" where
  "addressed_block m =
     (let p = unit_of (selected_unit (dsk m)) m; (_, c, h, s) = decode_da (dc_da (dsk m))
      in (unat c * unat (du_nheads p) + unat h) * unat (du_nblocks_per_track p) + unat s)"

text \<open>
  The controller can run command \<open>cmd\<close> on its selected unit: no reset is pending, the unit is online and
  holds the addressed block.
\<close>

definition command_ready :: "u32 \<Rightarrow> 'a disk_sys_scheme \<Rightarrow> bool" where
  "command_ready cmd m \<longleftrightarrow>
     disk_wf (dsk m) \<and> \<not> reset_condition (dsk m) \<and> dc_cmd (dsk m) AND 0xF = cmd \<and>
     du_online (unit_of (selected_unit (dsk m)) m) \<and> address_on_unit m"

text \<open>After a seek to an address of the unit.\<close>

lemma seek_addressed:
  assumes wf: "du_wf p" and lt: "c < du_ncylinders p" "h < du_nheads p" "s < du_nblocks_per_track p"
  shows "fst (disk_unit_seek c h s p)" "du_wf (snd (disk_unit_seek c h s p))"
    "du_blocks (snd (disk_unit_seek c h s p)) = du_blocks p"
  using seek_in_range(1) [OF lt] du_wf_seek [OF wf] by (simp_all add: disk_unit_seek_def du_blocks_def)

text \<open>The state in which the command list is run.\<close>

definition xfer_state :: "bool \<Rightarrow> 'a disk_sys_scheme \<Rightarrow> 'a disk_sys_scheme" where
  "xfer_state read m =
     (let m1 = set_status_active (idle_activity m);
          (u, c, h, s) = decode_da (dc_da (dsk m))
      in upd_unit (unat u) (\<lambda>p. snd (disk_unit_seek c h s p))
           (m1\<lparr>dsk := (dsk m1)\<lparr>xfer_req := \<lparr>xr_ready = True, xr_unit = u, xr_read = read, xr_compare = False,
              xr_clp = dc_clp (dsk m1), xr_cylinder = c, xr_head = h, xr_block = s\<rparr>\<rparr>\<rparr>))"

lemma active_dsk [simp]:
  "dc_da (dsk (set_status_active m)) = dc_da (dsk m)" "dc_clp (dsk (set_status_active m)) = dc_clp (dsk m)"
  "dsk (idle_activity m) = dsk m" "mem (idle_activity m) = mem m"
  by (simp_all add: set_status_active_def upd_status_def idle_activity_def)

lemma xfer_state_sel:
  "mem (xfer_state read m) = mem m"
  "unit_of (selected_unit (dsk m)) (xfer_state read m) =
     (let (_, c, h, s) = decode_da (dc_da (dsk m))
      in snd (disk_unit_seek c h s (unit_of (selected_unit (dsk m)) m)))"
  by (simp_all add: xfer_state_def Let_def case_prod_beta decode_da_def selected_unit_def)

lemma start_xfer:
  assumes "command_ready (if read then 0 else 9) m"
    and "\<not> read \<Longrightarrow> \<not> du_read_only (unit_of (selected_unit (dsk m)) m)"
  shows "disk_controller_write 3 v m =
    and_then (perform_xfer (selected_unit (dsk m)) read False (dc_clp (dsk m)) (xfer_state read m))
      (\<lambda>(_, m2). let m3 = m2\<lparr>dsk := (dsk m2)\<lparr>dc_da := disk_unit_da (unit_of (selected_unit (dsk m)) m2)\<rparr>\<rparr>
        in Inr (set_status_not_active
          (m3\<lparr>dsk := (dsk m3)\<lparr>xfer_req := (xfer_req (dsk m3))\<lparr>xr_ready := False\<rparr>\<rparr>\<rparr>)))"
proof -
  let ?u = "selected_unit (dsk m)" and ?m = "idle_activity m"
  obtain u c h s where da: "decode_da (dc_da (dsk m)) = (u, c, h, s)"
    by (cases "decode_da (dc_da (dsk m))")
  then have u: "unat u = ?u"
    by (simp add: decode_da_def selected_unit_def)
  have ok: "fst (disk_unit_seek c h s (unit_of ?u m))"
    using assms(1) da seek_in_range(1) [of c "unit_of ?u m" h s]
    by (simp add: command_ready_def address_on_unit_def Let_def)
  have "disk_controller_write 3 v m = submit_xfer read False ?m"
    using assms
    by (cases read) (simp_all add: command_ready_def disk_controller_write_def disk_start_def start_read_def
        start_write_def Let_def)
  also have "\<dots> = and_then (perform_xfer ?u read False (dc_clp (dsk m)) (xfer_state read m))
      (\<lambda>(_, m2). let m3 = m2\<lparr>dsk := (dsk m2)\<lparr>dc_da := disk_unit_da (unit_of ?u m2)\<rparr>\<rparr>
        in Inr (set_status_not_active
          (m3\<lparr>dsk := (dsk m3)\<lparr>xfer_req := (xfer_req (dsk m3))\<lparr>xr_ready := False\<rparr>\<rparr>\<rparr>)))"
    using ok
    by (simp add: submit_xfer_def do_xfer_def xfer_state_def da u Let_def split_def and_then_assoc upd_unit_def)
  finally show ?thesis .
qed

lemma xfer_state_unit:
  assumes "command_ready cmd m"
  defines "u \<equiv> selected_unit (dsk m)"
  shows "du_wf (unit_of u (xfer_state read m))" "du_chs (unit_of u (xfer_state read m)) = addressed_block m"
    "du_blocks (unit_of u (xfer_state read m)) = du_blocks (unit_of u m)"
    "du_mm (unit_of u (xfer_state read m)) = du_mm (unit_of u m)"
proof -
  obtain x c h s where da: "decode_da (dc_da (dsk m)) = (x, c, h, s)"
    by (cases "decode_da (dc_da (dsk m))")
  have lt: "c < du_ncylinders (unit_of u m)" "h < du_nheads (unit_of u m)"
    "s < du_nblocks_per_track (unit_of u m)"
    using assms(1) da by (simp_all add: command_ready_def address_on_unit_def Let_def u_def)
  have "u < 8"
    by (simp add: u_def selected_unit_def unat_and_7)
  then have wf: "du_wf (unit_of u m)"
    using assms(1) by (simp add: command_ready_def disk_wf_def u_def)
  show "du_wf (unit_of u (xfer_state read m))" "du_chs (unit_of u (xfer_state read m)) = addressed_block m"
    "du_blocks (unit_of u (xfer_state read m)) = du_blocks (unit_of u m)"
    "du_mm (unit_of u (xfer_state read m)) = du_mm (unit_of u m)"
    using seek_addressed [OF wf lt] seek_in_range(2) [OF lt]
    by (simp_all add: u_def xfer_state_sel Let_def da addressed_block_def)
qed

text \<open>The end of a command reports completion and keeps memory and the unit.\<close>

lemma finished:
  "not_active (dc_status (dsk (set_status_not_active m)))"
  by (simp add: set_status_not_active_def upd_status_def dc_assert_interrupt_def Let_def intr_defs)

lemma perform_status:
  "perform_xfer u read compare clp m = perform_xfer_loop (du_blocks (unit_of u m)) u read compare clp 0
     (upd_status (\<lambda>s. s\<lparr>read_compare_difference := False, ccw_cycle := False,
        nonexistent_memory_error := False\<rparr>) m)"
  by (simp add: perform_xfer_def)

text \<open>A write command stores the pages its command list names in the blocks from the addressed one on.\<close>

lemma write_command:
  assumes "command_ready 9 m" "\<not> du_read_only (unit_of (selected_unit (dsk m)) m)"
    and "ccw_list m (dc_clp (dsk m)) 0 ws" "\<forall>w\<in>set ws. ccw_present m w"
    and "addressed_block m + length ws \<le> du_blocks (unit_of (selected_unit (dsk m)) m)"
  shows "\<exists>m'. disk_controller_write 3 v m = Inr m' \<and> mem m' = mem m \<and> not_active (dc_status (dsk m')) \<and>
    (\<forall>lba. \<forall>i<256. du_block (unit_of (selected_unit (dsk m)) m') lba i =
      (if addressed_block m \<le> lba \<and> lba < addressed_block m + length ws
       then pages (mem m) (ccw_page (ws ! (lba - addressed_block m))) i
       else du_block (unit_of (selected_unit (dsk m)) m) lba i))"
proof -
  let ?u = "selected_unit (dsk m)" and ?x = "xfer_state False m"
  let ?m = "upd_status (\<lambda>s. s\<lparr>read_compare_difference := False, ccw_cycle := False,
    nonexistent_memory_error := False\<rparr>) ?x"
  note unit = xfer_state_unit [OF assms(1), of False]
  have mm: "mem ?m = mem m" "unit_of ?u ?m = unit_of ?u ?x"
    by (simp_all add: xfer_state_sel)
  have blk: "du_block (unit_of ?u ?x) = du_block (unit_of ?u m)"
    by (simp add: du_block_def fun_eq_iff unit(4))
  have "length ws \<le> du_blocks (unit_of ?u m)"
    using assms(5) by simp
  then obtain m2 where m2: "perform_xfer ?u False False (dc_clp (dsk m)) ?x = Inr (True, m2)" "mem m2 = mem m"
    "\<forall>lba. \<forall>i<256. du_block (unit_of ?u m2) lba i =
      (if addressed_block m \<le> lba \<and> lba < addressed_block m + length ws
       then pages (mem m) (ccw_page (ws ! (lba - addressed_block m))) i
       else du_block (unit_of ?u m) lba i)"
    using xfer_loop_write [of ?m ?u "dc_clp (dsk m)" 0 ws "du_blocks (unit_of ?u m)" False] assms(3-5) unit
    unfolding perform_status mm blk [symmetric] unit(2)
    by (simp add: xfer_state_sel(1) ccw_list_cong [OF mm(1)] ccw_present_def) blast
  then show ?thesis
    using start_xfer [of False m v] assms(1,2) by (simp add: finished Let_def)
qed

text \<open>A read command brings the blocks from the addressed one on into the pages its command list names.\<close>

lemma read_command:
  assumes "command_ready 0 m"
    and "ccw_list m (dc_clp (dsk m)) 0 ws" "\<forall>w\<in>set ws. ccw_present m w"
    and "addressed_block m + length ws \<le> du_blocks (unit_of (selected_unit (dsk m)) m)"
    and "distinct (map ccw_page ws)"
    and "\<forall>w\<in>set ws. \<forall>j<length ws. fetch_page (dc_clp (dsk m)) (of_nat j) \<noteq> ccw_page w"
  shows "\<exists>m'. disk_controller_write 3 v m = Inr m' \<and> not_active (dc_status (dsk m')) \<and>
    du_mm (unit_of (selected_unit (dsk m)) m') = du_mm (unit_of (selected_unit (dsk m)) m) \<and>
    (\<forall>j<length ws. \<forall>i<256. pages (mem m') (ccw_page (ws ! j)) i =
       du_block (unit_of (selected_unit (dsk m)) m) (addressed_block m + j) i) \<and>
    (\<forall>q. q \<notin> ccw_page ` set ws \<longrightarrow> pages (mem m') q = pages (mem m) q)"
proof -
  let ?u = "selected_unit (dsk m)" and ?x = "xfer_state True m"
  let ?m = "upd_status (\<lambda>s. s\<lparr>read_compare_difference := False, ccw_cycle := False,
    nonexistent_memory_error := False\<rparr>) ?x"
  note unit = xfer_state_unit [OF assms(1), of True]
  have mm: "mem ?m = mem m" "unit_of ?u ?m = unit_of ?u ?x"
    by (simp_all add: xfer_state_sel)
  have blk: "du_block (unit_of ?u ?x) = du_block (unit_of ?u m)"
    by (simp add: du_block_def fun_eq_iff unit(4))
  have "length ws \<le> du_blocks (unit_of ?u m)"
    using assms(4) by simp
  then obtain m2 where m2: "perform_xfer ?u True False (dc_clp (dsk m)) ?x = Inr (True, m2)"
    "du_mm (unit_of ?u m2) = du_mm (unit_of ?u m)"
    "\<forall>j<length ws. \<forall>i<256. pages (mem m2) (ccw_page (ws ! j)) i =
       du_block (unit_of ?u m) (addressed_block m + j) i"
    "\<forall>q. q \<notin> ccw_page ` set ws \<longrightarrow> pages (mem m2) q = pages (mem m) q"
    using xfer_loop_read [of ?m ?u "dc_clp (dsk m)" 0 ws "du_blocks (unit_of ?u m)"] assms(2-6) unit
    unfolding perform_status mm blk [symmetric] unit(2)
    by (simp add: xfer_state_sel(1) ccw_list_cong [OF mm(1)] ccw_present_def) blast
  then show ?thesis
    using start_xfer [of True m v] assms(1) by (simp add: finished Let_def)
qed

end
