(* ===== verification/Tape_Ends.thy ===== *)
theory Tape_Ends
  imports Tape_Spacing Instruction_Faults
begin

text \<open>
  Every tape command ends: given as many iterations as the byte count and the length of the medium can
  ask for, \<open>tape_controller_go\<close> returns, or stops with a fault of the bus cycle it makes; it is never
  still running.  A read also needs the record on the tape to have an even length, since the record
  length goes down by two and would step over zero.
\<close>

unbundle bit_operations_syntax

lemma bus_ok_inv: "bus_ok m m' \<Longrightarrow> sys_inv m \<Longrightarrow> sys_inv m'"
  by (simp add: bus_ok_def)

lemma tape_ok_inv: "tape_ok m m' \<Longrightarrow> sys_inv m \<Longrightarrow> sys_inv m'"
  by (rule bus_ok_inv [OF bus_ok_of_tape])

lemma stops_unibus_cycles:
  "sys_inv m \<Longrightarrow> stops_in (bus_adaptor_unibus_read a pv m)"
  "sys_inv m \<Longrightarrow> stops_in (bus_adaptor_unibus_write a v m)"
  unfolding bus_adaptor_unibus_read_def bus_adaptor_unibus_write_def case_prod_beta
  by (intro stops_unibus stops_then stops_Inr; assumption)+

lemma put_word_ok: "bus_ok m m1 \<Longrightarrow> bus_ok m (tape_put_word u w (mtcma_up m1))"
  by (rule bus_ok_after_tape) (auto simp: tape_put_word_def case_prod_beta Let_def)

lemma stops_write_loop:
  "sys_inv m \<Longrightarrow> nat (- sint (mtbrc (tape m))) < k \<Longrightarrow> stops_in (tape_write_loop k u m)"
proof (induction k arbitrary: m)
  case (Suc k)
  show ?case
  proof (cases "mtbrc (tape m) <s 0")
    case True
    have "stops_in (tape_write_loop k u (tape_put_word u w (mtcma_up m1)))"
      if r: "bus_adaptor_unibus_read (mtcma (tape m)) (ucast (indet m ''data'')) m = Inr (w, m1)" for w m1
    proof (rule Suc.IH)
      have eq: "mtbrc (tape (tape_put_word u w (mtcma_up m1))) = mtbrc (tape m) + 2"
        using tape_of_unibus_read [OF r] by (simp add: put_word_count mtcma_up_def upd_tape_def)
      show "nat (- sint (mtbrc (tape (tape_put_word u w (mtcma_up m1))))) < k"
        using sint_up_2 [OF True] Suc.prems(2) unfolding eq by linarith
      show "sys_inv (tape_put_word u w (mtcma_up m1))"
        by (rule bus_ok_inv [OF put_word_ok [OF bus_ok_unibus_read [OF r]] Suc.prems(1)])
    qed
    then show ?thesis
      using True stops_unibus_cycles(1) [OF Suc.prems(1)] by (auto intro!: stops_then)
  qed simp
qed simp

lemma stops_read_loop:
  "sys_inv m \<Longrightarrow> even (unat rl) \<Longrightarrow> unat rl div 2 < k \<Longrightarrow> stops_in (tape_read_loop k u rl m)"
proof (induction k arbitrary: rl m)
  case (Suc k)
  show ?case
  proof (cases "mtbrc (tape m) <s 0 \<and> rl > 0")
    case True
    then have "unat rl \<noteq> 0"
      by (simp add: word_less_nat_alt)
    with Suc.prems(2) have two: "2 \<le> unat rl" by presburger
    then have "unat (rl - 2) = unat rl - 2"
      by (simp add: unat_sub word_le_nat_alt)
    then have rl: "even (unat (rl - 2))" "unat (rl - 2) div 2 < k"
      using Suc.prems two by auto
    obtain v1 m1 v2 m2 where b: "tape_next_byte u ''v1'' m = (v1, m1)"
        "tape_next_byte u ''v2'' m1 = (v2, m2)" by fastforce
    have m2: "bus_ok m m2"
      using b by (meson bus_ok_of_tape bus_ok_trans tape_ok_next_byte)
    have "stops_in (tape_read_loop k u (rl - 2) (mtcma_up m3))"
      if w: "bus_adaptor_unibus_write (mtcma (tape m2)) (push_bit 8 (ucast v2) OR ucast v1) m2 = Inr m3" for m3
      using Suc.IH [OF bus_ok_inv [OF bus_ok_after_tape [OF bus_ok_trans [OF m2 bus_ok_unibus_write [OF w]]
        tape_ok_up(2) [OF tape_ok_refl]] Suc.prems(1)] rl] .
    then show ?thesis
      using True stops_unibus_cycles(2) [OF bus_ok_inv [OF m2 Suc.prems(1)]]
      by (auto simp: b Let_def intro!: stops_then)
  qed auto
qed simp

text \<open>The record a read command finds at the position of the tape.\<close>

definition next_record_length :: "nat \<Rightarrow> 'a tape_sys_scheme \<Rightarrow> u32" where
  "next_record_length u m = assigned (fst (tape_drive_read_uint32 u m)) ''preamble'' m"

lemma stops_tape_read:
  assumes "sys_inv m" and "even (unat (next_record_length u (bus_interface_reset_bus_error_status m)))"
    and "unat (next_record_length u (bus_interface_reset_bus_error_status m)) div 2 < k"
  shows "stops_in (tape_controller_read k u m)"
proof -
  let ?m = "bus_interface_reset_bus_error_status m"
  obtain v m1 where v: "tape_drive_read_uint32 u ?m = (v, m1)" by fastforce
  have "bus_ok m m1"
    using bus_ok_after_tape [OF bus_ok_error_reset [OF bus_ok_refl] tape_ok_read32 [OF tape_ok_refl]] v
    by (metis snd_conv)
  then have "sys_inv m1"
    using bus_ok_inv assms(1) by blast
  then show ?thesis
    using stops_read_loop [of m1 "next_record_length u ?m" k u] assms(2,3)
    by (auto simp: tape_controller_read_def Let_def v next_record_length_def intro!: stops_then)
qed

lemma count_record_length [simp]:
  "mtbrc (tape (bus_interface_reset_bus_error_status m)) = mtbrc (tape m)"
  "mtbrc (tape (snd (tape_drive_write_record_length u n m))) = mtbrc (tape m)"
  by (simp_all add: bus_interface_reset_bus_error_status_def tape_drive_write_record_length_def
      tape_drive_write_uint32_def Let_def case_prod_beta)

lemma stops_tape_write:
  assumes "sys_inv m" "32768 < k"
  shows "stops_in (tape_controller_write k u m)"
proof -
  let ?rl = "- scast (mtbrc (tape m)) :: u64"
  let ?m3 = "bus_interface_reset_bus_error_status (snd (tape_drive_write_record_length u ?rl
      (bus_interface_reset_bus_error_status m)))"
  have "bus_ok m ?m3"
    by (rule bus_ok_error_reset, rule bus_ok_after_tape [OF bus_ok_error_reset [OF bus_ok_refl]]) blast
  then have "sys_inv ?m3"
    using bus_ok_inv assms(1) by blast
  moreover have "nat (- sint (mtbrc (tape ?m3))) < k"
    using mtbrc_bound [of "mtbrc (tape ?m3)"] assms(2) by simp
  ultimately have "stops_in (tape_write_loop k u ?m3)"
    by (rule stops_write_loop)
  then show ?thesis
    by (auto simp: tape_controller_write_def Let_def case_prod_beta intro!: stops_then)
qed

text \<open>The state in which \<open>tape_controller_go\<close> runs the command.\<close>

definition go_state :: "'a tape_sys_scheme \<Rightarrow> 'a tape_sys_scheme" where
  "go_state m0 =
     (let m = tape_controller_reset_mtc_err m0; u = selected_drive m;
          m1 = upd_drive u (td_ready_update (\<lambda>_. False)) m
      in tape_drive_set_bpi u (if mtc_den8 (mtc (tape m1)) then 800 else 1600) m1)"

lemma go_state_ok: "tape_ok m (go_state m)"
  unfolding go_state_def Let_def
  by (intro tape_ok_bpi tape_ok_ready) (auto simp: tape_controller_reset_mtc_err_def)

lemma go_command:
  "tape_controller_go k m =
     (let m0 = tape_controller_reset_mtc_err m in
      if \<not> mts_selr (mts (tape m0)) then Inr (upd_mts (mts_ilc_update (\<lambda>_. True)) m0)
      else and_then (tape_command k (selected_drive m) (go_state m)) (\<lambda>m3.
        Inr (upd_drive (selected_drive m) (td_ready_update (\<lambda>_. True)) m3)))"
  by (simp add: tape_controller_go_def go_state_def Let_def)
    (simp add: selected_drive_def tape_controller_reset_mtc_err_def upd_mts_def)

lemma go_state_fun [simp]: "mtc (tape (go_state m)) = mtc (tape m)"
  by (simp add: go_state_def Let_def tape_drive_set_bpi_def upd_drive_def tape_controller_reset_mtc_err_def
      upd_mts_def)

lemma stops_go:
  assumes inv: "sys_inv m" and k: "spacing_fuel (drive_of (selected_drive m) m) < k"
    and f: "mtc_fun (mtc (tape m)) \<noteq> 1"
  shows "stops_in (tape_controller_go k m)"
proof -
  have go: "sys_inv (go_state m)"
    by (rule tape_ok_inv [OF go_state_ok inv])
  have k': "32768 < k"
    using k by (simp add: spacing_fuel_def)
  show ?thesis
  proof (cases "mtc_fun (mtc (tape m)) = 4 \<or> mtc_fun (mtc (tape m)) = 5")
    case True
    then show ?thesis
      using go_spacing_returns [OF sys_invD(7) [OF inv] True k] by (auto simp: stops_in_def)
  next
    case False
    then show ?thesis
      using f stops_tape_write [OF go k']
      by (auto simp: go_command tape_command_def Let_def intro!: stops_then)
  qed
qed

end
