(* ===== verification/Tape_Records.thy ===== *)
theory Tape_Records
  imports Tape_Ends
begin

text \<open>
  What a write command leaves on the tape: the record length in front of the data and behind them, so that
  the tape can be spaced over the record in both directions.
\<close>

unbundle bit_operations_syntax

section \<open>Bytes and words on the medium\<close>

text \<open>The word of four bytes at an offset, low byte first.\<close>

definition medium_word :: "(int \<Rightarrow> u8) \<Rightarrow> int \<Rightarrow> u32" where
  "medium_word mm p =
     push_bit 24 (ucast (mm (p + 3))) OR push_bit 16 (ucast (mm (p + 2))) OR push_bit 8 (ucast (mm (p + 1)))
       OR ucast (mm p)"

definition put_medium_word :: "u32 \<Rightarrow> int \<Rightarrow> (int \<Rightarrow> u8) \<Rightarrow> int \<Rightarrow> u8" where
  "put_medium_word v p mm =
     mm(p := ucast (v AND 0xFF), p + 1 := ucast (drop_bit 8 v AND 0xFF), p + 2 := ucast (drop_bit 16 v AND 0xFF),
        p + 3 := ucast (drop_bit 24 v AND 0xFF))"

lemma word_of_bytes:
  "push_bit 24 (ucast (ucast (drop_bit 24 v AND 0xFF) :: u8)) OR push_bit 16 (ucast (ucast (drop_bit 16 v AND 0xFF) :: u8)) OR
     push_bit 8 (ucast (ucast (drop_bit 8 v AND 0xFF) :: u8)) OR ucast (ucast (v AND 0xFF) :: u8) = (v :: u32)"
proof -
  have m: "(0xFF :: u32) = mask 8"
    by (simp add: mask_eq_exp_minus_1)
  show ?thesis
  proof (rule bit_word_eqI)
    fix n assume "n < LENGTH(32)"
    then have "n < 8 \<or> n = 8 + (n - 8) \<and> n - 8 < 8 \<or> n = 16 + (n - 16) \<and> n - 16 < 8 \<or>
        n = 24 + (n - 24) \<and> n - 24 < 8"
      by simp linarith
    then consider "n < 8" | k where "n = 8 + k" "k < 8" | k where "n = 16 + k" "k < 8"
      | k where "n = 24 + k" "k < 8"
      by blast
    then show "bit ((push_bit 24 (ucast (ucast (drop_bit 24 v AND 0xFF) :: u8)) OR
        push_bit 16 (ucast (ucast (drop_bit 16 v AND 0xFF) :: u8)) OR
        push_bit 8 (ucast (ucast (drop_bit 8 v AND 0xFF) :: u8)) OR ucast (ucast (v AND 0xFF) :: u8)) :: u32) n = bit v n"
      unfolding m by cases (simp_all add: bit_simps)
  qed
qed

lemma medium_word_put [simp]: "medium_word (put_medium_word v p mm) p = v"
  by (simp add: medium_word_def put_medium_word_def word_of_bytes)

lemma medium_word_cong: "\<forall>i. p \<le> i \<and> i < p + 4 \<longrightarrow> mm' i = mm i \<Longrightarrow> medium_word mm' p = medium_word mm p"
  by (simp add: medium_word_def)

text \<open>\<open>medium_at u m mm p sz\<close>: drive \<open>u\<close> is at offset \<open>p\<close> of a medium of \<open>sz\<close> bytes \<open>mm\<close>; no NXM so far.\<close>

definition medium_at :: "nat \<Rightarrow> 'a tape_sys_scheme \<Rightarrow> (int \<Rightarrow> u8) \<Rightarrow> int \<Rightarrow> int \<Rightarrow> bool" where
  "medium_at u m mm p sz \<longleftrightarrow>
     td_mm (drive_of u m) = mm \<and> td_pos (drive_of u m) = p \<and> td_mmsz (drive_of u m) = sz \<and>
     \<not> mts_nxm (mts (tape m))"

lemma medium_seek:
  "medium_at u m mm p sz \<Longrightarrow> 0 \<le> p + off \<Longrightarrow> p + off \<le> sz \<Longrightarrow>
    medium_at u (tape_drive_seek u off SEEK_CUR m) mm (p + off) sz"
  by (simp add: medium_at_def tape_drive_seek_def Let_def tape_upd_defs)

lemma medium_write8:
  "medium_at u m mm p sz \<Longrightarrow> 0 \<le> p \<Longrightarrow> p < sz \<Longrightarrow>
    fst (tape_drive_write_uint8 u v m) \<and> medium_at u (snd (tape_drive_write_uint8 u v m)) (mm(p := v)) (p + 1) sz"
  by (simp add: medium_at_def tape_drive_write_uint8_def tape_drive_seek_def Let_def tape_upd_defs)

lemma medium_write32:
  assumes "medium_at u m mm p sz" "0 \<le> p" "p + 4 \<le> sz"
  shows "medium_at u (snd (tape_drive_write_uint32 u v m)) (put_medium_word v p mm) (p + 4) sz"
proof -
  obtain b1 m1 where 1: "tape_drive_write_uint8 u (ucast (v AND 0xFF)) m = (b1, m1)" by fastforce
  obtain b2 m2 where 2: "tape_drive_write_uint8 u (ucast (drop_bit 8 v AND 0xFF)) m1 = (b2, m2)" by fastforce
  obtain b3 m3 where 3: "tape_drive_write_uint8 u (ucast (drop_bit 16 v AND 0xFF)) m2 = (b3, m3)" by fastforce
  obtain b4 m4 where 4: "tape_drive_write_uint8 u (ucast (drop_bit 24 v AND 0xFF)) m3 = (b4, m4)" by fastforce
  note w1 = medium_write8 [OF assms(1,2), of "ucast (v AND 0xFF)", unfolded 1 fst_conv snd_conv]
  note w2 = medium_write8 [of u m1 _ "p + 1" sz "ucast (drop_bit 8 v AND 0xFF)", unfolded 2 fst_conv snd_conv]
  note w3 = medium_write8 [of u m2 _ "p + 2" sz "ucast (drop_bit 16 v AND 0xFF)", unfolded 3 fst_conv snd_conv]
  note w4 = medium_write8 [of u m3 _ "p + 3" sz "ucast (drop_bit 24 v AND 0xFF)", unfolded 4 fst_conv snd_conv]
  have "b1" "medium_at u m1 (mm(p := ucast (v AND 0xFF))) (p + 1) sz"
    using w1 assms(3) by auto
  moreover from this(2) have "b2" "medium_at u m2 (mm(p := ucast (v AND 0xFF),
      p + 1 := ucast (drop_bit 8 v AND 0xFF))) (p + 2) sz"
    using w2 assms by (auto simp: add.commute)
  moreover from this(2) have "b3" "medium_at u m3 (mm(p := ucast (v AND 0xFF),
      p + 1 := ucast (drop_bit 8 v AND 0xFF), p + 2 := ucast (drop_bit 16 v AND 0xFF))) (p + 3) sz"
    using w3 assms by (auto simp: add.commute)
  moreover from this(2) have "medium_at u m4 (put_medium_word v p mm) (p + 4) sz"
    using w4 assms by (auto simp: add.commute put_medium_word_def)
  ultimately show ?thesis
    by (simp add: tape_drive_write_uint32_def 1 2 3 4)
qed

lemma medium_read8:
  "medium_at u m mm p sz \<Longrightarrow> 0 \<le> p \<Longrightarrow> p < sz \<Longrightarrow>
    fst (tape_drive_read_uint8 u m) = Some (mm p) \<and> medium_at u (snd (tape_drive_read_uint8 u m)) mm (p + 1) sz"
  by (simp add: medium_at_def tape_drive_read_uint8_def tape_drive_seek_def Let_def tape_upd_defs)

lemma medium_read32:
  assumes "medium_at u m mm p sz" "0 \<le> p" "p + 4 \<le> sz"
  shows "fst (tape_drive_read_uint32 u m) = Some (medium_word mm p)"
    and "medium_at u (snd (tape_drive_read_uint32 u m)) mm (p + 4) sz"
proof -
  obtain b1 m1 where 1: "tape_drive_read_uint8 u m = (b1, m1)" by fastforce
  obtain b2 m2 where 2: "tape_drive_read_uint8 u m1 = (b2, m2)" by fastforce
  obtain b3 m3 where 3: "tape_drive_read_uint8 u m2 = (b3, m3)" by fastforce
  obtain b4 m4 where 4: "tape_drive_read_uint8 u m3 = (b4, m4)" by fastforce
  note r1 = medium_read8 [OF assms(1,2), unfolded 1 fst_conv snd_conv]
  note r2 = medium_read8 [of u m1 mm "p + 1" sz, unfolded 2 fst_conv snd_conv]
  note r3 = medium_read8 [of u m2 mm "p + 2" sz, unfolded 3 fst_conv snd_conv]
  note r4 = medium_read8 [of u m3 mm "p + 3" sz, unfolded 4 fst_conv snd_conv]
  have e1: "b1 = Some (mm p)" "medium_at u m1 mm (p + 1) sz"
    using r1 assms(3) by auto
  then have e2: "b2 = Some (mm (p + 1))" "medium_at u m2 mm (p + 2) sz"
    using r2 assms by (auto simp: add.commute)
  then have e3: "b3 = Some (mm (p + 2))" "medium_at u m3 mm (p + 3) sz"
    using r3 assms by (auto simp: add.commute)
  then have e4: "b4 = Some (mm (p + 3))" "medium_at u m4 mm (p + 4) sz"
    using r4 assms by (auto simp: add.commute)
  show "fst (tape_drive_read_uint32 u m) = Some (medium_word mm p)"
    "medium_at u (snd (tape_drive_read_uint32 u m)) mm (p + 4) sz"
    by (simp_all add: tape_drive_read_uint32_def 1 2 3 4 e1 e2 e3 e4 medium_word_def)
qed

section \<open>The data of a record\<close>

text \<open>A write loop of \<open>n\<close> bytes that meets no bus error writes the \<open>n\<close> bytes from its position on.\<close>

lemma medium_up [simp]:
  "medium_at u (mtcma_up m) mm p sz = medium_at u m mm p sz"
  "medium_at u (mtbrc_up m) mm p sz = medium_at u m mm p sz"
  by (simp_all add: medium_at_def mtcma_up_def mtbrc_up_def upd_tape_def)

lemma medium_cong: "tape m' = tape m \<Longrightarrow> medium_at u m' mm p sz = medium_at u m mm p sz"
  by (simp add: medium_at_def)

lemma medium_put_word:
  assumes "medium_at u m mm p sz" "0 \<le> p" "p + 2 \<le> sz"
  shows "medium_at u (tape_put_word u w m) (mm(p := ucast (w AND 0xFF), p + 1 := ucast (drop_bit 8 w AND 0xFF)))
    (p + 2) sz"
proof -
  obtain b1 m1 where 1: "tape_drive_write_uint8 u (ucast (w AND 0xFF)) m = (b1, m1)" by fastforce
  have "medium_at u m1 (mm(p := ucast (w AND 0xFF))) (p + 1) sz"
    using medium_write8 [OF assms(1,2), of "ucast (w AND 0xFF)"] assms(3) by (simp add: 1)
  then have "medium_at u (snd (tape_drive_write_uint8 u (ucast (drop_bit 8 w AND 0xFF)) (mtbrc_up m1)))
      (mm(p := ucast (w AND 0xFF), p + 1 := ucast (drop_bit 8 w AND 0xFF))) (p + 1 + 1) sz"
    using medium_write8 [of u "mtbrc_up m1" _ "p + 1" sz "ucast (drop_bit 8 w AND 0xFF)"] assms by auto
  then show ?thesis
    by (simp add: tape_put_word_def 1 case_prod_beta add.commute)
qed

lemma medium_write_loop:
  assumes "medium_at u m mm p sz" "sint (mtbrc (tape m)) = - int (2 * n)" "0 \<le> p" "p + 2 * int n \<le> sz"
    and "tape_write_loop k u m = Inr m'" "\<not> mts_nxm (mts (tape m'))"
  shows "\<exists>mm'. medium_at u m' mm' (p + 2 * int n) sz \<and> mtbrc (tape m') = 0 \<and>
    (\<forall>i. i < p \<or> p + 2 * int n \<le> i \<longrightarrow> mm' i = mm i)"
  using assms
proof (induction n arbitrary: m mm p k)
  case 0
  then have "sint (mtbrc (tape m)) = sint (0 :: u16)"
    by simp
  then have "mtbrc (tape m) = 0"
    by (rule signed_word_eqI)
  then have "m' = m"
    using 0 by (cases k) auto
  with 0 \<open>mtbrc (tape m) = 0\<close> show ?case by auto
next
  case (Suc n)
  have neg: "mtbrc (tape m) <s 0"
    using Suc.prems(2) by (simp add: word_sless_alt)
  obtain k' where k: "k = Suc k'"
    using Suc.prems(5) by (cases k) auto
  obtain w m1 where r: "bus_adaptor_unibus_read (mtcma (tape m)) (ucast (indet m ''data'')) m = Inr (w, m1)"
    and rest: "(if bus_failed m1 then Inr (set_nxm m1) else tape_write_loop k' u (tape_put_word u w (mtcma_up m1))) = Inr m'"
    using Suc.prems(5) neg by (auto simp: k fault_simps)
  note t = tape_of_unibus_read [OF r]
  have "\<not> bus_failed m1"
    using rest Suc.prems(6) by (auto simp: set_nxm_def upd_mts_def split: if_splits)
  with rest have loop: "tape_write_loop k' u (tape_put_word u w (mtcma_up m1)) = Inr m'"
    by simp
  let ?m2 = "tape_put_word u w (mtcma_up m1)"
  let ?mm2 = "mm(p := ucast (w AND 0xFF), p + 1 := ucast (drop_bit 8 w AND 0xFF))"
  have m2: "medium_at u ?m2 ?mm2 (p + 2) sz"
    using Suc.prems(1,3,4) by (intro medium_put_word) (simp_all add: medium_cong [OF t])
  have cnt: "mtbrc (tape ?m2) = mtbrc (tape m) + 2"
    using t by (simp add: put_word_count mtcma_up_def upd_tape_def)
  have up: "sint (mtbrc (tape m) + 1) = - int (2 * n + 1)"
    using sint_up [OF neg] Suc.prems(2) by simp
  then have "mtbrc (tape m) + 1 <s 0"
    by (simp add: word_sless_alt)
  from sint_up [OF this] have "sint (mtbrc (tape m) + 2) = sint (mtbrc (tape m)) + 2"
    using up Suc.prems(2) by (simp add: add.assoc)
  then have "sint (mtbrc (tape ?m2)) = - int (2 * n)"
    using Suc.prems(2) cnt by simp
  from Suc.IH [OF m2 this _ _ loop Suc.prems(6)] Suc.prems(3,4) obtain mm' where
    "medium_at u m' mm' (p + 2 + 2 * int n) sz" "mtbrc (tape m') = 0"
    "\<forall>i. i < p + 2 \<or> p + 2 + 2 * int n \<le> i \<longrightarrow> mm' i = ?mm2 i"
    by auto
  then show ?case
    by (intro exI [of _ mm']) (auto simp: algebra_simps)
qed

section \<open>A whole record\<close>

lemma medium_status [simp]:
  "medium_at u (bus_interface_reset_bus_error_status m) mm p sz = medium_at u m mm p sz"
  by (rule medium_cong) (simp add: bus_interface_reset_bus_error_status_def)

text \<open>The record length that a write command puts on the tape: the bytes it has been asked to write.\<close>

lemma record_length_word:
  assumes "sint (x :: u16) = - int n" "n \<le> 32768"
  shows "(- scast x :: u64) = of_nat n" "(ucast (- scast x :: u64) :: u32) = of_nat n"
proof -
  have "(scast x :: u64) = word_of_int (sint x)"
    by (rule scast_eq)
  then show 1: "(- scast x :: u64) = of_nat n"
    unfolding assms(1) by simp
  have "unat (ucast (of_nat n :: u64) :: u32) = unat (of_nat n :: u32)"
    by (simp add: unsigned_ucast_eq unsigned_of_nat)
  then have "(ucast (of_nat n :: u64) :: u32) = of_nat n"
    by (rule unsigned_word_eqI)
  then show "(ucast (- scast x :: u64) :: u32) = of_nat n"
    unfolding 1 .
qed

lemma write_record:
  assumes "medium_at u m mm p sz" "sint (mtbrc (tape m)) = - int (4 * n)" "0 < n"
    and "0 \<le> p" "p + 4 * int n + 8 \<le> sz" "\<not> td_read_only (drive_of u m)"
    and "tape_controller_write k u m = Inr m'" "\<not> mts_nxm (mts (tape m'))"
  shows "\<exists>mm'. medium_at u m' mm' (p + 4 * int n + 8) sz \<and>
    medium_word mm' p = of_nat (4 * n) \<and> medium_word mm' (p + 4 + 4 * int n) = of_nat (4 * n) \<and>
    (\<forall>i. i < p \<or> p + 4 * int n + 8 \<le> i \<longrightarrow> mm' i = mm i)"
proof -
  have n: "4 * n \<le> 32768"
    using sint_greater_eq [of "mtbrc (tape m)"] assms(2) by simp
  let ?rl = "- scast (mtbrc (tape m)) :: u64" and ?v = "of_nat (4 * n) :: u32"
  have rl: "?rl = of_nat (4 * n)" "(ucast ?rl :: u32) = ?v"
    using record_length_word [of "mtbrc (tape m)" "4 * n"] assms(2) n by simp_all
  have "unat (of_nat (4 * n) :: u64) = 4 * n"
    using n by (simp add: unat_of_nat del: of_nat_mult)
  moreover have "take_bit 2 (of_nat (4 * n) :: u64) = 0"
    by (simp only: take_bit_of_nat) (simp add: take_bit_eq_mod)
  ultimately have ok: "\<not> ?rl < 4" "?rl AND 3 = 0"
    using assms(3) unfolding rl(1) by (simp_all add: word_less_nat_alt take_bit_eq_mask mask_eq_exp_minus_1)
  let ?w = "tape_drive_write_record_length u ?rl"
  let ?m1 = "bus_interface_reset_bus_error_status (snd (?w (bus_interface_reset_bus_error_status m)))"
  let ?mm1 = "put_medium_word ?v p mm"
  have m1: "medium_at u ?m1 ?mm1 (p + 4) sz"
    using assms(1,4,5) medium_write32 [of u "bus_interface_reset_bus_error_status m" mm p sz ?v]
    by (simp add: tape_drive_write_record_length_def rl(2))
  note defs = tape_controller_write_def Let_def case_prod_beta
  obtain m4 where loop: "tape_write_loop k u ?m1 = Inr m4"
    using assms(6,7) ok by (cases "tape_write_loop k u ?m1") (simp_all add: defs)
  have m': "m' = (if mts_nxm (mts (tape m4)) then m4 else if mtbrc (tape m4) = 0 then snd (?w m4) else m4)"
    using assms(6,7) ok loop by (simp add: defs split: if_splits)
  have nxm: "\<not> mts_nxm (mts (tape m4))"
    using assms(8) m' by auto
  have "sint (mtbrc (tape ?m1)) = - int (2 * (2 * n))"
    using assms(2) by simp
  from medium_write_loop [OF m1 this _ _ loop nxm] assms(4,5) obtain mm' where
    mm': "medium_at u m4 mm' (p + 4 + 4 * int n) sz" "mtbrc (tape m4) = 0"
      "\<forall>i. i < p + 4 \<or> p + 4 + 4 * int n \<le> i \<longrightarrow> mm' i = ?mm1 i"
    by auto
  let ?mm = "put_medium_word ?v (p + 4 + 4 * int n) mm'"
  have "medium_at u m' ?mm (p + 4 * int n + 8) sz"
    using medium_write32 [OF mm'(1), of ?v] assms(4,5) nxm mm'(2)
    by (simp add: m' tape_drive_write_record_length_def rl(2) algebra_simps)
  moreover have "medium_word ?mm p = medium_word ?mm1 p"
    using mm'(3) assms(3) by (intro medium_word_cong) (auto simp: put_medium_word_def)
  moreover have "\<forall>i. i < p \<or> p + 4 * int n + 8 \<le> i \<longrightarrow> ?mm i = mm i"
    using mm'(3) by (auto simp: put_medium_word_def)
  ultimately show ?thesis
    by (intro exI [of _ ?mm]) simp
qed

section \<open>Spacing over the record\<close>

lemma length_word:
  assumes "0 \<le> n" "n < 2 ^ 31"
  shows "uint (word_of_int n :: u32) = n" "(word_of_int n :: u32) \<noteq> 0xFFFFFFFF"
    "uint (word_of_int n + 4 :: u32) = n + 4"
proof -
  show n: "uint (word_of_int n :: u32) = n"
    using assms by (simp add: uint_word_of_int)
  then show "(word_of_int n :: u32) \<noteq> 0xFFFFFFFF"
    using assms by auto
  show "uint (word_of_int n + 4 :: u32) = n + 4"
    using assms n by (simp add: uint_word_ariths)
qed

lemma medium_eot [simp]:
  "medium_at u (tape_controller_reset_mts_eot m) mm p sz = medium_at u m mm p sz"
  "medium_at u (tape_controller_set_mts_eof m) mm p sz = medium_at u m mm p sz"
  by (simp_all add: medium_at_def tape_upd_defs)

lemma space_back_over:
  assumes m: "medium_at u m mm (p + n + 8) sz" and p: "0 \<le> p" "0 < n" "n < 2 ^ 31" "p + n + 8 \<le> sz"
    and post: "medium_word mm (p + 4 + n) = word_of_int n"
  shows "medium_at u (tape_drive_space_reverse u b m) mm p sz"
proof -
  let ?m1 = "tape_drive_seek u (- 4) SEEK_CUR m"
  obtain v m2 where r: "tape_drive_read_uint32 u ?m1 = (v, m2)" by fastforce
  have m1: "medium_at u ?m1 mm (p + 4 + n) sz"
    using medium_seek [OF m, of "- 4"] p by (simp add: algebra_simps)
  have v: "v = Some (word_of_int n)" and m2: "medium_at u m2 mm (p + 4 + n + 4) sz"
    using medium_read32 [OF m1] p post by (simp_all add: r)
  let ?m4 = "tape_drive_seek u (- (n + 8)) SEEK_CUR m2"
  have "medium_at u ?m4 mm p sz"
    using medium_seek [OF m2, of "- (n + 8)"] p by simp
  then show ?thesis
    using p length_word(1,2) [of n]
    by (simp add: tape_drive_space_reverse_def Let_def r v assigned_def)
qed

lemma space_forward_over:
  assumes m: "medium_at u m mm p sz" and p: "0 \<le> p" "0 < n" "n < 2 ^ 31" "p + n + 12 \<le> sz"
    and pre: "medium_word mm p = word_of_int n"
  shows "medium_at u (tape_drive_space_forward u m) mm
      (if medium_word mm (p + n + 8) = 0xFFFFFFFF then p + n + 12 else p + n + 8) sz"
    and "tape_eof (tape_drive_space_forward u m) \<longleftrightarrow> tape_eof m \<or> medium_word mm (p + n + 8) = 0xFFFFFFFF"
proof -
  obtain v m1 where r1: "tape_drive_read_uint32 u m = (v, m1)" by fastforce
  have v: "v = Some (word_of_int n)" and m1: "medium_at u m1 mm (p + 4) sz"
    using medium_read32 [OF m] p pre by (simp_all add: r1)
  let ?m2 = "tape_drive_seek u (n + 4) SEEK_CUR m1"
  have m2: "medium_at u ?m2 mm (p + n + 8) sz"
    using medium_seek [OF m1, of "n + 4"] p by (simp add: algebra_simps)
  obtain w m3 where r3: "tape_drive_read_uint32 u ?m2 = (w, m3)" by fastforce
  have w: "w = Some (medium_word mm (p + n + 8))" and m3: "medium_at u m3 mm (p + n + 12) sz"
    using medium_read32 [OF m2] p by (simp_all add: r3 add.commute [of 12])
  have m4: "medium_at u (tape_drive_seek u (- 4) SEEK_CUR m3) mm (p + n + 8) sz"
    using medium_seek [OF m3, of "- 4"] p by (simp add: add.commute [of 8])
  have n: "uint (word_of_int n + 4 :: u32) = n + 4"
    using p by (intro length_word) simp_all
  have fwd: "tape_drive_space_forward u m = (if medium_word mm (p + n + 8) = 0xFFFFFFFF
      then tape_controller_set_mts_eof m3 else tape_drive_seek u (- 4) SEEK_CUR m3)"
    by (simp add: tape_drive_space_forward_def Let_def r1 v assigned_def n r3 w)
  show "medium_at u (tape_drive_space_forward u m) mm
      (if medium_word mm (p + n + 8) = 0xFFFFFFFF then p + n + 12 else p + n + 8) sz"
    unfolding fwd using m3 m4 by simp
  have on: "on_medium (drive_of u m)" "on_medium (drive_of u ?m2)"
    using m m2 p by (auto simp: medium_at_def on_medium_def)
  have "moved u m m1" "moved u ?m2 m3"
    using read32_result [OF on(1) r1] read32_result [OF on(2) r3] by blast+
  moreover have "moved u m1 ?m2" "moved u m3 (tape_drive_seek u (- 4) SEEK_CUR m3)"
    by simp_all
  ultimately have "tape_eof m3 = tape_eof m" "tape_eof (tape_drive_seek u (- 4) SEEK_CUR m3) = tape_eof m3"
    unfolding moved_def by metis+
  then show "tape_eof (tape_drive_space_forward u m) \<longleftrightarrow> tape_eof m \<or> medium_word mm (p + n + 8) = 0xFFFFFFFF"
    unfolding fwd by simp
qed

section \<open>Two words from the mapping registers\<close>

text \<open>
  A cycle at the first two mapping registers reads them; a write command that takes its four bytes from
  there meets no bus error.
\<close>

lemma unibus_mapping_register_cycle:
  assumes "a = 0x3EC60 \<or> a = 0x3EC62"
  shows "bus_adaptor_unibus_read a d m = Inr (unibus_mapping_registers (umap m) (unat ((a - 0x3EC60) div 2)), m)"
  using assms by (elim disjE)
    (simp_all add: bus_adaptor_unibus_read_def bus_adaptor_unibus_rw_def unibus_mapping_read_def unibus_mapping_rw_def Let_def)

lemma write8_registers [simp]:
  "mtcma (tape (snd (tape_drive_write_uint8 u v m))) = mtcma (tape m)"
  "mts_nxm (mts (tape (snd (tape_drive_write_uint8 u v m)))) = mts_nxm (mts (tape m))"
  "bif (snd (tape_drive_write_uint8 u v m)) = bif m"
  by (simp_all add: tape_drive_write_uint8_def Let_def tape_drive_seek_def tape_upd_defs)

lemma record_length_registers [simp]:
  "mtcma (tape (snd (tape_drive_write_record_length u v m))) = mtcma (tape m)"
  "mtbrc (tape (snd (tape_drive_write_record_length u v m))) = mtbrc (tape m)"
  "mts_nxm (mts (tape (snd (tape_drive_write_record_length u v m)))) = mts_nxm (mts (tape m))"
  "bif (snd (tape_drive_write_record_length u v m)) = bif m"
  by (simp_all add: tape_drive_write_record_length_def tape_drive_write_uint32_def Let_def case_prod_beta)

lemma put_word_registers [simp]:
  "mtcma (tape (tape_put_word u w (mtcma_up m))) = mtcma (tape m) + 2"
  "mts_nxm (mts (tape (tape_put_word u w (mtcma_up m)))) = mts_nxm (mts (tape m))"
  "mtbrc (tape (tape_put_word u w (mtcma_up m))) = mtbrc (tape m) + 2"
  "bif (tape_put_word u w (mtcma_up m)) = bif m"
  by (simp_all add: tape_put_word_def mtcma_up_def mtbrc_up_def upd_tape_def Let_def case_prod_beta)

lemma two_words_loop:
  assumes "mtbrc (tape m) = - 4" "mtcma (tape m) = 0x3EC60" "bus_error_status (bif m) = 0" "\<not> mts_nxm (mts (tape m))"
  shows "\<exists>m'. tape_write_loop 3 u m = Inr m' \<and> \<not> mts_nxm (mts (tape m')) \<and> mtbrc (tape m') = 0"
  using assms 
  by (simp add: numeral_3_eq_3 unibus_mapping_register_cycle word_sless_alt bus_failed_def bus_interface_is_unibus_map_error_def bus_interface_is_unibus_nxm_def)

end
