(* ===== verification/Uch11_Packets.thy ===== *)
theory Uch11_Packets
  imports Uch11 Interfaces
begin

text \<open>
  The Chaosnet interface as the processor sees it: the words written to the transmit buffer leave as one
  packet with source address and checksum, and a received packet is read back word by word.
\<close>

unbundle bit_operations_syntax

section \<open>Transmission\<close>

lemma put_words:
  "uch11_xmit_buffer_ptr (uch m) + length vs \<le> 4096 \<Longrightarrow>
    uch11_xmit_buffer_ptr (uch (fold uch11_put_xmit_buffer vs m)) = uch11_xmit_buffer_ptr (uch m) + length vs \<and>
    uch11_sent (uch (fold uch11_put_xmit_buffer vs m)) = uch11_sent (uch m) \<and>
    uch11_myaddr (uch (fold uch11_put_xmit_buffer vs m)) = uch11_myaddr (uch m) \<and>
    buffer_words (uch11_xmit_buffer (uch (fold uch11_put_xmit_buffer vs m))) (uch11_xmit_buffer_ptr (uch m) + length vs) =
      buffer_words (uch11_xmit_buffer (uch m)) (uch11_xmit_buffer_ptr (uch m)) @ vs"
proof (induction vs arbitrary: m)
  case (Cons v vs)
  have ptr: "uch11_xmit_buffer_ptr (uch (uch11_put_xmit_buffer v m)) = Suc (uch11_xmit_buffer_ptr (uch m))"
    and sent: "uch11_sent (uch (uch11_put_xmit_buffer v m)) = uch11_sent (uch m)"
      "uch11_myaddr (uch (uch11_put_xmit_buffer v m)) = uch11_myaddr (uch m)"
    and buf: "buffer_words (uch11_xmit_buffer (uch (uch11_put_xmit_buffer v m))) (Suc (uch11_xmit_buffer_ptr (uch m))) =
      buffer_words (uch11_xmit_buffer (uch m)) (uch11_xmit_buffer_ptr (uch m)) @ [v]"
    using Cons.prems by (simp_all add: uch11_put_xmit_buffer_def upd_uch_def buffer_words_def)
  show ?case
    using Cons.IH [of "uch11_put_xmit_buffer v m"] Cons.prems by (simp add: ptr sent buf)
qed simp

lemma or_and_nonzero:
  "(x OR 0x80) AND 0x80 \<noteq> (0 :: u32)" "(x OR 0x8000) AND 0x8000 \<noteq> (0 :: u32)"
  by (simp_all only: or_and_absorb) simp_all

lemma buffer_words_upd [simp]: "buffer_words (b(n := v)) (Suc n) = buffer_words b n @ [v]"
  by (simp add: buffer_words_def)

lemma transmit:
  assumes "uch11_xmit_buffer_ptr (uch m) = 0" "length vs \<le> 4094"
  shows "\<exists>m'. uch11_xmit_pkt (fold uch11_put_xmit_buffer vs m) = Inr m' \<and>
    uch11_sent (uch m') = (let p = vs @ [uch11_myaddr (uch m)] in p @ [uch11_checksum (word_bytes p)]) # uch11_sent (uch m) \<and>
    uch11_xmit_buffer_ptr (uch m') = 0 \<and> uch11_csr (uch m') AND 0x80 \<noteq> 0"
proof -
  let ?m = "fold uch11_put_xmit_buffer vs m"
  have m: "uch11_xmit_buffer_ptr (uch ?m) = length vs" "uch11_sent (uch ?m) = uch11_sent (uch m)"
    "uch11_myaddr (uch ?m) = uch11_myaddr (uch m)" "buffer_words (uch11_xmit_buffer (uch ?m)) (length vs) = vs"
    using put_words [of m vs] assms by (simp_all add: buffer_words_def)
  have intr: "uch11_sent (uch (uch11_xmit_done_intr m1)) = uch11_sent (uch m1)"
    "uch11_xmit_buffer_ptr (uch (uch11_xmit_done_intr m1)) = uch11_xmit_buffer_ptr (uch m1)"
    "uch11_csr (uch (uch11_xmit_done_intr m1)) AND 0x80 \<noteq> 0" for m1 :: "'a uch_sys_scheme"
    by (simp_all add: uch11_xmit_done_intr_def Let_def upd_uch_def or_and_nonzero)
  show ?thesis
    using assms(2) by (simp add: uch11_xmit_pkt_def Let_def in_bounds_def m intr)
qed

section \<open>Reception\<close>

lemma read_words:
  "uch11_rcv_buffer_size (uch m) \<le> 4096 \<Longrightarrow> uch11_rcv_buffer_ptr (uch m) + k \<le> uch11_rcv_buffer_size (uch m) \<Longrightarrow>
    popped (\<lambda>m. projr (uch11_get_rcv_buffer m)) k m =
      map (\<lambda>i. ucast (uch11_rcv_buffer (uch m) i)) [uch11_rcv_buffer_ptr (uch m)..<uch11_rcv_buffer_ptr (uch m) + k]"
proof (induction k arbitrary: m)
  case (Suc k)
  let ?i = "uch11_rcv_buffer_ptr (uch m)"
  let ?g = "projr (uch11_get_rcv_buffer m)"
  have g: "fst ?g = ucast (uch11_rcv_buffer (uch m) ?i)" "uch11_rcv_buffer_ptr (uch (snd ?g)) = Suc ?i"
    "uch11_rcv_buffer_size (uch (snd ?g)) = uch11_rcv_buffer_size (uch m)"
    "uch11_rcv_buffer (uch (snd ?g)) = uch11_rcv_buffer (uch m)"
    using Suc.prems by (simp_all add: uch11_get_rcv_buffer_def Let_def in_bounds_def)
  have "[?i..<?i + Suc k] = ?i # [Suc ?i..<Suc ?i + k]"
    by (simp add: upt_conv_Cons)
  then show ?case
    using Suc.IH [of "snd ?g"] Suc.prems by (simp add: g del: upt_Suc)
qed simp

lemma receive:
  assumes "uch11_rcv_buffer_empty (uch m)" "uch11_csr (uch m) AND 0x10 \<noteq> 0"
    and "uch11_queue (uch m) = p # ps" "pkt_word p 2 = uch11_myaddr (uch m)"
  shows "popped (\<lambda>m. projr (uch11_get_rcv_buffer m)) (pkt_size p + 3) (uch11_poll m) =
      map (\<lambda>i. ucast (pkt_word p i)) [0..<pkt_size p] @ [ucast (pkt_word p 2), ucast (pkt_word p 4), 0]"
    and "uch11_csr (uch (uch11_poll m)) AND 0x8000 \<noteq> 0" "uch11_queue (uch (uch11_poll m)) = ps"
proof -
  let ?n = "pkt_size p"
  let ?b = "(copy_in (uch11_rcv_buffer (uch m)) 0 ?n (pkt_word p))
    (?n := pkt_word p 2, ?n + 1 := pkt_word p 4, ?n + 2 := 0)"
  let ?m1 = "m\<lparr>uch := (uch m)\<lparr>uch11_queue := ps, uch11_rcv_buffer := ?b, uch11_rcv_buffer_size := ?n + 3,
    uch11_rcv_buffer_empty := False\<rparr>\<rparr>"
  have poll: "uch11_poll m = uch11_rx_pkt ?m1"
    using assms by (simp add: uch11_poll_def chaos_poll_local_def Let_def)
  have rx: "uch11_rcv_buffer_ptr (uch (uch11_rx_pkt ?m1)) = 0" "uch11_rcv_buffer (uch (uch11_rx_pkt ?m1)) = ?b"
    "uch11_rcv_buffer_size (uch (uch11_rx_pkt ?m1)) = ?n + 3" "uch11_queue (uch (uch11_rx_pkt ?m1)) = ps"
    "uch11_csr (uch (uch11_rx_pkt ?m1)) AND 0x8000 \<noteq> 0"
    by (simp_all add: uch11_rx_pkt_def Let_def or_and_nonzero)
  have low: "map (\<lambda>i. ucast (?b i)) [0..<?n] = (map (\<lambda>i. ucast (pkt_word p i)) [0..<?n] :: u32 list)"
    by (simp add: copy_in_def)
  have "[0..<?n + 3] = [0..<?n] @ [?n, ?n + 1, ?n + 2]"
    by (simp add: numeral_3_eq_3)
  then have "map (\<lambda>i. ucast (?b i)) [0..<?n + 3] = map (\<lambda>i. ucast (pkt_word p i)) [0..<?n] @
      [ucast (pkt_word p 2), ucast (pkt_word p 4), 0 :: u32]"
    using low by simp
  then show "popped (\<lambda>m. projr (uch11_get_rcv_buffer m)) (pkt_size p + 3) (uch11_poll m) =
      map (\<lambda>i. ucast (pkt_word p i)) [0..<pkt_size p] @ [ucast (pkt_word p 2), ucast (pkt_word p 4), 0]"
    using read_words [of "uch11_rx_pkt ?m1" "?n + 3"] pkt_size_bound [of p] unfolding poll rx(1-3) by simp
  show "uch11_csr (uch (uch11_poll m)) AND 0x8000 \<noteq> 0" "uch11_queue (uch (uch11_poll m)) = ps"
    unfolding poll using rx by simp_all
qed

end
