(* ===== verification/Device_Properties.thy ===== *)
theory Device_Properties
  imports Memory_Properties Disk_Commands Tape_Records Uch11_Packets Usym
begin

text \<open>
  The properties of the devices: disk, tape, Chaosnet interface, keyboard, interrupts, the idle detection,
  and of the symbol tables.
\<close>

unbundle bit_operations_syntax

section \<open>Disk\<close>

text \<open>
  C20: a write command stores the pages its command list names in the consecutive blocks from the addressed
  one on, leaves every other block and main memory alone, and ends with the controller not active.
\<close>

theorem disk_write_command:
  assumes "command_ready 9 m" "\<not> du_read_only (disk_units (dsk m) (selected_unit (dsk m)))"
    and "ccw_list m (dc_clp (dsk m)) 0 ws" "\<forall>w\<in>set ws. ccw_present m w"
    and "addressed_block m + length ws \<le> du_blocks (disk_units (dsk m) (selected_unit (dsk m)))"
  shows "\<exists>m'. disk_controller_write 3 v m = Inr m' \<and> mem m' = mem m \<and> not_active (dc_status (dsk m')) \<and>
    (\<forall>lba. \<forall>i<256. du_block (disk_units (dsk m') (selected_unit (dsk m))) lba i =
      (if addressed_block m \<le> lba \<and> lba < addressed_block m + length ws
       then pages (mem m) (ccw_page (ws ! (lba - addressed_block m))) i
       else du_block (disk_units (dsk m) (selected_unit (dsk m))) lba i))"
  by (rule write_command [OF assms])

text \<open>
  A machine with eight pages of memory and a disk of 12 blocks online as unit 0; a command list at \<open>0x300\<close>
  names the pages 1 and 2.
\<close>

definition small_disk :: disk_unit_s where
  "small_disk = zero_disk_unit_s\<lparr>du_ncylinders := 2, du_nheads := 2, du_nblocks_per_track := 3,
     du_nblocks_per_cylinder := 6, du_online := True, du_mmsz := 12288\<rparr>"

definition disk_machine :: "u32 \<Rightarrow> machine" where
  "disk_machine cmd = zero_machine\<lparr>
     mem := \<lparr>main_memory_npages = 8, pages = (\<lambda>p i. 1000 * of_nat p + of_nat i)
       (3 := (\<lambda>_. 0)(0 := 0x101, 1 := 0x200))\<rparr>,
     dsk := zero_disk\<lparr>dc_cmd := cmd, dc_clp := 0x300, dc_da := 0x102, disk_units := (\<lambda>_. zero_disk_unit_s)(0 := small_disk)\<rparr>\<rparr>"

lemmas disk_machine_defs = disk_machine_def small_disk_def zero_machine_def zero_disk_def zero_disk_unit_s_def

lemma disk_machine_ready:
  "command_ready 9 (disk_machine 9)" "command_ready 0 (disk_machine 0)"
  "addressed_block (disk_machine cmd) = 5" "selected_unit (dsk (disk_machine cmd)) = 0"
  "ccw_list (disk_machine cmd) (dc_clp (dsk (disk_machine cmd))) 0 [0x101, 0x200]"
  "ccw_present (disk_machine cmd) 0x101" "ccw_present (disk_machine cmd) 0x200"
  "ccw_page 0x101 = 1" "ccw_page 0x200 = 2"
  "du_blocks (disk_units (dsk (disk_machine cmd)) 0) = 12"
  "\<not> du_read_only (disk_units (dsk (disk_machine cmd)) 0)"
  by (simp_all add: command_ready_def disk_wf_def du_wf_def du_chs_def du_blocks_def address_on_unit_def
      addressed_block_def selected_unit_def decode_da_def ccw_present_def ccw_page_def main_memory_read_def
      Let_def disk_machine_defs)

theorem disk_write_command_witness:
  "\<exists>m'. disk_controller_write 3 0 (disk_machine 9) = Inr m' \<and>
    du_block (disk_units (dsk m') 0) 6 7 = 2007 \<and> du_block (disk_units (dsk m') 0) 4 7 = 0"
proof -
  have p: "pages (mem (disk_machine 9)) 2 7 = 2007" "du_block (disk_units (dsk (disk_machine 9)) 0) 4 7 = 0"
    by (simp_all add: disk_machine_defs du_block_def)
  obtain m' where m': "disk_controller_write 3 0 (disk_machine 9) = Inr m'"
    and b: "\<forall>lba. \<forall>i<256. du_block (disk_units (dsk m') 0) lba i =
      (if 5 \<le> lba \<and> lba < 7 then pages (mem (disk_machine 9)) (ccw_page ([0x101, 0x200] ! (lba - 5))) i
       else du_block (disk_units (dsk (disk_machine 9)) 0) lba i)"
    using disk_write_command [OF disk_machine_ready(1) _ disk_machine_ready(5), of 0]
    by (auto simp: disk_machine_ready cong: if_cong)
  show ?thesis
    using m' b [rule_format, of 7 6] b [rule_format, of 7 4] by (simp add: disk_machine_ready p)
qed

lemma disk_machine_fetch: "unat (drop_bit 8 (dc_clp (dsk (disk_machine 0)) + ucast (of_nat j :: u16)) AND 0x3FFF) = 3"
  if "j < 2"
  using that by (auto simp: less_2_cases_iff disk_machine_defs)

text \<open>
  C21: a read command brings the consecutive blocks from the addressed one on into the pages its command
  list names, and leaves every other page of memory and the contents of the disk alone, provided the
  pages are distinct and do not hold the command list itself.
\<close>

theorem disk_read_command:
  assumes "command_ready 0 m"
    and "ccw_list m (dc_clp (dsk m)) 0 ws" "\<forall>w\<in>set ws. ccw_present m w"
    and "addressed_block m + length ws \<le> du_blocks (disk_units (dsk m) (selected_unit (dsk m)))"
    and "distinct (map ccw_page ws)"
    and "\<forall>w\<in>set ws. \<forall>j<length ws. fetch_page (dc_clp (dsk m)) (of_nat j) \<noteq> ccw_page w"
  shows "\<exists>m'. disk_controller_write 3 v m = Inr m' \<and> not_active (dc_status (dsk m')) \<and>
    du_mm (disk_units (dsk m') (selected_unit (dsk m))) = du_mm (disk_units (dsk m) (selected_unit (dsk m))) \<and>
    (\<forall>j<length ws. \<forall>i<256. pages (mem m') (ccw_page (ws ! j)) i =
       du_block (disk_units (dsk m) (selected_unit (dsk m))) (addressed_block m + j) i) \<and>
    (\<forall>q. q \<notin> ccw_page ` set ws \<longrightarrow> pages (mem m') q = pages (mem m) q)"
  by (rule read_command [OF assms])

theorem disk_read_command_witness:
  "\<exists>m'. disk_controller_write 3 0 (disk_machine 0) = Inr m' \<and> pages (mem m') 2 7 = 0 \<and> pages (mem m') 4 7 = 4007"
proof -
  have f: "\<forall>w\<in>set [0x101, 0x200]. \<forall>j<length [0x101 :: u32, 0x200].
      fetch_page (dc_clp (dsk (disk_machine 0))) (of_nat j) \<noteq> ccw_page w"
    using disk_machine_fetch by (simp add: fetch_page_def disk_machine_ready)
  have p: "pages (mem (disk_machine 0)) 4 7 = 4007" "du_block (disk_units (dsk (disk_machine 0)) 0) 6 7 = 0"
    by (simp_all add: disk_machine_defs du_block_def)
  obtain m' where m': "disk_controller_write 3 0 (disk_machine 0) = Inr m'"
    and b: "\<forall>j<2. \<forall>i<256. pages (mem m') (ccw_page ([0x101, 0x200] ! j)) i =
       du_block (disk_units (dsk (disk_machine 0)) 0) (5 + j) i"
    and q: "\<forall>q. q \<notin> {1, 2} \<longrightarrow> pages (mem m') q = pages (mem (disk_machine 0)) q"
    using disk_read_command [OF disk_machine_ready(2) disk_machine_ready(5) _ _ _ f, of 0]
    by (auto simp: disk_machine_ready)
  show ?thesis
    using m' b [rule_format, of 1 7] q [rule_format, of 4] by (simp add: disk_machine_ready p)
qed

text \<open>
  C22: a disk command returns, whatever the registers, the command list and the disk address hold; the only
  exits of the process are the two commands that are not implemented and the unknown ones.
\<close>

theorem disk_command_ends:
  assumes "disk_wf (dsk m)"
  shows "case disk_start m of Inr m' \<Rightarrow> True
    | Inl e \<Rightarrow> dc_cmd (dsk m) AND 0xF \<notin> {0, 8, 9, 4, 5, 6} \<and> (\<exists>s. e = Errx s)"
  using disk_start_stops [OF assms] by (auto split: sum.split)

theorem disk_command_ends_witness:
  "\<exists>m'. disk_start (disk_machine 8) = Inr m'"
proof -
  have "disk_wf (dsk (disk_machine 8))"
    by (simp add: disk_wf_def du_wf_def du_chs_def du_blocks_def disk_machine_defs)
  from disk_command_ends [OF this] show ?thesis
    by (cases "disk_start (disk_machine 8)") (simp_all add: disk_machine_defs)
qed

text \<open>
  no write of a controller register changes the contents of a pack, except the start of a write command,
  and that only the selected unit's, when it is online and may be written.
\<close>

lemma disk_contents_safe:
  assumes "disk_controller_write offset v m = Inr m'"
    and "offset \<noteq> 3 \<or> reset_condition (dsk m) \<or> dc_cmd (dsk m) AND 0xF \<noteq> 9 \<or> u \<noteq> selected_unit (dsk m) \<or>
      \<not> du_online (disk_units (dsk m) u) \<or> du_read_only (disk_units (dsk m) u)"
  shows "du_mm (disk_units (dsk m') u) = du_mm (disk_units (dsk m) u)"
proof -
  have "u \<notin> writes_unit offset m"
    using assms(2) by (auto simp: writes_unit_def Let_def)
  then show ?thesis
    using disk_controller_write_contents [OF assms(1)] by (simp add: contents_kept_def)
qed

text \<open>
  Moving to the next block advances the block number by one through sectors, heads and cylinders; at the
  last block the unit stays where it is and reports a seek error.
\<close>

lemma next_block:
  assumes "du_wf p"
  shows "if du_chs p + 1 < du_blocks p
    then fst (disk_unit_seek_next_lba p) \<and> unat (du_lba (snd (disk_unit_seek_next_lba p))) = unat (du_lba p) + 1
    else disk_unit_seek_next_lba p = (False, p\<lparr>du_seek_error := True\<rparr>)"
  using next_lba_steps [OF assms] du_wf_next [OF assms] assms by (simp add: du_wf_def split: if_splits)

section \<open>Tape\<close>

text \<open>
  C23: every tape command but a read ends: with as many iterations as the byte count and the bytes of the
  medium, \<open>tape_controller_go\<close> returns or stops with a fault of a bus cycle; it does not run on.
\<close>

theorem tape_command_ends:
  assumes "sys_inv m" "mtc_fun (mtc (tape m)) \<noteq> 1"
    and "32769 + nat (td_mmsz (tape_drives (tape m) (selected_drive m))) < k"
  shows "case tape_controller_go k m of Inr m' \<Rightarrow> sys_inv m' | Inl e \<Rightarrow> instruction_fault e"
  using stops_go [of m k] assms bus_ok_go [of k m]
  by (auto simp: spacing_fuel_def stops_in_def bus_ok_def split: sum.split)

theorem tape_command_ends_witness:
  "case tape_controller_go 40000 (machine_control_power_on zero_machine) of
    Inr m' \<Rightarrow> sys_inv m' | Inl e \<Rightarrow> instruction_fault e"
  by (rule tape_command_ends)
    (use machine_wfD(1) [OF zero_powered_on] in \<open>simp_all add: machine_control_power_on_def machine_control_reset_def
      bus_interface_bus_reset_def tape_controller_bus_reset_def mtc_reset_def selected_drive_def zero_defs\<close>)

text \<open>
  A tape read of a record of even length ends within half as many iterations as the record has bytes.
\<close>

lemma tape_read_ends:
  assumes "sys_inv m" "even (unat (next_record_length u (bus_interface_reset_bus_error_status m)))"
    and "unat (next_record_length u (bus_interface_reset_bus_error_status m)) div 2 < k"
  shows "case tape_controller_read k u m of Inr m' \<Rightarrow> sys_inv m' | Inl e \<Rightarrow> instruction_fault e"
  using stops_tape_read [OF assms] bus_ok_tape_read [of k u m] assms(1)
  by (auto simp: stops_in_def bus_ok_def split: sum.split)

text \<open>
  C24: after a write command that met no bus error, spacing back over the record returns to where it was
  begun, where the record length is the number of bytes written; spacing forward from there ends behind
  the record, or behind the file mark that follows it.
\<close>

theorem tape_write_then_space:
  assumes "medium_at u m mm p sz" "sint (mtbrc (tape m)) = - int (4 * n)" "0 < n"
    and "0 \<le> p" "p + 4 * int n + 12 \<le> sz" "\<not> td_read_only (tape_drives (tape m) u)"
    and "tape_controller_write k u m = Inr m'" "\<not> mts_nxm (mts (tape m'))"
  shows "let begun = tape_drive_space_reverse u True m'; again = tape_drive_space_forward u begun in
    td_pos (tape_drives (tape m') u) = p + 4 * int n + 8 \<and>
    td_pos (tape_drives (tape begun) u) = p \<and> next_record_length u begun = of_nat (4 * n) \<and>
    td_pos (tape_drives (tape again) u) =
      (if medium_word (td_mm (tape_drives (tape m') u)) (p + 4 * int n + 8) = 0xFFFFFFFF
       then p + 4 * int n + 12 else p + 4 * int n + 8)"
proof -
  have n: "4 * n \<le> 32768"
    using sint_greater_eq [of "mtbrc (tape m)"] assms(2) by simp
  obtain mm' where m': "medium_at u m' mm' (p + 4 * int n + 8) sz"
    and w: "medium_word mm' p = of_nat (4 * n)" "medium_word mm' (p + 4 + 4 * int n) = of_nat (4 * n)"
    using write_record [OF assms(1-4) _ assms(6-8)] assms(5) by auto
  let ?begun = "tape_drive_space_reverse u True m'"
  have i: "of_nat (4 * n) = (word_of_int (4 * int n) :: u32)"
    by simp
  have bk: "medium_at u ?begun mm' p sz"
    using space_back_over [of u m' mm' p "4 * int n" sz] m' w i n assms by simp
  have "next_record_length u ?begun = of_nat (4 * n)"
    using medium_read32(1) [OF bk] assms(4,5) w by (simp add: next_record_length_def assigned_def)
  moreover have "medium_at u (tape_drive_space_forward u ?begun) mm'
      (if medium_word mm' (p + 4 * int n + 8) = 0xFFFFFFFF then p + 4 * int n + 12 else p + 4 * int n + 8) sz"
    using space_forward_over(1) [OF bk, of "4 * int n"] w i n assms by simp
  ultimately show ?thesis
    using m' bk by (simp add: medium_at_def Let_def)
qed

text \<open>
  A machine about to write a record of four bytes, the first two mapping registers of the Unibus map, on a
  tape of 64 bytes.
\<close>

definition record_machine :: machine where
  "record_machine = zero_machine\<lparr>tape := zero_tape\<lparr>mtbrc := - 4, mtcma := 0x3EC60,
     tape_drives := (\<lambda>_. zero_tape_drive_s)(0 := zero_tape_drive_s\<lparr>td_mmsz := 64, td_eotpos := 60\<rparr>)\<rparr>\<rparr>"

lemma record_written:
  "\<exists>m'. tape_controller_write 3 0 record_machine = Inr m' \<and> \<not> mts_nxm (mts (tape m'))"
proof -
  let ?m = "bus_interface_reset_bus_error_status (snd (tape_drive_write_record_length 0 4
      (bus_interface_reset_bus_error_status record_machine)))"
  have "\<exists>m'. tape_write_loop 3 0 ?m = Inr m' \<and> \<not> mts_nxm (mts (tape m')) \<and> mtbrc (tape m') = 0"
    by (rule two_words_loop) (simp_all add: bus_interface_reset_bus_error_status_def, 
     simp_all add: record_machine_def zero_machine_def zero_tape_def zero_bus_interface_def zero_mts_s_def)
  moreover have "- scast (mtbrc (tape record_machine)) = (4 :: u64)" "\<not> td_read_only (drive_of 0 record_machine)"
    by (simp_all add: record_machine_def zero_tape_def zero_tape_drive_s_def zero_machine_def)
  ultimately show ?thesis
    by (auto simp: tape_controller_write_def Let_def case_prod_beta)
qed
theorem tape_write_then_space_witness:
  "\<exists>m'. tape_controller_write 3 0 record_machine = Inr m' \<and> td_pos (drive_of 0 m') = 12 \<and>
    td_pos (drive_of 0 (tape_drive_space_reverse 0 True m')) = 0"
proof -
  obtain m' where m': "tape_controller_write 3 0 record_machine = Inr m'" "\<not> mts_nxm (mts (tape m'))"
    using record_written by blast
  have "medium_at 0 record_machine (\<lambda>_. 0) 0 64" "sint (mtbrc (tape record_machine)) = - int (4 * 1)"
    "\<not> td_read_only (drive_of 0 record_machine)"
    by (simp_all add: medium_at_def record_machine_def zero_machine_def zero_tape_def zero_mts_s_def
        zero_tape_drive_s_def)
  from tape_write_then_space [OF this(1,2) _ _ _ this(3) m'] m'(1) show ?thesis
    by (simp add: Let_def)
qed

text \<open>
  C25: the controller thread, when it is woken, always finds the controller ready, in every reachable state:
  it starts the operation, and the branch that reports a command during an operation (ILC) is never taken.
\<close>

theorem tape_thread_never_ilc:
  assumes "machine_reachable m0 m" "machine_wf (machine_control_power_on m0)" "go_signalled (tape m)"
  shows "go_running (tape (tape_thread_start m)) \<and> mts (tape (tape_thread_start m)) = mts (tape m) \<and>
    \<not> mtc_cur (mtc (tape (tape_thread_start m)))"
  using tape_start_runs [OF machine_wf_tape [OF machine_reachable_wf [OF assms(1,2)]] assms(3)] by simp

text \<open>A machine that is powered on while its tape controller has been signalled.\<close>

definition signalled_machine :: machine where
  "signalled_machine = zero_machine\<lparr>tape := zero_tape\<lparr>go_signalled := True\<rparr>\<rparr>"

lemma signalled_powered_on: "machine_wf (machine_control_power_on signalled_machine)"
  by (simp add: machine_wf_def sys_inv_def machine_control_power_on_def machine_control_reset_def
      bus_interface_bus_reset_def tape_controller_bus_reset_def mtc_reset_def signalled_machine_def zero_defs
      intr_wf_def mem_wf_def cpu_wf_def npc_ok_def tv_wf_def ctv_wf_def disk_wf_def tape_wf_def td_wf_def
      uch_wf_def kb_wf_def uvmem_wf_def)

theorem tape_thread_never_ilc_witness:
  "go_running (tape (tape_thread_start (ucode_start (machine_control_power_on signalled_machine))))"
proof -
  have "go_signalled (tape (ucode_start (machine_control_power_on signalled_machine)))"
    by (simp add: ucode_start_def machine_control_boot_def machine_control_power_on_def machine_control_reset_def
      bus_interface_bus_reset_def tape_controller_bus_reset_def signalled_machine_def Let_def)
  from tape_thread_never_ilc [OF machine_reachable.power_on signalled_powered_on this] show ?thesis
    by simp
qed

section \<open>Chaosnet\<close>

text \<open>
  C26: up to 4094 words written to an empty transmit buffer leave as one packet: the words, the source
  address and the checksum, with the transmitter done.
\<close>

theorem chaos_transmit:
  assumes "uch11_xmit_buffer_ptr (uch m) = 0" "length vs \<le> 4094"
  shows "\<exists>m'. uch11_xmit_pkt (fold uch11_put_xmit_buffer vs m) = Inr m' \<and>
    uch11_sent (uch m') = (let p = vs @ [uch11_myaddr (uch m)] in p @ [uch11_checksum (word_bytes p)]) # uch11_sent (uch m) \<and>
    uch11_xmit_buffer_ptr (uch m') = 0 \<and> uch11_csr (uch m') AND 0x80 \<noteq> 0"
  by (rule transmit [OF assms])

theorem chaos_transmit_witness:
  "\<exists>m'. uch11_xmit_pkt (fold uch11_put_xmit_buffer [0x100, 2] zero_machine) = Inr m' \<and>
    take 3 (hd (uch11_sent (uch m'))) = [0x100, 2, 0]"
  using chaos_transmit [of zero_machine "[0x100, 2]"] by (auto simp: zero_machine_def zero_uch11_def Let_def)

text \<open>
  The checksum is the Internet checksum: the sum of the bytes' pairs and the checksum is 0 modulo 65535.
\<close>

lemma chaos_checksum:
  "(uch11_sum bytes + unat (uch11_checksum bytes)) mod 65535 = 0"
  by (rule uch11_checksum_valid)

text \<open>
  C27: when the receiver is empty and enabled, a poll takes the first queued packet for this address; reading
  the receive buffer then delivers its words in order, followed by the destination, the source and a 0.
\<close>

theorem chaos_receive:
  assumes "uch11_rcv_buffer_empty (uch m)" "uch11_csr (uch m) AND 0x10 \<noteq> 0"
    and "uch11_queue (uch m) = p # ps" "pkt_word p 2 = uch11_myaddr (uch m)"
  shows "popped (\<lambda>m. projr (uch11_get_rcv_buffer m)) (pkt_size p + 3) (uch11_poll m) =
      map (\<lambda>i. ucast (pkt_word p i)) [0..<pkt_size p] @ [ucast (pkt_word p 2), ucast (pkt_word p 4), 0] \<and>
    uch11_csr (uch (uch11_poll m)) AND 0x8000 \<noteq> 0 \<and> uch11_queue (uch (uch11_poll m)) = ps"
  using receive [OF assms] by simp

theorem chaos_receive_witness:
  "popped (\<lambda>m. projr (uch11_get_rcv_buffer m)) 11
     (uch11_poll (zero_machine\<lparr>uch := zero_uch11\<lparr>uch11_rcv_buffer_empty := True, uch11_csr := 0x10,
       uch11_queue := [[0x100, 0, 0, 0, 0x101, 0, 0, 0, 7]]\<rparr>\<rparr>)) =
   [0x100, 0, 0, 0, 0x101, 0, 0, 0, 0, 0x101, 0]"
proof -
  let ?p = "[0x100, 0, 0, 0, 0x101, 0, 0, 0, 7] :: u16 list"
  let ?m = "zero_machine\<lparr>uch := zero_uch11\<lparr>uch11_rcv_buffer_empty := True, uch11_csr := 0x10,
       uch11_queue := [?p]\<rparr>\<rparr>"
  have p: "pkt_size ?p = 8" "map (\<lambda>i. ucast (pkt_word ?p i) :: u32) [0..<8] = [0x100, 0, 0, 0, 0x101, 0, 0, 0]"
    "pkt_word ?p 2 = 0" "pkt_word ?p 4 = 0x101"
    by code_simp+
  show ?thesis
    using chaos_receive [of ?m ?p "[]"] p by (simp add: zero_uch11_def del: upt_Suc upt_rec_numeral)
qed

section \<open>Keyboard and interrupts\<close>

text \<open>
  the keyboard queue delivers the scan codes in the order they were entered; the 101st and later ones
  that find it full are lost.
\<close>

lemma keyboard_fifo:
  assumes "kb_wf k" "kb_queue_nelem k = 0"
  shows "popped sdl3_keyboard_dequeue (min (length vs) 100) (fold sdl3_keyboard_enqueue vs k) = take 100 vs"
  by (rule kb.fifo) (use assms in \<open>simp_all add: kb_items_def\<close>)

lemma request_recorded:
  "z AND c = z \<Longrightarrow> z \<noteq> 0 \<Longrightarrow> (a OR z OR b) AND c \<noteq> (0 :: 'a::len word)"
proof
  assume zc: "z AND c = z" and "z \<noteq> 0" and 0: "(a OR z OR b) AND c = 0"
  then obtain n where n: "bit z n"
    using bit_eq_iff [of z 0] by auto
  then have "bit c n"
    using zc by (metis bit_and_iff)
  with n have "bit ((a OR z OR b) AND c) n"
    by (simp add: bit_simps)
  with 0 show False
    by simp
qed

lemma vector_recorded: "((x AND NOT y) OR z OR (v AND y)) AND y = (z AND y) OR (v AND (y :: 'a::len word))"
  by (rule bit_word_eqI) (auto simp: bit_simps)

lemma request_removed:
  "(((x AND NOT y) OR z OR (v AND y)) AND NOT (y OR z)) AND c = x AND (NOT y AND NOT z AND (c :: 'a::len word))"
  by (rule bit_word_eqI) (auto simp: bit_simps)

lemma unibus_interrupt_cases:
  assumes "m1 = assert_unibus_interrupt v m" "m2 = deassert_unibus_interrupt m1"
  shows "if interrupt_status_reg (intr m) AND 0x400 = 0 then m1 = m
    else interrupt_pending_flag (intr m1) = 1 \<and> interrupt_status_reg (intr m1) AND 0x3FC = v AND 0x3FC \<and>
      interrupt_pending_flag (intr m2) = (if interrupt_status_reg (intr m) AND 0x4000 = 0 then 0 else 1)"
proof (cases "interrupt_status_reg (intr m) AND 0x400 = 0")
  case True
  then show ?thesis
    using assms(1) by (simp add: assert_unibus_interrupt_def Let_def)
next
  case False
  let ?i = "interrupt_status_reg (intr m)"
  let ?i1 = "(?i AND NOT 0x3FC) OR 0x8000 OR (v AND 0x3FC)"
  have m1: "intr m1 = \<lparr>interrupt_status_reg = ?i1, interrupt_pending_flag = (if ?i1 AND 0xC000 \<noteq> 0 then 1 else 0)\<rparr>"
    using False assms(1) by (simp add: assert_unibus_interrupt_def set_interrupt_status_reg_def Let_def)
  have b: "?i1 AND 0xC000 \<noteq> 0" "?i1 AND 0x8000 \<noteq> 0"
    using request_recorded [of "0x8000" "0xC000" "?i AND NOT 0x3FC" "v AND 0x3FC"]
      request_recorded [of "0x8000" "0x8000" "?i AND NOT 0x3FC" "v AND 0x3FC"] by auto
  have vector: "?i1 AND 0x3FC = v AND 0x3FC"
    using vector_recorded [of ?i "0x3FC" "0x8000" v] by simp
  have "(?i1 AND NOT (0x3FC OR 0x8000)) AND 0xC000 = ?i AND 0x4000"
    using request_removed [of ?i "0x3FC" "0x8000" v "0xC000"] by (simp add: and.assoc)
  then have "interrupt_pending_flag (intr m2) = (if ?i AND 0x4000 = 0 then 0 else 1)"
    using b assms(2) by (simp add: deassert_unibus_interrupt_def set_interrupt_status_reg_def Let_def m1)
  with b vector False show ?thesis
    by (simp add: m1)
qed

text \<open>
  An interrupt request on the Unibus is recorded with its vector when Unibus interrupts are enabled, and
  ignored otherwise; taking it back leaves an interrupt pending exactly when the Xbus requests one.
\<close>

lemma unibus_interrupt:
  "let m1 = assert_unibus_interrupt v m; m2 = deassert_unibus_interrupt m1 in
   if interrupt_status_reg (intr m) AND 0x400 = 0 then m1 = m
   else interrupt_pending_flag (intr m1) = 1 \<and> interrupt_status_reg (intr m1) AND 0x3FC = v AND 0x3FC \<and>
     interrupt_pending_flag (intr m2) = (if interrupt_status_reg (intr m) AND 0x4000 = 0 then 0 else 1)"
  unfolding Let_def by (rule unibus_interrupt_cases [OF refl refl])

section \<open>Idling and symbols\<close>

text \<open>
  After an activity the simulator does not become idle until the configured number of cycles has passed.
\<close>

lemma active_is_not_idle:
  assumes "idle_check c (idle_activity m) = Inr m'" and "c - machine_cycles (idl m) \<le> idle_cycles (idl m)"
  shows "\<not> idle_is_idle m'"
  by (rule idle_after_activity [OF assms])

text \<open>
  C40: in a table read from a symbol file, the search by value finds the nearest symbol of its kind at or
  below the value, and the offset from it.
\<close>

theorem nearest_symbol:
  assumes "sym_read_file file = Inr tab" "sym_find_by_type_val tab memory v True = Some (name, off)"
  shows "\<exists>s \<in> set tab. sym_mtype s = memory \<and> sym_v s \<le> v \<and> sym_name s = name \<and> off = v - sym_v s \<and>
    (\<forall>t \<in> set tab. sym_mtype t = memory \<and> sym_v t \<le> v \<longrightarrow> sym_v t \<le> sym_v s)"
  using sym_find_by_type_val_nearest [OF sym_read_file_sorted [OF assms(1)] assms(2)]
  by (auto simp: candidates_def)

text \<open>A symbol file with a number, an I-memory symbol and one at a lower address.\<close>

definition symbol_file :: "string list" where
  "symbol_file = [''a'', ''-4 '' @ [CHR 0x0A], ''c'', ''-2 FOO I-MEM 10'' @ [CHR 0x0A],
     ''BAR I-MEM 5'' @ [CHR 0x0A], ''-1 '']"

lemma symbol_file_read:
  "case sym_read_file (Some symbol_file) of Inl e \<Rightarrow> False
   | Inr tab \<Rightarrow> sym_find_by_type_val tab IMEM 7 True = Some (''BAR'', 2)"
  by code_simp

theorem nearest_symbol_witness:
  "\<exists>tab. sym_read_file (Some symbol_file) = Inr tab \<and> (\<exists>s\<in>set tab. sym_v s = 5 \<and> sym_name s = ''BAR'')"
proof -
  obtain tab where tab: "sym_read_file (Some symbol_file) = Inr tab"
      "sym_find_by_type_val tab IMEM 7 True = Some (''BAR'', 2)"
    using symbol_file_read by (auto split: sum.splits)
  from nearest_symbol [OF this] obtain s where s: "s \<in> set tab" "sym_v s \<le> 7" "sym_name s = ''BAR''" "2 = 7 - sym_v s"
    by blast
  from s(4) have "sym_v s = 5"
    by (simp add: algebra_simps)
  with tab s show ?thesis by blast
qed

end
