(* ===== verification/Chncp.thy ===== *)
theory Chncp
  imports Prelude
begin

text \<open>
  The data of the Chaosnet NCP (\<^verbatim>\<open>chaos/h/chaos.h\<close>, \<^verbatim>\<open>chaos/chncp/chncp.h\<close>): packets, connections,
  interfaces, routes and the tables of the NCP, with the macros that read and write them.

  A packet is a value; the lists that the code links through \<open>pk_next\<close> are lists of packets, and a tail
  pointer is the last element of its list.  Two-byte network fields (\<open>chaddr\<close>, \<open>chindex\<close>, \<open>chpklenfc\<close>) are
  16-bit words with the first byte as the low one; the data part is an array of bytes, whose shorts and longs are
  stored low byte first.  A connection is known by its slot in the connection table.
\<close>

unbundle bit_operations_syntax

section \<open>Packets\<close>

record packet =
  pk_time :: u16
  pk_xdest :: u16
  pk_type :: u8
  pk_op :: u8
  pk_lenfc :: u16
  pk_daddr :: u16
  pk_didx :: u16
  pk_saddr :: u16
  pk_sidx :: u16
  pk_pkn :: u16
  pk_ackn :: u16
  pk_data :: "nat \<Rightarrow> u8"

text \<open>
  What \<open>pkalloc\<close> returns in the user build: \<open>calloc\<close>ed memory.  (In the Linux kernel module \<open>ch_alloc\<close> is \<open>kmalloc\<close>,
  whose memory is not initialised; that build is not modelled.)
\<close>

definition pkalloc :: packet where
  "pkalloc = \<lparr>pk_time = 0, pk_xdest = 0, pk_type = 0, pk_op = 0, pk_lenfc = 0, pk_daddr = 0, pk_didx = 0,
     pk_saddr = 0, pk_sidx = 0, pk_pkn = 0, pk_ackn = 0, pk_data = \<lambda>_. 0\<rparr>"

definition PH_LEN :: "packet \<Rightarrow> nat" where
  "PH_LEN p = unat (pk_lenfc p AND 0x0FFF)"

definition PH_FC :: "packet \<Rightarrow> u16" where
  "PH_FC p = drop_bit 12 (pk_lenfc p AND 0xF000)"

text \<open>
  \<open>SET_PH_LEN\<close> stores the two bytes of the length one after the other and evaluates its argument for each of
  them; in \<open>set_len_expr\<close> the argument is a function of the length field at that moment.
\<close>

definition set_len_expr :: "(u16 \<Rightarrow> u16) \<Rightarrow> packet \<Rightarrow> packet" where
  "set_len_expr f p =
     (let w = (pk_lenfc p AND 0xFF00) OR (f (pk_lenfc p AND 0x0FFF) AND 0x00FF)
      in p\<lparr>pk_lenfc := (w AND 0xF0FF) OR (f (w AND 0x0FFF) AND 0x0F00)\<rparr>)"

definition SET_PH_LEN :: "nat \<Rightarrow> packet \<Rightarrow> packet" where
  "SET_PH_LEN len = set_len_expr (\<lambda>_. of_nat len)"

definition SET_PH_FC :: "u16 \<Rightarrow> packet \<Rightarrow> packet" where
  "SET_PH_FC fc p = p\<lparr>pk_lenfc := (pk_lenfc p AND 0x0FFF) OR push_bit 12 (fc AND 0xF)\<rparr>"

text \<open>The parts of an address and of an index.\<close>

definition subnet :: "u16 \<Rightarrow> nat" where
  "subnet a = unat (drop_bit 8 a)"

definition tindex :: "u16 \<Rightarrow> nat" where
  "tindex i = unat (i AND 0xFF)"

definition data_short :: "packet \<Rightarrow> nat \<Rightarrow> u16" where
  "data_short p i = push_bit 8 (ucast (pk_data p (2 * i + 1))) OR ucast (pk_data p (2 * i))"

text \<open>Storing a short and a long at a byte offset.\<close>

definition put_short :: "nat \<Rightarrow> u16 \<Rightarrow> packet \<Rightarrow> packet" where
  "put_short off v p = p\<lparr>pk_data := (pk_data p)(off := ucast v, off + 1 := ucast (drop_bit 8 v))\<rparr>"

definition put_long :: "nat \<Rightarrow> u64 \<Rightarrow> packet \<Rightarrow> packet" where
  "put_long off v p = p\<lparr>pk_data := (\<lambda>i. if off \<le> i \<and> i < off + 8 then ucast (drop_bit (8 * (i - off)) v) else pk_data p i)\<rparr>"

definition pk_receipt :: "packet \<Rightarrow> u16" where
  "pk_receipt p = data_short p 0"

definition pk_rwsize :: "packet \<Rightarrow> u16" where
  "pk_rwsize p = data_short p 1"

section \<open>Operation codes and comparisons\<close>

abbreviation "RFCOP \<equiv> 0x01 :: u8"
abbreviation "OPNOP \<equiv> 0x02 :: u8"
abbreviation "CLSOP \<equiv> 0x03 :: u8"
abbreviation "FWDOP \<equiv> 0x04 :: u8"
abbreviation "ANSOP \<equiv> 0x05 :: u8"
abbreviation "SNSOP \<equiv> 0x06 :: u8"
abbreviation "STSOP \<equiv> 0x07 :: u8"
abbreviation "RUTOP \<equiv> 0x08 :: u8"
abbreviation "LOSOP \<equiv> 0x09 :: u8"
abbreviation "LSNOP \<equiv> 0x0A :: u8"
abbreviation "MNTOP \<equiv> 0x0B :: u8"
abbreviation "EOFOP \<equiv> 0x0C :: u8"
abbreviation "UNCOP \<equiv> 0x0D :: u8"
abbreviation "BRDOP \<equiv> 0x0E :: u8"
abbreviation "DATOP \<equiv> 0x80 :: u8"

definition ISDATOP :: "packet \<Rightarrow> bool" where
  "ISDATOP p \<longleftrightarrow> pk_op p AND DATOP \<noteq> 0"

definition CONTPKT :: "packet \<Rightarrow> bool" where
  "CONTPKT p \<longleftrightarrow> ISDATOP p \<or> pk_op p = RFCOP \<or> pk_op p = OPNOP \<or> pk_op p = EOFOP"

text \<open>Packet numbers and times are compared by bit 15 of their difference.\<close>

definition cmp_gt :: "u16 \<Rightarrow> u16 \<Rightarrow> bool" where
  "cmp_gt a b \<longleftrightarrow> bit (b - a) 15"

definition cmp_lt :: "u16 \<Rightarrow> u16 \<Rightarrow> bool" where
  "cmp_lt a b \<longleftrightarrow> cmp_gt b a"

definition cmp_le :: "u16 \<Rightarrow> u16 \<Rightarrow> bool" where
  "cmp_le a b \<longleftrightarrow> \<not> cmp_gt a b"

section \<open>Connections\<close>

datatype conn_state = CSCLOSED | CSLISTEN | CSRFCRCVD | CSRFCSENT | CSOPEN | CSLOST | CSINCT

text \<open>\<open>cn_closing\<close> is the \<open>CHCLOSING\<close> flag of the system dependent part.\<close>

record connection =
  cn_closing :: bool
  cn_flags :: u8
  cn_state :: conn_state
  cn_active :: u16
  cn_faddr :: u16
  cn_fidx :: u16
  cn_lidx :: u16
  cn_laddr :: u16
  cn_twsize :: u16
  cn_tlast :: u16
  cn_trecvd :: u16
  cn_tacked :: u16
  cn_thead :: "packet list"
  cn_toutput :: "packet option"
  cn_troom :: nat
  cn_rwsize :: u16
  cn_rlast :: u16
  cn_racked :: u16
  cn_rread :: u16
  cn_rsts :: u16
  cn_roffset :: nat
  cn_rhead :: "packet list"
  cn_routorder :: "packet list"

definition chtfull :: "'a connection_scheme \<Rightarrow> bool" where
  "chtfull c \<longleftrightarrow> cn_state c = CSOPEN \<and> sint (cn_tlast c - cn_tacked c) \<ge> uint (cn_twsize c)"

definition chtempty :: "connection \<Rightarrow> bool" where
  "chtempty c \<longleftrightarrow> cn_state c \<noteq> CSOPEN \<or> cn_tlast c = cn_tacked c"

definition chrempty :: "connection \<Rightarrow> bool" where
  "chrempty c \<longleftrightarrow> cn_rhead c = [] \<and> cn_state c = CSOPEN"

text \<open>\<open>setack(connection, packet)\<close>.\<close>

definition setack :: "connection \<Rightarrow> packet \<Rightarrow> connection \<times> packet" where
  "setack c p = (c\<lparr>cn_racked := cn_rread c\<rparr>, p\<lparr>pk_ackn := cn_rread c\<rparr>)"

section \<open>Interfaces and routes\<close>

text \<open>\<open>Fake\<close> is the static interface of \<open>sendtome\<close>.\<close>

datatype xcvr_id = Fake | Xcvr nat

record chxcvr =
  xc_list :: "packet list"
  xc_tpkt :: "packet option"
  xc_ttime :: u16
  xc_addr :: u16
  xc_cost :: u16
  xc_rcvd :: u64
  xc_xmtd :: u64
  xc_abrt :: u64
  xc_lost :: u64
  xc_crcr :: u64
  xc_crci :: u64
  xc_leng :: u64
  xc_rej :: u64
  xc_rtries :: nat

datatype rt_type_t = CHNOPATH | CHDIRECT | CHFIXED | CHBRIDGE

text \<open>The union \<open>rt_u\<close> holds the interface or the address of a bridge.\<close>

datatype rt_union = RtXcvr xcvr_id | RtAddr u16

record chroute =
  rt_u :: rt_union
  rt_type :: rt_type_t
  rt_cost :: u16

section \<open>The tables of the NCP\<close>

record ncp =
  chconntab :: "nat \<Rightarrow> connection option"
  chuniq :: u32
  chclock_now :: u16
  chlsnlist :: "packet list"
  chrfclist :: "packet list"
  chrfcrcv :: bool
  chroutetab :: "nat \<Rightarrow> chroute"
  chxcvrs :: "xcvr_id \<Rightarrow> chxcvr"
  chmyaddr :: u16
  chmyname :: string
  chhz :: nat
  chtimes :: "u64 \<times> u64"
  nextclk :: u16
  nextprobe :: u16
  nexthang :: u16
  nextroute :: u16
  nextbridge :: u16

text \<open>The sizes \<open>CHNCONNS\<close> and \<open>CHNSUBNET\<close>, and the costs and names of \<^verbatim>\<open>chconf.h\<close> and \<^verbatim>\<open>chaos.h\<close>.\<close>

abbreviation "CHNCONNS \<equiv> 20 :: nat"
abbreviation "CHNSUBNET \<equiv> 122 :: nat"
abbreviation "CHHCOST \<equiv> 1024 :: u16"
abbreviation "CHDRWSIZE \<equiv> 5 :: u16"
abbreviation "CHMAXDATA \<equiv> 488 :: nat"
abbreviation "CHSTATNAME \<equiv> 32 :: nat"

text \<open>\<open>Chmyaddr\<close> is a signed short, an address an \<open>int\<close> from 0 to 65535.\<close>

definition is_my_address :: "ncp \<Rightarrow> u16 \<Rightarrow> bool" where
  "is_my_address s a \<longleftrightarrow> uint a = sint (chmyaddr s)"

definition upd_conn :: "nat \<Rightarrow> (connection \<Rightarrow> connection) \<Rightarrow> ncp \<Rightarrow> ncp" where
  "upd_conn i f s = s\<lparr>chconntab := (chconntab s)(i := map_option f (chconntab s i))\<rparr>"

definition upd_xcvr :: "xcvr_id \<Rightarrow> (chxcvr \<Rightarrow> chxcvr) \<Rightarrow> ncp \<Rightarrow> ncp" where
  "upd_xcvr x f s = s\<lparr>chxcvrs := (chxcvrs s)(x := f (chxcvrs s x))\<rparr>"

definition upd_route :: "nat \<Rightarrow> (chroute \<Rightarrow> chroute) \<Rightarrow> ncp \<Rightarrow> ncp" where
  "upd_route n f s = s\<lparr>chroutetab := (chroutetab s)(n := f (chroutetab s n))\<rparr>"

end
