(* ===== verification/Chutil.thy ===== *)
theory Chutil
  imports Chncp
begin

text \<open>
  The utility routines of the NCP (\<^verbatim>\<open>chaos/chncp/chutil.c\<close>): the connection table, closing a connection, and
  filling packets.
\<close>

unbundle bit_operations_syntax

section \<open>Connections\<close>

text \<open>The first free slot of the connection table.\<close>

definition free_slot :: "ncp \<Rightarrow> nat option" where
  "free_slot s = find (\<lambda>i. chconntab s i = None) [0..<CHNCONNS]"

text \<open>What \<open>clear\<close> leaves in a new connection, with its local index: the slot and a uniquizer.\<close>

definition new_connection :: "nat \<Rightarrow> u32 \<Rightarrow> connection" where
  "new_connection i uniq = \<lparr>cn_closing = False, cn_flags = 0, cn_state = CSCLOSED, cn_active = 0, cn_faddr = 0,
     cn_fidx = 0, cn_lidx = (of_nat i AND 0xFF) OR push_bit 8 (ucast uniq AND 0xFF), cn_laddr = 0,
     cn_twsize = 0, cn_tlast = 0, cn_trecvd = 0, cn_tacked = 0, cn_thead = [], cn_toutput = None, cn_troom = 0,
     cn_rwsize = 0, cn_rlast = 0, cn_racked = 0, cn_rread = 0, cn_rsts = 0, cn_roffset = 0, cn_rhead = [],
     cn_routorder = []\<rparr>"

text \<open>The result is the slot, \<open>None\<close> when the table is full.\<close>

definition allconn :: "ncp \<Rightarrow> nat option \<times> ncp" where
  "allconn s =
     (case free_slot s of
        None \<Rightarrow> (None, s)
      | Some i \<Rightarrow>
          let uniq = (if chuniq s + 1 = 0 then 1 else chuniq s + 1)
          in (Some i, s\<lparr>chuniq := uniq, chconntab := (chconntab s)(i \<mapsto> new_connection i uniq)\<rparr>))"

text \<open>
  \<open>INPUT\<close> and \<open>NEWSTATE\<close> of the Linux system dependent part (\<^verbatim>\<open>chaos/chlinux/chsys.h\<close>) wake up sleepers; besides,
  a connection whose user is closing it is closed.  \<open>closed\<close> is \<open>clsconn\<close> without its \<open>NEWSTATE\<close>.
\<close>

definition closed :: "conn_state \<Rightarrow> packet option \<Rightarrow> connection \<Rightarrow> connection" where
  "closed st pkt c = c\<lparr>cn_thead := [], cn_state := st, cn_rhead := cn_rhead c @ (case pkt of None \<Rightarrow> [] | Some p \<Rightarrow> [p])\<rparr>"

definition chinput :: "connection \<Rightarrow> connection" where
  "chinput c = (if cn_closing c then closed CSCLOSED None (c\<lparr>cn_closing := False\<rparr>) else c)"

definition newstate :: "connection \<Rightarrow> connection" where
  "newstate c = chinput c"

definition clsconn :: "conn_state \<Rightarrow> packet option \<Rightarrow> connection \<Rightarrow> connection" where
  "clsconn st pkt c = newstate (closed st pkt c)"

definition rlsconn :: "nat \<Rightarrow> ncp \<Rightarrow> ncp" where
  "rlsconn i s =
     (case chconntab s i of
        None \<Rightarrow> s
      | Some c \<Rightarrow> s\<lparr>chconntab := (chconntab s)(tindex (cn_lidx c) := None)\<rparr>)"

section \<open>Packets\<close>

definition char_bytes :: "string \<Rightarrow> u8 list" where
  "char_bytes str = map of_char str"

definition chmove :: "u8 list \<Rightarrow> nat \<Rightarrow> packet \<Rightarrow> packet" where
  "chmove bs off p =
     p\<lparr>pk_data := (\<lambda>i. if off \<le> i \<and> i < off + length bs then bs ! (i - off) else pk_data p i)\<rparr>"

text \<open>\<open>pktstr\<close> copies the string with its terminating null, but at most \<open>len\<close> characters.\<close>

definition pktstr :: "string \<Rightarrow> nat \<Rightarrow> packet \<Rightarrow> packet" where
  "pktstr str len p = chmove (take len (char_bytes str @ [0])) 0 (SET_PH_LEN len p)"

text \<open>\<open>movepkt\<close> copies the header and the data in units of shorts to a new packet.\<close>

definition movepkt :: "packet \<Rightarrow> packet" where
  "movepkt p = p\<lparr>pk_data := (\<lambda>i. if i < 2 * ((PH_LEN p + 1) div 2) then pk_data p i else 0)\<rparr>"

definition setpkt :: "connection \<Rightarrow> packet \<Rightarrow> packet" where
  "setpkt c p = SET_PH_FC 0 (p\<lparr>pk_daddr := cn_faddr c, pk_didx := cn_fidx c, pk_saddr := cn_laddr c,
     pk_sidx := cn_lidx c, pk_type := 0\<rparr>)"

section \<open>Interfaces\<close>

definition chattach :: "xcvr_id \<Rightarrow> ncp \<Rightarrow> fault + ncp" where
  "chattach x s =
     (let n = subnet (xc_addr (chxcvrs s x)) in
      and_then (in_bounds CHNSUBNET n ''Chroutetab'') (\<lambda>_.
      Inr (upd_route n (\<lambda>r. \<lparr>rt_u = RtXcvr x, rt_type = CHDIRECT, rt_cost = CHHCOST div 2\<rparr>) s)))"

section \<open>Facts on packets\<close>

lemma length_field_bits: "(x :: u16) AND 0x0FFF = take_bit 12 x"
  by (simp add: take_bit_eq_mask mask_eq_exp_minus_1)

lemma PH_LEN_bound: "PH_LEN p < 4096"
  unfolding PH_LEN_def length_field_bits using take_bit_nat_less_exp [of 12 "unat (pk_lenfc p)"]
  by (simp add: unsigned_take_bit_eq)

lemma PH_LEN_set: "len < 4096 \<Longrightarrow> PH_LEN (SET_PH_LEN len p) = len"
proof -
  assume len: "len < 4096"
  have "((((x AND 0xFF00) OR (y AND 0x00FF)) AND 0xF0FF) OR (y AND 0x0F00)) AND 0x0FFF = y AND (0x0FFF :: u16)" for x y
  proof -
    have "y AND 0x0FFF = (y AND 0x00FF) OR (y AND 0x0F00)" for y :: u16
      by (simp flip: bit.conj_disj_distrib)
    then show ?thesis
      by (simp add: bit.conj_disj_distrib2 and.assoc)
  qed
  then show ?thesis
    using len unfolding PH_LEN_def SET_PH_LEN_def set_len_expr_def Let_def
    by (simp add: length_field_bits unsigned_take_bit_eq unat_of_nat take_bit_nat_eq_self)
qed

end
