(* ===== verification/Chsend.thy ===== *)
theory Chsend
  imports Chutil
begin

text \<open>
  The transmitting side of the NCP (\<^verbatim>\<open>chaos/chncp/chsend.c\<close>).  Packets for the own host are handed to
  \<open>sendtome\<close>, which receives them again and may recurse; the functions of this theory take it as
  the parameter \<open>tome\<close>, and theory Chrcv closes the recursion.  Packets for other hosts are put into
  the queue of an interface (\<open>chxmitpkt\<close>, the transmit routine of the CH11 and Interlan drivers), whose
  start routine takes the first one (\<open>xmitnext\<close>); what the hardware does with it is the environment's.
\<close>

unbundle bit_operations_syntax

type_synonym tome = "packet list \<Rightarrow> ncp \<Rightarrow> fault + ncp"

section \<open>Interface queues\<close>

definition xmitnext :: "xcvr_id \<Rightarrow> ncp \<Rightarrow> packet option \<times> ncp" where
  "xmitnext x s =
     (case xc_list (chxcvrs s x) of
        [] \<Rightarrow> (None, upd_xcvr x (\<lambda>c. c\<lparr>xc_tpkt := None\<rparr>) s)
      | p # ps \<Rightarrow> (Some p, upd_xcvr x (\<lambda>c. c\<lparr>xc_tpkt := Some p, xc_list := ps, xc_ttime := chclock_now s\<rparr>) s))"

definition chxmitpkt :: "xcvr_id \<Rightarrow> packet \<Rightarrow> bool \<Rightarrow> ncp \<Rightarrow> ncp" where
  "chxmitpkt x p head s =
     (let s1 = upd_xcvr x (\<lambda>c. c\<lparr>xc_list := (if head then p # xc_list c else xc_list c @ [p])\<rparr>) s
      in if xc_tpkt (chxcvrs s1 x) = None then snd (xmitnext x s1) else s1)"

section \<open>Retransmission list\<close>

text \<open>The list is kept in the order of packet numbers.\<close>

fun insert_packet :: "packet \<Rightarrow> packet list \<Rightarrow> packet list" where
  "insert_packet p [] = [p]"
| "insert_packet p (q # qs) = (if cmp_lt (pk_pkn p) (pk_pkn q) then p # q # qs else q # insert_packet p qs)"

text \<open>The connection on which a transmitted packet is kept until its receipt.\<close>

definition kept_on :: "packet \<Rightarrow> ncp \<Rightarrow> nat option" where
  "kept_on p s =
     (let i = tindex (pk_sidx p) in
      if PH_FC p = 0 \<and> CONTPKT p \<and> i < CHNCONNS then
        (case chconntab s i of
           None \<Rightarrow> None
         | Some c \<Rightarrow>
             if pk_sidx p = cn_lidx c \<and> (cn_state c = CSOPEN \<or> cn_state c = CSRFCSENT) \<and> cmp_gt (pk_pkn p) (cn_trecvd c)
             then Some i else None)
      else None)"

definition xmitdone :: "packet \<Rightarrow> ncp \<Rightarrow> ncp" where
  "xmitdone p s =
     (case kept_on p s of
        None \<Rightarrow> s
      | Some i \<Rightarrow> upd_conn i (\<lambda>c. c\<lparr>cn_thead := insert_packet (p\<lparr>pk_time := chclock_now s\<rparr>) (cn_thead c)\<rparr>) s)"

section \<open>Sending\<close>

text \<open>
  The interface and the destination to which a packet is routed; \<open>None\<close> when there is no way.  The pointer
  to the interface shares its memory with the address of a bridge: following it is only
  meaningful where the union holds an interface.
\<close>

definition no_route :: "u16 \<Rightarrow> ncp \<Rightarrow> bool" where
  "no_route daddr s \<longleftrightarrow>
     subnet daddr \<ge> CHNSUBNET \<or> rt_type (chroutetab s (subnet daddr)) = CHNOPATH \<or>
     rt_cost (chroutetab s (subnet daddr)) \<ge> CHHCOST"

definition follow_xcvr :: "chroute \<Rightarrow> fault + xcvr_id" where
  "follow_xcvr r = (case rt_u r of RtXcvr x \<Rightarrow> Inr x | RtAddr a \<Rightarrow> Inl (Out_of_bounds ''rt_xcvr''))"

definition bridge_address :: "chroute \<Rightarrow> u16" where
  "bridge_address r = (case rt_u r of RtAddr a \<Rightarrow> a | RtXcvr x \<Rightarrow> 0)"

definition route_to :: "u16 \<Rightarrow> ncp \<Rightarrow> fault + xcvr_id \<times> u16" where
  "route_to daddr s =
     (let r = chroutetab s (subnet daddr) in
      if rt_type r = CHFIXED \<or> rt_type r = CHBRIDGE then
        and_then (in_bounds CHNSUBNET (subnet (bridge_address r)) ''Chroutetab'') (\<lambda>_.
        and_then (follow_xcvr (chroutetab s (subnet (bridge_address r)))) (\<lambda>x. Inr (x, bridge_address r)))
      else and_then (follow_xcvr r) (\<lambda>x. Inr (x, daddr)))"

definition sendctl :: "tome \<Rightarrow> packet \<Rightarrow> ncp \<Rightarrow> fault + ncp" where
  "sendctl tome p s =
     (if is_my_address s (pk_daddr p) then tome [p] s
      else if no_route (pk_daddr p) s then Inr s
      else and_then (route_to (pk_daddr p) s) (\<lambda>(x, dest). Inr (chxmitpkt x (p\<lparr>pk_xdest := dest\<rparr>) True s)))"

text \<open>\<open>senddata\<close> sends a list of packets, all for the destination of the first.\<close>

definition senddata :: "tome \<Rightarrow> packet list \<Rightarrow> ncp \<Rightarrow> fault + ncp" where
  "senddata tome ps s =
     (let daddr = pk_daddr (hd ps) in
      if is_my_address s daddr then tome ps s
      else if no_route daddr s then Inr (fold xmitdone ps s)
      else and_then (route_to daddr s) (\<lambda>(x, dest).
        Inr (fold (\<lambda>p s. chxmitpkt x (p\<lparr>pk_time := chclock_now s, pk_xdest := dest\<rparr>) False s) ps s)))"

text \<open>\<open>makests\<close> turns a packet into the status of a connection, which acknowledges what has been read.\<close>

definition makests :: "connection \<Rightarrow> packet \<Rightarrow> connection \<times> packet" where
  "makests c p =
     (let (c1, p1) = setack c (SET_PH_LEN 4 (p\<lparr>pk_op := STSOP\<rparr>))
      in (c1, put_short 2 (cn_rwsize c1) (put_short 0 (cn_rlast c1) p1)))"

definition sendsts :: "tome \<Rightarrow> nat \<Rightarrow> ncp \<Rightarrow> fault + ncp" where
  "sendsts tome i s =
     (case chconntab s i of
        None \<Rightarrow> Inr s
      | Some c \<Rightarrow> let (c1, p) = makests c (setpkt c pkalloc) in sendctl tome p (upd_conn i (\<lambda>_. c1) s))"

section \<open>The transmit interrupt\<close>

text \<open>
  The interrupt of the CH11 driver (\<^verbatim>\<open>chaos/chncp/chch11.c\<close>: \<open>chchtint\<close>) after a transmission, aborted or not:
  the packet is tried up to five times, then it counts as transmitted and the next one is begun.  The
  registers of the device are the environment's.
\<close>

definition chchtint :: "bool \<Rightarrow> xcvr_id \<Rightarrow> ncp \<Rightarrow> ncp" where
  "chchtint aborted x s =
     (case xc_tpkt (chxcvrs s x) of
        None \<Rightarrow> snd (xmitnext x s)
      | Some p \<Rightarrow>
          let s1 = (if aborted
                    then upd_xcvr x (\<lambda>c. c\<lparr>xc_abrt := xc_abrt c + 1, xc_rtries := xc_rtries c + 1\<rparr>) s
                    else upd_xcvr x (\<lambda>c. c\<lparr>xc_xmtd := xc_xmtd c + 1\<rparr>) s)
          in if aborted \<and> xc_rtries (chxcvrs s1 x) < 5 then s1
             else snd (xmitnext x (upd_xcvr x (\<lambda>c. c\<lparr>xc_rtries := 0\<rparr>) (xmitdone p s1))))"

end
