(* ===== verification/Chrcv.thy ===== *)
theory Chrcv
  imports Chsend
begin

text \<open>
  The receiving side of the NCP (\<^verbatim>\<open>chaos/chncp/chrcv.c\<close>) with the retransmission routine of
  \<^verbatim>\<open>chaos/chncp/chclock.c\<close> that it calls: routing information, requests for connections, responses to
  requests, data, receipts and acknowledgements.  The Linux system dependent part is the one modelled, so the
  built-in FILE and MINI servers are not there.
\<close>

unbundle bit_operations_syntax

section \<open>Control packets\<close>

definition reflect :: "tome \<Rightarrow> packet \<Rightarrow> ncp \<Rightarrow> fault + ncp" where
  "reflect tome p s =
     sendctl tome (p\<lparr>pk_sidx := pk_didx p, pk_didx := pk_sidx p, pk_saddr := pk_daddr p, pk_daddr := pk_saddr p\<rparr>) s"

text \<open>\<open>makests(conn, pkt); reflect(pkt)\<close>.\<close>

definition reflect_sts :: "tome \<Rightarrow> nat \<Rightarrow> packet \<Rightarrow> ncp \<Rightarrow> fault + ncp" where
  "reflect_sts tome i p s =
     (case chconntab s i of
        None \<Rightarrow> Inr s
      | Some c \<Rightarrow> let (c1, p1) = makests c p in reflect tome p1 (upd_conn i (\<lambda>_. c1) s))"

text \<open>A LOS carries a message and the name of this host.\<close>

definition los_packet :: "string \<Rightarrow> string \<Rightarrow> packet \<Rightarrow> packet" where
  "los_packet str name p =
     (let name' = take CHSTATNAME name; len = length str;
          p1 = pktstr str (len + length name' + 7) p;
          p2 = chmove (char_bytes ''(from '') len p1;
          p3 = chmove (char_bytes name') (len + 6) p2;
          p4 = chmove (char_bytes '')'') (len + 6 + length name') p3
      in p4\<lparr>pk_op := LOSOP\<rparr>)"

definition sendlos :: "tome \<Rightarrow> packet \<Rightarrow> string \<Rightarrow> ncp \<Rightarrow> fault + ncp" where
  "sendlos tome p str s =
     (if pk_op p = LOSOP \<or> pk_op p = CLSOP then Inr s
      else reflect tome (los_packet str (chmyname s) p) s)"

section \<open>Receipts and acknowledgements\<close>

definition receipt :: "u16 \<Rightarrow> u16 \<Rightarrow> connection \<Rightarrow> connection" where
  "receipt acknum recnum c =
     (let c1 = (if cmp_gt recnum (cn_trecvd c)
                then c\<lparr>cn_thead := dropWhile (\<lambda>p. cmp_le (pk_pkn p) recnum) (cn_thead c), cn_trecvd := recnum\<rparr>
                else c)
      in if cmp_gt acknum (cn_tacked c1) \<and> \<not> cmp_gt acknum (cn_tlast c1) then c1\<lparr>cn_tacked := acknum\<rparr> else c1)"

text \<open>
  \<open>chretran\<close> takes the packets that are older than \<open>age\<close> ticks off the list and sends them again, with
  the latest acknowledgement.
\<close>

definition too_old :: "ncp \<Rightarrow> nat \<Rightarrow> packet \<Rightarrow> bool" where
  "too_old s age p \<longleftrightarrow> cmp_gt (chclock_now s) (pk_time p + of_nat age)"

definition chretran :: "tome \<Rightarrow> nat \<Rightarrow> nat \<Rightarrow> ncp \<Rightarrow> fault + ncp" where
  "chretran tome i age s =
     (case chconntab s i of
        None \<Rightarrow> Inr s
      | Some c \<Rightarrow>
          let old = filter (too_old s age) (cn_thead c);
              keep = filter (\<lambda>p. \<not> too_old s age p) (cn_thead c)
          in if old = [] then Inr s
             else senddata tome (map (\<lambda>p. p\<lparr>pk_ackn := cn_rread c\<rparr>) old)
                    (upd_conn i (\<lambda>c. c\<lparr>cn_thead := keep, cn_racked := cn_rread c\<rparr>) s))"

section \<open>Data\<close>

text \<open>The packets of a list that continue the sequence after \<open>last\<close>.\<close>

fun in_order :: "u16 \<Rightarrow> packet list \<Rightarrow> packet list" where
  "in_order last_pkn [] = []"
| "in_order last_pkn (p # ps) = (if pk_pkn p = last_pkn + 1 then p # in_order (last_pkn + 1) ps else [])"

text \<open>The place of an out of order packet: behind the packets with lower numbers.\<close>

fun lower_packets :: "packet \<Rightarrow> packet list \<Rightarrow> packet list" where
  "lower_packets p [] = []"
| "lower_packets p (q # qs) = (if cmp_gt (pk_pkn p) (pk_pkn q) then q # lower_packets p qs else [])"

definition rcvdata :: "tome \<Rightarrow> nat \<Rightarrow> packet \<Rightarrow> ncp \<Rightarrow> fault + ncp" where
  "rcvdata tome i p s =
     (case chconntab s i of
        None \<Rightarrow> Inr s
      | Some c \<Rightarrow>
          if cmp_gt (pk_pkn p) (cn_rread c + cn_rwsize c) then Inr s
          else
            let c1 = receipt (pk_ackn p) (pk_ackn p) c; s1 = upd_conn i (\<lambda>_. c1) s in
            if cmp_le (pk_pkn p) (cn_rlast c1) then reflect_sts tome i p s1
            else
              let new = in_order (cn_rlast c1) (p # cn_routorder c1) in
              if new \<noteq> [] then
                let c2 = c1\<lparr>cn_rhead := cn_rhead c1 @ new, cn_rlast := cn_rlast c1 + of_nat (length new),
                            cn_routorder := drop (length new) (p # cn_routorder c1)\<rparr>
                in Inr (upd_conn i (\<lambda>_. if cn_rhead c1 = [] then chinput c2 else c2) s)
              else
                let low = lower_packets p (cn_routorder c1); high = drop (length low) (cn_routorder c1) in
                if high \<noteq> [] \<and> pk_pkn (hd high) = pk_pkn p then reflect_sts tome i p s1
                else Inr (upd_conn i (\<lambda>_. c1\<lparr>cn_routorder := low @ p # high\<rparr>) s))"

section \<open>Requests for connections\<close>

text \<open>
  \<open>concmp\<close>: the contact name is a prefix of the request.  As in the code, a name that is longer than the request
  does not match, and the comparison stops with a match when the name is used up.
\<close>

fun concmp_loop :: "u8 list \<Rightarrow> u8 list \<Rightarrow> bool" where
  "concmp_loop [] lsn = (lsn = [])"
| "concmp_loop (r # rs) [] = True"
| "concmp_loop (r # rs) (l # ls) = (r = l \<and> concmp_loop rs ls)"

definition contact :: "packet \<Rightarrow> u8 list" where
  "contact p = map (pk_data p) [0..<PH_LEN p]"

definition concmp :: "packet \<Rightarrow> u8 list \<Rightarrow> bool" where
  "concmp rfc lsn = concmp_loop (contact rfc) lsn"

definition lsnmatch :: "ncp \<Rightarrow> packet \<Rightarrow> connection \<Rightarrow> connection" where
  "lsnmatch s rfc c =
     c\<lparr>cn_active := chclock_now s, cn_state := CSRFCRCVD,
       cn_rwsize := (if cn_rwsize c = 0 then CHDRWSIZE else cn_rwsize c),
       cn_faddr := pk_saddr rfc, cn_fidx := pk_sidx rfc,
       cn_laddr := (if pk_daddr rfc = 0 then 0 else chmyaddr s),
       cn_rhead := [rfc], cn_rlast := pk_pkn rfc, cn_rread := pk_pkn rfc\<rparr>"

definition rmlisten :: "nat \<Rightarrow> ncp \<Rightarrow> ncp" where
  "rmlisten i s =
     (case chconntab s i of
        None \<Rightarrow> s
      | Some c \<Rightarrow> s\<lparr>chlsnlist := (let low = takeWhile (\<lambda>p. tindex (pk_sidx p) \<noteq> tindex (cn_lidx c)) (chlsnlist s)
                                   in low @ drop (length low + 1) (chlsnlist s))\<rparr>)"

text \<open>The first connection with the same foreign end: the request is a duplicate.\<close>

definition same_foreign :: "packet \<Rightarrow> connection \<Rightarrow> bool" where
  "same_foreign p c \<longleftrightarrow> cn_fidx c = pk_sidx p \<and> cn_faddr c = pk_saddr p"

definition duplicate_rfc :: "packet \<Rightarrow> ncp \<Rightarrow> nat option" where
  "duplicate_rfc p s =
     find (\<lambda>i. case chconntab s i of None \<Rightarrow> False | Some c \<Rightarrow> same_foreign p c) [0..<CHNCONNS]"

text \<open>
  Answers of the NCP itself: the status of the interfaces, the routing table, and two times.  The status follows the
  pointers of the direct routes.
\<close>

fun direct_routes :: "ncp \<Rightarrow> nat list \<Rightarrow> fault + xcvr_id list" where
  "direct_routes s [] = Inr []"
| "direct_routes s (n # ns) =
     (if rt_type (chroutetab s n) = CHDIRECT then
        and_then (follow_xcvr (chroutetab s n)) (\<lambda>x. and_then (direct_routes s ns) (\<lambda>xs. Inr (x # xs)))
      else direct_routes s ns)"

definition answer :: "packet \<Rightarrow> nat \<Rightarrow> packet" where
  "answer rfc len = SET_PH_LEN len (pkalloc\<lparr>pk_daddr := pk_saddr rfc, pk_didx := pk_sidx rfc, pk_op := ANSOP,
     pk_saddr := pk_daddr rfc\<rparr>)"

text \<open>
  The entries are 68 bytes apart; in each the counters begin at offset 8, since the union of longs is
  aligned, so the last counter of an entry lies where the next entry begins.
\<close>

definition status_entry :: "ncp \<Rightarrow> nat \<Rightarrow> xcvr_id \<Rightarrow> packet \<Rightarrow> packet" where
  "status_entry s off x p =
     (let c = chxcvrs s x;
          p1 = put_short (off + 2) 32 (put_short off (0x100 + of_nat (subnet (xc_addr c))) p)
      in put_long (off + 64) (xc_rej c) (put_long (off + 56) (xc_leng c) (put_long (off + 48) (xc_crci c)
         (put_long (off + 40) (xc_crcr c) (put_long (off + 32) (xc_lost c) (put_long (off + 24) (xc_abrt c)
         (put_long (off + 16) (xc_xmtd c) (put_long (off + 8) (xc_rcvd c) p1))))))))"

fun status_entries :: "ncp \<Rightarrow> nat \<Rightarrow> xcvr_id list \<Rightarrow> packet \<Rightarrow> packet" where
  "status_entries s off [] p = p"
| "status_entries s off (x # xs) p = status_entries s (off + 68) xs (status_entry s off x p)"

definition host_name :: "string \<Rightarrow> u8 list" where
  "host_name name = take CHSTATNAME (char_bytes name @ replicate CHSTATNAME 0)"

definition statusrfc :: "tome \<Rightarrow> packet \<Rightarrow> ncp \<Rightarrow> fault + ncp" where
  "statusrfc tome p s =
     and_then (direct_routes s [0..<CHNSUBNET]) (\<lambda>xs.
       sendctl tome (status_entries s CHSTATNAME xs
         (chmove (host_name (chmyname s)) 0 (answer p (length xs * 68 + CHSTATNAME)))) s)"

fun routing_entries :: "ncp \<Rightarrow> u16 \<Rightarrow> nat list \<Rightarrow> packet \<Rightarrow> packet" where
  "routing_entries s ndirect [] p = p"
| "routing_entries s ndirect (n # ns) p =
     (let r = chroutetab s n in
      if rt_type r = CHDIRECT
      then routing_entries s (ndirect + 1) ns (put_short (4 * n + 2) (of_nat n) (put_short (4 * n) (2 * ndirect + 1) p))
      else routing_entries s ndirect ns (put_short (4 * n + 2) (rt_cost r) (put_short (4 * n) (bridge_address r) p)))"

definition dumprtrfc :: "tome \<Rightarrow> packet \<Rightarrow> ncp \<Rightarrow> fault + ncp" where
  "dumprtrfc tome p s =
     sendctl tome (routing_entries s 0 [0..<CHNSUBNET] (answer p (CHNSUBNET * 4))) s"

definition time_answer :: "u64 \<Rightarrow> packet \<Rightarrow> packet" where
  "time_answer t p = put_long 0 t (SET_PH_LEN 8 (p\<lparr>pk_op := ANSOP, pk_pkn := 0, pk_ackn := 0\<rparr>))"

definition timerfc :: "tome \<Rightarrow> packet \<Rightarrow> ncp \<Rightarrow> fault + ncp" where
  "timerfc tome p s = reflect tome (time_answer (fst (chtimes s)) p) s"

definition uptimerfc :: "tome \<Rightarrow> packet \<Rightarrow> ncp \<Rightarrow> fault + ncp" where
  "uptimerfc tome p s = reflect tome (time_answer (snd (chtimes s)) p) s"

text \<open>The request of the contact name is given to the first listener that matches it.\<close>

fun first_listener :: "packet \<Rightarrow> packet list \<Rightarrow> (packet \<times> packet list) option" where
  "first_listener p [] = None"
| "first_listener p (l # ls) =
     (if concmp p (contact l) then Some (l, ls)
      else (case first_listener p ls of None \<Rightarrow> None | Some (m, ms) \<Rightarrow> Some (m, l # ms)))"

text \<open>What happens to a request that neither a connection nor a listener takes.\<close>

definition unmatched_rfc :: "tome \<Rightarrow> packet \<Rightarrow> ncp \<Rightarrow> fault + ncp" where
  "unmatched_rfc tome p s =
     (if concmp p (char_bytes ''STATUS'') then statusrfc tome p s
      else if concmp p (char_bytes ''TIME'') then timerfc tome p s
      else if concmp p (char_bytes ''UPTIME'') then uptimerfc tome p s
      else if concmp p (char_bytes ''DUMP-ROUTING-TABLE'') then dumprtrfc tome p s
      else if \<not> chrfcrcv s then
        (if pk_op p \<noteq> BRDOP then sendlos tome p ''All servers disabled'' s else Inr s)
      else if list_ex (\<lambda>q. pk_sidx q = pk_sidx p \<and> pk_saddr q = pk_saddr p) (chrfclist s) then Inr s
      else Inr (s\<lparr>chrfclist := chrfclist s @ [p\<lparr>pk_ackn := 0\<rparr>]\<rparr>))"

definition chshorttime :: "ncp \<Rightarrow> nat" where
  "chshorttime s = chhz s div 16"

definition rcvrfc :: "tome \<Rightarrow> packet \<Rightarrow> ncp \<Rightarrow> fault + ncp" where
  "rcvrfc tome p s =
     (case duplicate_rfc p s of
        Some i \<Rightarrow>
          (case chconntab s i of
             None \<Rightarrow> Inr s
           | Some c \<Rightarrow> if cn_state c = CSOPEN \<and> cn_thead c \<noteq> [] then chretran tome i (chshorttime s) s else Inr s)
      | None \<Rightarrow>
          (case first_listener p (chlsnlist s) of
             Some (l, ls) \<Rightarrow>
               (case chconntab s (tindex (pk_sidx l)) of
                  None \<Rightarrow> Inl (Out_of_bounds ''conn'')
                | Some c \<Rightarrow> Inr (upd_conn (tindex (pk_sidx l)) (\<lambda>_. newstate (lsnmatch s p c)) (s\<lparr>chlsnlist := ls\<rparr>)))
           | None \<Rightarrow> unmatched_rfc tome p s))"

text \<open>
  A broadcast request: the contact name is behind the bit map of the subnets, whose length is in the
  acknowledgement field; as in the code, as many bytes as the bit map has are moved.
\<close>

definition rcvbrd :: "tome \<Rightarrow> packet \<Rightarrow> ncp \<Rightarrow> fault + ncp" where
  "rcvbrd tome p s =
     (let bitlen = unat (pk_ackn p);
          p1 = chmove (map (pk_data p) [bitlen..<2 * bitlen]) 0 (p\<lparr>pk_daddr := chmyaddr s\<rparr>);
          p2 = set_len_expr (\<lambda>len. len - pk_ackn p) p1
      in rcvrfc tome (p2\<lparr>pk_ackn := 0\<rparr>) s)"

section \<open>Routing information\<close>

definition better_route :: "u16 \<Rightarrow> u16 \<Rightarrow> chroute \<Rightarrow> chroute" where
  "better_route bridge cost r =
     (if rt_type r \<noteq> CHFIXED \<and> cost < rt_cost r
      then r\<lparr>rt_cost := cost, rt_type := CHBRIDGE, rt_u := RtAddr bridge\<rparr> else r)"

text \<open>The entries of a routing packet are two shorts each, so their number is a quarter of the length.\<close>

definition rut_entry :: "packet \<Rightarrow> nat \<Rightarrow> ncp \<Rightarrow> ncp" where
  "rut_entry p k s =
     (if unat (data_short p (2 * k)) \<ge> CHNSUBNET then s
      else upd_route (unat (data_short p (2 * k))) (better_route (pk_saddr p) (data_short p (2 * k + 1))) s)"

definition rcvrut :: "packet \<Rightarrow> ncp \<Rightarrow> fault + ncp" where
  "rcvrut p s =
     (if subnet (pk_saddr p) \<ge> CHNSUBNET \<or> rt_type (chroutetab s (subnet (pk_saddr p))) \<noteq> CHDIRECT then Inr s
      else if PH_LEN p mod 4 \<noteq> 0 then Inl (Out_of_bounds ''pk_rutdata'')
      else Inr (fold (rut_entry p) [0..<PH_LEN p div 4] s))"

section \<open>A received packet\<close>

text \<open>A packet for another host is forwarded, unless it comes from here or has been forwarded 15 times.\<close>

definition forward :: "tome \<Rightarrow> u16 \<Rightarrow> packet \<Rightarrow> ncp \<Rightarrow> fault + ncp" where
  "forward tome xaddr p s =
     (let fwdcnt = PH_FC p; p1 = SET_PH_FC (fwdcnt + 1) p in
      if (fwdcnt + 1) AND 0x0F = 0 then Inr s
      else if is_my_address s (pk_saddr p) \<or> pk_saddr p = xaddr then Inr s
      else if chmyaddr s = 0xFFFF then Inr s
      else sendctl tome p1 s)"

text \<open>The connection that the destination index of a packet selects.\<close>

definition conn_of_packet :: "packet \<Rightarrow> ncp \<Rightarrow> (nat \<times> connection) option" where
  "conn_of_packet p s =
     (let i = tindex (pk_didx p) in
      if i \<ge> CHNCONNS then None
      else (case chconntab s i of
              None \<Rightarrow> None
            | Some c \<Rightarrow> if cn_lidx c = pk_didx p then Some (i, c) else None))"

text \<open>The responses to a request of this host.\<close>

definition rcv_rfcsent :: "tome \<Rightarrow> nat \<Rightarrow> connection \<Rightarrow> packet \<Rightarrow> ncp \<Rightarrow> fault + ncp" where
  "rcv_rfcsent tome i c p s =
     (if pk_op p = OPNOP then
        let c1 = receipt (pk_ackn p) (pk_ackn p) (c\<lparr>cn_state := CSOPEN, cn_fidx := pk_sidx p,
                   cn_active := chclock_now s, cn_rread := pk_pkn p, cn_rlast := pk_pkn p, cn_twsize := pk_rwsize p\<rparr>)
        in and_then (reflect_sts tome i p (upd_conn i (\<lambda>_. c1) s)) (\<lambda>s1. Inr (upd_conn i newstate s1))
      else if pk_op p = CLSOP \<or> pk_op p = ANSOP \<or> pk_op p = FWDOP then
        Inr (upd_conn i (clsconn CSCLOSED (Some p)) s)
      else sendlos tome p ''Bad packet type reponse to RFC'' s)"

text \<open>A packet for an open connection.\<close>

definition rcv_open :: "tome \<Rightarrow> nat \<Rightarrow> connection \<Rightarrow> packet \<Rightarrow> ncp \<Rightarrow> fault + ncp" where
  "rcv_open tome i c0 p s0 =
     (let c = c0\<lparr>cn_active := chclock_now s0\<rparr>; s = upd_conn i (\<lambda>_. c) s0 in
      if ISDATOP p then rcvdata tome i p s
      else if pk_op p = OPNOP then Inr s
      else if pk_op p = SNSOP then reflect_sts tome i p (upd_conn i (receipt (pk_ackn p) (pk_ackn p)) s)
      else if pk_op p = EOFOP then rcvdata tome i p s
      else if pk_op p = LOSOP \<or> pk_op p = CLSOP then
        Inr (upd_conn i (clsconn (if pk_op p = CLSOP then CSCLOSED else CSLOST) (Some p)) s)
      else if pk_op p = UNCOP then
        let c1 = c\<lparr>cn_rhead := p # cn_rhead c\<rparr>; c2 = (if cn_rhead c = [] then chinput c1 else c1)
        in Inr (upd_conn i (\<lambda>_. receipt (pk_ackn p) (pk_ackn p) c2) s)
      else if pk_op p = STSOP then
        let c1 = receipt (pk_ackn p) (pk_receipt p) (c\<lparr>cn_twsize := pk_rwsize p\<rparr>);
            s1 = upd_conn i (\<lambda>_. c1) s
        in if cn_thead c1 \<noteq> [] then chretran tome i (chshorttime s1) s1 else Inr s1
      else sendlos tome p ''Bad opcode'' s)"

text \<open>The arrival on a subnet shows that it is directly connected.\<close>

definition arrival :: "xcvr_id \<Rightarrow> ncp \<Rightarrow> fault + ncp" where
  "arrival x s =
     (let s1 = upd_xcvr x (\<lambda>c. c\<lparr>xc_rcvd := xc_rcvd c + 1\<rparr>) s; a = xc_addr (chxcvrs s x) in
      if a \<noteq> 0 then
        and_then (in_bounds CHNSUBNET (subnet a) ''Chroutetab'') (\<lambda>_.
        Inr (upd_route (subnet a) (\<lambda>r. \<lparr>rt_u = RtXcvr x, rt_type = CHDIRECT, rt_cost = xc_cost (chxcvrs s x)\<rparr>) s1))
      else Inr s1)"

definition rcvpkt :: "tome \<Rightarrow> xcvr_id \<Rightarrow> packet \<Rightarrow> ncp \<Rightarrow> fault + ncp" where
  "rcvpkt tome x p s0 =
     and_then (arrival x s0) (\<lambda>s.
     let a = xc_addr (chxcvrs s x) in
     if \<not> is_my_address s (pk_daddr p) \<and> pk_daddr p \<noteq> a \<and> pk_daddr p \<noteq> 0 then forward tome a p s
     else if pk_op p = RUTOP then rcvrut p s
     else if pk_op p = MNTOP then Inr s
     else if pk_op p = RFCOP then rcvrfc tome p s
     else if pk_op p = BRDOP then rcvbrd tome p s
     else
       case conn_of_packet p s of
         None \<Rightarrow> sendlos tome p ''Connection doesn't exist'' s
       | Some (i, c) \<Rightarrow>
           if cn_state c = CSRFCSENT then rcv_rfcsent tome i c p s
           else if cn_state c = CSOPEN then rcv_open tome i c p s
           else sendlos tome p ''Connection is closed'' s)"

section \<open>Packets for the own host\<close>

text \<open>
  Each packet of the list passes through the fake interface, is completed and received.  The recursion
  through \<open>rcvpkt\<close> is bounded by \<open>k\<close>, with the fault \<open>No_return\<close> beyond it.
\<close>

definition loop_back :: "tome \<Rightarrow> packet \<Rightarrow> ncp \<Rightarrow> fault + ncp" where
  "loop_back tome p s =
     (let s1 = snd (xmitnext Fake (upd_xcvr Fake (\<lambda>c. c\<lparr>xc_tpkt := None, xc_list := [p]\<rparr>) s))
      in rcvpkt tome Fake (movepkt p) (xmitdone p s1))"

fun each_packet :: "(packet \<Rightarrow> ncp \<Rightarrow> fault + ncp) \<Rightarrow> packet list \<Rightarrow> ncp \<Rightarrow> fault + ncp" where
  "each_packet f [] s = Inr s"
| "each_packet f (p # ps) s = and_then (f p s) (each_packet f ps)"

fun sendtome :: "nat \<Rightarrow> packet list \<Rightarrow> ncp \<Rightarrow> fault + ncp" where
  "sendtome 0 ps s = Inl (No_return ''sendtome'')"
| "sendtome (Suc k) ps s = each_packet (loop_back (sendtome k)) ps s"

end
