(* ===== verification/Chuser.thy ===== *)
theory Chuser
  imports Chrcv
begin

text \<open>
  The interface of the NCP to its users (\<^verbatim>\<open>chaos/chncp/chuser.c\<close>) and its clock (\<^verbatim>\<open>chaos/chncp/chclock.c\<close>).
  \<open>CHERROR\<close> is the result \<open>False\<close> of \<open>ch_write\<close>.  The code does not compile the bodies of \<open>ch_eof\<close>, \<open>ch_rnext\<close>,
  \<open>sendsns\<close> and \<open>sendrut\<close>, so the request that \<open>ch_rnext\<close> would have shown (\<open>rfcseen\<close>) is never set.
\<close>

unbundle bit_operations_syntax

section \<open>Writing and reading packets\<close>

definition CHANSWER :: "connection \<Rightarrow> bool" where
  "CHANSWER c \<longleftrightarrow> cn_flags c AND 2 \<noteq> 0"

text \<open>\<open>ch_close\<close>: \<open>pkt\<close> is the CLS or ANS packet to send.\<close>

definition ch_close :: "tome \<Rightarrow> nat \<Rightarrow> packet option \<Rightarrow> bool \<Rightarrow> ncp \<Rightarrow> fault + ncp" where
  "ch_close tome i pkt release s =
     (case chconntab s i of
        None \<Rightarrow> Inr s
      | Some c \<Rightarrow>
          and_then
            (if cn_state c = CSOPEN \<or> cn_state c = CSRFCRCVD then
               and_then
                 (case pkt of None \<Rightarrow> Inr s
                  | Some p \<Rightarrow> sendctl tome ((setpkt c p)\<lparr>pk_ackn := 0, pk_pkn := 0\<rparr>) s)
                 (\<lambda>s1. Inr (upd_conn i (clsconn CSCLOSED None) s1))
             else if cn_state c = CSRFCSENT then Inr (upd_conn i (clsconn CSCLOSED None) s)
             else if cn_state c = CSLISTEN then Inr (rmlisten i s)
             else Inr s)
            (\<lambda>s2. Inr (if release then rlsconn i s2 else s2)))"

text \<open>A numbered packet: the next number of the connection, kept for retransmission when it has been sent.\<close>

definition write_numbered :: "tome \<Rightarrow> nat \<Rightarrow> connection \<Rightarrow> packet \<Rightarrow> ncp \<Rightarrow> fault + ncp" where
  "write_numbered tome i c p s =
     senddata tome [(setpkt c p)\<lparr>pk_pkn := cn_tlast c + 1\<rparr>] (upd_conn i (\<lambda>_. c\<lparr>cn_tlast := cn_tlast c + 1\<rparr>) s)"

definition ch_write :: "tome \<Rightarrow> nat \<Rightarrow> packet \<Rightarrow> ncp \<Rightarrow> fault + bool \<times> ncp" where
  "ch_write tome i p s =
     (case chconntab s i of
        None \<Rightarrow> Inr (False, s)
      | Some c \<Rightarrow>
          let okay = (\<lambda>r. and_then r (\<lambda>s1. Inr (True, s1))) in
          if pk_op p = ANSOP \<or> pk_op p = FWDOP then
            (if cn_state c \<noteq> CSRFCRCVD \<or> \<not> CHANSWER c then Inr (False, s)
             else okay (ch_close tome i (Some p) False s))
          else if pk_op p = RFCOP \<or> pk_op p = BRDOP then
            (if cn_state c \<noteq> CSRFCSENT then Inr (False, s) else okay (write_numbered tome i c p s))
          else if pk_op p = UNCOP then okay (senddata tome [setpkt c (p\<lparr>pk_pkn := 0\<rparr>)] s)
          else if ISDATOP p \<or> pk_op p = OPNOP \<or> pk_op p = EOFOP then
            (if cn_state c \<noteq> CSOPEN then Inr (False, s)
             else let (c1, p1) = setack c p in okay (write_numbered tome i c1 p1 s))
          else Inr (False, s))"

text \<open>
  Consuming the packet at the head of the received packets.  When an EOF has been read or a third of the window is
  not acknowledged, the packet goes back as a status.
\<close>

definition ch_read :: "tome \<Rightarrow> nat \<Rightarrow> ncp \<Rightarrow> fault + ncp" where
  "ch_read tome i s =
     (case chconntab s i of
        None \<Rightarrow> Inr s
      | Some c \<Rightarrow>
          (case cn_rhead c of
             [] \<Rightarrow> Inr s
           | p # ps \<Rightarrow>
               let c1 = c\<lparr>cn_rhead := ps\<rparr> in
               if CONTPKT p then
                 let c2 = c1\<lparr>cn_rread := pk_pkn p\<rparr>; s2 = upd_conn i (\<lambda>_. c2) s in
                 if pk_op p = EOFOP \<or> 3 * sint (cn_rread c2 - cn_racked c2) > uint (cn_rwsize c2)
                 then reflect_sts tome i p s2 else Inr s2
               else Inr (upd_conn i (\<lambda>_. c1) s)))"

definition ch_sts :: "tome \<Rightarrow> nat \<Rightarrow> ncp \<Rightarrow> fault + ncp" where
  "ch_sts tome i s = sendsts tome i s"

section \<open>Opening connections\<close>

text \<open>The result is the slot of the connection, \<open>None\<close> when there is none left.\<close>

definition ch_open :: "tome \<Rightarrow> u16 \<Rightarrow> int \<Rightarrow> packet \<Rightarrow> ncp \<Rightarrow> fault + nat option \<times> ncp" where
  "ch_open tome destaddr rwsize p s =
     (case allconn s of
        (None, s1) \<Rightarrow> Inr (None, s1)
      | (Some i, s1) \<Rightarrow>
          let s2 = upd_conn i (\<lambda>c. c\<lparr>cn_laddr := chmyaddr s1, cn_faddr := destaddr, cn_state := CSRFCSENT,
                     cn_fidx := 0, cn_rwsize := word_of_int rwsize,
                     cn_rsts := word_of_int (if rwsize < 0 then - (- rwsize div 2) else rwsize div 2),
                     cn_active := chclock_now s1\<rparr>) s1;
              p1 = (SET_PH_FC 0 (p\<lparr>pk_op := RFCOP\<rparr>))\<lparr>pk_ackn := 0\<rparr>
          in and_then (ch_write tome i p1 s2) (\<lambda>(_, s3). Inr (Some i, s3)))"

text \<open>The first queued request that a new listener matches.\<close>

fun first_request :: "u8 list \<Rightarrow> packet list \<Rightarrow> (packet \<times> packet list) option" where
  "first_request lsn [] = None"
| "first_request lsn (r # rs) =
     (if concmp r lsn then Some (r, rs)
      else (case first_request lsn rs of None \<Rightarrow> None | Some (m, ms) \<Rightarrow> Some (m, r # ms)))"

definition ch_listen :: "packet \<Rightarrow> int \<Rightarrow> ncp \<Rightarrow> nat option \<times> ncp" where
  "ch_listen p rwsize s =
     (case allconn s of
        (None, s1) \<Rightarrow> (None, s1)
      | (Some i, s1) \<Rightarrow>
          let s2 = upd_conn i (\<lambda>c. c\<lparr>cn_state := CSLISTEN, cn_rwsize := word_of_int rwsize\<rparr>) s1;
              p1 = (case chconntab s2 i of None \<Rightarrow> p | Some c \<Rightarrow> setpkt c (p\<lparr>pk_op := LSNOP\<rparr>))
          in case first_request (contact p1) (chrfclist s2) of
               Some (r, rs) \<Rightarrow> (Some i, upd_conn i (lsnmatch s2 r) (s2\<lparr>chrfclist := rs\<rparr>))
             | None \<Rightarrow> (Some i, s2\<lparr>chlsnlist := p1 # chlsnlist s2\<rparr>))"

definition ch_accept :: "tome \<Rightarrow> nat \<Rightarrow> ncp \<Rightarrow> fault + ncp" where
  "ch_accept tome i s =
     (case chconntab s i of
        None \<Rightarrow> Inr s
      | Some c \<Rightarrow>
          if cn_state c \<noteq> CSRFCRCVD then Inr s
          else
            and_then (if cn_rhead c \<noteq> [] \<and> pk_op (hd (cn_rhead c)) = RFCOP then ch_read tome i s else Inr s) (\<lambda>s1.
            let s2 = upd_conn i (\<lambda>c. c\<lparr>cn_state := CSOPEN, cn_tlast := 0, cn_rsts := drop_bit 1 (cn_rwsize c)\<rparr>) s1
            in case chconntab s2 i of
                 None \<Rightarrow> Inr s2
               | Some c2 \<Rightarrow>
                   and_then (ch_write tome i (put_short 2 (cn_rwsize c2) (put_short 0 (cn_rlast c2)
                       (SET_PH_LEN 4 (pkalloc\<lparr>pk_op := OPNOP\<rparr>)))) s2) (\<lambda>(_, s3). Inr s3)))"

section \<open>The clock\<close>

text \<open>The rates of \<^verbatim>\<open>chclock.c\<close> in ticks.\<close>

definition MINRATE :: "ncp \<Rightarrow> nat" where "MINRATE s = chhz s div 2"
definition PROBERATE :: "ncp \<Rightarrow> nat" where "PROBERATE s = chhz s * 8"
definition TESTRATE :: "ncp \<Rightarrow> nat" where "TESTRATE s = chhz s * 45"
definition UPTIME :: "ncp \<Rightarrow> nat" where "UPTIME s = 3 * TESTRATE s"
definition RFCTIME :: "ncp \<Rightarrow> nat" where "RFCTIME s = chhz s * 15"

definition chroutage :: "ncp \<Rightarrow> ncp" where
  "chroutage s = s\<lparr>chroutetab := (\<lambda>n. let r = chroutetab s n in
     if n < CHNSUBNET \<and> (rt_type r = CHBRIDGE \<or> rt_type r = CHDIRECT) \<and> rt_cost r < CHHCOST
     then r\<lparr>rt_cost := rt_cost r + 1\<rparr> else r)\<rparr>"

text \<open>
  The work of a clock tick for one connection: the packet being filled is sent when it has not been
  touched for \<open>ORATE\<close> ticks, unreceipted packets are sent again, and a connection on which nothing has arrived
  for too long is given up.
\<close>

definition flush_output :: "tome \<Rightarrow> nat \<Rightarrow> connection \<Rightarrow> ncp \<Rightarrow> fault + ncp" where
  "flush_output tome i c s =
     (case cn_toutput c of
        None \<Rightarrow> Inr s
      | Some p \<Rightarrow>
          if cmp_gt (chclock_now s) (pk_time p + of_nat (MINRATE s)) \<and> \<not> chtfull c
          then and_then (ch_write tome i p (upd_conn i (\<lambda>c. c\<lparr>cn_toutput := None\<rparr>) s)) (\<lambda>(_, s1). Inr s1)
          else Inr s)"

definition probe :: "nat \<Rightarrow> ncp \<Rightarrow> ncp" where
  "probe i s =
     upd_conn i (\<lambda>c. let inactive = unat (chclock_now s - cn_active c) in
       if inactive \<ge> (if cn_state c = CSOPEN then UPTIME s else RFCTIME s) then clsconn CSINCT None c else c) s"

definition clock_connection :: "tome \<Rightarrow> bool \<Rightarrow> nat \<Rightarrow> ncp \<Rightarrow> fault + ncp" where
  "clock_connection tome probing i s =
     (case chconntab s i of
        None \<Rightarrow> Inr s
      | Some c \<Rightarrow>
          if cn_state c \<noteq> CSOPEN \<and> cn_state c \<noteq> CSRFCSENT then Inr s
          else
            and_then (flush_output tome i c s) (\<lambda>s1.
            and_then (chretran tome i (chhz s1) s1) (\<lambda>s2.
            Inr (if probing then probe i s2 else s2))))"

fun clock_connections :: "tome \<Rightarrow> bool \<Rightarrow> nat list \<Rightarrow> ncp \<Rightarrow> fault + ncp" where
  "clock_connections tome probing [] s = Inr s"
| "clock_connections tome probing (i # is) s =
     and_then (clock_connection tome probing i s) (clock_connections tome probing is)"

definition ch_clock :: "tome \<Rightarrow> ncp \<Rightarrow> fault + ncp" where
  "ch_clock tome s0 =
     (let now = chclock_now s0 + 1; s = s0\<lparr>chclock_now := now\<rparr> in
      if nextclk s \<noteq> now then Inr s
      else
        let s1 = s\<lparr>nextclk := nextclk s + of_nat (MINRATE s)\<rparr>;
            probing = cmp_gt now (nextprobe s1);
            s2 = (if probing then s1\<lparr>nextprobe := nextprobe s1 + of_nat (PROBERATE s1)\<rparr> else s1);
            s3 = (if cmp_gt now (nexthang s2) then s2\<lparr>nexthang := nexthang s2 + of_nat (MINRATE s2)\<rparr> else s2);
            s4 = (if cmp_gt now (nextroute s3)
                  then (chroutage s3)\<lparr>nextroute := nextroute s3 + of_nat (chhz s3 * 4)\<rparr> else s3);
            s5 = (if cmp_gt now (nextbridge s4) then s4\<lparr>nextbridge := nextbridge s4 + of_nat (chhz s4 * 15)\<rparr> else s4)
        in clock_connections tome probing [0..<CHNCONNS] s5)"

end
