(* ===== verification/Ch_Numbers.thy ===== *)
theory Ch_Numbers
  imports Chuser
begin

text \<open>
  Packet numbers of 16 bits stand for natural numbers: the comparisons of the NCP agree with those of the
  naturals as long as the numbers are less than half the range apart.  A packet carries a payload (its operation
  and its data), and a copy of the \<open>n\<close>-th packet of a stream carries the stream's \<open>n\<close>-th payload and the number
  \<open>n\<close>; the time, the acknowledgement and the way it takes may differ from copy to copy.
\<close>

section \<open>Numbers\<close>

lemma bit_15_of_nat: "bit (of_nat k :: u16) 15 = bit k 15"
  by (simp add: bit_simps)

lemma cmp_gt_nat:
  assumes "x \<le> y + 2 ^ 15" "y < x + 2 ^ 15"
  shows "cmp_gt (of_nat x) (of_nat y) \<longleftrightarrow> y < x"
proof (cases "y < x")
  case True
  then have "(of_nat y :: u16) - of_nat x = - of_nat (x - y)"
    by simp
  also have "\<dots> = of_nat (2 ^ 16 - (x - y))"
    using True assms by (subst of_nat_diff) (auto simp: unat_of_nat)
  finally have d: "(of_nat y :: u16) - of_nat x = of_nat (2 ^ 16 - (x - y))" .
  have "(2 ^ 16 - (x - y)) div 2 ^ 15 = Suc 0"
    using True assms by (intro div_nat_eqI) auto
  then have "bit (2 ^ 16 - (x - y)) 15"
    unfolding bit_iff_odd by (simp only:)  simp
  then show ?thesis
    using True by (simp add: cmp_gt_def d bit_15_of_nat)
next
  case False
  then have d: "(of_nat y :: u16) - of_nat x = of_nat (y - x)"
    by (simp add: of_nat_diff)
  have "\<not> bit (y - x) 15"
    using False assms by (simp add: bit_iff_odd)
  then have "\<not> cmp_gt (of_nat x) (of_nat y)"
    unfolding cmp_gt_def d bit_15_of_nat .
  then show ?thesis
    using False by simp
qed

lemma number_eq_nat:
  assumes "x < y + 2 ^ 16" "y < x + 2 ^ 16"
  shows "(of_nat x :: u16) = of_nat y \<longleftrightarrow> x = y"
proof -
  have "(of_nat x :: u16) = of_nat y \<longleftrightarrow> x mod 2 ^ 16 = y mod 2 ^ 16"
    by (simp add: word_unat_eq_iff unat_of_nat)
  also have "\<dots> \<longleftrightarrow> x = y"
  proof
    assume e: "x mod 2 ^ 16 = y mod 2 ^ 16"
    show "x = y"
    proof (cases "x \<le> y")
      case True
      then have "2 ^ 16 dvd y - x"
        using e mod_eq_dvd_iff_nat [of x y "2 ^ 16"] by simp
      then show ?thesis
        using True assms by (auto dest: dvd_imp_le)
    next
      case False
      then have "2 ^ 16 dvd x - y"
        using e mod_eq_dvd_iff_nat [of y x "2 ^ 16"] by simp
      then show ?thesis
        using False assms by (auto dest: dvd_imp_le)
    qed
  qed simp
  finally show ?thesis .
qed

section \<open>Payloads and copies\<close>

type_synonym payload = "u8 \<times> u8 list"

definition payload :: "packet \<Rightarrow> payload" where
  "payload p = (pk_op p, contact p)"

definition copy_of :: "(nat \<Rightarrow> payload) \<Rightarrow> nat \<Rightarrow> packet \<Rightarrow> bool" where
  "copy_of st n p \<longleftrightarrow> pk_pkn p = of_nat n \<and> payload p = st n"

text \<open>What does not touch the payload or the number of a packet.\<close>

lemma copy_of_updates [simp]:
  "copy_of st n (p\<lparr>pk_time := t\<rparr>) = copy_of st n p"
  "copy_of st n (p\<lparr>pk_ackn := a\<rparr>) = copy_of st n p"
  "copy_of st n (p\<lparr>pk_xdest := x\<rparr>) = copy_of st n p"
  "copy_of st n (p\<lparr>pk_type := y\<rparr>) = copy_of st n p"
  "copy_of st n (p\<lparr>pk_daddr := d\<rparr>) = copy_of st n p"
  "copy_of st n (p\<lparr>pk_didx := e\<rparr>) = copy_of st n p"
  "copy_of st n (p\<lparr>pk_saddr := f\<rparr>) = copy_of st n p"
  "copy_of st n (p\<lparr>pk_sidx := g\<rparr>) = copy_of st n p"
  by (simp_all add: copy_of_def payload_def contact_def PH_LEN_def)

lemma PH_LEN_set_fc [simp]: "PH_LEN (SET_PH_FC fc p) = PH_LEN p"
proof -
  have "((x AND 0x0FFF) OR push_bit 12 (fc AND 0xF)) AND 0x0FFF = x AND (0x0FFF :: u16)" for x
    unfolding length_field_bits by (rule bit_word_eqI) (auto simp: bit_simps length_field_bits)
  then show ?thesis
    by (simp add: PH_LEN_def SET_PH_FC_def)
qed

lemma payload_set_fc [simp]: "payload (SET_PH_FC fc p) = payload p"
  by (simp add: payload_def contact_def) (simp add: SET_PH_FC_def)

lemma payload_movepkt [simp]: "payload (movepkt p) = payload p"
proof -
  have "PH_LEN (movepkt p) = PH_LEN p"
    by (simp add: PH_LEN_def movepkt_def)
  moreover have "pk_data (movepkt p) i = pk_data p i" if "i < PH_LEN p" for i
    using that by (auto simp: movepkt_def)
  ultimately show ?thesis
    by (auto simp: payload_def contact_def) (simp add: movepkt_def)
qed

lemma copy_of_number: "copy_of st n p \<Longrightarrow> pk_pkn p = of_nat n"
  by (simp add: copy_of_def)

lemma copy_of_payload: "copy_of st n p \<Longrightarrow> payload p = st n"
  by (simp add: copy_of_def)

text \<open>The operations of a data stream.\<close>

definition data_op :: "u8 \<Rightarrow> bool" where
  "data_op x \<longleftrightarrow> x AND DATOP \<noteq> 0 \<or> x = EOFOP"

lemma data_op_CONTPKT: "data_op (pk_op p) \<Longrightarrow> CONTPKT p"
  by (auto simp: data_op_def CONTPKT_def ISDATOP_def)

end
