(* ===== verification/Ch_Routes.thy ===== *)
theory Ch_Routes
  imports Ch_Numbers
begin

text \<open>
  Routing and the queues of the interfaces: with routes that hold what their type says, sending never
  follows a bridge address as a pointer, and a sent packet is in the queue of an interface or is
  handled as if it had been transmitted.
\<close>

section \<open>Well-formed routes\<close>

definition is_xcvr :: "rt_union \<Rightarrow> bool" where
  "is_xcvr u = (case u of RtXcvr x \<Rightarrow> True | RtAddr a \<Rightarrow> False)"

definition route_ok :: "(nat \<Rightarrow> chroute) \<Rightarrow> chroute \<Rightarrow> bool" where
  "route_ok tab r =
     (case rt_type r of
        CHNOPATH \<Rightarrow> True
      | CHDIRECT \<Rightarrow> is_xcvr (rt_u r)
      | _ \<Rightarrow> (case rt_u r of
               RtXcvr x \<Rightarrow> False
             | RtAddr a \<Rightarrow> subnet a < CHNSUBNET \<and> is_xcvr (rt_u (tab (subnet a)))))"

definition routes_ok :: "ncp \<Rightarrow> bool" where
  "routes_ok s \<longleftrightarrow> (\<forall>n < CHNSUBNET. route_ok (chroutetab s) (chroutetab s n))"

lemma routes_ok_frame [simp]:
  "routes_ok (s\<lparr>chconntab := t\<rparr>) = routes_ok s"
  "routes_ok (s\<lparr>chxcvrs := u\<rparr>) = routes_ok s"
  by (simp_all add: routes_ok_def)

lemma follow_xcvr_ok: "is_xcvr (rt_u r) \<Longrightarrow> \<exists>x. follow_xcvr r = Inr x"
  by (auto simp: is_xcvr_def follow_xcvr_def split: rt_union.splits)

lemma route_to_ok:
  assumes "routes_ok s" "\<not> no_route a s"
  obtains x d where "route_to a s = Inr (x, d)"
proof -
  let ?r = "chroutetab s (subnet a)"
  have r: "route_ok (chroutetab s) ?r" "rt_type ?r \<noteq> CHNOPATH"
    using assms by (auto simp: routes_ok_def no_route_def)
  show thesis
  proof (cases "rt_type ?r = CHDIRECT")
    case True
    then obtain x where "follow_xcvr ?r = Inr x"
      using r by (auto simp: route_ok_def dest: follow_xcvr_ok)
    with True show ?thesis
      by (intro that) (simp add: route_to_def)
  next
    case False
    then obtain b where b: "rt_u ?r = RtAddr b" "subnet b < CHNSUBNET" "is_xcvr (rt_u (chroutetab s (subnet b)))"
      using r by (auto simp: route_ok_def split: rt_type_t.splits rt_union.splits)
    then obtain x where x: "follow_xcvr (chroutetab s (subnet b)) = Inr x"
      by (auto dest: follow_xcvr_ok)
    have t: "rt_type ?r = CHFIXED \<or> rt_type ?r = CHBRIDGE"
      using False r by (cases "rt_type ?r") auto
    show ?thesis
      by (rule that [of x b]) (use t b x in \<open>simp add: route_to_def bridge_address_def in_bounds_def\<close>)
  qed
qed

section \<open>Queued packets\<close>

definition in_xcvr :: "chxcvr \<Rightarrow> packet set" where
  "in_xcvr c = set (xc_list c) \<union> set_option (xc_tpkt c)"

definition queued :: "ncp \<Rightarrow> packet set" where
  "queued s = (\<Union>x. in_xcvr (chxcvrs s x))"

lemma queued_frame [simp]:
  "queued (s\<lparr>chconntab := t\<rparr>) = queued s"
  "queued (s\<lparr>chroutetab := r\<rparr>) = queued s"
  by (simp_all add: queued_def)

lemma upd_conn_simps [simp]:
  "queued (upd_conn i f s) = queued s"
  "routes_ok (upd_conn i f s) = routes_ok s"
  "is_my_address (upd_conn i f s) = is_my_address s"
  "no_route a (upd_conn i f s) = no_route a s"
  "route_to a (upd_conn i f s) = route_to a s"
  "chclock_now (upd_conn i f s) = chclock_now s"
  "chmyaddr (upd_conn i f s) = chmyaddr s"
  "chhz (upd_conn i f s) = chhz s"
  "chxcvrs (upd_conn i f s) = chxcvrs s"
  "chconntab (upd_conn i f s) i = map_option f (chconntab s i)"
  "j \<noteq> i \<Longrightarrow> chconntab (upd_conn i f s) j = chconntab s j"
  by (simp_all add: upd_conn_def fun_eq_iff is_my_address_def no_route_def route_to_def Let_def)

lemma queued_upd_xcvr:
  "queued (upd_xcvr x f s) = (\<Union>y \<in> - {x}. in_xcvr (chxcvrs s y)) \<union> in_xcvr (f (chxcvrs s x))"
  unfolding queued_def upd_xcvr_def by (auto split: if_splits)

lemma queued_split: "queued s = (\<Union>y \<in> - {x}. in_xcvr (chxcvrs s y)) \<union> in_xcvr (chxcvrs s x)"
  unfolding queued_def by auto

lemma set_insert_packet [simp]: "set (insert_packet p qs) = insert p (set qs)"
  by (induction qs) auto

text \<open>What the operations on queues leave alone.\<close>

definition same_but_queues :: "ncp \<Rightarrow> ncp \<Rightarrow> bool" where
  "same_but_queues s s' \<longleftrightarrow> s' = s\<lparr>chxcvrs := chxcvrs s'\<rparr>"

lemma same_but_queues_refl [simp, intro!]: "same_but_queues s s"
  by (simp add: same_but_queues_def)

lemma same_but_queues_trans [trans]: "same_but_queues s t \<Longrightarrow> same_but_queues t u \<Longrightarrow> same_but_queues s u"
  unfolding same_but_queues_def by (cases s; cases t; cases u) simp

lemma same_but_queuesD:
  assumes "same_but_queues s s'"
  shows "chconntab s' = chconntab s" "routes_ok s' = routes_ok s" "is_my_address s' = is_my_address s"
    "no_route a s' = no_route a s" "route_to a s' = route_to a s" "chclock_now s' = chclock_now s" "chhz s' = chhz s"
    "chmyaddr s' = chmyaddr s" "chroutetab s' = chroutetab s"
proof -
  obtain u where s': "s' = s\<lparr>chxcvrs := u\<rparr>"
    using assms unfolding same_but_queues_def by blast
  show "chconntab s' = chconntab s" "routes_ok s' = routes_ok s" "is_my_address s' = is_my_address s"
    "no_route a s' = no_route a s" "route_to a s' = route_to a s" "chclock_now s' = chclock_now s" "chhz s' = chhz s"
    "chmyaddr s' = chmyaddr s" "chroutetab s' = chroutetab s"
    by (simp_all add: s' fun_eq_iff is_my_address_def no_route_def route_to_def Let_def)
qed

lemma same_but_queues_upd_xcvr [simp, intro!]: "same_but_queues s (upd_xcvr x f s)"
  by (simp add: same_but_queues_def upd_xcvr_def)

lemma xmitnext_queues [simp, intro!]: "same_but_queues s (snd (xmitnext x s))"
  by (auto simp: xmitnext_def split: list.split)

lemma queued_xmitnext:
  "queued (snd (xmitnext x s)) \<subseteq> queued s"
  "xc_tpkt (chxcvrs s x) = None \<Longrightarrow> queued (snd (xmitnext x s)) = queued s"
  by (auto simp: xmitnext_def queued_upd_xcvr queued_split [of s x] in_xcvr_def split: list.split)

lemma chxmitpkt_queues [intro!]: "same_but_queues s (chxmitpkt x p h s)"
proof -
  let ?s = "upd_xcvr x (\<lambda>c. c\<lparr>xc_list := if h then p # xc_list c else xc_list c @ [p]\<rparr>) s"
  have "same_but_queues s ?s" "same_but_queues ?s (snd (xmitnext x ?s))"
    by blast+
  then show ?thesis
    unfolding chxmitpkt_def Let_def by (auto intro: same_but_queues_trans)
qed

lemma queued_chxmitpkt [simp]: "queued (chxmitpkt x p h s) = insert p (queued s)"
proof -
  let ?s = "upd_xcvr x (\<lambda>c. c\<lparr>xc_list := if h then p # xc_list c else xc_list c @ [p]\<rparr>) s"
  have "queued ?s = insert p (queued s)"
    by (auto simp: queued_upd_xcvr queued_split [of s x] in_xcvr_def)
  then show ?thesis
    by (auto simp: chxmitpkt_def Let_def queued_xmitnext)
qed

section \<open>Sending a control packet to another host\<close>

lemma sendctl_other:
  assumes "routes_ok s" "\<not> is_my_address s (pk_daddr p)"
  obtains s' where "sendctl tome p s = Inr s'" "same_but_queues s s'"
    "\<And>q. q \<in> queued s' \<Longrightarrow> q \<in> queued s \<or> (\<exists>x. q = p\<lparr>pk_xdest := x\<rparr>)"
    "queued s \<subseteq> queued s'"
proof (cases "no_route (pk_daddr p) s")
  case True
  then have "sendctl tome p s = Inr s"
    using assms by (simp add: sendctl_def)
  then show ?thesis
    by (rule that) auto
next
  case False
  then obtain x d where "route_to (pk_daddr p) s = Inr (x, d)"
    using assms route_to_ok by blast
  then have "sendctl tome p s = Inr (chxmitpkt x (p\<lparr>pk_xdest := d\<rparr>) True s)"
    using assms False by (simp add: sendctl_def)
  then show ?thesis
    by (rule that) auto
qed

end
