(* ===== verification/Ch_Receive.thy ===== *)
theory Ch_Receive
  imports Ch_Routes
begin

text \<open>
  The receiving half of a connection is a set of packet numbers: \<open>receiver st R S c\<close> says that the user has read the
  stream \<open>st\<close> up to number \<open>R\<close>, that exactly the numbers of \<open>S\<close> beyond \<open>R\<close> have arrived, and that the
  connection holds them: those without a gap in the list for the user, in order, the others in
  the list of out of order packets, sorted.  A data packet inserts its number into the set, whatever the order
  of arrival and however often it arrives.
\<close>

text \<open>The last number received without a gap.\<close>

definition last_in_order :: "nat \<Rightarrow> nat set \<Rightarrow> nat \<Rightarrow> bool" where
  "last_in_order R S L \<longleftrightarrow> R \<le> L \<and> {R<..L} \<subseteq> S \<and> L + 1 \<notin> S"

definition receiver :: "(nat \<Rightarrow> payload) \<Rightarrow> nat \<Rightarrow> nat set \<Rightarrow> connection \<Rightarrow> bool" where
  "receiver st R S c \<longleftrightarrow>
     unat (cn_rwsize c) < 2 ^ 15 \<and> S \<subseteq> {R<..R + unat (cn_rwsize c)} \<and> (\<forall>n \<in> S. data_op (fst (st n))) \<and>
     cn_rread c = of_nat R \<and>
     (\<exists>L ns. last_in_order R S L \<and> cn_rlast c = of_nat L \<and>
        list_all2 (copy_of st) [R + 1..<L + 1] (filter CONTPKT (cn_rhead c)) \<and>
        sorted_wrt (<) ns \<and> set ns = {n \<in> S. L < n} \<and> list_all2 (copy_of st) ns (cn_routorder c))"

lemma last_in_order_unique:
  assumes "last_in_order R S L" "last_in_order R S M"
  shows "L = M"
proof (rule ccontr)
  assume "L \<noteq> M"
  then consider "L < M" | "M < L" by linarith
  then show False
  proof cases
    case 1
    then have "L + 1 \<in> {R<..M}" using assms by (auto simp: last_in_order_def)
    then show False using assms unfolding last_in_order_def by blast
  next
    case 2
    then have "M + 1 \<in> {R<..L}" using assms by (auto simp: last_in_order_def)
    then show False using assms unfolding last_in_order_def by blast
  qed
qed

lemma receiverE:
  assumes "receiver st R S c"
  obtains L ns where "last_in_order R S L" "unat (cn_rwsize c) < 2 ^ 15" "S \<subseteq> {R<..R + unat (cn_rwsize c)}"
    "\<forall>n \<in> S. data_op (fst (st n))" "cn_rread c = of_nat R" "cn_rlast c = of_nat L"
    "list_all2 (copy_of st) [R + 1..<L + 1] (filter CONTPKT (cn_rhead c))"
    "sorted_wrt (<) ns" "set ns = {n \<in> S. L < n}" "list_all2 (copy_of st) ns (cn_routorder c)"
  using assms unfolding receiver_def by blast

lemma receiverI:
  assumes "last_in_order R S L" "unat (cn_rwsize c) < 2 ^ 15" "S \<subseteq> {R<..R + unat (cn_rwsize c)}"
    "\<forall>n \<in> S. data_op (fst (st n))" "cn_rread c = of_nat R" "cn_rlast c = of_nat L"
    "list_all2 (copy_of st) [R + 1..<L + 1] (filter CONTPKT (cn_rhead c))"
    "sorted_wrt (<) ns" "set ns = {n \<in> S. L < n}" "list_all2 (copy_of st) ns (cn_routorder c)"
  shows "receiver st R S c"
  using assms unfolding receiver_def by blast

text \<open>Only the part of the stream that has arrived matters.\<close>

lemma receiver_stream_cong:
  assumes "receiver st R S c" "\<And>n. n \<le> T \<Longrightarrow> st' n = st n" "S \<subseteq> {..T}" "R \<le> T"
  shows "receiver st' R S c"
proof -
  obtain L ns where L: "last_in_order R S L" and c: "unat (cn_rwsize c) < 2 ^ 15" "S \<subseteq> {R<..R + unat (cn_rwsize c)}"
      "\<forall>n \<in> S. data_op (fst (st n))" "cn_rread c = of_nat R" "cn_rlast c = of_nat L"
    and rh: "list_all2 (copy_of st) [R + 1..<L + 1] (filter CONTPKT (cn_rhead c))"
    and ns: "sorted_wrt (<) ns" "set ns = {n \<in> S. L < n}" "list_all2 (copy_of st) ns (cn_routorder c)"
    using assms(1) by (rule receiverE)
  have "L \<le> T"
  proof (cases "L = R")
    case False
    then have "L \<in> {R<..L}" "{R<..L} \<subseteq> S"
      using L by (simp_all add: last_in_order_def)
    then have "L \<in> S" by blast
    then show ?thesis
      using assms(3) by auto
  qed (use assms(4) in simp)
  then have same: "\<forall>n \<in> set [R + 1..<L + 1] \<union> set ns. st' n = st n"
    using ns(2) assms(2,3) by auto
  have "list_all2 (copy_of st') ms ps" if "list_all2 (copy_of st) ms ps" "\<forall>n \<in> set ms. st' n = st n" for ms ps
    using that by (elim list.rel_mono_strong) (simp add: copy_of_def)
  note copies = this
  show ?thesis
  proof (rule receiverI [OF L c(1,2) _ c(4,5) _ ns(1,2)])
    show "\<forall>n \<in> S. data_op (fst (st' n))"
      using c(3) assms(2,3) by auto
    show "list_all2 (copy_of st') [R + 1..<L + 1] (filter CONTPKT (cn_rhead c))"
      using rh same by (intro copies) auto
    show "list_all2 (copy_of st') ns (cn_routorder c)"
      using ns(3) same by (intro copies) auto
  qed
qed

section \<open>The two lists\<close>

text \<open>What continues the sequence is the longest run of numbers at the head of the sorted list.\<close>

lemma in_order_run:
  assumes "sorted_wrt (<) ns" "\<forall>n \<in> set ns. L < n \<and> n \<le> L + 2 ^ 15" "list_all2 (copy_of st) ns ps"
  obtains k where "in_order (of_nat L) ps = take k ps" "k \<le> length ns" "take k ns = [L + 1..<L + k + 1]"
    "L + k + 1 \<notin> set ns"
  using assms
proof (induction ps arbitrary: ns L thesis)
  case Nil
  then show ?case
    by (intro Nil(1) [of 0]) auto
next
  case (Cons p ps)
  then obtain n ms where ns: "ns = n # ms" and p: "copy_of st n p" and ps: "list_all2 (copy_of st) ms ps"
    by (auto simp: list_all2_Cons2)
  have next_number: "pk_pkn p = of_nat L + 1 \<longleftrightarrow> n = L + 1"
    using number_eq_nat [of n "L + 1"] Cons.prems(3) by (simp add: ns copy_of_number [OF p] add.commute)
  show ?case
  proof (cases "n = L + 1")
    case True
    have "\<forall>m \<in> set ms. L + 1 < m \<and> m \<le> L + 1 + 2 ^ 15"
      using Cons.prems(2,3) True by (auto simp: ns)
    then obtain k where k: "in_order (of_nat (L + 1)) ps = take k ps" "k \<le> length ms"
        "take k ms = [L + 2..<L + k + 2]" "L + k + 2 \<notin> set ms"
      using Cons.IH [of "L + 1" ms] Cons.prems(2) ps by (auto simp: ns)
    show ?thesis
    proof (rule Cons.prems(1) [of "Suc k"])
      show "in_order (of_nat L) (p # ps) = take (Suc k) (p # ps)"
        using True next_number k(1) by (simp add: add.commute)
      show "take (Suc k) ns = [L + 1..<L + Suc k + 1]"
        using k(3) True by (simp add: ns upt_rec)
    qed (use k True in \<open>auto simp: ns\<close>)
  next
    case False
    then have "L + 1 \<notin> set ns"
      using Cons.prems(2,3) by (auto simp: ns)
    with False next_number show ?thesis
      by (intro Cons.prems(1) [of 0]) auto
  qed
qed

text \<open>An out of order packet is put behind the lower numbers.\<close>

lemma lower_packets_below:
  assumes "list_all2 (copy_of st) ns ps" "copy_of st N p" "\<forall>n \<in> set ns. N \<le> n + 2 ^ 15 \<and> n < N + 2 ^ 15"
  shows "lower_packets p ps = take (length (takeWhile (\<lambda>n. n < N) ns)) ps"
  using assms
proof (induction ns ps rule: list_all2_induct)
  case (Cons n ns q qs)
  then have "cmp_gt (pk_pkn p) (pk_pkn q) \<longleftrightarrow> n < N"
    using cmp_gt_nat [of N n] by (simp add: copy_of_number)
  with Cons show ?case by simp
qed simp

lemma sorted_insert_at:
  assumes "sorted_wrt (<) ns" "(N :: nat) \<notin> set ns"
  defines "low \<equiv> takeWhile (\<lambda>n. n < N) ns" and "high \<equiv> dropWhile (\<lambda>n. n < N) ns"
  shows "sorted_wrt (<) (low @ N # high)" "set (low @ N # high) = insert N (set ns)"
proof -
  have ns: "ns = low @ high"
    by (simp add: low_def high_def)
  have "\<forall>n \<in> set low. n < N"
    by (auto simp: low_def dest: set_takeWhileD)
  moreover have "\<forall>n \<in> set high. N < n"
  proof (cases high)
    case (Cons h hs)
    then have "\<not> h < N"
      using hd_dropWhile [of "\<lambda>n. n < N" ns] by (simp add: high_def)
    moreover have "h \<noteq> N"
      using assms(2) Cons by (auto simp: ns)
    ultimately show ?thesis
      using assms(1) Cons by (auto simp: ns sorted_wrt_append)
  qed simp
  ultimately show "sorted_wrt (<) (low @ N # high)" "set (low @ N # high) = insert N (set ns)"
    using assms(1) by (auto simp: ns sorted_wrt_append)
qed

text \<open>In a sorted list, a number is in the list when it is the first that is not lower.\<close>

lemma sorted_member_hd:
  assumes "sorted_wrt (<) ns"
  shows "(N :: nat) \<in> set ns \<longleftrightarrow> dropWhile (\<lambda>n. n < N) ns \<noteq> [] \<and> hd (dropWhile (\<lambda>n. n < N) ns) = N"
  using assms
  by (induction ns) auto

section \<open>The receiving half and the transmitting half\<close>

text \<open>An operation on the transmitting half keeps the receiving half.\<close>

definition receiving :: "connection \<Rightarrow> u16 \<times> u16 \<times> u16 \<times> packet list \<times> packet list" where
  "receiving c = (cn_rwsize c, cn_rlast c, cn_rread c, cn_rhead c, cn_routorder c)"

lemma receiver_receiving: "receiving c = receiving d \<Longrightarrow> receiver st R S c = receiver st R S d"
  by (simp add: receiver_def receiving_def)

lemma receipt_receiving [simp]: "receiving (receipt a r c) = receiving c"
  by (simp add: receiving_def receipt_def Let_def)

lemma receipt_same [simp]:
  "cn_state (receipt a r c) = cn_state c" "cn_closing (receipt a r c) = cn_closing c"
  "cn_lidx (receipt a r c) = cn_lidx c" "cn_fidx (receipt a r c) = cn_fidx c"
  "cn_faddr (receipt a r c) = cn_faddr c" "cn_laddr (receipt a r c) = cn_laddr c"
  "cn_rwsize (receipt a r c) = cn_rwsize c" "cn_rlast (receipt a r c) = cn_rlast c"
  "cn_rread (receipt a r c) = cn_rread c" "cn_rhead (receipt a r c) = cn_rhead c"
  "cn_routorder (receipt a r c) = cn_routorder c" "cn_tlast (receipt a r c) = cn_tlast c"
  "cn_twsize (receipt a r c) = cn_twsize c" "cn_racked (receipt a r c) = cn_racked c"
  by (simp_all add: receipt_def Let_def)

section \<open>Data\<close>

lemma copies_CONTPKT:
  "list_all2 (copy_of st) ns ps \<Longrightarrow> \<forall>n \<in> set ns. data_op (fst (st n)) \<Longrightarrow> filter CONTPKT ps = ps"
proof (induction ns ps rule: list_all2_induct)
  case (Cons n ns p ps)
  then have "data_op (pk_op p)"
    using copy_of_payload [of st n p, symmetric] by (simp add: payload_def)
  with Cons show ?case
    by (simp add: data_op_CONTPKT)
qed simp

text \<open>The connection after a data packet inside the window that is new.\<close>

lemma receiver_next:
  assumes r: "receiver st R S c" and p: "copy_of st N p" "data_op (pk_op p)"
    and L: "last_in_order R S L" and N: "N = L + 1" "N \<le> R + unat (cn_rwsize c)"
  defines "new \<equiv> in_order (cn_rlast c) (p # cn_routorder c)"
  shows "new \<noteq> []" "receiver st R (insert N S) (c\<lparr>cn_rhead := cn_rhead c @ new,
      cn_rlast := cn_rlast c + of_nat (length new), cn_routorder := drop (length new) (p # cn_routorder c)\<rparr>)"
proof -
  let ?W = "unat (cn_rwsize c)"
  obtain M ns where M: "last_in_order R S M" and W: "?W < 2 ^ 15" "S \<subseteq> {R<..R + ?W}"
    and data: "\<forall>n \<in> S. data_op (fst (st n))" and rr: "cn_rread c = of_nat R" and rl: "cn_rlast c = of_nat M"
    and rh: "list_all2 (copy_of st) [R + 1..<M + 1] (filter CONTPKT (cn_rhead c))"
    and ns: "sorted_wrt (<) ns" "set ns = {n \<in> S. M < n}" "list_all2 (copy_of st) ns (cn_routorder c)"
    using r by (rule receiverE)
  have [simp]: "M = L"
    using M L by (rule last_in_order_unique)
  note rl = rl [simplified] and rh = rh [simplified] and ns = ns [simplified]
  have RL: "R \<le> L" "{R<..L} \<subseteq> S" "L + 1 \<notin> S"
    using L by (auto simp: last_in_order_def)
  have opN: "data_op (fst (st N))"
    using p(2) by (simp add: payload_def flip: copy_of_payload [OF p(1)])
  let ?ns = "N # ns"
  have s: "sorted_wrt (<) ?ns"
    using ns RL N by (auto simp: Suc_lessI) (metis Suc_lessI)
  have "\<forall>n \<in> set ?ns. L < n \<and> n \<le> L + 2 ^ 15"
    using ns W RL N by auto
  moreover have c2: "list_all2 (copy_of st) ?ns (p # cn_routorder c)"
    using p ns by simp
  ultimately obtain k where k: "new = take k (p # cn_routorder c)" "k \<le> length ?ns"
      "take k ?ns = [L + 1..<L + k + 1]" "L + k + 1 \<notin> set ?ns"
    using in_order_run [OF s] unfolding new_def rl by metis
  have k0: "0 < k"
    using k(4) N by (cases k) auto
  have len: "length new = k"
    using k(1,2) list_all2_lengthD [OF c2] by simp
  show "new \<noteq> []"
    using len k0 by auto
  have take: "list_all2 (copy_of st) (take k ?ns) new" and drop: "list_all2 (copy_of st) (drop k ?ns) (drop k (p # cn_routorder c))"
    using c2 k(1) by (auto intro: list_all2_takeI list_all2_dropI)
  have CONT: "filter CONTPKT new = new"
  proof -
    have "data_op (fst (st n))" if "n \<in> set ?ns" for n
      using that data opN ns(2) by auto
    then have "\<forall>n \<in> set (take k ?ns). data_op (fst (st n))"
      by (blast dest: in_set_takeD)
    with take show ?thesis
      by (rule copies_CONTPKT)
  qed
  let ?L = "L + k"
  have all: "set ?ns = insert N {n \<in> S. L < n}"
    using ns by simp
  have run: "{L<..L + k} \<subseteq> insert N S"
  proof
    fix n assume "n \<in> {L<..L + k}"
    then have "n \<in> set (take k ?ns)"
      unfolding k(3) by auto
    then show "n \<in> insert N S"
      using all by (blast dest: in_set_takeD)
  qed
  have L': "last_in_order R (insert N S) ?L"
  proof -
    have "{R<..?L} = {R<..L} \<union> {L<..L + k}"
      using RL by auto
    moreover have "?L + 1 \<notin> insert N S"
      using k(4) unfolding all by simp
    ultimately show ?thesis
      unfolding last_in_order_def using RL(1,2) run by (simp add: subset_insertI2)
  qed
  have rh': "list_all2 (copy_of st) [R + 1..<?L + 1] (filter CONTPKT (cn_rhead c @ new))"
  proof -
    have "[R + 1..<?L + 1] = [R + 1..<L + 1] @ take k ?ns"
      unfolding k(3) using RL(1) upt_add_eq_append [of "R + 1" "L + 1" k] by simp
    then show ?thesis
      using rh take CONT by (simp add: list_all2_appendI)
  qed
  have rest: "set (drop k ?ns) = {n \<in> insert N S. ?L < n}"
  proof -
    have "distinct ?ns"
      using s unfolding strict_sorted_iff by blast
    then have "set (take k ?ns) \<inter> set (drop k ?ns) = {}" "set ?ns = set (take k ?ns) \<union> set (drop k ?ns)"
      by (simp_all only: set_take_disj_set_drop_if_distinct order_refl set_append [symmetric] append_take_drop_id)
    then have "set (drop k ?ns) = set ?ns - set (take k ?ns)"
      by blast
    also have "\<dots> = {n \<in> insert N S. ?L < n}"
      unfolding k(3) all using N by auto
    finally show ?thesis .
  qed
  show "receiver st R (insert N S) (c\<lparr>cn_rhead := cn_rhead c @ new,
      cn_rlast := cn_rlast c + of_nat (length new), cn_routorder := drop (length new) (p # cn_routorder c)\<rparr>)"
  proof (rule receiverI [OF L'])
    show "\<forall>n \<in> insert N S. data_op (fst (st n))"
      using data opN by auto
    show "sorted_wrt (<) (drop k ?ns)"
      using s by (rule sorted_wrt_drop)
  qed (use W rr RL N rh' rest drop len rl in auto)
qed

lemma receiver_gap:
  assumes r: "receiver st R S c" and p: "copy_of st N p" "data_op (pk_op p)"
    and L: "last_in_order R S L" and N: "L + 1 < N" "N \<le> R + unat (cn_rwsize c)"
  defines "low \<equiv> lower_packets p (cn_routorder c)"
  defines "high \<equiv> drop (length low) (cn_routorder c)"
  shows "(high \<noteq> [] \<and> pk_pkn (hd high) = pk_pkn p) \<longleftrightarrow> N \<in> S"
    "N \<notin> S \<Longrightarrow> receiver st R (insert N S) (c\<lparr>cn_routorder := low @ p # high\<rparr>)"
    "in_order (cn_rlast c) (p # cn_routorder c) = []"
proof -
  let ?W = "unat (cn_rwsize c)" and ?ps = "cn_routorder c"
  obtain M ns where M: "last_in_order R S M" and W: "?W < 2 ^ 15" "S \<subseteq> {R<..R + ?W}"
    and data: "\<forall>n \<in> S. data_op (fst (st n))" and rr: "cn_rread c = of_nat R" and rl: "cn_rlast c = of_nat M"
    and rh: "list_all2 (copy_of st) [R + 1..<M + 1] (filter CONTPKT (cn_rhead c))"
    and ns: "sorted_wrt (<) ns" "set ns = {n \<in> S. M < n}" "list_all2 (copy_of st) ns ?ps"
    using r by (rule receiverE)
  have [simp]: "M = L"
    using M L by (rule last_in_order_unique)
  note rl = rl [simplified] and rh = rh [simplified] and ns = ns [simplified]
  have RL: "R \<le> L"
    using L by (simp add: last_in_order_def)
  let ?low = "takeWhile (\<lambda>n. n < N) ns" and ?high = "dropWhile (\<lambda>n. n < N) ns"
  have near: "\<forall>n \<in> set ns. N \<le> n + 2 ^ 15 \<and> n < N + 2 ^ 15"
    using ns(2) W N RL by auto
  have low: "low = take (length ?low) ?ps"
    unfolding low_def by (rule lower_packets_below [OF ns(3) p(1) near])
  have len: "length ?low \<le> length ?ps"
    using length_takeWhile_le list_all2_lengthD [OF ns(3)] by metis
  then have high: "high = drop (length ?low) ?ps"
    by (simp add: high_def low)
  have copies: "list_all2 (copy_of st) ?low low" "list_all2 (copy_of st) ?high high"
  proof -
    have "?low = take (length ?low) ns" "?high = drop (length ?low) ns"
      by (rule takeWhile_eq_take, rule dropWhile_eq_drop)
    then show "list_all2 (copy_of st) ?low low" "list_all2 (copy_of st) ?high high"
      unfolding low high using ns(3) by (metis list_all2_takeI, metis list_all2_dropI)
  qed
  have member: "N \<in> S \<longleftrightarrow> N \<in> set ns"
    using ns(2) N by auto
  show "(high \<noteq> [] \<and> pk_pkn (hd high) = pk_pkn p) \<longleftrightarrow> N \<in> S"
  proof (cases ?high)
    case Nil
    then show ?thesis
      using copies(2) [unfolded Nil] member sorted_member_hd [OF ns(1), of N] by simp
  next
    case (Cons h hs)
    then obtain q qs where q: "high = q # qs" "copy_of st h q"
      using copies(2) by (auto simp: list_all2_Cons1)
    have "h \<in> set ns"
      using Cons set_dropWhileD [of h "\<lambda>n. n < N" ns] by simp
    then have "pk_pkn q = pk_pkn p \<longleftrightarrow> h = N"
      using number_eq_nat [of h N] near q(2) p(1) by (auto simp: copy_of_number)
    then show ?thesis
      using q(1) member sorted_member_hd [OF ns(1), of N] Cons by simp
  qed
  show "in_order (cn_rlast c) (p # ?ps) = []"
    using number_eq_nat [of N "L + 1"] N W RL rl p(1) by (simp add: copy_of_number add.commute)
  assume new: "N \<notin> S"
  have sorted: "sorted_wrt (<) (?low @ N # ?high)" "set (?low @ N # ?high) = insert N (set ns)"
    using new member by (intro sorted_insert_at ns(1); simp)+
  have opN: "data_op (fst (st N))"
    using p(2) by (simp add: payload_def flip: copy_of_payload [OF p(1)])
  have L': "last_in_order R (insert N S) L"
    using L N unfolding last_in_order_def by auto
  show "receiver st R (insert N S) (c\<lparr>cn_routorder := low @ p # high\<rparr>)"
  proof (rule receiverI [OF L' _ _ _ _ _ _ sorted(1)])
    show "\<forall>n \<in> insert N S. data_op (fst (st n))"
      using data opN by auto
    show "set (?low @ N # ?high) = {n \<in> insert N S. L < n}"
      unfolding sorted(2) ns(2) using N by auto
    show "list_all2 (copy_of st) (?low @ N # ?high) (cn_routorder (c\<lparr>cn_routorder := low @ p # high\<rparr>))"
      using copies p(1) by (simp add: list_all2_appendI)
  qed (use W rr RL N rh rl in auto)
qed

section \<open>The whole of rcvdata\<close>

text \<open>The packets that a connection holds for its user.\<close>

definition held :: "connection \<Rightarrow> packet set" where
  "held c = set (cn_rhead c) \<union> set (cn_routorder c)"

lemma held_receipt [simp]: "held (receipt a r c) = held c"
  by (simp add: held_def)

lemma in_order_subset: "set (in_order k ps) \<subseteq> set ps"
  by (induction ps arbitrary: k) auto

lemma lower_packets_subset: "set (lower_packets p qs) \<subseteq> set qs"
  by (induction qs) auto

text \<open>
  The receiving half after a data packet with number \<open>N\<close>: the number is in the set when it is in the window.  In each
  case the packet is answered by a status or not answered at all.
\<close>

lemma rcvdata_receiver:
  assumes c: "chconntab s i = Some c" "\<not> cn_closing c"
    and r: "receiver st R S c" and p: "copy_of st N p" "data_op (pk_op p)"
    and near: "R + unat (cn_rwsize c) < N + 2 ^ 15" "N \<le> R + unat (cn_rwsize c) + 2 ^ 15"
  obtains c' where "receiver st R (S \<union> ({N} \<inter> {R<..R + unat (cn_rwsize c)})) c'"
    "c' = receipt (pk_ackn p) (pk_ackn p) c \<lparr>cn_rhead := cn_rhead c', cn_rlast := cn_rlast c', cn_routorder := cn_routorder c'\<rparr>
       \<or> c' = c \<and> R + unat (cn_rwsize c) < N"
    "held c' \<subseteq> insert p (held c)"
    "rcvdata tome i p s = Inr (upd_conn i (\<lambda>_. c') s) \<or>
     rcvdata tome i p s = reflect_sts tome i p (upd_conn i (\<lambda>_. c') s)"
proof -
  let ?W = "unat (cn_rwsize c)" and ?c = "receipt (pk_ackn p) (pk_ackn p) c"
  obtain L where L: "last_in_order R S L" and W: "?W < 2 ^ 15" "S \<subseteq> {R<..R + ?W}" and rr: "cn_rread c = of_nat R"
    and rl: "cn_rlast c = of_nat L"
    using r by (rule receiverE)
  have RL: "R \<le> L" "L \<le> R + ?W" "{R<..L} \<subseteq> S" "L + 1 \<notin> S"
    using L W(2) by (auto simp: last_in_order_def subset_iff) (metis greaterThanAtMost_iff le_neq_implies_less order_refl le_add1)
  have window: "cmp_gt (pk_pkn p) (cn_rread c + cn_rwsize c) \<longleftrightarrow> R + ?W < N"
    using cmp_gt_nat [of N "R + ?W"] near by (simp add: rr copy_of_number [OF p(1)])
  have same: "upd_conn i (\<lambda>_. c) s = s"
    using c(1) by (simp add: upd_conn_def fun_upd_idem)
  show thesis
  proof (cases "R + ?W < N")
    case True
    then have "rcvdata tome i p s = Inr (upd_conn i (\<lambda>_. c) s)"
      by (simp add: rcvdata_def c window same)
    then show ?thesis
      using r True by (intro that [of c]) auto
  next
    case False
    have old: "cmp_le (pk_pkn p) (cn_rlast c) \<longleftrightarrow> N \<le> L"
      using cmp_gt_nat [of N L] near False RL(1,2) W(1) by (auto simp: cmp_le_def rl copy_of_number [OF p(1)])
    have r1: "receiver st R S ?c"
      using r receiver_receiving [OF receipt_receiving] by blast
    consider "N \<le> L" | "N = L + 1" | "L + 1 < N" "N \<in> S" | "L + 1 < N" "N \<notin> S"
      by linarith
    then show ?thesis
    proof cases
      case 1
      then have "S \<union> ({N} \<inter> {R<..R + ?W}) = S"
        using RL by auto
      moreover have "rcvdata tome i p s = reflect_sts tome i p (upd_conn i (\<lambda>_. ?c) s)"
        using 1 by (simp add: rcvdata_def c window False old Let_def)
      ultimately show ?thesis
        using r1 by (intro that [of ?c]) auto
    next
      case 2
      let ?new = "in_order (cn_rlast ?c) (p # cn_routorder ?c)"
      let ?c2 = "?c\<lparr>cn_rhead := cn_rhead ?c @ ?new, cn_rlast := cn_rlast ?c + of_nat (length ?new),
         cn_routorder := drop (length ?new) (p # cn_routorder ?c)\<rparr>"
      have "S \<union> ({N} \<inter> {R<..R + ?W}) = insert N S"
        using 2 False RL by auto
      moreover have new: "?new \<noteq> []" "receiver st R (insert N S) ?c2"
        using receiver_next [OF r1 p L 2] False by simp_all
      moreover have "rcvdata tome i p s = Inr (upd_conn i (\<lambda>_. ?c2) s)"
        using 2 new(1) c(2) False by (simp add: rcvdata_def c window old Let_def chinput_def del: in_order.simps)
      moreover have "held ?c2 \<subseteq> insert p (held c)"
        using in_order_subset [of "cn_rlast ?c" "p # cn_routorder ?c"] set_drop_subset [of "length ?new" "p # cn_routorder ?c"]
        by (auto simp: held_def)
      ultimately show ?thesis
        by (intro that [of ?c2]) simp_all
    next
      case 3
      have "S \<union> ({N} \<inter> {R<..R + ?W}) = S"
        using 3 by auto
      moreover have "rcvdata tome i p s = reflect_sts tome i p (upd_conn i (\<lambda>_. ?c) s)"
        using receiver_gap [OF r1 p L 3(1)] False 3 by (simp add: rcvdata_def c window old Let_def)
      ultimately show ?thesis
        using r1 by (intro that [of ?c]) auto
    next
      case 4
      let ?low = "lower_packets p (cn_routorder ?c)"
      let ?c2 = "?c\<lparr>cn_routorder := ?low @ p # drop (length ?low) (cn_routorder ?c)\<rparr>"
      have "S \<union> ({N} \<inter> {R<..R + ?W}) = insert N S"
        using 4 False RL by auto
      moreover have "receiver st R (insert N S) ?c2"
        using receiver_gap(2) [OF r1 p L 4(1)] False 4 by simp
      moreover have "rcvdata tome i p s = Inr (upd_conn i (\<lambda>_. ?c2) s)"
        using receiver_gap(1,3) [OF r1 p L 4(1)] False 4
        by (auto simp: rcvdata_def c window old Let_def simp del: in_order.simps)
      moreover have "held ?c2 \<subseteq> insert p (held c)"
        using lower_packets_subset [of p "cn_routorder ?c"] set_drop_subset [of "length ?low" "cn_routorder ?c"]
        by (auto simp: held_def)
      ultimately show ?thesis
        by (intro that [of ?c2]) simp_all
    qed
  qed
qed

section \<open>What the receiving half holds\<close>

lemma receiver_holds:
  assumes "receiver st R S c" "n \<in> S"
  shows "\<exists>p \<in> held c. copy_of st n p"
proof -
  obtain L ns where L: "last_in_order R S L" and S: "S \<subseteq> {R<..R + unat (cn_rwsize c)}"
    and rh: "list_all2 (copy_of st) [R + 1..<L + 1] (filter CONTPKT (cn_rhead c))"
    and ns: "set ns = {n \<in> S. L < n}" "list_all2 (copy_of st) ns (cn_routorder c)"
    using assms(1) by (rule receiverE)
  have member: "\<exists>p \<in> set ps. copy_of st n p" if "list_all2 (copy_of st) ms ps" "n \<in> set ms" for ms ps
    using that by (induction rule: list_all2_induct) auto
  show ?thesis
  proof (cases "L < n")
    case True
    then show ?thesis
      using member [OF ns(2)] ns(1) assms(2) by (auto simp: held_def)
  next
    case False
    then have "n \<in> set [R + 1..<L + 1]"
      using S assms(2) by auto
    then show ?thesis
      using member [OF rh] by (auto simp: held_def)
  qed
qed

lemma receiver_size:
  assumes "receiver st R S c"
  shows "length (filter CONTPKT (cn_rhead c)) + length (cn_routorder c) \<le> unat (cn_rwsize c)"
proof -
  obtain L ns where L: "last_in_order R S L" and S: "S \<subseteq> {R<..R + unat (cn_rwsize c)}"
    and rh: "list_all2 (copy_of st) [R + 1..<L + 1] (filter CONTPKT (cn_rhead c))"
    and ns: "sorted_wrt (<) ns" "set ns = {n \<in> S. L < n}" "list_all2 (copy_of st) ns (cn_routorder c)"
    using assms(1) by (rule receiverE)
  have fin: "finite S"
    using S by (rule finite_subset) simp
  have "length (cn_routorder c) = length ns" "length (filter CONTPKT (cn_rhead c)) = card {R<..L}"
    using list_all2_lengthD [OF ns(3)] list_all2_lengthD [OF rh] by (simp_all del: upt_Suc)
  moreover have "length ns = card {n \<in> S. L < n}"
    using ns(1) distinct_card [of ns] by (simp add: ns(2) strict_sorted_iff)
  moreover have "card {R<..L} + card {n \<in> S. L < n} = card ({R<..L} \<union> {n \<in> S. L < n})"
    using fin by (subst card_Un_disjoint) auto
  moreover have "card ({R<..L} \<union> {n \<in> S. L < n}) \<le> card {R<..R + unat (cn_rwsize c)}"
    using L S by (intro card_mono) (auto simp: last_in_order_def)
  ultimately show ?thesis
    by simp
qed

end
