(* ===== verification/Ch_Status.thy ===== *)
theory Ch_Status
  imports Ch_Receive
begin

text \<open>
  Statuses: what the packets that acknowledge data say, that sending one keeps the connection, and
  the receiving half under any sequence of arrivals and under reading.
\<close>

unbundle bit_operations_syntax

section \<open>Status packets\<close>

lemma short_bytes: "push_bit 8 (ucast (ucast (drop_bit 8 v) :: u8)) OR ucast (ucast v :: u8) = (v :: u16)"
  by (rule bit_word_eqI) (auto simp: bit_simps)

lemma data_short_put:
  "data_short (put_short 0 v p) 0 = v"
  "data_short (put_short 2 v p) (Suc 0) = v"
  "data_short (put_short 2 v p) 0 = data_short p 0"
  by (simp_all add: data_short_def put_short_def short_bytes)

text \<open>\<open>status_of c q\<close>: the packet tells the state of the receiving half of \<open>c\<close>.\<close>

definition status_of :: "connection \<Rightarrow> packet \<Rightarrow> bool" where
  "status_of c q \<longleftrightarrow> pk_op q = STSOP \<and> pk_receipt q = cn_rlast c \<and> pk_ackn q = cn_rread c \<and> pk_rwsize q = cn_rwsize c"

lemma status_of_xdest [simp]: "status_of c (q\<lparr>pk_xdest := x\<rparr>) = status_of c q"
  by (simp add: status_of_def pk_receipt_def pk_rwsize_def data_short_def)

lemma put_short_same [simp]:
  "pk_op (put_short i v p) = pk_op p" "pk_ackn (put_short i v p) = pk_ackn p" "pk_lenfc (put_short i v p) = pk_lenfc p"
  "pk_daddr (put_short i v p) = pk_daddr p" "pk_saddr (put_short i v p) = pk_saddr p"
  "pk_didx (put_short i v p) = pk_didx p" "pk_sidx (put_short i v p) = pk_sidx p" "pk_pkn (put_short i v p) = pk_pkn p"
  by (simp_all add: put_short_def)

lemma SET_PH_LEN_same [simp]:
  "pk_op (SET_PH_LEN n p) = pk_op p" "pk_ackn (SET_PH_LEN n p) = pk_ackn p"
  "pk_daddr (SET_PH_LEN n p) = pk_daddr p" "pk_saddr (SET_PH_LEN n p) = pk_saddr p"
  "pk_didx (SET_PH_LEN n p) = pk_didx p" "pk_sidx (SET_PH_LEN n p) = pk_sidx p" "pk_pkn (SET_PH_LEN n p) = pk_pkn p"
  by (simp_all add: SET_PH_LEN_def set_len_expr_def Let_def)

lemma makests_connection: "fst (makests c p) = c\<lparr>cn_racked := cn_rread c\<rparr>"
  by (simp add: makests_def setack_def)

lemma makests_packet:
  "status_of c (snd (makests c p))"
  "pk_daddr (snd (makests c p)) = pk_daddr p" "pk_saddr (snd (makests c p)) = pk_saddr p"
  "pk_didx (snd (makests c p)) = pk_didx p" "pk_sidx (snd (makests c p)) = pk_sidx p"
  by (simp_all add: makests_def setack_def status_of_def pk_receipt_def pk_rwsize_def data_short_put)

text \<open>A status that goes to another host leaves everything but \<open>cn_racked\<close> and the queues alone.\<close>

lemma reflect_sts_other:
  assumes c: "chconntab s i = Some c" and ok: "routes_ok s" "\<not> is_my_address s (pk_saddr p)"
  obtains s' where "reflect_sts tome i p s = Inr s'"
    "same_but_queues (upd_conn i (\<lambda>_. c\<lparr>cn_racked := cn_rread c\<rparr>) s) s'" "queued s \<subseteq> queued s'"
    "\<And>q. q \<in> queued s' \<Longrightarrow> q \<in> queued s \<or> status_of c q \<and> pk_didx q = pk_sidx p \<and> pk_daddr q = pk_saddr p"
proof -
  let ?q = "snd (makests c p)"
  let ?p = "?q\<lparr>pk_sidx := pk_didx ?q, pk_didx := pk_sidx ?q, pk_saddr := pk_daddr ?q, pk_daddr := pk_saddr ?q\<rparr>"
  let ?s = "upd_conn i (\<lambda>_. c\<lparr>cn_racked := cn_rread c\<rparr>) s"
  obtain s' where s': "sendctl tome ?p ?s = Inr s'" "same_but_queues ?s s'"
    "\<And>q. q \<in> queued s' \<Longrightarrow> q \<in> queued ?s \<or> (\<exists>x. q = ?p\<lparr>pk_xdest := x\<rparr>)" "queued ?s \<subseteq> queued s'"
    using sendctl_other [of ?s ?p tome] ok by (auto simp: makests_packet)
  have each: "q \<in> queued s \<or> status_of c q \<and> pk_didx q = pk_sidx p \<and> pk_daddr q = pk_saddr p" if q: "q \<in> queued s'" for q
  proof -
    consider "q \<in> queued s" | x where "q = ?p\<lparr>pk_xdest := x\<rparr>"
      using s'(3) [OF q] by auto
    then show ?thesis
    proof cases
      case 2
      then show ?thesis
        using makests_packet [of c p] by (simp add: status_of_def pk_receipt_def pk_rwsize_def data_short_def)
    qed simp
  qed
  have "reflect_sts tome i p s = sendctl tome ?p ?s"
    by (simp add: reflect_sts_def c reflect_def makests_connection split_def Let_def)
  then show ?thesis
    using s' each by (intro that [of s']) simp_all
qed

lemma sendsts_other:
  assumes c: "chconntab s i = Some c" and ok: "routes_ok s" "\<not> is_my_address s (cn_faddr c)"
  obtains s' where "sendsts tome i s = Inr s'"
    "same_but_queues (upd_conn i (\<lambda>_. c\<lparr>cn_racked := cn_rread c\<rparr>) s) s'"
    "\<And>q. q \<in> queued s' \<Longrightarrow> q \<in> queued s \<or> status_of c q \<and> pk_didx q = cn_fidx c \<and> pk_daddr q = cn_faddr c"
proof -
  let ?q = "snd (makests c (setpkt c pkalloc))" and ?s = "upd_conn i (\<lambda>_. c\<lparr>cn_racked := cn_rread c\<rparr>) s"
  have q: "pk_daddr ?q = cn_faddr c" "pk_didx ?q = cn_fidx c" "status_of c ?q"
    by (simp_all add: makests_packet) (simp_all add: setpkt_def SET_PH_FC_def)
  have ok': "routes_ok ?s" "\<not> is_my_address ?s (pk_daddr ?q)"
    using ok q(1) by simp_all
  obtain s' where s': "sendctl tome ?q ?s = Inr s'" "same_but_queues ?s s'"
    "\<And>p. p \<in> queued s' \<Longrightarrow> p \<in> queued ?s \<or> (\<exists>x. p = ?q\<lparr>pk_xdest := x\<rparr>)"
    by (rule sendctl_other [OF ok', of tome]) blast
  have "sendsts tome i s = sendctl tome ?q ?s"
    by (simp add: sendsts_def c makests_connection split_def Let_def)
  moreover have "p \<in> queued s \<or> status_of c p \<and> pk_didx p = cn_fidx c \<and> pk_daddr p = cn_faddr c" if "p \<in> queued s'" for p
    using s'(3) [OF that] q by auto
  ultimately show ?thesis
    using s' by (intro that [of s']) simp_all
qed

section \<open>Arrivals in any order\<close>

lemma receiver_racked [simp]: "receiver st R S (c\<lparr>cn_racked := x\<rparr>) = receiver st R S c"
  by (rule receiver_receiving) (simp add: receiving_def)

text \<open>What a data packet and its answer leave alone, apart from the receipt in the packet.\<close>

definition sending :: "connection \<Rightarrow> connection" where
  "sending c = c\<lparr>cn_rhead := [], cn_rlast := 0, cn_routorder := [], cn_racked := 0\<rparr>"

lemma sendingD:
  assumes "sending c = sending d"
  shows "cn_closing c = cn_closing d" "cn_state c = cn_state d" "cn_faddr c = cn_faddr d" "cn_fidx c = cn_fidx d"
    "cn_lidx c = cn_lidx d" "cn_laddr c = cn_laddr d" "cn_twsize c = cn_twsize d" "cn_tlast c = cn_tlast d"
    "cn_trecvd c = cn_trecvd d" "cn_tacked c = cn_tacked d" "cn_thead c = cn_thead d" "cn_rwsize c = cn_rwsize d"
    "cn_rread c = cn_rread d"
  using assms by (cases c; cases d; simp add: sending_def)+

text \<open>A data packet with an answer, for the whole state.\<close>

lemma rcvdata_step:
  assumes c: "chconntab s i = Some c" "\<not> cn_closing c" "receiver st R S c"
    and p: "copy_of st N p" "data_op (pk_op p)"
    and near: "R + unat (cn_rwsize c) < N + 2 ^ 15" "N \<le> R + unat (cn_rwsize c) + 2 ^ 15"
    and ok: "routes_ok s" "\<not> is_my_address s (pk_saddr p)"
  obtains s' c' where "rcvdata tome i p s = Inr s'" "same_but_queues (upd_conn i (\<lambda>_. c') s) s'"
    "receiver st R (S \<union> ({N} \<inter> {R<..R + unat (cn_rwsize c)})) c'"
    "sending c' = sending c \<or> sending c' = sending (receipt (pk_ackn p) (pk_ackn p) c)"
    "held c' \<subseteq> insert p (held c)" "queued s \<subseteq> queued s'"
    "\<And>q. q \<in> queued s' \<Longrightarrow> q \<in> queued s \<or> status_of c' q \<and> pk_didx q = pk_sidx p \<and> pk_daddr q = pk_saddr p"
proof -
  obtain d where d: "receiver st R (S \<union> ({N} \<inter> {R<..R + unat (cn_rwsize c)})) d"
    "d = receipt (pk_ackn p) (pk_ackn p) c \<lparr>cn_rhead := cn_rhead d, cn_rlast := cn_rlast d, cn_routorder := cn_routorder d\<rparr>
       \<or> d = c \<and> R + unat (cn_rwsize c) < N"
    "held d \<subseteq> insert p (held c)"
    "rcvdata tome i p s = Inr (upd_conn i (\<lambda>_. d) s) \<or>
     rcvdata tome i p s = reflect_sts tome i p (upd_conn i (\<lambda>_. d) s)"
    using rcvdata_receiver [OF c p near] by blast
  have frame: "sending d = sending c \<or> sending d = sending (receipt (pk_ackn p) (pk_ackn p) c)"
    using d(2)
  proof
    let ?r = "receipt (pk_ackn p) (pk_ackn p) c"
    assume "d = ?r\<lparr>cn_rhead := cn_rhead d, cn_rlast := cn_rlast d, cn_routorder := cn_routorder d\<rparr>"
    then have "sending d = sending (?r\<lparr>cn_rhead := cn_rhead d, cn_rlast := cn_rlast d, cn_routorder := cn_routorder d\<rparr>)"
      by (rule arg_cong)
    then show ?thesis
      by (simp add: sending_def)
  qed simp
  from d(4) show thesis
  proof
    assume "rcvdata tome i p s = Inr (upd_conn i (\<lambda>_. d) s)"
    then show thesis
      using d(1,3) frame by (intro that [of _ d]) auto
  next
    let ?s = "upd_conn i (\<lambda>_. d) s" and ?d = "d\<lparr>cn_racked := cn_rread d\<rparr>"
    assume e: "rcvdata tome i p s = reflect_sts tome i p ?s"
    have "chconntab ?s i = Some d" "routes_ok ?s" "\<not> is_my_address ?s (pk_saddr p)"
      using c ok by simp_all
    then obtain s' where s': "reflect_sts tome i p ?s = Inr s'"
        "same_but_queues (upd_conn i (\<lambda>_. ?d) ?s) s'" "queued ?s \<subseteq> queued s'"
        "\<And>q. q \<in> queued s' \<Longrightarrow> q \<in> queued ?s \<or> status_of d q \<and> pk_didx q = pk_sidx p \<and> pk_daddr q = pk_saddr p"
      using reflect_sts_other by blast
    have "upd_conn i (\<lambda>_. ?d) ?s = upd_conn i (\<lambda>_. ?d) s"
      using c(1) by (simp add: upd_conn_def)
    moreover have "status_of ?d q = status_of d q" for q
      by (simp add: status_of_def)
    moreover have "sending ?d = sending d"
      by (simp add: sending_def)
    ultimately show thesis
      using s' e d(1,3) frame by (intro that [of s' ?d]) (auto simp: held_def)
  qed
qed

section \<open>Reading\<close>

text \<open>The next packet that the user reads is the next one of the stream.\<close>

lemma read_receiver:
  assumes r: "receiver st R S c" and p: "cn_rhead c = p # ps" "CONTPKT p"
  shows "copy_of st (R + 1) p" "R + 1 \<in> S"
    "receiver st (R + 1) (S - {R + 1}) (c\<lparr>cn_rhead := ps, cn_rread := pk_pkn p\<rparr>)"
proof -
  obtain L ns where L: "last_in_order R S L" and c: "unat (cn_rwsize c) < 2 ^ 15" "S \<subseteq> {R<..R + unat (cn_rwsize c)}"
      "\<forall>n \<in> S. data_op (fst (st n))" "cn_rread c = of_nat R" "cn_rlast c = of_nat L"
    and rh: "list_all2 (copy_of st) [R + 1..<L + 1] (filter CONTPKT (cn_rhead c))"
    and ns: "sorted_wrt (<) ns" "set ns = {n \<in> S. L < n}" "list_all2 (copy_of st) ns (cn_routorder c)"
    using r by (rule receiverE)
  have all: "list_all2 (copy_of st) [R + 1..<L + 1] (p # filter CONTPKT ps)"
    using rh p by simp
  have RL: "R < L"
  proof (rule ccontr)
    assume "\<not> R < L"
    then have "[R + 1..<L + 1] = []" by simp
    with all show False by (simp only: list_all2_Nil list.distinct)
  qed
  then have "[R + 1..<L + 1] = (R + 1) # [R + 2..<L + 1]"
    by (subst upt_conv_Cons) simp_all
  with all have first: "copy_of st (R + 1) p" and rest: "list_all2 (copy_of st) [R + 2..<L + 1] (filter CONTPKT ps)"
    by (simp_all only: list_all2_Cons)
  show "copy_of st (R + 1) p"
    by (rule first)
  have "R + 1 \<in> {R<..L}" "{R<..L} \<subseteq> S"
    using L RL by (auto simp: last_in_order_def)
  then show "R + 1 \<in> S" by blast
  have L': "last_in_order (R + 1) (S - {R + 1}) L"
    using L RL unfolding last_in_order_def by auto
  show "receiver st (R + 1) (S - {R + 1}) (c\<lparr>cn_rhead := ps, cn_rread := pk_pkn p\<rparr>)"
  proof (rule receiverI [OF L' _ _ _ _ _ _ ns(1)])
    show "S - {R + 1} \<subseteq> {R + 1<..R + 1 + unat (cn_rwsize (c\<lparr>cn_rhead := ps, cn_rread := pk_pkn p\<rparr>))}"
      using c(2) by (auto simp: subset_iff)
    show "set ns = {n \<in> S - {R + 1}. L < n}"
      unfolding ns(2) using RL by auto
    show "list_all2 (copy_of st) [R + 1 + 1..<L + 1] (filter CONTPKT (cn_rhead (c\<lparr>cn_rhead := ps, cn_rread := pk_pkn p\<rparr>)))"
      using rest by simp
    show "cn_rread (c\<lparr>cn_rhead := ps, cn_rread := pk_pkn p\<rparr>) = of_nat (R + 1)"
      using copy_of_number [OF first] by simp
  qed (use c ns(3) in simp_all)
qed

lemma read_other_receiver:
  assumes "receiver st R S c" "cn_rhead c = p # ps" "\<not> CONTPKT p"
  shows "receiver st R S (c\<lparr>cn_rhead := ps\<rparr>)"
  using assms by (elim receiverE) (rule receiverI; simp)

end
