(* ===== verification/Ch_Transmit.thy ===== *)
theory Ch_Transmit
  imports Ch_Status
begin

text \<open>
  The transmitting half of a connection.  \<open>sender st b V K T P i c s\<close>: the user has written the packets \<open>b + 1\<close> to \<open>T\<close> of the
  stream \<open>st\<close> on connection \<open>c\<close> in slot \<open>i\<close>; the other end has receipted those up to \<open>V\<close> and acknowledged those up
  to \<open>K\<close>.  A packet that is not receipted is never lost: it is in the list of the connection, in the queue of an
  interface, or among the packets \<open>P\<close> that are being handled.
\<close>

unbundle bit_operations_syntax

definition numbered :: "u16 \<Rightarrow> packet \<Rightarrow> bool" where
  "numbered lidx p \<longleftrightarrow> PH_FC p = 0 \<and> CONTPKT p \<and> pk_sidx p = lidx"

definition addressed :: "connection \<Rightarrow> packet \<Rightarrow> bool" where
  "addressed c p \<longleftrightarrow> pk_daddr p = cn_faddr c \<and> pk_didx p = cn_fidx c \<and> pk_saddr p = cn_laddr c"

definition stream_packet :: "(nat \<Rightarrow> payload) \<Rightarrow> connection \<Rightarrow> nat \<Rightarrow> packet \<Rightarrow> bool" where
  "stream_packet st c n p \<longleftrightarrow> numbered (cn_lidx c) p \<and> addressed c p \<and> copy_of st n p"

text \<open>The identity of a connection, which no packet changes.\<close>

definition same_ends :: "connection \<Rightarrow> connection \<Rightarrow> bool" where
  "same_ends c d \<longleftrightarrow> cn_lidx c = cn_lidx d \<and> cn_laddr c = cn_laddr d \<and> cn_fidx c = cn_fidx d \<and> cn_faddr c = cn_faddr d"

lemma same_ends_refl [simp]: "same_ends c c"
  by (simp add: same_ends_def)

lemma stream_packet_ends: "same_ends c d \<Longrightarrow> stream_packet st c = stream_packet st d"
  by (auto simp: fun_eq_iff stream_packet_def addressed_def same_ends_def)

lemma numbered_updates [simp]:
  "numbered l (p\<lparr>pk_time := t\<rparr>) = numbered l p"
  "numbered l (p\<lparr>pk_ackn := a\<rparr>) = numbered l p"
  "numbered l (p\<lparr>pk_xdest := x\<rparr>) = numbered l p"
  by (simp_all add: numbered_def PH_FC_def CONTPKT_def ISDATOP_def)

lemma stream_packet_updates [simp]:
  "stream_packet st c n (p\<lparr>pk_time := t\<rparr>) = stream_packet st c n p"
  "stream_packet st c n (p\<lparr>pk_ackn := a\<rparr>) = stream_packet st c n p"
  "stream_packet st c n (p\<lparr>pk_xdest := x\<rparr>) = stream_packet st c n p"
  by (simp_all add: stream_packet_def addressed_def)

definition sender :: "(nat \<Rightarrow> payload) \<Rightarrow> nat \<Rightarrow> nat \<Rightarrow> nat \<Rightarrow> nat \<Rightarrow> packet set \<Rightarrow> nat \<Rightarrow> connection \<Rightarrow> ncp \<Rightarrow> bool" where
  "sender st b V K T P i c s \<longleftrightarrow>
     chconntab s i = Some c \<and> tindex (cn_lidx c) = i \<and> i < CHNCONNS \<and> cn_state c = CSOPEN \<and>
     cn_tlast c = of_nat T \<and> cn_trecvd c = of_nat V \<and> cn_tacked c = of_nat K \<and>
     b \<le> K \<and> K \<le> V \<and> V \<le> T \<and> T \<le> b + 2 ^ 14 \<and>
     (\<exists>ns. sorted ns \<and> list_all2 (stream_packet st c) ns (cn_thead c) \<and> set ns \<subseteq> {V<..T}) \<and>
     (\<forall>p \<in> P \<union> queued s. numbered (cn_lidx c) p \<longrightarrow> (\<exists>n \<in> {b<..T}. stream_packet st c n p)) \<and>
     (\<forall>n \<in> {V<..T}. \<exists>p \<in> set (cn_thead c) \<union> queued s \<union> P. stream_packet st c n p)"

section \<open>The retransmission list\<close>

lemma insert_packet_sorted:
  assumes "sorted ns" "list_all2 (stream_packet st c) ns ps" "set ns \<subseteq> {V<..T}" "T \<le> V + 2 ^ 14"
    and p: "stream_packet st c n p" "V < n" "n \<le> T"
  shows "\<exists>ms. sorted ms \<and> list_all2 (stream_packet st c) ms (insert_packet p ps) \<and> set ms = insert n (set ns)"
  using assms(2,1,3)
proof (induction ns ps rule: list_all2_induct)
  case Nil
  then show ?case
    using p by (intro exI [of _ "[n]"]) simp
next
  case (Cons m ns q qs)
  have lt: "cmp_lt (pk_pkn p) (pk_pkn q) \<longleftrightarrow> n < m"
    using cmp_gt_nat [of m n] p Cons assms(4) by (auto simp: cmp_lt_def stream_packet_def copy_of_def)
  show ?case
  proof (cases "n < m")
    case True
    then show ?thesis
      using lt p Cons by (intro exI [of _ "n # m # ns"]) auto
  next
    case False
    obtain ms where "sorted ms" "list_all2 (stream_packet st c) ms (insert_packet p qs)" "set ms = insert n (set ns)"
      using Cons by auto
    then show ?thesis
      using False lt Cons by (intro exI [of _ "m # ms"]) auto
  qed
qed

section \<open>A transmission is done\<close>

lemma senderE:
  assumes "sender st b V K T P i c s"
  obtains ns where "chconntab s i = Some c" "tindex (cn_lidx c) = i" "i < CHNCONNS" "cn_state c = CSOPEN"
    "cn_tlast c = of_nat T" "cn_trecvd c = of_nat V" "cn_tacked c = of_nat K"
    "b \<le> K" "K \<le> V" "V \<le> T" "T \<le> b + 2 ^ 14"
    "sorted ns" "list_all2 (stream_packet st c) ns (cn_thead c)" "set ns \<subseteq> {V<..T}"
    "\<And>p. p \<in> P \<union> queued s \<Longrightarrow> numbered (cn_lidx c) p \<Longrightarrow> \<exists>n \<in> {b<..T}. stream_packet st c n p"
    "\<And>n. n \<in> {V<..T} \<Longrightarrow> \<exists>p \<in> set (cn_thead c) \<union> queued s \<union> P. stream_packet st c n p"
  using assms unfolding sender_def by blast

lemma senderI:
  assumes "chconntab s i = Some c" "tindex (cn_lidx c) = i" "i < CHNCONNS" "cn_state c = CSOPEN"
    "cn_tlast c = of_nat T" "cn_trecvd c = of_nat V" "cn_tacked c = of_nat K"
    "b \<le> K" "K \<le> V" "V \<le> T" "T \<le> b + 2 ^ 14"
    "sorted ns" "list_all2 (stream_packet st c) ns (cn_thead c)" "set ns \<subseteq> {V<..T}"
    "\<And>p. p \<in> P \<union> queued s \<Longrightarrow> numbered (cn_lidx c) p \<Longrightarrow> \<exists>n \<in> {b<..T}. stream_packet st c n p"
    "\<And>n. n \<in> {V<..T} \<Longrightarrow> \<exists>p \<in> set (cn_thead c) \<union> queued s \<union> P. stream_packet st c n p"
  shows "sender st b V K T P i c s"
  using assms unfolding sender_def by blast

text \<open>Only the connection in slot \<open>i\<close> and the queues matter.\<close>

lemma sender_frame:
  assumes "sender st b V K T P i c s" "chconntab s' i = chconntab s i"
    "P' \<union> queued s' \<subseteq> P \<union> queued s \<union> Q" "\<And>p. p \<in> Q \<Longrightarrow> \<not> numbered (cn_lidx c) p"
    "P \<union> queued s \<subseteq> P' \<union> queued s'"
  shows "sender st b V K T P' i c s'"
proof -
  have "\<forall>p \<in> P' \<union> queued s'. numbered (cn_lidx c) p \<longrightarrow> (\<exists>n \<in> {b<..T}. stream_packet st c n p)"
    using assms(1,3,4) unfolding sender_def by blast
  moreover have "\<forall>n \<in> {V<..T}. \<exists>p \<in> set (cn_thead c) \<union> queued s' \<union> P'. stream_packet st c n p"
    using assms(1,5) unfolding sender_def by blast
  ultimately show ?thesis
    using assms(1,2) unfolding sender_def by simp
qed

lemma stream_packet_number:
  assumes "stream_packet st c n p" "stream_packet st c m p" "n \<in> {b<..T}" "m \<in> {b<..T}" "T \<le> b + 2 ^ 14"
  shows "n = m"
  using assms number_eq_nat [of n m] by (auto simp: stream_packet_def copy_of_def)

text \<open>A packet whose number has been receipted, or that is not one of the stream, may be forgotten.\<close>

lemma sender_forget:
  assumes s: "sender st b V K T (insert p P) i c s" and p: "\<And>n. stream_packet st c n p \<Longrightarrow> n \<notin> {V<..T}"
  shows "sender st b V K T P i c s"
  using s unfolding sender_def
proof (elim conjE, intro conjI)
  assume "\<forall>n \<in> {V<..T}. \<exists>q \<in> set (cn_thead c) \<union> queued s \<union> insert p P. stream_packet st c n q"
  then show "\<forall>n \<in> {V<..T}. \<exists>q \<in> set (cn_thead c) \<union> queued s \<union> P. stream_packet st c n q"
    using p by blast
qed simp_all

lemma kept_on_slot:
  assumes "kept_on p s = Some j" "chconntab s j = Some c"
  shows "numbered (cn_lidx c) p" "cmp_gt (pk_pkn p) (cn_trecvd c)"
  using assms by (auto simp: kept_on_def Let_def numbered_def split: if_splits option.splits)

lemma kept_on_stream:
  assumes "chconntab s i = Some c" "tindex (cn_lidx c) = i" "i < CHNCONNS" "cn_state c = CSOPEN"
    "numbered (cn_lidx c) p" "cmp_gt (pk_pkn p) (cn_trecvd c)"
  shows "kept_on p s = Some i"
  using assms by (simp add: kept_on_def Let_def numbered_def)

lemma xmitdone_sender:
  assumes s: "sender st b V K T (insert p P) i c s"
  obtains h where "sender st b V K T P i (c\<lparr>cn_thead := h\<rparr>) (xmitdone p s)"
proof -
  obtain ns where c: "chconntab s i = Some c" "tindex (cn_lidx c) = i" "i < CHNCONNS" "cn_state c = CSOPEN"
      "cn_trecvd c = of_nat V" "b \<le> V" "V \<le> T" "T \<le> b + 2 ^ 14"
    and ns: "sorted ns" "list_all2 (stream_packet st c) ns (cn_thead c)" "set ns \<subseteq> {V<..T}"
    and range: "\<And>q. q \<in> insert p P \<union> queued s \<Longrightarrow> numbered (cn_lidx c) q \<Longrightarrow> \<exists>n \<in> {b<..T}. stream_packet st c n q"
    and all: "\<And>n. n \<in> {V<..T} \<Longrightarrow> \<exists>q \<in> set (cn_thead c) \<union> queued s \<union> insert p P. stream_packet st c n q"
    using s by (rule senderE) (blast intro: le_trans)
  show thesis
  proof (cases "\<exists>n \<in> {V<..T}. stream_packet st c n p")
    case True
    then obtain n where n: "V < n" "n \<le> T" "stream_packet st c n p"
      by auto
    let ?p = "p\<lparr>pk_time := chclock_now s\<rparr>"
    let ?c = "c\<lparr>cn_thead := insert_packet ?p (cn_thead c)\<rparr>"
    have gt: "cmp_gt (pk_pkn p) (cn_trecvd c)"
      using cmp_gt_nat [of n V] n c by (simp add: stream_packet_def copy_of_def)
    have "numbered (cn_lidx c) p"
      using n(3) by (simp add: stream_packet_def)
    then have "kept_on p s = Some i"
      by (rule kept_on_stream [OF c(1-4) _ gt])
    then have kept: "xmitdone p s = upd_conn i (\<lambda>c. c\<lparr>cn_thead := insert_packet ?p (cn_thead c)\<rparr>) s"
      by (simp add: xmitdone_def)
    have sp: "stream_packet st ?c = stream_packet st c"
      by (rule stream_packet_ends) (simp add: same_ends_def)
    obtain ms where "sorted ms" "list_all2 (stream_packet st c) ms (insert_packet ?p (cn_thead c))"
        "set ms = insert n (set ns)"
      using insert_packet_sorted [OF ns, where p = ?p and n = n] n c by auto
    moreover have "\<exists>q \<in> set (insert_packet ?p (cn_thead c)) \<union> queued s \<union> P. stream_packet st c m q" if "m \<in> {V<..T}" for m
      using all [OF that] by auto
    ultimately have "sender st b V K T P i ?c (xmitdone p s)"
      using s
      by (elim senderE, intro senderI [where ns = ms]) (use n ns(3) range in \<open>auto simp: kept sp\<close>)
    then show ?thesis
      by (rule that)
  next
    case False
    then have P: "sender st b V K T P i c s"
      using s by (intro sender_forget [OF s]) blast
    have "chconntab (xmitdone p s) i = chconntab s i"
    proof (cases "kept_on p s")
      case (Some j)
      have "j \<noteq> i"
      proof
        assume "j = i"
        with Some c have k: "numbered (cn_lidx c) p" "cmp_gt (pk_pkn p) (cn_trecvd c)"
          using kept_on_slot by blast+
        then obtain n where n: "n \<in> {b<..T}" "stream_packet st c n p"
          using range by blast
        then have "V < n"
          using k(2) cmp_gt_nat [of n V] c by (auto simp: stream_packet_def copy_of_def)
        with n False show False by auto
      qed
      with Some show ?thesis
        by (simp add: xmitdone_def)
    qed (simp add: xmitdone_def)
    then have "sender st b V K T P i c (xmitdone p s)"
      by (rule sender_frame [OF P, of _ _ "{}"]) (auto simp: xmitdone_def split: option.split)
    then show ?thesis
      using that [of "cn_thead c"] by simp
  qed
qed

section \<open>Sending data\<close>

text \<open>What the operations on one connection leave alone: everything but the connections and the queues.\<close>

definition same_host :: "ncp \<Rightarrow> ncp \<Rightarrow> bool" where
  "same_host s s' \<longleftrightarrow> s' = s\<lparr>chconntab := chconntab s', chxcvrs := chxcvrs s'\<rparr>"

lemma same_hostI: "s' = s\<lparr>chconntab := t, chxcvrs := u\<rparr> \<Longrightarrow> same_host s s'"
  by (simp add: same_host_def)

lemma same_host_refl [simp, intro!]: "same_host s s"
  by (simp add: same_host_def)

lemma same_host_trans [trans]: "same_host s t \<Longrightarrow> same_host t u \<Longrightarrow> same_host s u"
  unfolding same_host_def by (cases s; cases t; cases u) simp

lemma same_hostD:
  assumes "same_host s s'"
  shows "routes_ok s' = routes_ok s" "is_my_address s' = is_my_address s" "chmyaddr s' = chmyaddr s"
    "chclock_now s' = chclock_now s" "chhz s' = chhz s"
proof -
  obtain t u where s': "s' = s\<lparr>chconntab := t, chxcvrs := u\<rparr>"
    using assms unfolding same_host_def by blast
  show "routes_ok s' = routes_ok s" "is_my_address s' = is_my_address s" "chmyaddr s' = chmyaddr s"
    "chclock_now s' = chclock_now s" "chhz s' = chhz s"
    by (simp_all add: s' fun_eq_iff is_my_address_def)
qed

lemma same_host_queues [intro]: "same_but_queues s s' \<Longrightarrow> same_host s s'"
  unfolding same_but_queues_def by (rule same_hostI [where t = "chconntab s" and u = "chxcvrs s'"]) simp

lemma same_host_upd_conn [simp, intro!]: "same_host s (upd_conn i f s)"
  by (simp add: same_host_def upd_conn_def)

lemma same_host_xmitdone [simp, intro!]: "same_host s (xmitdone p s)"
  by (auto simp: xmitdone_def split: option.split)

lemma sender_queue:
  assumes s: "sender st b V K T (insert p P) i c s"
    and s': "chconntab s' = chconntab s" "queued s' = insert (p\<lparr>pk_time := t, pk_xdest := x\<rparr>) (queued s)"
  shows "sender st b V K T P i c s'"
  using s
proof (elim senderE, intro senderI)
  fix q
  assume q: "q \<in> P \<union> queued s'" "numbered (cn_lidx c) q"
    and range: "\<And>q. q \<in> insert p P \<union> queued s \<Longrightarrow> numbered (cn_lidx c) q \<Longrightarrow> \<exists>n \<in> {b<..T}. stream_packet st c n q"
  show "\<exists>n \<in> {b<..T}. stream_packet st c n q"
    using q range [of q] range [of p] by (auto simp: s')
next
  fix n
  assume "n \<in> {V<..T}" "\<And>n. n \<in> {V<..T} \<Longrightarrow> \<exists>q \<in> set (cn_thead c) \<union> queued s \<union> insert p P. stream_packet st c n q"
  then show "\<exists>q \<in> set (cn_thead c) \<union> queued s' \<union> P. stream_packet st c n q"
    by (auto simp: s' simp del: greaterThanAtMost_iff)
qed (simp_all add: s')

lemma fold_xmitdone_sender:
  "sender st b V K T (set ps \<union> P) i c s \<Longrightarrow>
   \<exists>h. sender st b V K T P i (c\<lparr>cn_thead := h\<rparr>) (fold xmitdone ps s) \<and> same_host s (fold xmitdone ps s)"
proof (induction ps arbitrary: c s)
  case Nil
  then show ?case
    by (intro exI [of _ "cn_thead c"]) simp
next
  case (Cons p ps)
  then obtain h where "sender st b V K T (set ps \<union> P) i (c\<lparr>cn_thead := h\<rparr>) (xmitdone p s)"
    using xmitdone_sender [of st b V K T p "set ps \<union> P" i c s] by auto
  then show ?case
    using Cons.IH by (fastforce intro: same_host_trans)
qed

lemma fold_chxmitpkt_sender:
  fixes x d
  defines "send \<equiv> \<lambda>p s. chxmitpkt x (p\<lparr>pk_time := chclock_now s, pk_xdest := d\<rparr>) False s"
  shows "sender st b V K T (set ps \<union> P) i c s \<Longrightarrow>
    sender st b V K T P i c (fold send ps s) \<and> same_but_queues s (fold send ps s)"
proof (induction ps arbitrary: s)
  case (Cons p ps)
  have q: "same_but_queues s (send p s)"
    unfolding send_def by blast
  have "sender st b V K T (set ps \<union> P) i c (send p s)"
  proof (rule sender_queue [where p = p and s = s and t = "chclock_now s" and x = d])
    show "sender st b V K T (insert p (set ps \<union> P)) i c s"
      using Cons.prems by simp
    show "chconntab (send p s) = chconntab s"
      by (rule same_but_queuesD [OF q])
  qed (simp add: send_def)
  then show ?case
    using Cons.IH q by (auto intro: same_but_queues_trans)
qed simp

lemma senddata_sender:
  assumes s: "sender st b V K T (set ps \<union> P) i c s"
    and ok: "routes_ok s" "\<not> is_my_address s (pk_daddr (hd ps))"
  obtains s' h where "senddata tome ps s = Inr s'" "sender st b V K T P i (c\<lparr>cn_thead := h\<rparr>) s'" "same_host s s'"
proof (cases "no_route (pk_daddr (hd ps)) s")
  case True
  then have "senddata tome ps s = Inr (fold xmitdone ps s)"
    using ok by (simp add: senddata_def Let_def)
  then show ?thesis
    using fold_xmitdone_sender [OF s] that by blast
next
  case False
  then obtain x d where r: "route_to (pk_daddr (hd ps)) s = Inr (x, d)"
    using ok route_to_ok by blast
  let ?s = "fold (\<lambda>p s. chxmitpkt x (p\<lparr>pk_time := chclock_now s, pk_xdest := d\<rparr>) False s) ps s"
  have "senddata tome ps s = Inr ?s"
    using ok False r by (simp add: senddata_def Let_def)
  moreover have "sender st b V K T P i c ?s" "same_but_queues s ?s"
    using fold_chxmitpkt_sender [OF s] by blast+
  ultimately show ?thesis
    using that [of ?s "cn_thead c"] by auto
qed

section \<open>Writing\<close>

lemma data_op_cases: "data_op x \<Longrightarrow> x \<notin> {ANSOP, FWDOP, RFCOP, BRDOP, UNCOP}"
  by (auto simp: data_op_def)

lemma PH_FC_set_0 [simp]: "PH_FC (SET_PH_FC 0 p) = 0"
proof -
  have "(x AND 0x0FFF) AND 0xF000 = (0 :: u16)" for x
    by (simp add: and.assoc)
  then show ?thesis
    by (simp add: PH_FC_def SET_PH_FC_def)
qed

lemma setpkt_same [simp]:
  "pk_op (setpkt c p) = pk_op p" "pk_daddr (setpkt c p) = cn_faddr c" "pk_didx (setpkt c p) = cn_fidx c"
  "pk_saddr (setpkt c p) = cn_laddr c" "pk_sidx (setpkt c p) = cn_lidx c" "PH_FC (setpkt c p) = 0"
  "payload (setpkt c p) = payload p"
  by (simp_all add: setpkt_def) (simp_all add: SET_PH_FC_def payload_def contact_def PH_LEN_def)

lemma PH_FC_updates [simp]:
  "PH_FC (p\<lparr>pk_pkn := n\<rparr>) = PH_FC p" "payload (p\<lparr>pk_pkn := n\<rparr>) = payload p" "payload (p\<lparr>pk_ackn := a\<rparr>) = payload p"
  by (simp_all add: PH_FC_def payload_def contact_def PH_LEN_def)

lemma ch_write_sender:
  assumes s: "sender st b V K T {} i c s" and p: "data_op (pk_op p)" "payload p = st (T + 1)" and T: "T + 1 \<le> b + 2 ^ 14"
    and ok: "routes_ok s" "\<not> is_my_address s (cn_faddr c)"
  obtains s' h where "ch_write tome i p s = Inr (True, s')" "same_host s s'"
    "sender st b V K (T + 1) {} i (c\<lparr>cn_racked := cn_rread c, cn_tlast := cn_tlast c + 1, cn_thead := h\<rparr>) s'"
proof -
  let ?c = "c\<lparr>cn_racked := cn_rread c, cn_tlast := cn_tlast c + 1\<rparr>"
  let ?p = "(setpkt (c\<lparr>cn_racked := cn_rread c\<rparr>) (p\<lparr>pk_ackn := cn_rread c\<rparr>))\<lparr>pk_pkn := cn_tlast c + 1\<rparr>"
  let ?s = "upd_conn i (\<lambda>_. ?c) s"
  have c: "chconntab s i = Some c" "cn_state c = CSOPEN" "cn_tlast c = of_nat T"
    using s by (auto simp: sender_def)
  have w: "ch_write tome i p s = and_then (senddata tome [?p] ?s) (\<lambda>s1. Inr (True, s1))"
    using data_op_cases [OF p(1)] p(1) c
    by (simp add: ch_write_def write_numbered_def setack_def ISDATOP_def data_op_def)
  have sp: "stream_packet st ?c = stream_packet st c"
    by (rule stream_packet_ends) (simp add: same_ends_def)
  have new: "stream_packet st c (T + 1) ?p"
    using p data_op_CONTPKT [of ?p] c(3)
    by (simp add: stream_packet_def numbered_def addressed_def copy_of_def add.commute)
  have "sender st b V K (T + 1) (set [?p] \<union> {}) i ?c ?s"
    using s
  proof (elim senderE, intro senderI)
    fix ns assume "set ns \<subseteq> {V<..T}"
    then show "set ns \<subseteq> {V<..T + 1}" by auto
  next
    fix q
    assume "q \<in> set [?p] \<union> {} \<union> queued ?s" "numbered (cn_lidx ?c) q"
      and "\<And>q. q \<in> {} \<union> queued s \<Longrightarrow> numbered (cn_lidx c) q \<Longrightarrow> \<exists>n \<in> {b<..T}. stream_packet st c n q"
    moreover have "T + 1 \<in> {b<..T + 1}"
      using s by (auto simp: sender_def)
    ultimately show "\<exists>n \<in> {b<..T + 1}. stream_packet st ?c n q"
      unfolding sp using new by fastforce
  next
    fix n
    assume n: "n \<in> {V<..T + 1}"
      and all: "\<And>n. n \<in> {V<..T} \<Longrightarrow> \<exists>q \<in> set (cn_thead c) \<union> queued s \<union> {}. stream_packet st c n q"
    show "\<exists>q \<in> set (cn_thead ?c) \<union> queued ?s \<union> (set [?p] \<union> {}). stream_packet st ?c n q"
    proof (cases "n = T + 1")
      case True
      then show ?thesis
        unfolding sp using new by auto
    next
      case False
      then show ?thesis
        unfolding sp using all [of n] n by auto
    qed
  qed (use c T sp in \<open>auto simp: add.commute\<close>)
  then obtain s' h where "senddata tome [?p] ?s = Inr s'" "same_host ?s s'"
      "sender st b V K (T + 1) {} i (?c\<lparr>cn_thead := h\<rparr>) s'"
    using ok by (elim senddata_sender) auto
  then show ?thesis
    using w that [of s' h] by (auto intro: same_host_trans)
qed

section \<open>Retransmission\<close>

lemma list_all2_filter:
  "list_all2 R ns ps \<Longrightarrow> sorted ns \<Longrightarrow>
   \<exists>ms. sorted ms \<and> list_all2 R ms (filter Q ps) \<and> set ms \<subseteq> set (ns :: nat list)"
proof (induction ns ps rule: list_all2_induct)
  case (Cons n ns p ps)
  then obtain ms where ms: "sorted ms" "list_all2 R ms (filter Q ps)" "set ms \<subseteq> set ns"
    by auto
  show ?case
  proof (cases "Q p")
    case True
    then show ?thesis
      using ms Cons by (intro exI [of _ "n # ms"]) auto
  next
    case False
    then show ?thesis
      using ms by (intro exI [of _ ms]) auto
  qed
qed simp

lemma chretran_sender:
  assumes s: "sender st b V K T {} i c s" and ok: "routes_ok s" "\<not> is_my_address s (cn_faddr c)"
  obtains s' h r where "chretran tome i age s = Inr s'" "same_host s s'"
    "sender st b V K T {} i (c\<lparr>cn_racked := r, cn_thead := h\<rparr>) s'"
proof -
  let ?old = "filter (too_old s age) (cn_thead c)" and ?keep = "filter (\<lambda>p. \<not> too_old s age p) (cn_thead c)"
  let ?ps = "map (\<lambda>p. p\<lparr>pk_ackn := cn_rread c\<rparr>) ?old"
  let ?c = "c\<lparr>cn_thead := ?keep, cn_racked := cn_rread c\<rparr>" and ?s = "upd_conn i (\<lambda>c. c\<lparr>cn_thead := ?keep, cn_racked := cn_rread c\<rparr>) s"
  have c: "chconntab s i = Some c"
    using s by (auto simp: sender_def)
  show thesis
  proof (cases "?old = []")
    case True
    then have "chretran tome i age s = Inr s"
      by (simp add: chretran_def c)
    then show ?thesis
      using s that [of s "cn_thead c" "cn_racked c"] by simp
  next
    case False
    have e: "chretran tome i age s = senddata tome ?ps ?s"
      using False by (simp add: chretran_def c Let_def)
    have sp: "stream_packet st ?c = stream_packet st c"
      by (rule stream_packet_ends) (simp add: same_ends_def)
    obtain ns where ns: "sorted ns" "list_all2 (stream_packet st c) ns (cn_thead c)" "set ns \<subseteq> {V<..T}"
      using s by (auto simp: sender_def)
    obtain ms where ms: "sorted ms" "list_all2 (stream_packet st c) ms ?keep" "set ms \<subseteq> set ns"
      using list_all2_filter [OF ns(2,1)] by blast
    have thead: "\<exists>n \<in> {b<..T}. stream_packet st c n q" if "q \<in> set (cn_thead c)" for q
      using that ns s by (fastforce simp: list_all2_conv_all_nth in_set_conv_nth sender_def)
    have S: "sender st b V K T (set ?ps \<union> {}) i ?c ?s"
      using s
    proof (elim senderE, intro senderI [where ns = ms])
      fix q
      assume "q \<in> set ?ps \<union> {} \<union> queued ?s" "numbered (cn_lidx ?c) q"
        and "\<And>q. q \<in> {} \<union> queued s \<Longrightarrow> numbered (cn_lidx c) q \<Longrightarrow> \<exists>n \<in> {b<..T}. stream_packet st c n q"
      then show "\<exists>n \<in> {b<..T}. stream_packet st ?c n q"
        unfolding sp using thead by (auto simp del: greaterThanAtMost_iff)
    next
      fix n
      assume "n \<in> {V<..T}"
        and "\<And>n. n \<in> {V<..T} \<Longrightarrow> \<exists>q \<in> set (cn_thead c) \<union> queued s \<union> {}. stream_packet st c n q"
      then obtain q where "q \<in> set (cn_thead c) \<union> queued s" "stream_packet st c n q"
        by auto
      then show "\<exists>q \<in> set (cn_thead ?c) \<union> queued ?s \<union> (set ?ps \<union> {}). stream_packet st ?c n q"
        unfolding sp by (cases "too_old s age q") (auto intro: rev_bexI)
    qed (use ms ns(3) in \<open>auto simp: sp\<close>)
    have daddr: "\<not> is_my_address ?s (pk_daddr (hd ?ps))"
    proof -
      let ?q = "hd ?old"
      have "?q \<in> set (cn_thead c)" "hd ?ps = ?q\<lparr>pk_ackn := cn_rread c\<rparr>"
        using hd_in_set [OF False] False by (auto simp: hd_map)
      then show ?thesis
        using thead [of ?q] ok by (auto simp: stream_packet_def addressed_def)
    qed
    have "routes_ok ?s"
      using ok by simp
    from senddata_sender [OF S this daddr]
    obtain s' h where "senddata tome ?ps ?s = Inr s'" "same_host ?s s'"
        "sender st b V K T {} i (?c\<lparr>cn_thead := h\<rparr>) s'" .
    then show ?thesis
      using e that [of s' h "cn_rread c"] by (auto intro: same_host_trans)
  qed
qed

section \<open>Receipts\<close>

lemma dropWhile_receipted:
  assumes "list_all2 (stream_packet st c) ns ps" "sorted ns" "set ns \<subseteq> {b<..b + 2 ^ 14}" "b \<le> R" "R \<le> b + 2 ^ 14"
  shows "\<exists>ms. sorted ms \<and> list_all2 (stream_packet st c) ms (dropWhile (\<lambda>p. cmp_le (pk_pkn p) (of_nat R)) ps) \<and>
    set ms = {n \<in> set ns. R < n} \<and>
    (\<forall>q \<in> set ps. q \<in> set (dropWhile (\<lambda>p. cmp_le (pk_pkn p) (of_nat R)) ps) \<or>
       (\<exists>n \<in> set ns. n \<le> R \<and> stream_packet st c n q))"
  using assms(1-3)
proof (induction ns ps rule: list_all2_induct)
  case (Cons n ns p ps)
  have le: "cmp_le (pk_pkn p) (of_nat R) \<longleftrightarrow> n \<le> R"
    using cmp_gt_nat [of n R] Cons(1,5) assms(4,5) by (auto simp: cmp_le_def stream_packet_def copy_of_def)
  show ?case
  proof (cases "n \<le> R")
    case True
    obtain ms where "sorted ms" "list_all2 (stream_packet st c) ms (dropWhile (\<lambda>p. cmp_le (pk_pkn p) (of_nat R)) ps)"
        "set ms = {n \<in> set ns. R < n}"
        "\<forall>q \<in> set ps. q \<in> set (dropWhile (\<lambda>p. cmp_le (pk_pkn p) (of_nat R)) ps) \<or>
          (\<exists>n \<in> set ns. n \<le> R \<and> stream_packet st c n q)"
      using Cons.IH Cons.prems by auto
    then show ?thesis
      using True le Cons(1) by (intro exI [of _ ms]) auto
  next
    case False
    then have "{m \<in> set (n # ns). R < m} = set (n # ns)"
      using Cons.prems by auto
    with False show ?thesis
      using le Cons by (intro exI [of _ "n # ns"]) auto
  qed
qed simp

lemma receipt_sender:
  assumes s: "sender st b V K T P i c s" and K': "b \<le> K'" "K' \<le> V'" "V' \<le> T"
  shows "sender st b (max V V') (max K K') T P i (receipt (of_nat K') (of_nat V') c)
    (upd_conn i (\<lambda>_. receipt (of_nat K') (of_nat V') c) s)"
proof -
  let ?c = "receipt (of_nat K') (of_nat V') c"
  obtain ns where c: "chconntab s i = Some c" "tindex (cn_lidx c) = i" "i < CHNCONNS" "cn_state c = CSOPEN"
      "cn_tlast c = of_nat T" "cn_trecvd c = of_nat V" "cn_tacked c = of_nat K"
    and n: "b \<le> K" "K \<le> V" "V \<le> T" "T \<le> b + 2 ^ 14"
    and ns: "sorted ns" "list_all2 (stream_packet st c) ns (cn_thead c)" "set ns \<subseteq> {V<..T}"
    and range: "\<And>p. p \<in> P \<union> queued s \<Longrightarrow> numbered (cn_lidx c) p \<Longrightarrow> \<exists>n \<in> {b<..T}. stream_packet st c n p"
    and all: "\<And>n. n \<in> {V<..T} \<Longrightarrow> \<exists>p \<in> set (cn_thead c) \<union> queued s \<union> P. stream_packet st c n p"
    using s by (rule senderE) blast
  have sp: "stream_packet st ?c = stream_packet st c"
    by (rule stream_packet_ends) (simp add: same_ends_def)
  have gt: "cmp_gt (of_nat V') (cn_trecvd c) \<longleftrightarrow> V < V'" "cmp_gt (of_nat K') (cn_tacked c) \<longleftrightarrow> K < K'"
    "\<not> cmp_gt (of_nat K') (cn_tlast c)"
    using cmp_gt_nat [of V' V] cmp_gt_nat [of K' K] cmp_gt_nat [of K' T] n K' by (simp_all add: c)
  have acks: "cn_tacked ?c = of_nat (max K K')" "cn_trecvd ?c = of_nat (max V V')"
    using gt by (auto simp: receipt_def Let_def c max_def)
  have thead: "cn_thead ?c = (if V < V' then dropWhile (\<lambda>p. cmp_le (pk_pkn p) (of_nat V')) (cn_thead c) else cn_thead c)"
    using gt by (simp add: receipt_def Let_def)
  have nsb: "set ns \<subseteq> {b<..b + 2 ^ 14}"
    using ns(3) n by auto
  obtain ms where ms: "sorted ms" "list_all2 (stream_packet st c) ms (cn_thead ?c)" "set ms = {n \<in> set ns. max V V' < n}"
    and keep: "\<forall>q \<in> set (cn_thead c). q \<in> set (cn_thead ?c) \<or> (\<exists>n \<in> set ns. n \<le> max V V' \<and> stream_packet st c n q)"
  proof (cases "V < V'")
    case True
    then show ?thesis
      using dropWhile_receipted [OF ns(2,1) nsb, of V'] n K' that by (auto simp: thead max_def)
  next
    case False
    moreover have "set ns = {n \<in> set ns. V < n}"
      using ns(3) by auto
    ultimately show ?thesis
      using ns that [of ns] by (simp add: thead max_def)
  qed
  show ?thesis
  proof (rule senderI [OF _ _ _ _ _ acks(2,1) _ _ _ _ ms(1)])
    fix m
    assume m: "m \<in> {max V V'<..T}"
    then obtain q where q: "q \<in> set (cn_thead c) \<union> queued s \<union> P" "stream_packet st c m q"
      using all [of m] by auto
    have "q \<in> set (cn_thead ?c)" if "q \<in> set (cn_thead c)"
    proof (rule ccontr)
      assume "q \<notin> set (cn_thead ?c)"
      then obtain k where "k \<in> set ns" "k \<le> max V V'" "stream_packet st c k q"
        using keep \<open>q \<in> set (cn_thead c)\<close> by blast
      moreover have "k = m"
        using calculation q(2) m ns(3) n K' by (intro stream_packet_number [of st c k q m b T]) auto
      ultimately show False
        using m by (simp add: max_def split: if_splits)
    qed
    then show "\<exists>p \<in> set (cn_thead ?c) \<union> queued (upd_conn i (\<lambda>_. ?c) s) \<union> P. stream_packet st ?c m p"
      using q by (auto simp: sp)
  next
    fix q
    assume "q \<in> P \<union> queued (upd_conn i (\<lambda>_. ?c) s)" "numbered (cn_lidx ?c) q"
    then show "\<exists>n \<in> {b<..T}. stream_packet st ?c n q"
      using range [of q] by (simp add: sp)
  next
    show "list_all2 (stream_packet st ?c) ms (cn_thead ?c)"
      using ms(2) by (simp add: sp)
    show "set ms \<subseteq> {max V V'<..T}"
      using ms(3) ns(3) by auto
  qed (use c n K' in auto)
qed

section \<open>Transmit interrupts\<close>

lemma kept_on_queues: "same_but_queues s s' \<Longrightarrow> kept_on p s' = kept_on p s"
  by (simp add: kept_on_def same_but_queuesD Let_def)

text \<open>The completion of one packet and the start of the next touch different parts of the state.\<close>

lemma xmitdone_upd_xcvr: "upd_xcvr x f (xmitdone p s) = xmitdone p (upd_xcvr x f s)"
  using kept_on_queues [OF same_but_queues_upd_xcvr [of s x f], of p]
  by (auto simp: xmitdone_def upd_xcvr_def upd_conn_def split: option.split)

lemma xmitnext_def2:
  "snd (xmitnext x s) =
     (case xc_list (chxcvrs s x) of
        [] \<Rightarrow> upd_xcvr x (\<lambda>c. c\<lparr>xc_tpkt := None\<rparr>) s
      | q # qs \<Rightarrow> upd_xcvr x (\<lambda>c. c\<lparr>xc_tpkt := Some q, xc_list := qs, xc_ttime := chclock_now s\<rparr>) s)"
  by (simp add: xmitnext_def split: list.split)

lemma xmitdone_same [simp]: "chxcvrs (xmitdone p s) = chxcvrs s" "chclock_now (xmitdone p s) = chclock_now s"
  by (simp_all add: xmitdone_def split: option.split)

lemma xmitdone_xmitnext: "snd (xmitnext x (xmitdone p s)) = xmitdone p (snd (xmitnext x s))"
  by (simp add: xmitnext_def2 xmitdone_upd_xcvr split: list.split)

lemma queued_xmitnext_Some:
  assumes "xc_tpkt (chxcvrs s x) = Some p"
  shows "queued s = insert p (queued (snd (xmitnext x s)))"
  using assms
  by (auto simp: xmitnext_def queued_upd_xcvr queued_split [of s x] in_xcvr_def split: list.split)

lemma sender_queues:
  assumes s: "sender st b V K T P i c s" and q: "same_but_queues s s'" "P' \<union> queued s' = P \<union> queued s"
  shows "sender st b V K T P' i c s'"
  by (rule sender_frame [OF s, of _ _ "{}"]) (use q(2) same_but_queuesD(1) [OF q(1)] in auto)

lemma queued_counters [simp]: "(\<And>c. in_xcvr (f c) = in_xcvr c) \<Longrightarrow> queued (upd_xcvr x f s) = queued s"
  by (simp add: queued_upd_xcvr queued_split [of s x])

lemma chxcvrs_upd_xcvr [simp]: "chxcvrs (upd_xcvr x f s) x = f (chxcvrs s x)"
  by (simp add: upd_xcvr_def)

lemma chchtint_sender:
  assumes s: "sender st b V K T {} i c s"
  obtains h where "sender st b V K T {} i (c\<lparr>cn_thead := h\<rparr>) (chchtint aborted x s)" "same_host s (chchtint aborted x s)"
proof (cases "xc_tpkt (chxcvrs s x)")
  case None
  then have "chchtint aborted x s = snd (xmitnext x s)"
    by (simp add: chchtint_def)
  moreover have "sender st b V K T {} i c (snd (xmitnext x s))"
    by (rule sender_queues [OF s]) (use None in \<open>auto simp: queued_xmitnext\<close>)
  ultimately show ?thesis
    using that [of "cn_thead c"] by auto
next
  case (Some p)
  let ?s1 = "if aborted then upd_xcvr x (\<lambda>c. c\<lparr>xc_abrt := xc_abrt c + 1, xc_rtries := xc_rtries c + 1\<rparr>) s
    else upd_xcvr x (\<lambda>c. c\<lparr>xc_xmtd := xc_xmtd c + 1\<rparr>) s"
  have s1: "same_but_queues s ?s1" "queued ?s1 = queued s" "xc_tpkt (chxcvrs ?s1 x) = Some p"
    using Some by (auto simp: in_xcvr_def)
  then have S1: "sender st b V K T {} i c ?s1"
    by (intro sender_queues [OF s]) auto
  let ?s2 = "upd_xcvr x (\<lambda>c. c\<lparr>xc_rtries := 0\<rparr>) ?s1"
  let ?s3 = "snd (xmitnext x ?s2)"
  have t2: "xc_tpkt (chxcvrs ?s2 x) = Some p"
    using s1(3) by simp
  have "same_but_queues ?s1 ?s3"
    by (rule same_but_queues_trans [of _ ?s2]) auto
  moreover have "insert p {} \<union> queued ?s3 = {} \<union> queued ?s1"
  proof -
    have "queued ?s2 = queued ?s1"
      by (rule queued_counters) (simp add: in_xcvr_def)
    then show ?thesis
      using queued_xmitnext_Some [OF t2] by (simp only: Un_insert_left Un_empty_left)
  qed
  ultimately have "sender st b V K T (insert p {}) i c ?s3"
    using S1 by (rule sender_queues [rotated])
  then obtain h where h: "sender st b V K T {} i (c\<lparr>cn_thead := h\<rparr>) (xmitdone p ?s3)"
    by (rule xmitdone_sender)
  have e: "chchtint aborted x s = (if aborted \<and> xc_rtries (chxcvrs ?s1 x) < 5 then ?s1
      else snd (xmitnext x (upd_xcvr x (\<lambda>c. c\<lparr>xc_rtries := 0\<rparr>) (xmitdone p ?s1))))"
    by (simp only: chchtint_def Some Let_def option.case)
  show ?thesis
  proof (cases "aborted \<and> xc_rtries (chxcvrs ?s1 x) < 5")
    case True
    then have "chchtint aborted x s = ?s1"
      unfolding e by (rule if_P)
    then show ?thesis
      using S1 s1(1) that [of "cn_thead c"] by auto
  next
    case False
    then have "chchtint aborted x s = xmitdone p ?s3"
      unfolding e if_not_P [OF False] by (simp only: xmitdone_upd_xcvr xmitdone_xmitnext)
    moreover have "same_host s (xmitdone p ?s3)"
      using s1(1) \<open>same_but_queues ?s1 ?s3\<close> by (blast intro: same_host_trans same_but_queues_trans)
    ultimately show ?thesis
      using h that by metis
  qed
qed

text \<open>A transmit interrupt never adds to the queues, nor to a connection that has no packet there.\<close>

lemma xmitdone_other:
  assumes "chconntab s j = Some c" "\<not> numbered (cn_lidx c) p"
  shows "chconntab (xmitdone p s) j = chconntab s j"
proof (cases "kept_on p s")
  case (Some k)
  then have "k \<noteq> j"
    using assms kept_on_slot(1) by metis
  with Some show ?thesis
    by (simp add: xmitdone_def)
qed (simp add: xmitdone_def)

lemma queued_xmitdone [simp]: "queued (xmitdone p s) = queued s"
  by (simp add: xmitdone_def split: option.split)

lemma chchtint_other:
  assumes c: "chconntab s j = Some c" and q: "\<And>p. p \<in> queued s \<Longrightarrow> \<not> numbered (cn_lidx c) p"
  shows "chconntab (chchtint aborted x s) j = Some c" "queued (chchtint aborted x s) \<subseteq> queued s"
    "same_host s (chchtint aborted x s)"
proof -
  have next_other: "chconntab (snd (xmitnext x s')) = chconntab s'" "queued (snd (xmitnext x s')) \<subseteq> queued s'" for s'
    using same_but_queuesD(1) [OF xmitnext_queues] queued_xmitnext(1) by blast+
  have "chconntab (chchtint aborted x s) j = Some c \<and> queued (chchtint aborted x s) \<subseteq> queued s \<and> same_host s (chchtint aborted x s)"
  proof (cases "xc_tpkt (chxcvrs s x)")
    case None
    then show ?thesis
      using c next_other [of s] by (simp add: chchtint_def same_host_queues)
  next
    case (Some p)
    have "p \<in> queued s"
      using Some by (auto simp: queued_def in_xcvr_def)
    then have p: "\<not> numbered (cn_lidx c) p"
      by (rule q)
    define s1 where "s1 = (if aborted then upd_xcvr x (\<lambda>c. c\<lparr>xc_abrt := xc_abrt c + 1, xc_rtries := xc_rtries c + 1\<rparr>) s
      else upd_xcvr x (\<lambda>c. c\<lparr>xc_xmtd := xc_xmtd c + 1\<rparr>) s)"
    have s1: "same_but_queues s s1" "queued s1 = queued s" "chconntab s1 = chconntab s"
      by (auto simp: s1_def in_xcvr_def same_but_queuesD(1) [OF same_but_queues_upd_xcvr])
    let ?s2 = "upd_xcvr x (\<lambda>c. c\<lparr>xc_rtries := 0\<rparr>) (xmitdone p s1)"
    have "chconntab ?s2 j = Some c"
      using xmitdone_other [of s1 j c p] c p s1(3) same_but_queuesD(1) [OF same_but_queues_upd_xcvr] by simp
    moreover have "queued ?s2 = queued s"
      using s1(2) by (subst queued_counters) (simp_all add: in_xcvr_def)
    moreover have "same_host s (snd (xmitnext x ?s2))"
    proof -
      have "same_host s s1" "same_host s1 (xmitdone p s1)" "same_host (xmitdone p s1) ?s2" "same_host ?s2 (snd (xmitnext x ?s2))"
        using s1(1) by (simp_all add: same_host_queues)
      then show ?thesis
        by (rule same_host_trans [OF same_host_trans [OF same_host_trans]])
    qed
    moreover have "chconntab (snd (xmitnext x ?s2)) j = Some c" "queued (snd (xmitnext x ?s2)) \<subseteq> queued s"
      using calculation(1,2) next_other [of ?s2] by (simp_all only: fun_cong [OF next_other(1)])
    moreover have "chchtint aborted x s = (if aborted \<and> xc_rtries (chxcvrs s1 x) < 5 then s1 else snd (xmitnext x ?s2))"
      by (simp only: chchtint_def Some Let_def option.case s1_def)
    moreover have "chconntab s1 j = Some c" "same_host s s1" "queued s1 \<subseteq> queued s"
      using c s1 by (simp_all add: same_host_queues)
    ultimately show ?thesis
      by presburger
  qed
  then show "chconntab (chchtint aborted x s) j = Some c" "queued (chchtint aborted x s) \<subseteq> queued s"
    "same_host s (chchtint aborted x s)"
    by blast+
qed

end
