(* ===== verification/Ch_Transfer.thy ===== *)
theory Ch_Transfer
  imports Ch_Transmit
begin

text \<open>
  Two hosts and a network.  A state holds the NCPs of the sending and of the receiving host, every packet that
  either has put into a queue since the connection was opened, and what the users have written and read.  The
  network may deliver any of these packets at any time, so packets are lost, duplicated and reordered.  The steps are
  the operations of the code: the user writes, the clock retransmits, transmit interrupts, a packet is
  received, the user reads or asks for a status.
\<close>

unbundle bit_operations_syntax

record transfer =
  sender_host :: ncp
  receiver_host :: ncp
  to_receiver :: "packet set"
  to_sender :: "packet set"
  written :: "payload list"
  delivered :: "payload list"

definition sender_does :: "ncp \<Rightarrow> transfer \<Rightarrow> transfer" where
  "sender_does s t = t\<lparr>sender_host := s, to_receiver := to_receiver t \<union> queued s\<rparr>"

definition receiver_does :: "ncp \<Rightarrow> transfer \<Rightarrow> transfer" where
  "receiver_does r t = t\<lparr>receiver_host := r, to_sender := to_sender t \<union> queued r\<rparr>"

text \<open>On the way, the forwarding count, the time and the address of the next hop change.\<close>

definition carried :: "packet \<Rightarrow> packet \<Rightarrow> bool" where
  "carried p q \<longleftrightarrow> (\<exists>fc tm x. q = SET_PH_FC fc (p\<lparr>pk_time := tm, pk_xdest := x\<rparr>))"

inductive transfer_step :: "tome \<Rightarrow> nat \<Rightarrow> nat \<Rightarrow> transfer \<Rightarrow> transfer \<Rightarrow> bool" for tome i j where
  write_data: "\<lbrakk>chconntab (sender_host t) i = Some c; \<not> chtfull c; data_op (pk_op p);
      ch_write tome i p (sender_host t) = Inr (ok, s)\<rbrakk>
    \<Longrightarrow> transfer_step tome i j t (sender_does s (t\<lparr>written := written t @ [payload p]\<rparr>))"
| retransmit: "chretran tome i age (sender_host t) = Inr s \<Longrightarrow> transfer_step tome i j t (sender_does s t)"
| transmit: "transfer_step tome i j t (sender_does (chchtint aborted x (sender_host t)) t)"
| status_arrives: "\<lbrakk>q \<in> to_sender t; chconntab (receiver_host t) j = Some c; pk_sidx q = cn_lidx c; carried q q';
      rcvpkt tome x q' (sender_host t) = Inr s\<rbrakk>
    \<Longrightarrow> transfer_step tome i j t (sender_does s t)"
| data_arrives: "\<lbrakk>p \<in> to_receiver t; chconntab (sender_host t) i = Some a; numbered (cn_lidx a) p; carried p p';
      rcvpkt tome x p' (receiver_host t) = Inr r\<rbrakk>
    \<Longrightarrow> transfer_step tome i j t (receiver_does r t)"
| read_data: "\<lbrakk>chconntab (receiver_host t) j = Some c; cn_rhead c = p # ps; ch_read tome j (receiver_host t) = Inr r\<rbrakk>
    \<Longrightarrow> transfer_step tome i j t
          (receiver_does r (t\<lparr>delivered := delivered t @ (if CONTPKT p then [payload p] else [])\<rparr>))"
| send_status: "ch_sts tome j (receiver_host t) = Inr r \<Longrightarrow> transfer_step tome i j t (receiver_does r t)"
| transmit_status: "transfer_step tome i j t (receiver_does (chchtint aborted x (receiver_host t)) t)"

section \<open>The start\<close>

text \<open>
  Both ends are open, know each other, and agree that everything up to number \<open>b\<close> has been written and read; no packet
  of the connection is under way.
\<close>

definition ends_match :: "nat \<Rightarrow> nat \<Rightarrow> connection \<Rightarrow> connection \<Rightarrow> ncp \<Rightarrow> ncp \<Rightarrow> bool" where
  "ends_match i j a c s r \<longleftrightarrow>
     chconntab s i = Some a \<and> cn_state a = CSOPEN \<and> tindex (cn_lidx a) = i \<and> i < CHNCONNS \<and>
     chconntab r j = Some c \<and> cn_state c = CSOPEN \<and> tindex (cn_lidx c) = j \<and> j < CHNCONNS \<and> \<not> cn_closing c \<and>
     cn_fidx a = cn_lidx c \<and> cn_twsize a = cn_rwsize c \<and> unat (cn_rwsize c) < 2 ^ 14 \<and>
     routes_ok s \<and> is_my_address s (cn_laddr a) \<and> \<not> is_my_address s (cn_faddr a) \<and>
     routes_ok r \<and> is_my_address r (cn_faddr a) \<and> \<not> is_my_address r (cn_laddr a) \<and>
     cn_faddr c = cn_laddr a \<and> cn_fidx c = cn_lidx a \<and> \<not> is_my_address r (cn_faddr c)"

definition connected :: "nat \<Rightarrow> nat \<Rightarrow> nat \<Rightarrow> transfer \<Rightarrow> bool" where
  "connected b i j t \<longleftrightarrow>
     (\<exists>a c. ends_match i j a c (sender_host t) (receiver_host t) \<and>
        cn_tlast a = of_nat b \<and> cn_trecvd a = of_nat b \<and> cn_tacked a = of_nat b \<and> cn_thead a = [] \<and>
        cn_rread c = of_nat b \<and> cn_rlast c = of_nat b \<and> cn_routorder c = [] \<and> filter CONTPKT (cn_rhead c) = [] \<and>
        (\<forall>p \<in> to_receiver t \<union> queued (sender_host t). \<not> numbered (cn_lidx a) p) \<and>
        (\<forall>q \<in> to_sender t \<union> queued (receiver_host t). pk_sidx q \<noteq> cn_lidx c)) \<and>
     written t = [] \<and> delivered t = []"

section \<open>The invariant\<close>

text \<open>Everything up to \<open>n\<close> has been read or received.\<close>

definition got :: "nat \<Rightarrow> nat set \<Rightarrow> nat \<Rightarrow> bool" where
  "got R S n \<longleftrightarrow> {R<..n} \<subseteq> S"

text \<open>A status that the receiver has sent at some time.\<close>

definition true_status :: "nat \<Rightarrow> nat \<Rightarrow> nat set \<Rightarrow> connection \<Rightarrow> connection \<Rightarrow> packet \<Rightarrow> bool" where
  "true_status b R S a c q \<longleftrightarrow>
     (\<exists>L K. pk_op q = STSOP \<and> pk_receipt q = of_nat L \<and> pk_ackn q = of_nat K \<and> pk_rwsize q = cn_rwsize c \<and>
        pk_didx q = cn_lidx a \<and> pk_daddr q = cn_laddr a \<and> b \<le> K \<and> K \<le> L \<and> K \<le> R \<and> got R S L)"

text \<open>The origin of a packet.\<close>

definition from_sender :: "connection \<Rightarrow> packet \<Rightarrow> bool" where
  "from_sender a p \<longleftrightarrow> pk_saddr p = cn_laddr a \<and> pk_sidx p = cn_lidx a"

definition transfer_inv ::
    "nat \<Rightarrow> nat \<Rightarrow> nat \<Rightarrow> (nat \<Rightarrow> payload) \<Rightarrow> nat \<Rightarrow> nat \<Rightarrow> nat set \<Rightarrow> connection \<Rightarrow> connection \<Rightarrow> transfer \<Rightarrow> bool" where
  "transfer_inv b i j st V K S a c t \<longleftrightarrow>
     (let s = sender_host t; r = receiver_host t; T = b + length (written t); R = b + length (delivered t) in
        ends_match i j a c s r \<and> sender st b V K T {} i a s \<and> receiver st R S c \<and>
        written t = map st [b + 1..<T + 1] \<and> delivered t = map st [b + 1..<R + 1] \<and>
        R \<le> T \<and> S \<subseteq> {..T} \<and> K \<le> R \<and> got R S V \<and> T \<le> K + unat (cn_twsize a) \<and>
        (\<forall>n \<in> {b<..T}. data_op (fst (st n))) \<and>
        (\<forall>p \<in> to_receiver t. numbered (cn_lidx a) p \<longrightarrow> (\<exists>n \<in> {b<..T}. stream_packet st a n p)) \<and>
        (\<forall>q \<in> to_sender t \<union> queued r. pk_sidx q = cn_lidx c \<longrightarrow> true_status b R S a c q) \<and>
        (\<forall>p \<in> held c. CONTPKT p \<longrightarrow> from_sender a p))"

lemma transfer_invD:
  assumes "transfer_inv b i j st V K S a c t"
  shows "ends_match i j a c (sender_host t) (receiver_host t)"
    "sender st b V K (b + length (written t)) {} i a (sender_host t)"
    "receiver st (b + length (delivered t)) S c"
    "written t = map st [b + 1..<b + length (written t) + 1]"
    "delivered t = map st [b + 1..<b + length (delivered t) + 1]"
    "b + length (delivered t) \<le> b + length (written t)"
    "S \<subseteq> {..b + length (written t)}"
    "K \<le> b + length (delivered t)"
    "got (b + length (delivered t)) S V"
    "b + length (written t) \<le> K + unat (cn_twsize a)"
    "\<forall>n \<in> {b<..b + length (written t)}. data_op (fst (st n))"
    "\<forall>p \<in> to_receiver t. numbered (cn_lidx a) p \<longrightarrow> (\<exists>n \<in> {b<..b + length (written t)}. stream_packet st a n p)"
    "\<forall>q \<in> to_sender t \<union> queued (receiver_host t). pk_sidx q = cn_lidx c \<longrightarrow> true_status b (b + length (delivered t)) S a c q"
    "\<forall>p \<in> held c. CONTPKT p \<longrightarrow> from_sender a p"
  using assms unfolding transfer_inv_def Let_def by blast+

lemma transfer_invI:
  assumes "ends_match i j a c (sender_host t) (receiver_host t)"
    "sender st b V K (b + length (written t)) {} i a (sender_host t)"
    "receiver st (b + length (delivered t)) S c"
    "written t = map st [b + 1..<b + length (written t) + 1]"
    "delivered t = map st [b + 1..<b + length (delivered t) + 1]"
    "b + length (delivered t) \<le> b + length (written t)"
    "S \<subseteq> {..b + length (written t)}"
    "K \<le> b + length (delivered t)"
    "got (b + length (delivered t)) S V"
    "b + length (written t) \<le> K + unat (cn_twsize a)"
    "\<forall>n \<in> {b<..b + length (written t)}. data_op (fst (st n))"
    "\<forall>p \<in> to_receiver t. numbered (cn_lidx a) p \<longrightarrow> (\<exists>n \<in> {b<..b + length (written t)}. stream_packet st a n p)"
    "\<forall>q \<in> to_sender t \<union> queued (receiver_host t). pk_sidx q = cn_lidx c \<longrightarrow> true_status b (b + length (delivered t)) S a c q"
    "\<forall>p \<in> held c. CONTPKT p \<longrightarrow> from_sender a p"
  shows "transfer_inv b i j st V K S a c t"
  using assms unfolding transfer_inv_def Let_def by blast

lemma got_le: "got R S n \<Longrightarrow> R \<le> T \<Longrightarrow> S \<subseteq> {..T} \<Longrightarrow> n \<le> T"
  unfolding got_def by (cases "R < n") auto

lemma got_mono: "got R S n \<Longrightarrow> S \<subseteq> S' \<Longrightarrow> got R S' n"
  unfolding got_def by blast

lemma got_max: "got R S m \<Longrightarrow> got R S n \<Longrightarrow> got R S (max m n)"
  by (simp add: max_def)

section \<open>Steps of the sending host\<close>

lemma sender_stream_cong:
  assumes "sender st b V K T P i c s" "\<And>n. n \<le> T \<Longrightarrow> st' n = st n"
  shows "sender st' b V K T P i c s"
proof -
  have sp: "stream_packet st' c n p = stream_packet st c n p" if "n \<le> T" for n p
    using assms(2) [OF that] by (simp add: stream_packet_def copy_of_def)
  obtain ns where c: "chconntab s i = Some c" "tindex (cn_lidx c) = i" "i < CHNCONNS" "cn_state c = CSOPEN"
      "cn_tlast c = of_nat T" "cn_trecvd c = of_nat V" "cn_tacked c = of_nat K"
      "b \<le> K" "K \<le> V" "V \<le> T" "T \<le> b + 2 ^ 14" "sorted ns"
    and ns: "list_all2 (stream_packet st c) ns (cn_thead c)" "set ns \<subseteq> {V<..T}"
    and range: "\<And>p. p \<in> P \<union> queued s \<Longrightarrow> numbered (cn_lidx c) p \<Longrightarrow> \<exists>n \<in> {b<..T}. stream_packet st c n p"
    and all: "\<And>n. n \<in> {V<..T} \<Longrightarrow> \<exists>p \<in> set (cn_thead c) \<union> queued s \<union> P. stream_packet st c n p"
    using assms(1) by (rule senderE) blast
  show ?thesis
  proof (rule senderI [OF c _ ns(2)])
    show "list_all2 (stream_packet st' c) ns (cn_thead c)"
      using ns by (elim list.rel_mono_strong) (auto simp: sp)
  next
    fix p assume "p \<in> P \<union> queued s" "numbered (cn_lidx c) p"
    then obtain n where "n \<in> {b<..T}" "stream_packet st c n p"
      using range by blast
    then show "\<exists>n \<in> {b<..T}. stream_packet st' c n p"
      using sp by auto
  next
    fix n assume "n \<in> {V<..T}"
    then show "\<exists>p \<in> set (cn_thead c) \<union> queued s \<union> P. stream_packet st' c n p"
      using all [of n] sp by auto
  qed
qed

text \<open>Which connection sent a status does not matter to it, nor does reading change its truth.\<close>

lemma true_status_ends: "same_ends a a' \<Longrightarrow> true_status b R S a c = true_status b R S a' c"
  by (simp add: fun_eq_iff true_status_def same_ends_def)

lemma ends_match_frame:
  assumes "ends_match i j a c s r" "same_ends a a'" "cn_twsize a' = cn_twsize a" "cn_state a' = CSOPEN"
    "chconntab s' i = Some a'" "routes_ok s'" "is_my_address s' = is_my_address s"
  shows "ends_match i j a' c s' r"
  using assms by (simp add: ends_match_def same_ends_def)

lemma inv_sender:
  assumes t: "transfer_inv b i j st V K S a c t"
    and s': "sender st' b V' K' (b + length w) {} i a' s'" "routes_ok s'" "is_my_address s' = is_my_address (sender_host t)"
    and a': "same_ends a a'" "cn_twsize a' = cn_twsize a"
    and w: "w = map st' [b + 1..<b + length w + 1]" "\<And>n. n \<le> b + length (written t) \<Longrightarrow> st' n = st n"
      "length (written t) \<le> length w" "\<forall>n \<in> {b<..b + length w}. data_op (fst (st' n))"
    and n: "K' \<le> b + length (delivered t)" "got (b + length (delivered t)) S V'" "b + length w \<le> K' + unat (cn_twsize a)"
  shows "transfer_inv b i j st' V' K' S a' c (sender_does s' (t\<lparr>written := w\<rparr>))"
proof -
  let ?R = "b + length (delivered t)" and ?T = "b + length (written t)"
  note inv = transfer_invD [OF t]
  have c: "chconntab s' i = Some a'" "cn_state a' = CSOPEN"
    using s'(1) by (auto simp: sender_def)
  have sp: "stream_packet st' a' n p = stream_packet st a n p" if "n \<in> {b<..?T}" for n p
    using w(2) [of n] that by (simp add: stream_packet_ends [OF a'(1), symmetric] stream_packet_def copy_of_def)
  have lidx: "cn_lidx a' = cn_lidx a"
    using a'(1) by (simp add: same_ends_def)
  let ?t = "sender_does s' (t\<lparr>written := w\<rparr>)"
  show ?thesis
  proof (rule transfer_invI)
    show "ends_match i j a' c (sender_host ?t) (receiver_host ?t)"
      using ends_match_frame [OF inv(1) a' c(2,1) s'(2,3)] by (simp add: sender_does_def)
    show "receiver st' (b + length (delivered ?t)) S c"
      using receiver_stream_cong [OF inv(3) w(2) inv(7,6)] by (simp add: sender_does_def)
    show "delivered ?t = map st' [b + 1..<b + length (delivered ?t) + 1]"
    proof -
      have "map st [b + 1..<?R + 1] = map st' [b + 1..<?R + 1]"
        using w(2) inv(6) by (intro map_cong) auto
      with inv(5) have "delivered t = map st' [b + 1..<?R + 1]"
        by (rule trans)
      moreover have "delivered ?t = delivered t"
        by (simp add: sender_does_def)
      ultimately show ?thesis
        by (simp only:)
    qed
    show "\<forall>p \<in> to_receiver ?t. numbered (cn_lidx a') p \<longrightarrow> (\<exists>n \<in> {b<..b + length (written ?t)}. stream_packet st' a' n p)"
    proof (intro ballI impI)
      fix p assume p: "p \<in> to_receiver ?t" "numbered (cn_lidx a') p"
      show "\<exists>n \<in> {b<..b + length (written ?t)}. stream_packet st' a' n p"
      proof (cases "p \<in> queued s'")
        case True
        then show ?thesis
          using s'(1) p(2) by (simp add: sender_def sender_does_def)
      next
        case False
        then obtain n where "n \<in> {b<..?T}" "stream_packet st a n p"
          using p inv(12) lidx by (auto simp: sender_does_def)
        then show ?thesis
          using sp [of n p] w(3) by (intro bexI [of _ n]) (auto simp: sender_does_def)
      qed
    qed
    show "S \<subseteq> {..b + length (written ?t)}" "b + length (delivered ?t) \<le> b + length (written ?t)"
      using inv(6,7) w(3) by (auto simp: sender_does_def)
    show "\<forall>q \<in> to_sender ?t \<union> queued (receiver_host ?t). pk_sidx q = cn_lidx c \<longrightarrow> true_status b (b + length (delivered ?t)) S a' c q"
      using inv(13) by (simp add: sender_does_def true_status_ends [OF a'(1)])
    show "\<forall>p \<in> held c. CONTPKT p \<longrightarrow> from_sender a' p"
      using inv(14) a'(1) by (simp add: from_sender_def same_ends_def)
  qed (use s'(1) w n a' in \<open>simp_all add: sender_does_def\<close>)
qed

text \<open>The user writes a packet: the stream goes on with it.\<close>

lemma sint_of_small_nat:
  assumes "k < 2 ^ 15"
  shows "sint (of_nat k :: u16) = int k"
  using assms by (simp add: signed_of_nat signed_take_bit_int_eq_self)

lemma not_chtfull_window:
  assumes "sender st b V K T P i a s" "\<not> chtfull a"
  shows "T < K + unat (cn_twsize a)"
proof -
  have n: "cn_tlast a = of_nat T" "cn_tacked a = of_nat K" "cn_state a = CSOPEN" "K \<le> T" "T \<le> K + 2 ^ 14"
    using assms(1) unfolding sender_def by simp_all
  from n(4) obtain k where k: "T = K + k"
    using le_Suc_ex by blast
  have "cn_tlast a - cn_tacked a = of_nat k"
    unfolding n(1,2) k by simp
  moreover have "sint (of_nat k :: u16) = int k"
    using n(5) k by (intro sint_of_small_nat) simp
  ultimately have s: "sint (cn_tlast a - cn_tacked a) = int k"
    by (rule ssubst)
  have "int k < uint (cn_twsize a)"
    using assms(2) unfolding chtfull_def s n(3) by simp
  then have "k < unat (cn_twsize a)"
    unfolding uint_nat by (rule of_nat_less_imp_less)
  then show ?thesis
    by (simp add: k)
qed

lemma step_write:
  assumes t: "transfer_inv b i j st V K S a c t" and p: "data_op (pk_op p)" "\<not> chtfull a"
    and w: "ch_write tome i p (sender_host t) = Inr (ok, s)" and len: "length (written t) < 2 ^ 14"
  shows "\<exists>st V K S a c. transfer_inv b i j st V K S a c (sender_does s (t\<lparr>written := written t @ [payload p]\<rparr>))"
proof -
  let ?T = "b + length (written t)" and ?w = "written t @ [payload p]"
  note inv = transfer_invD [OF t]
  define st' where "st' = st(?T + 1 := payload p)"
  have st': "st' n = st n" if "n \<le> ?T" for n
    using that by (simp add: st'_def)
  have S: "sender st' b V K ?T {} i a (sender_host t)"
    using inv(2) st' by (rule sender_stream_cong)
  have len': "b + length (written t) + 1 \<le> b + 2 ^ 14"
    using len by simp
  have m: "routes_ok (sender_host t)" "\<not> is_my_address (sender_host t) (cn_faddr a)"
    using inv(1) by (auto simp: ends_match_def)
  have "payload p = st' (?T + 1)"
    by (simp add: st'_def)
  from ch_write_sender [OF S p(1) this len' m]
  obtain s' h where s': "ch_write tome i p (sender_host t) = Inr (True, s')" "same_host (sender_host t) s'"
    and S': "sender st' b V K (?T + 1) {} i (a\<lparr>cn_racked := cn_rread a, cn_tlast := cn_tlast a + 1, cn_thead := h\<rparr>) s'" .
  have [simp]: "s' = s"
    using w s'(1) by simp
  have "transfer_inv b i j st' V K S (a\<lparr>cn_racked := cn_rread a, cn_tlast := cn_tlast a + 1, cn_thead := h\<rparr>) c
      (sender_does s (t\<lparr>written := ?w\<rparr>))"
  proof (rule inv_sender [OF t])
    show "?w = map st' [b + 1..<b + length ?w + 1]"
    proof -
      have "[b + 1..<b + length ?w + 1] = [b + 1..<?T + 1] @ [?T + 1]"
        by simp
      moreover have "map st' [b + 1..<?T + 1] = map st [b + 1..<?T + 1]"
        using st' by (intro map_cong) auto
      ultimately show ?thesis
        using inv(4) by (simp only: map_append list.map) (simp add: st'_def)
    qed
    show "\<forall>n \<in> {b<..b + length ?w}. data_op (fst (st' n))"
      using inv(11) p(1) by (auto simp: st'_def payload_def le_Suc_eq)
    show "b + length ?w \<le> K + unat (cn_twsize a)"
      using not_chtfull_window [OF inv(2) p(2)] by simp
  qed (use S' s' m inv same_hostD [OF s'(2)] st' in \<open>simp_all add: same_ends_def\<close>)
  then show ?thesis
    by blast
qed

text \<open>Retransmissions and interrupts.\<close>

lemma inv_sender_same:
  assumes t: "transfer_inv b i j st V K S a c t"
    and s': "sender st b V K (b + length (written t)) {} i a' s'" "same_host (sender_host t) s'"
      "same_ends a a'" "cn_twsize a' = cn_twsize a"
  shows "transfer_inv b i j st V K S a' c (sender_does s' t)"
proof -
  note inv = transfer_invD [OF t]
  have "routes_ok (sender_host t)"
    using inv(1) by (simp add: ends_match_def)
  then have "transfer_inv b i j st V K S a' c (sender_does s' (t\<lparr>written := written t\<rparr>))"
    using s' same_hostD [OF s'(2)] inv(4,8,9,10,11) by (intro inv_sender [OF t]) auto
  then show ?thesis by simp
qed

lemma step_retransmit:
  assumes t: "transfer_inv b i j st V K S a c t" and e: "chretran tome i age (sender_host t) = Inr s"
  shows "\<exists>st V K S a c. transfer_inv b i j st V K S a c (sender_does s t)"
proof -
  note inv = transfer_invD [OF t]
  have m: "routes_ok (sender_host t)" "\<not> is_my_address (sender_host t) (cn_faddr a)"
    using inv(1) by (auto simp: ends_match_def)
  from chretran_sender [OF inv(2) m]
  obtain s' h r where s': "chretran tome i age (sender_host t) = Inr s'" "same_host (sender_host t) s'"
    and S: "sender st b V K (b + length (written t)) {} i (a\<lparr>cn_racked := r, cn_thead := h\<rparr>) s'" .
  have "s' = s"
    using e s'(1) by simp
  with S s'(2) have "transfer_inv b i j st V K S (a\<lparr>cn_racked := r, cn_thead := h\<rparr>) c (sender_does s t)"
    by (intro inv_sender_same [OF t]) (simp_all add: same_ends_def)
  then show ?thesis
    by blast
qed

lemma step_transmit:
  assumes t: "transfer_inv b i j st V K S a c t"
  shows "\<exists>st V K S a c. transfer_inv b i j st V K S a c (sender_does (chchtint aborted x (sender_host t)) t)"
proof -
  from chchtint_sender [OF transfer_invD(2) [OF t]]
  obtain h where S: "sender st b V K (b + length (written t)) {} i (a\<lparr>cn_thead := h\<rparr>) (chchtint aborted x (sender_host t))"
    "same_host (sender_host t) (chchtint aborted x (sender_host t))" .
  then have "transfer_inv b i j st V K S (a\<lparr>cn_thead := h\<rparr>) c (sender_does (chchtint aborted x (sender_host t)) t)"
    by (intro inv_sender_same [OF t]) (simp_all add: same_ends_def)
  then show ?thesis
    by blast
qed

section \<open>Reception\<close>

text \<open>The interface on which a packet arrives is noted; nothing else changes before the packet is looked at.\<close>

lemma route_ok_mono:
  assumes "route_ok tab r" "\<And>k. is_xcvr (rt_u (tab k)) \<Longrightarrow> is_xcvr (rt_u (tab' k))"
  shows "route_ok tab' r"
  using assms unfolding route_ok_def by (cases "rt_type r"; cases "rt_u r") auto

lemma arrival_frame:
  assumes "arrival x s = Inr s'"
  shows "chconntab s' = chconntab s" "queued s' = queued s" "is_my_address s' = is_my_address s"
    "routes_ok s \<Longrightarrow> routes_ok s'" "chclock_now s' = chclock_now s"
proof -
  let ?s = "upd_xcvr x (\<lambda>c. c\<lparr>xc_rcvd := xc_rcvd c + 1\<rparr>) s"
  let ?r = "\<lparr>rt_u = RtXcvr x, rt_type = CHDIRECT, rt_cost = xc_cost (chxcvrs s x)\<rparr>"
  have s': "s' = ?s \<or> (\<exists>n. s' = upd_route n (\<lambda>r. ?r) ?s)"
    using assms by (auto simp: arrival_def Let_def and_then_Inr_iff split: if_splits)
  have q: "queued ?s = queued s"
    by (rule queued_counters) (simp add: in_xcvr_def)
  have "chconntab s' = chconntab s \<and> queued s' = queued s \<and> is_my_address s' = is_my_address s \<and>
      chclock_now s' = chclock_now s"
    using s'
  proof (elim disjE exE)
    fix n assume "s' = upd_route n (\<lambda>r. ?r) ?s"
    then have "queued s' = queued ?s"
      by (simp add: upd_route_def)
    then show ?thesis
      unfolding q using \<open>s' = upd_route n (\<lambda>r. ?r) ?s\<close>
      by (simp add: upd_route_def upd_xcvr_def is_my_address_def fun_eq_iff)
  next
    assume "s' = ?s"
    then show ?thesis
      using q by (simp add: upd_xcvr_def is_my_address_def fun_eq_iff)
  qed
  then show "chconntab s' = chconntab s" "queued s' = queued s" "is_my_address s' = is_my_address s"
      "chclock_now s' = chclock_now s"
    by simp_all
  assume ok: "routes_ok s"
  then have ok1: "routes_ok ?s"
    by (simp add: upd_xcvr_def)
  from s' show "routes_ok s'"
  proof (elim disjE exE)
    fix n assume s': "s' = upd_route n (\<lambda>r. ?r) ?s"
    have direct: "is_xcvr (rt_u (chroutetab s' k))" if "is_xcvr (rt_u (chroutetab ?s k))" for k
      using that by (simp add: s' upd_route_def is_xcvr_def)
    have "route_ok (chroutetab s') (chroutetab s' m)" if m: "m < CHNSUBNET" for m
    proof (cases "m = n")
      case False
      then have "chroutetab s' m = chroutetab ?s m"
        by (simp add: s' upd_route_def)
      moreover have "route_ok (chroutetab ?s) (chroutetab ?s m)"
        using ok1 m by (simp add: routes_ok_def)
      ultimately show ?thesis
        using direct by (simp add: route_ok_mono)
    qed (simp add: s' upd_route_def route_ok_def is_xcvr_def)
    then show ?thesis
      by (simp add: routes_ok_def)
  qed (use ok1 in simp)
qed

text \<open>A packet for an open connection of this host.\<close>

lemma rcvpkt_open:
  assumes r: "rcvpkt tome x p s = Inr s'" and a: "is_my_address s (pk_daddr p)"
    and op: "pk_op p \<notin> {RUTOP, MNTOP, RFCOP, BRDOP}"
    and c: "chconntab s i = Some c" "cn_lidx c = pk_didx p" "tindex (cn_lidx c) = i" "i < CHNCONNS" "cn_state c = CSOPEN"
  obtains s1 where "arrival x s = Inr s1" "rcv_open tome i c p s1 = Inr s'"
proof -
  obtain s1 where s1: "arrival x s = Inr s1"
    using r by (auto simp: rcvpkt_def and_then_Inr_iff)
  have "conn_of_packet p s1 = Some (i, c)"
    using c arrival_frame(1) [OF s1] by (simp add: conn_of_packet_def Let_def)
  then have "rcv_open tome i c p s1 = Inr s'"
    using r a op c(5) arrival_frame(3) [OF s1] by (simp add: rcvpkt_def s1 Let_def)
  with s1 show thesis
    by (rule that)
qed

lemma carriedD:
  assumes "carried p q"
  shows "pk_op q = pk_op p" "pk_pkn q = pk_pkn p" "pk_ackn q = pk_ackn p" "pk_daddr q = pk_daddr p"
    "pk_didx q = pk_didx p" "pk_saddr q = pk_saddr p" "pk_sidx q = pk_sidx p" "payload q = payload p"
    "pk_receipt q = pk_receipt p" "pk_rwsize q = pk_rwsize p" "copy_of st n q = copy_of st n p"
proof -
  obtain fc tm x where q: "q = SET_PH_FC fc (p\<lparr>pk_time := tm, pk_xdest := x\<rparr>)"
    using assms by (auto simp: carried_def)
  show "pk_op q = pk_op p" "pk_pkn q = pk_pkn p" "pk_ackn q = pk_ackn p" "pk_daddr q = pk_daddr p"
    "pk_didx q = pk_didx p" "pk_saddr q = pk_saddr p" "pk_sidx q = pk_sidx p"
    "pk_receipt q = pk_receipt p" "pk_rwsize q = pk_rwsize p"
    by (simp_all add: q SET_PH_FC_def pk_receipt_def pk_rwsize_def data_short_def)
  show "payload q = payload p"
    by (simp add: q) (simp add: payload_def contact_def PH_LEN_def)
  then show "copy_of st n q = copy_of st n p"
    using \<open>pk_pkn q = pk_pkn p\<close> by (simp add: copy_of_def)
qed

section \<open>A status arrives\<close>

lemma sender_untouched:
  assumes "sender st b V K T P i c s"
  shows "sender st b V K T P i (c\<lparr>cn_active := x, cn_twsize := w\<rparr>) (upd_conn i (\<lambda>_. c\<lparr>cn_active := x, cn_twsize := w\<rparr>) s)"
proof -
  have "stream_packet st (c\<lparr>cn_active := x, cn_twsize := w\<rparr>) = stream_packet st c"
    by (rule stream_packet_ends) (simp add: same_ends_def)
  then show ?thesis
    using assms unfolding sender_def by simp
qed

lemma upd_conn_const [simp]: "upd_conn i (\<lambda>_. c) (upd_conn i (\<lambda>_. d) s) = upd_conn i (\<lambda>_. c) s"
  by (simp add: upd_conn_def) (cases "chconntab s i"; simp)

lemma step_status:
  assumes t: "transfer_inv b i j st V K S a c t" and q: "q \<in> to_sender t" "pk_sidx q = cn_lidx c" "carried q q'"
    and r: "rcvpkt tome x q' (sender_host t) = Inr s"
  shows "\<exists>st V K S a c. transfer_inv b i j st V K S a c (sender_does s t)"
proof -
  let ?T = "b + length (written t)" and ?R = "b + length (delivered t)"
  note inv = transfer_invD [OF t] and q' = carriedD [OF q(3)]
  have "true_status b ?R S a c q"
    using inv(13) q(1,2) by blast
  then obtain L M where m: "pk_op q' = STSOP" "pk_receipt q' = of_nat L" "pk_ackn q' = of_nat M"
      "pk_rwsize q' = cn_rwsize c" "pk_didx q' = cn_lidx a" "pk_daddr q' = cn_laddr a" "b \<le> M" "M \<le> L" "M \<le> ?R" "got ?R S L"
    unfolding true_status_def q' by blast
  have L: "L \<le> ?T"
    using got_le [OF m(10) inv(6,7)] .
  have e: "chconntab (sender_host t) i = Some a" "cn_lidx a = pk_didx q'" "tindex (cn_lidx a) = i" "i < CHNCONNS"
      "cn_state a = CSOPEN" "is_my_address (sender_host t) (pk_daddr q')"
    and ok: "routes_ok (sender_host t)" "\<not> is_my_address (sender_host t) (cn_faddr a)" "cn_twsize a = cn_rwsize c"
    using inv(1) m by (simp_all add: ends_match_def)
  have op: "pk_op q' \<notin> {RUTOP, MNTOP, RFCOP, BRDOP}"
    by (simp add: m(1))
  obtain s1 where s1: "arrival x (sender_host t) = Inr s1" "rcv_open tome i a q' s1 = Inr s"
    using rcvpkt_open [OF r e(6) op e(1-5)] .
  note f = arrival_frame [OF s1(1)]
  have S1: "sender st b V K ?T {} i a s1"
    by (rule sender_frame [OF inv(2), of _ _ "{}"]) (simp_all add: f)
  let ?a = "a\<lparr>cn_active := chclock_now s1, cn_twsize := cn_twsize a\<rparr>"
  let ?a1 = "receipt (of_nat M) (of_nat L) ?a"
  let ?s2 = "upd_conn i (\<lambda>_. ?a1) s1"
  have "sender st b (max V L) (max K M) ?T {} i ?a1 (upd_conn i (\<lambda>_. ?a1) (upd_conn i (\<lambda>_. ?a) s1))"
    by (rule receipt_sender [OF sender_untouched [OF S1] m(7,8) L])
  then have S2: "sender st b (max V L) (max K M) ?T {} i ?a1 ?s2"
    unfolding upd_conn_const .
  have ret: "rcv_open tome i a q' s1 = (if cn_thead ?a1 \<noteq> [] then chretran tome i (chshorttime ?s2) ?s2 else Inr ?s2)"
    using m ok(3) by (simp add: rcv_open_def ISDATOP_def Let_def)
  have ok2: "routes_ok ?s2" "\<not> is_my_address ?s2 (cn_faddr ?a1)"
    using ok f by simp_all
  obtain h r where S: "sender st b (max V L) (max K M) ?T {} i (?a1\<lparr>cn_racked := r, cn_thead := h\<rparr>) s" "same_host ?s2 s"
  proof (cases "cn_thead ?a1 = []")
    case True
    then have "s = ?s2"
      using s1(2) ret by simp
    have "?a1\<lparr>cn_racked := cn_racked ?a1, cn_thead := cn_thead ?a1\<rparr> = ?a1"
      by (simp del: receipt_same)
    then have "sender st b (max V L) (max K M) ?T {} i (?a1\<lparr>cn_racked := cn_racked ?a1, cn_thead := cn_thead ?a1\<rparr>) s"
      using S2 unfolding \<open>s = ?s2\<close> by (simp only:)
    then show ?thesis
      using that \<open>s = ?s2\<close> by blast
  next
    case False
    from chretran_sender [OF S2 ok2]
    obtain s' h r where "chretran tome i (chshorttime ?s2) ?s2 = Inr s'" "same_host ?s2 s'"
        "sender st b (max V L) (max K M) ?T {} i (?a1\<lparr>cn_racked := r, cn_thead := h\<rparr>) s'" .
    with False ret s1(2) show ?thesis
      using that [of h r] by simp
  qed
  have "transfer_inv b i j st (max V L) (max K M) S (?a1\<lparr>cn_racked := r, cn_thead := h\<rparr>) c (sender_does s (t\<lparr>written := written t\<rparr>))"
  proof (rule inv_sender [OF t S(1)])
    show "routes_ok s" "is_my_address s = is_my_address (sender_host t)"
      using same_hostD [OF S(2)] ok f by simp_all
    show "got ?R S (max V L)"
      using inv(9) m(10) by (rule got_max)
    show "max K M \<le> ?R" "b + length (written t) \<le> max K M + unat (cn_twsize a)"
      using inv(8,10) m(9) by auto
  qed (use inv(4,11) in \<open>simp_all add: same_ends_def\<close>)
  then have "transfer_inv b i j st (max V L) (max K M) S (?a1\<lparr>cn_racked := r, cn_thead := h\<rparr>) c (sender_does s t)"
    by simp
  then show ?thesis
    by blast
qed

section \<open>Steps of the receiving host\<close>

lemma true_status_mono:
  assumes "true_status b R S a c q" "cn_rwsize c' = cn_rwsize c" "R \<le> R'" "\<And>n. got R S n \<Longrightarrow> got R' S' n"
  shows "true_status b R' S' a c' q"
  using assms unfolding true_status_def by (metis le_trans)

lemma status_true:
  assumes "receiver st R S c'" "status_of c' q" "pk_didx q = cn_lidx a" "pk_daddr q = cn_laddr a"
    "cn_rwsize c' = cn_rwsize c" "b \<le> R"
  shows "true_status b R S a c q"
proof -
  obtain L where "last_in_order R S L" "cn_rlast c' = of_nat L" "cn_rread c' = of_nat R"
    using assms(1) by (auto elim: receiverE)
  then show ?thesis
    unfolding true_status_def using assms
    by (intro exI [of _ L] exI [of _ R]) (simp add: status_of_def last_in_order_def got_def)
qed

lemma inv_receiver:
  assumes t: "transfer_inv b i j st V K S a c t"
    and c': "chconntab r' j = Some c'" "same_ends c c'" "cn_state c' = CSOPEN" "\<not> cn_closing c'" "cn_rwsize c' = cn_rwsize c"
    and r': "routes_ok r'" "is_my_address r' = is_my_address (receiver_host t)"
    and rx: "receiver st (b + length d) S' c'" "d = map st [b + 1..<b + length d + 1]" "length (delivered t) \<le> length d"
      "length d \<le> length (written t)" "S' \<subseteq> {..b + length (written t)}"
      "\<And>n. got (b + length (delivered t)) S n \<Longrightarrow> got (b + length d) S' n"
    and q: "\<And>q. q \<in> queued r' \<Longrightarrow> pk_sidx q = cn_lidx c \<Longrightarrow>
      q \<in> queued (receiver_host t) \<or> true_status b (b + length d) S' a c q"
    and held: "\<forall>p \<in> held c'. CONTPKT p \<longrightarrow> from_sender a p"
  shows "transfer_inv b i j st V K S' a c' (receiver_does r' (t\<lparr>delivered := d\<rparr>))"
proof -
  let ?t = "receiver_does r' (t\<lparr>delivered := d\<rparr>)"
  note inv = transfer_invD [OF t]
  have same: "sender_host ?t = sender_host t" "receiver_host ?t = r'" "to_receiver ?t = to_receiver t"
    "to_sender ?t = to_sender t \<union> queued r'" "written ?t = written t" "delivered ?t = d"
    by (simp_all add: receiver_does_def)
  show ?thesis
  proof (rule transfer_invI, unfold same)
    show "ends_match i j a c' (sender_host t) r'"
      using inv(1) c' r' by (simp add: ends_match_def same_ends_def)
    show "\<forall>q \<in> to_sender t \<union> queued r' \<union> queued r'. pk_sidx q = cn_lidx c' \<longrightarrow> true_status b (b + length d) S' a c' q"
    proof (intro ballI impI)
      fix p assume p: "p \<in> to_sender t \<union> queued r' \<union> queued r'" "pk_sidx p = cn_lidx c'"
      then have sidx: "pk_sidx p = cn_lidx c"
        using c'(2) by (simp add: same_ends_def)
      have "p \<in> to_sender t \<union> queued (receiver_host t) \<or> true_status b (b + length d) S' a c p"
        using p(1) q [of p] sidx by auto
      then show "true_status b (b + length d) S' a c' p"
      proof
        assume "p \<in> to_sender t \<union> queued (receiver_host t)"
        then have "true_status b (b + length (delivered t)) S a c p"
          using inv(13) sidx by blast
        then show ?thesis
          by (rule true_status_mono [OF _ c'(5)]) (use rx(3,6) in auto)
      next
        assume "true_status b (b + length d) S' a c p"
        then show ?thesis
          by (rule true_status_mono [OF _ c'(5)]) auto
      qed
    qed
    show "K \<le> b + length d"
      using inv(8) rx(3) by simp
  qed (use inv rx held in simp_all)
qed

text \<open>A data packet arrives at the receiving host: if it is in the window, the host has it afterwards.\<close>

lemma data_arrival:
  assumes t: "transfer_inv b i j st V K S a c t" and len: "length (written t) \<le> 2 ^ 14"
    and p: "p \<in> to_receiver t" "numbered (cn_lidx a) p" "carried p p'"
    and r: "rcvpkt tome x p' (receiver_host t) = Inr r"
  obtains n c' where "n \<in> {b<..b + length (written t)}" "copy_of st n p'" "same_ends c c'"
    "transfer_inv b i j st V K (S \<union> ({n} \<inter> {b + length (delivered t)<..b + length (delivered t) + unat (cn_rwsize c)})) a c'
       (receiver_does r t)"
proof -
  let ?T = "b + length (written t)" and ?R = "b + length (delivered t)" and ?W = "unat (cn_rwsize c)"
  note inv = transfer_invD [OF t] and p' = carriedD [OF p(3)]
  obtain n where n: "n \<in> {b<..?T}" "stream_packet st a n p"
    using inv(12) p(1,2) by blast
  have ends: "ends_match i j a c (sender_host t) (receiver_host t)"
    by (rule inv)
  have copy: "copy_of st n p'" and to: "pk_daddr p' = cn_faddr a" "pk_didx p' = cn_lidx c" "pk_saddr p' = cn_laddr a" "pk_sidx p' = cn_lidx a"
    using n(2) ends by (auto simp: stream_packet_def addressed_def numbered_def p' ends_match_def)
  have "data_op (fst (st n))"
    using inv(11) n(1) by blast
  then have op: "data_op (pk_op p')"
    unfolding copy_of_payload [OF copy, symmetric] by (simp add: payload_def)
  then have op': "pk_op p' \<notin> {RUTOP, MNTOP, RFCOP, BRDOP}"
    by (auto simp: data_op_def)
  have c: "is_my_address (receiver_host t) (pk_daddr p')" "chconntab (receiver_host t) j = Some c" "cn_lidx c = pk_didx p'"
    "tindex (cn_lidx c) = j" "j < CHNCONNS" "cn_state c = CSOPEN"
    and ok: "routes_ok (receiver_host t)" "\<not> is_my_address (receiver_host t) (pk_saddr p')" "\<not> cn_closing c" "?W < 2 ^ 14"
    using ends to by (simp_all add: ends_match_def)
  obtain s1 where s1: "arrival x (receiver_host t) = Inr s1" "rcv_open tome j c p' s1 = Inr r"
    using rcvpkt_open [OF r c(1) op' c(2-6)] .
  note f = arrival_frame [OF s1(1)]
  let ?c = "c\<lparr>cn_active := chclock_now s1\<rparr>" and ?s = "upd_conn j (\<lambda>_. c\<lparr>cn_active := chclock_now s1\<rparr>) s1"
  have d: "rcv_open tome j c p' s1 = rcvdata tome j p' ?s"
    using op by (auto simp: rcv_open_def Let_def data_op_def ISDATOP_def)
  have e: "chconntab ?s j = Some ?c" "\<not> cn_closing ?c"
    using c(2) ok(3) f by simp_all
  have rx: "receiver st ?R S ?c"
    using inv(3) by (subst receiver_receiving [of _ c]) (simp_all add: receiving_def)
  have near: "?R + unat (cn_rwsize ?c) < n + 2 ^ 15" "n \<le> ?R + unat (cn_rwsize ?c) + 2 ^ 15"
    using n(1) len ok(4) inv(6) by auto
  have ok': "routes_ok ?s" "\<not> is_my_address ?s (pk_saddr p')"
    using ok f by simp_all
  obtain s' c' where s': "rcvdata tome j p' ?s = Inr s'" "same_but_queues (upd_conn j (\<lambda>_. c') ?s) s'"
      "receiver st ?R (S \<union> ({n} \<inter> {?R<..?R + unat (cn_rwsize ?c)})) c'"
      "sending c' = sending ?c \<or> sending c' = sending (receipt (pk_ackn p') (pk_ackn p') ?c)"
      "held c' \<subseteq> insert p' (held ?c)" "queued ?s \<subseteq> queued s'"
      "\<And>q. q \<in> queued s' \<Longrightarrow> q \<in> queued ?s \<or> status_of c' q \<and> pk_didx q = pk_sidx p' \<and> pk_daddr q = pk_saddr p'"
    by (rule rcvdata_step [OF e rx copy op near ok', of tome]) blast
  have r': "s' = r"
    using s'(1) s1(2) d by simp
  let ?S = "S \<union> ({n} \<inter> {?R<..?R + ?W})"
  have c': "same_ends c c'" "cn_state c' = CSOPEN" "\<not> cn_closing c'" "cn_rwsize c' = cn_rwsize c"
  proof -
    have "same_ends c c' \<and> cn_state c' = CSOPEN \<and> \<not> cn_closing c' \<and> cn_rwsize c' = cn_rwsize c"
      using s'(4)
    proof
      assume "sending c' = sending ?c"
      from sendingD [OF this] show ?thesis
        using c(6) ok(3) by (simp add: same_ends_def)
    next
      assume "sending c' = sending (receipt (pk_ackn p') (pk_ackn p') ?c)"
      from sendingD [OF this] show ?thesis
        using c(6) ok(3) by (simp add: same_ends_def)
    qed
    then show "same_ends c c'" "cn_state c' = CSOPEN" "\<not> cn_closing c'" "cn_rwsize c' = cn_rwsize c"
      by simp_all
  qed
  have "transfer_inv b i j st V K ?S a c' (receiver_does r (t\<lparr>delivered := delivered t\<rparr>))"
  proof (rule inv_receiver [OF t _ c'])
    show "chconntab r j = Some c'" "routes_ok r" "is_my_address r = is_my_address (receiver_host t)"
      using same_but_queuesD [OF s'(2)] c(2) f ok(1) by (simp_all add: r')
    show "receiver st ?R ?S c'"
      using s'(3) by simp
    show "\<And>m. got ?R S m \<Longrightarrow> got ?R ?S m"
      by (erule got_mono) blast
    show "?S \<subseteq> {..?T}"
      using inv(7) n(1) by auto
    have "held ?c = held c"
      by (simp add: held_def)
    then show "\<forall>p \<in> held c'. CONTPKT p \<longrightarrow> from_sender a p"
      using s'(5) inv(14) to by (auto simp: from_sender_def)
    fix q
    assume q: "q \<in> queued r" "pk_sidx q = cn_lidx c"
    then consider "q \<in> queued (receiver_host t)" | "status_of c' q" "pk_didx q = cn_lidx a" "pk_daddr q = cn_laddr a"
      using s'(7) [of q] f to by (auto simp: r')
    then show "q \<in> queued (receiver_host t) \<or> true_status b ?R ?S a c q"
    proof cases
      case 2
      then show ?thesis
        using status_true [of st ?R ?S c' q a c b] s'(3) c'(4) by simp
    qed simp
  qed (use inv in auto)
  then have "transfer_inv b i j st V K ?S a c' (receiver_does r t)"
    by simp
  then show thesis
    by (rule that [OF n(1) copy c'(1)])
qed

lemma step_data:
  assumes "transfer_inv b i j st V K S a c t" "length (written t) \<le> 2 ^ 14"
    and "p \<in> to_receiver t" "numbered (cn_lidx a) p" "carried p p'"
    and "rcvpkt tome x p' (receiver_host t) = Inr r"
  shows "\<exists>st V K S a c. transfer_inv b i j st V K S a c (receiver_does r t)"
  by (rule data_arrival [OF assms]) blast

text \<open>The user reads.\<close>

lemma inv_receiver_same:
  assumes t: "transfer_inv b i j st V K S a c t"
    and c': "chconntab r' j = Some c'" "receiving c' = receiving c" "sending c' = sending c"
    and r': "same_host (receiver_host t) r'"
    and q: "\<And>q. q \<in> queued r' \<Longrightarrow> pk_sidx q = cn_lidx c \<Longrightarrow>
      q \<in> queued (receiver_host t) \<or> status_of c q \<and> pk_didx q = cn_lidx a \<and> pk_daddr q = cn_laddr a"
  shows "transfer_inv b i j st V K S a c' (receiver_does r' t)"
proof -
  note inv = transfer_invD [OF t] and sd = sendingD [OF c'(3)] and sh = same_hostD [OF r']
  have o: "cn_state c = CSOPEN" "\<not> cn_closing c" "routes_ok (receiver_host t)"
    using inv(1) by (simp_all add: ends_match_def)
  have rx: "receiver st (b + length (delivered t)) S c'"
    using inv(3) receiver_receiving [OF c'(2)] by simp
  have "transfer_inv b i j st V K S a c' (receiver_does r' (t\<lparr>delivered := delivered t\<rparr>))"
  proof (rule inv_receiver [OF t c'(1)])
    fix q assume "q \<in> queued r'" "pk_sidx q = cn_lidx c"
    then show "q \<in> queued (receiver_host t) \<or> true_status b (b + length (delivered t)) S a c q"
      using q [of q] status_true [OF inv(3), of q a c b] by auto
  next
    show "\<forall>p \<in> held c'. CONTPKT p \<longrightarrow> from_sender a p"
      using inv(14) c'(2) by (simp add: held_def receiving_def)
  qed (use o sd sh rx inv in \<open>simp_all add: same_ends_def\<close>)
  then show ?thesis by simp
qed

lemma step_read:
  assumes t: "transfer_inv b i j st V K S a c t" and p: "cn_rhead c = p # ps" and r: "ch_read tome j (receiver_host t) = Inr r"
  shows "\<exists>st V K S a c. transfer_inv b i j st V K S a c
    (receiver_does r (t\<lparr>delivered := delivered t @ (if CONTPKT p then [payload p] else [])\<rparr>))"
proof -
  let ?R = "b + length (delivered t)" and ?T = "b + length (written t)"
  note inv = transfer_invD [OF t]
  have c: "chconntab (receiver_host t) j = Some c" "cn_state c = CSOPEN" "\<not> cn_closing c"
    and ok: "routes_ok (receiver_host t)" "\<not> is_my_address (receiver_host t) (cn_laddr a)"
    using inv(1) by (simp_all add: ends_match_def)
  show ?thesis
  proof (cases "CONTPKT p")
    case False
    let ?c = "c\<lparr>cn_rhead := ps\<rparr>"
    have r': "r = upd_conn j (\<lambda>_. ?c) (receiver_host t)"
      using r False p by (simp add: ch_read_def c Let_def)
    have "transfer_inv b i j st V K S a ?c (receiver_does r (t\<lparr>delivered := delivered t\<rparr>))"
    proof (rule inv_receiver [OF t])
      show "receiver st ?R S ?c"
        using inv(3) p False by (rule read_other_receiver)
      show "\<forall>q \<in> held ?c. CONTPKT q \<longrightarrow> from_sender a q"
        using inv(14) p by (auto simp: held_def)
    qed (use c ok inv in \<open>simp_all add: r' same_ends_def\<close>)
    then show ?thesis
      unfolding if_not_P [OF False] append_Nil2 by blast
  next
    case True
    let ?c = "c\<lparr>cn_rhead := ps, cn_rread := pk_pkn p\<rparr>" and ?d = "delivered t @ [payload p]"
    let ?s = "upd_conn j (\<lambda>_. c\<lparr>cn_rhead := ps, cn_rread := pk_pkn p\<rparr>) (receiver_host t)"
    have rd: "copy_of st (?R + 1) p" "?R + 1 \<in> S" "receiver st (?R + 1) (S - {?R + 1}) ?c"
      using read_receiver [OF inv(3) p True] by auto
    have e: "r = ?s \<or> reflect_sts tome j p ?s = Inr r"
      using r True p by (auto simp: ch_read_def c Let_def split: if_splits)
    have origin: "from_sender a p"
      using inv(14) p True by (simp add: held_def)
    obtain c' where c': "same_but_queues (upd_conn j (\<lambda>_. c') (receiver_host t)) r" "c' = ?c \<or> c' = ?c\<lparr>cn_racked := cn_rread ?c\<rparr>"
      "\<And>q. q \<in> queued r \<Longrightarrow> q \<in> queued (receiver_host t) \<or> status_of c' q \<and> pk_didx q = cn_lidx a \<and> pk_daddr q = cn_laddr a"
    proof (cases "r = ?s")
      case True
      show ?thesis
        by (rule that [of ?c]) (simp_all add: True)
    next
      case False
      have s: "chconntab ?s j = Some ?c" "routes_ok ?s" "\<not> is_my_address ?s (pk_saddr p)"
        using c ok origin by (simp_all add: from_sender_def)
      obtain s' where s': "reflect_sts tome j p ?s = Inr s'"
        "same_but_queues (upd_conn j (\<lambda>_. ?c\<lparr>cn_racked := cn_rread ?c\<rparr>) ?s) s'"
        "\<And>q. q \<in> queued s' \<Longrightarrow> q \<in> queued ?s \<or> status_of ?c q \<and> pk_didx q = pk_sidx p \<and> pk_daddr q = pk_saddr p"
        by (rule reflect_sts_other [OF s, of tome]) blast
      have "s' = r"
        using e False s'(1) by simp
      moreover have "status_of (?c\<lparr>cn_racked := cn_rread ?c\<rparr>) q = status_of ?c q" for q
        by (simp add: status_of_def)
      moreover have "same_but_queues (upd_conn j (\<lambda>_. ?c\<lparr>cn_racked := cn_rread ?c\<rparr>) (receiver_host t)) s'"
        using s'(2) unfolding upd_conn_const .
      moreover have "queued ?s = queued (receiver_host t)"
        by simp
      ultimately show ?thesis
        using s'(3) origin by (intro that [of "?c\<lparr>cn_racked := cn_rread ?c\<rparr>"]) (simp_all only: from_sender_def simp_thms)
    qed
    note sq = same_but_queuesD [OF c'(1)]
    have cc: "receiver st (?R + 1) (S - {?R + 1}) c'" "same_ends c c'" "cn_state c' = CSOPEN" "\<not> cn_closing c'"
        "cn_rwsize c' = cn_rwsize c" "held c' \<subseteq> held c"
      using c'(2) rd(3) c p by (auto simp: same_ends_def held_def)
    have T: "?R + 1 \<le> ?T"
      using rd(2) inv(7) by auto
    have "transfer_inv b i j st V K (S - {?R + 1}) a c' (receiver_does r (t\<lparr>delivered := ?d\<rparr>))"
    proof (rule inv_receiver [OF t _ cc(2-5)])
      show "?d = map st [b + 1..<b + length ?d + 1]"
      proof -
        have "[b + 1..<b + length ?d + 1] = [b + 1..<?R + 1] @ [?R + 1]"
          by simp
        then show ?thesis
          using inv(5) copy_of_payload [OF rd(1)] by (simp only: map_append list.map)
      qed
      show "got ?R S n \<Longrightarrow> got (b + length ?d) (S - {?R + 1}) n" for n
        by (auto simp: got_def)
      show "S - {?R + 1} \<subseteq> {..?T}"
        using inv(7) by blast
      show "\<forall>q \<in> held c'. CONTPKT q \<longrightarrow> from_sender a q"
        using inv(14) cc(6) by blast
      fix q assume "q \<in> queued r" "pk_sidx q = cn_lidx c"
      then show "q \<in> queued (receiver_host t) \<or> true_status b (b + length ?d) (S - {?R + 1}) a c q"
        using c'(3) [of q] status_true [OF cc(1), of q a c b] cc(5) by auto
    qed (use c ok cc T sq in simp_all)
    then show ?thesis
      unfolding if_P [OF True] by blast
  qed
qed

lemma step_send_status:
  assumes t: "transfer_inv b i j st V K S a c t" and r: "ch_sts tome j (receiver_host t) = Inr r"
  shows "\<exists>st V K S a c. transfer_inv b i j st V K S a c (receiver_does r t)"
proof -
  note inv = transfer_invD [OF t]
  have c: "chconntab (receiver_host t) j = Some c" "cn_faddr c = cn_laddr a" "cn_fidx c = cn_lidx a"
    and ok: "routes_ok (receiver_host t)" "\<not> is_my_address (receiver_host t) (cn_faddr c)"
    using inv(1) by (simp_all add: ends_match_def)
  obtain s' where s': "sendsts tome j (receiver_host t) = Inr s'"
    "same_but_queues (upd_conn j (\<lambda>_. c\<lparr>cn_racked := cn_rread c\<rparr>) (receiver_host t)) s'"
    "\<And>q. q \<in> queued s' \<Longrightarrow> q \<in> queued (receiver_host t) \<or> status_of c q \<and> pk_didx q = cn_fidx c \<and> pk_daddr q = cn_faddr c"
    by (rule sendsts_other [OF c(1) ok, of tome]) blast
  have r': "s' = r"
    using r s'(1) by (simp add: ch_sts_def)
  have "transfer_inv b i j st V K S a (c\<lparr>cn_racked := cn_rread c\<rparr>) (receiver_does r t)"
  proof (rule inv_receiver_same [OF t])
    show "chconntab r j = Some (c\<lparr>cn_racked := cn_rread c\<rparr>)"
      using same_but_queuesD(1) [OF s'(2)] c(1) by (simp add: r')
    show "same_host (receiver_host t) r"
      using s'(2) unfolding r' by (blast intro: same_host_trans)
    show "\<And>q. q \<in> queued r \<Longrightarrow> pk_sidx q = cn_lidx c \<Longrightarrow>
      q \<in> queued (receiver_host t) \<or> status_of c q \<and> pk_didx q = cn_lidx a \<and> pk_daddr q = cn_laddr a"
      using s'(3) c unfolding r' by simp
  qed (simp_all add: receiving_def sending_def)
  then show ?thesis
    by blast
qed

lemma step_transmit_status:
  assumes t: "transfer_inv b i j st V K S a c t"
  shows "\<exists>st V K S a c. transfer_inv b i j st V K S a c (receiver_does (chchtint aborted x (receiver_host t)) t)"
proof -
  note inv = transfer_invD [OF t]
  have c: "chconntab (receiver_host t) j = Some c"
    using inv(1) by (simp add: ends_match_def)
  have "\<not> numbered (cn_lidx c) p" if "p \<in> queued (receiver_host t)" for p
  proof
    assume "numbered (cn_lidx c) p"
    then have "pk_sidx p = cn_lidx c" "CONTPKT p"
      by (simp_all add: numbered_def)
    then show False
      using inv(13) that by (fastforce simp: true_status_def CONTPKT_def ISDATOP_def)
  qed
  from chchtint_other [OF c this, of aborted x]
  have "transfer_inv b i j st V K S a c (receiver_does (chchtint aborted x (receiver_host t)) t)"
    by (intro inv_receiver_same [OF t]) auto
  then show ?thesis
    by blast
qed

section \<open>Every reachable state\<close>

inductive transfer_reaches :: "tome \<Rightarrow> nat \<Rightarrow> nat \<Rightarrow> transfer \<Rightarrow> transfer \<Rightarrow> bool" for tome i j t0 where
  start: "transfer_reaches tome i j t0 t0"
| further: "\<lbrakk>transfer_reaches tome i j t0 t; transfer_step tome i j t t'\<rbrakk> \<Longrightarrow> transfer_reaches tome i j t0 t'"

lemma connected_inv:
  assumes "connected b i j t"
  shows "\<exists>st V K S a c. transfer_inv b i j st V K S a c t"
proof -
  obtain a c where m: "ends_match i j a c (sender_host t) (receiver_host t)"
    and a: "cn_tlast a = of_nat b" "cn_trecvd a = of_nat b" "cn_tacked a = of_nat b" "cn_thead a = []"
    and c: "cn_rread c = of_nat b" "cn_rlast c = of_nat b" "cn_routorder c = []" "filter CONTPKT (cn_rhead c) = []"
    and q: "\<forall>p \<in> to_receiver t \<union> queued (sender_host t). \<not> numbered (cn_lidx a) p"
      "\<forall>q \<in> to_sender t \<union> queued (receiver_host t). pk_sidx q \<noteq> cn_lidx c"
    and w: "written t = []" "delivered t = []"
    using assms unfolding connected_def by blast
  fix st :: "nat \<Rightarrow> payload"
  have "sender st b b b b {} i a (sender_host t)"
    using m a q by (intro senderI [where ns = "[]"]) (auto simp: ends_match_def)
  moreover have "receiver st b {} c"
  proof (rule receiverI [where L = b and ns = "[]"])
    show "unat (cn_rwsize c) < 2 ^ 15"
      using m by (simp add: ends_match_def)
  qed (use c in \<open>simp_all add: last_in_order_def\<close>)
  moreover have "\<forall>p \<in> held c. CONTPKT p \<longrightarrow> from_sender a p"
    using c by (auto simp: held_def filter_empty_conv)
  ultimately have "transfer_inv b i j st b b {} a c t"
    using m q w by (intro transfer_invI) (auto simp: got_def)
  then show ?thesis
    by blast
qed

lemma step_inv:
  assumes "transfer_step tome i j t t'" "transfer_inv b i j st V K S a c t" "length (written t') \<le> 2 ^ 14"
  shows "\<exists>st V K S a c. transfer_inv b i j st V K S a c t'"
  using assms
proof (cases rule: transfer_step.cases)
  case (write_data d p ok s)
  have "d = a"
    using transfer_invD(1) [OF assms(2)] write_data(2) by (simp add: ends_match_def)
  then show ?thesis
    using assms(3) write_data step_write [OF assms(2)] by (simp add: sender_does_def)
next
  case (retransmit age s)
  then show ?thesis
    using step_retransmit [OF assms(2)] by blast
next
  case (transmit aborted x)
  then show ?thesis
    using step_transmit [OF assms(2)] by blast
next
  case (status_arrives q d q' x s)
  have "d = c"
    using transfer_invD(1) [OF assms(2)] status_arrives(3) by (simp add: ends_match_def)
  then show ?thesis
    using status_arrives step_status [OF assms(2)] by blast
next
  case (data_arrives p d p' x r)
  have "d = a"
    using transfer_invD(1) [OF assms(2)] data_arrives(3) by (simp add: ends_match_def)
  then show ?thesis
    using assms(3) data_arrives step_data [OF assms(2)] by (simp add: receiver_does_def)
next
  case (read_data d p ps r)
  have "d = c"
    using transfer_invD(1) [OF assms(2)] read_data(2) by (simp add: ends_match_def)
  then show ?thesis
    using read_data step_read [OF assms(2)] by blast
next
  case (send_status r)
  then show ?thesis
    using step_send_status [OF assms(2)] by blast
next
  case (transmit_status aborted x)
  then show ?thesis
    using step_transmit_status [OF assms(2)] by blast
qed

lemma written_grows: "transfer_step tome i j t t' \<Longrightarrow> length (written t) \<le> length (written t')"
  by (cases rule: transfer_step.cases) (auto simp: sender_does_def receiver_does_def)

lemma reachable_inv:
  assumes "transfer_reaches tome i j t0 t" "connected b i j t0" "length (written t) \<le> 2 ^ 14"
  shows "\<exists>st V K S a c. transfer_inv b i j st V K S a c t"
  using assms
proof (induction rule: transfer_reaches.induct)
  case start
  then show ?case
    by (intro connected_inv)
next
  case (further t t')
  then obtain st V K S a c where "transfer_inv b i j st V K S a c t"
    using written_grows [OF further.hyps(2)] by auto
  with further show ?case
    by (intro step_inv)
qed

end
