(* ===== verification/Ch_Types.thy ===== *)
theory Ch_Types
  imports Ch_Routes Chuser
begin

text \<open>
  A route is a tagged union: its type tells whether the memory \<open>rt_u\<close> holds an interface or the address of a
  bridge.  Which operations keep that so is a question about the routing table only, so it is asked for any property
  \<open>Q\<close> of the table that direct routes and honest routing packets keep (locale \<open>route_property\<close>).
\<close>

unbundle bit_operations_syntax

section \<open>Packets of the retransmission lists\<close>

text \<open>Only packets with numbers are kept for retransmission, so no routing packet is sent to the own host.\<close>

definition not_rut :: "packet \<Rightarrow> bool" where
  "not_rut p \<longleftrightarrow> pk_op p \<noteq> RUTOP"

definition conn_ok :: "connection \<Rightarrow> bool" where
  "conn_ok c \<longleftrightarrow> (\<forall>p \<in> set (cn_thead c). not_rut p)"

lemma not_rut_updates [simp]:
  "not_rut (p\<lparr>pk_time := t\<rparr>) = not_rut p" "not_rut (p\<lparr>pk_ackn := a\<rparr>) = not_rut p" "not_rut (p\<lparr>pk_pkn := n\<rparr>) = not_rut p"
  "not_rut (p\<lparr>pk_xdest := x\<rparr>) = not_rut p" "not_rut (p\<lparr>pk_sidx := i\<rparr>) = not_rut p" "not_rut (p\<lparr>pk_didx := j\<rparr>) = not_rut p"
  "not_rut (p\<lparr>pk_saddr := a\<rparr>) = not_rut p" "not_rut (p\<lparr>pk_daddr := a\<rparr>) = not_rut p" "not_rut (SET_PH_FC fc p) = not_rut p"
  "not_rut (set_len_expr f p) = not_rut p" "not_rut (SET_PH_LEN len p) = not_rut p" "not_rut (put_short k v p) = not_rut p"
  "not_rut (put_long k w p) = not_rut p" "not_rut (chmove bs k p) = not_rut p" "not_rut (movepkt p) = not_rut p"
  "not_rut (setpkt c p) = not_rut p"
  by (simp_all add: not_rut_def SET_PH_FC_def set_len_expr_def SET_PH_LEN_def put_short_def put_long_def chmove_def
      movepkt_def setpkt_def Let_def)

lemma conn_ok_updates [simp]:
  "conn_ok (c\<lparr>cn_closing := b\<rparr>) = conn_ok c" "conn_ok (c\<lparr>cn_flags := u\<rparr>) = conn_ok c" "conn_ok (c\<lparr>cn_state := st\<rparr>) = conn_ok c"
  "conn_ok (c\<lparr>cn_active := t\<rparr>) = conn_ok c" "conn_ok (c\<lparr>cn_faddr := t\<rparr>) = conn_ok c" "conn_ok (c\<lparr>cn_fidx := t\<rparr>) = conn_ok c"
  "conn_ok (c\<lparr>cn_laddr := t\<rparr>) = conn_ok c" "conn_ok (c\<lparr>cn_twsize := t\<rparr>) = conn_ok c" "conn_ok (c\<lparr>cn_tlast := t\<rparr>) = conn_ok c"
  "conn_ok (c\<lparr>cn_trecvd := t\<rparr>) = conn_ok c" "conn_ok (c\<lparr>cn_tacked := t\<rparr>) = conn_ok c" "conn_ok (c\<lparr>cn_toutput := out\<rparr>) = conn_ok c"
  "conn_ok (c\<lparr>cn_rwsize := t\<rparr>) = conn_ok c" "conn_ok (c\<lparr>cn_rlast := t\<rparr>) = conn_ok c" "conn_ok (c\<lparr>cn_racked := t\<rparr>) = conn_ok c"
  "conn_ok (c\<lparr>cn_rread := t\<rparr>) = conn_ok c" "conn_ok (c\<lparr>cn_rsts := t\<rparr>) = conn_ok c" "conn_ok (c\<lparr>cn_rhead := ps\<rparr>) = conn_ok c"
  "conn_ok (c\<lparr>cn_routorder := ps\<rparr>) = conn_ok c" "conn_ok (new_connection k uniq)" "conn_ok (c\<lparr>cn_thead := []\<rparr>)"
  by (simp_all add: conn_ok_def new_connection_def)

lemma conn_ok_thead [simp]: "conn_ok (c\<lparr>cn_thead := ps\<rparr>) \<longleftrightarrow> (\<forall>p \<in> set ps. not_rut p)"
  by (simp add: conn_ok_def)

lemma conn_ok_closed [simp]: "conn_ok (closed st pkt c)"
  by (simp add: conn_ok_def closed_def)

lemma conn_ok_chinput [simp]: "conn_ok c \<Longrightarrow> conn_ok (chinput c)"
  by (simp add: chinput_def)

lemma conn_ok_newstate [simp]: "conn_ok c \<Longrightarrow> conn_ok (newstate c)"
  by (simp add: newstate_def)

lemma conn_ok_clsconn [simp]: "conn_ok (clsconn st pkt c)"
  by (simp add: clsconn_def)

lemma conn_ok_receipt [simp]: "conn_ok c \<Longrightarrow> conn_ok (receipt a r c)"
  by (auto simp: conn_ok_def receipt_def Let_def dest: set_dropWhileD)

lemma conn_ok_lsnmatch [simp]: "conn_ok (lsnmatch s p c) = conn_ok c"
  by (simp add: lsnmatch_def)

lemma kept_not_rut: "kept_on p s = Some i \<Longrightarrow> not_rut p"
  by (auto simp: kept_on_def Let_def CONTPKT_def ISDATOP_def not_rut_def split: if_splits option.splits)

section \<open>Properties of the routing table\<close>

text \<open>
  A routing packet is honest when it does not offer a way to the subnet of an interface that is cheaper than the
  interface.
\<close>

definition honest :: "packet \<Rightarrow> (nat \<Rightarrow> chroute) \<Rightarrow> bool" where
  "honest p tab \<longleftrightarrow>
     (\<forall>k < PH_LEN p div 4. let n = unat (data_short p (2 * k)) in
        n < CHNSUBNET \<longrightarrow> is_xcvr (rt_u (tab n)) \<longrightarrow> rt_cost (tab n) \<le> data_short p (2 * k + 1))"

definition direct :: "xcvr_id \<Rightarrow> u16 \<Rightarrow> chroute" where
  "direct x cost = \<lparr>rt_u = RtXcvr x, rt_type = CHDIRECT, rt_cost = cost\<rparr>"

definition aged :: "(nat \<Rightarrow> chroute) \<Rightarrow> nat \<Rightarrow> chroute" where
  "aged tab = (\<lambda>n. if n < CHNSUBNET \<and> (rt_type (tab n) = CHBRIDGE \<or> rt_type (tab n) = CHDIRECT) \<and> rt_cost (tab n) < CHHCOST
                   then (tab n)\<lparr>rt_cost := rt_cost (tab n) + 1\<rparr> else tab n)"

lemma better_route_interface:
  "is_xcvr (rt_u r) \<longrightarrow> rt_cost r \<le> cost \<Longrightarrow> is_xcvr (rt_u (better_route b cost r)) \<longleftrightarrow> is_xcvr (rt_u r)"
  "is_xcvr (rt_u r) \<Longrightarrow> rt_cost r \<le> cost \<Longrightarrow> better_route b cost r = r"
  by (auto simp: better_route_def is_xcvr_def not_less)

lemma better_route_in:
  assumes "is_xcvr (rt_u (tab n)) \<longrightarrow> rt_cost (tab n) \<le> cost"
  shows "is_xcvr (rt_u (tab m)) \<Longrightarrow> (tab(n := better_route b cost (tab n))) m = tab m"
    "is_xcvr (rt_u ((tab(n := better_route b cost (tab n))) m)) = is_xcvr (rt_u (tab m))"
  using better_route_interface(1) [OF assms] better_route_interface(2) [of "tab n" cost b] assms by auto

locale route_property =
  fixes Q :: "(nat \<Rightarrow> chroute) \<Rightarrow> bool"
  assumes Q_direct: "Q tab \<Longrightarrow> n < CHNSUBNET \<Longrightarrow> Q (tab(n := direct x cost))"
    and Q_bridge: "Q tab \<Longrightarrow> n < CHNSUBNET \<Longrightarrow> subnet b < CHNSUBNET \<Longrightarrow> rt_type (tab (subnet b)) = CHDIRECT \<Longrightarrow>
      is_xcvr (rt_u (tab n)) \<longrightarrow> rt_cost (tab n) \<le> cost \<Longrightarrow> Q (tab(n := better_route b cost (tab n)))"
    and Q_interface: "Q tab \<Longrightarrow> n < CHNSUBNET \<Longrightarrow> rt_type (tab n) = CHDIRECT \<Longrightarrow> is_xcvr (rt_u (tab n))"
    and Q_aged: "Q tab \<Longrightarrow> Q (aged tab)"
begin

definition inv :: "ncp \<Rightarrow> bool" where
  "inv s \<longleftrightarrow> Q (chroutetab s) \<and> (\<forall>i c. chconntab s i = Some c \<longrightarrow> conn_ok c)"

definition tome_ok :: "tome \<Rightarrow> bool" where
  "tome_ok tome \<longleftrightarrow> (\<forall>ps s. inv s \<longrightarrow> (\<forall>p \<in> set ps. not_rut p) \<longrightarrow> all_ok inv (tome ps s))"

lemma tome_okD: "tome_ok tome \<Longrightarrow> inv s \<Longrightarrow> \<forall>p \<in> set ps. not_rut p \<Longrightarrow> all_ok inv (tome ps s)"
  by (simp add: tome_ok_def)

lemma inv_conn: "inv s \<Longrightarrow> chconntab s i = Some c \<Longrightarrow> conn_ok c"
  by (simp add: inv_def)

lemma inv_upd_conn: "inv s \<Longrightarrow> (\<And>c. chconntab s i = Some c \<Longrightarrow> conn_ok c \<Longrightarrow> conn_ok (f c)) \<Longrightarrow> inv (upd_conn i f s)"
  by (auto simp: inv_def upd_conn_def)

lemma inv_upd_xcvr [simp]: "inv (upd_xcvr x f s) = inv s"
  by (simp add: inv_def upd_xcvr_def)

lemma inv_frame [simp]:
  "inv (s\<lparr>chlsnlist := ls\<rparr>) = inv s" "inv (s\<lparr>chrfclist := rs\<rparr>) = inv s" "inv (s\<lparr>chclock_now := t\<rparr>) = inv s"
  "inv (s\<lparr>nextclk := t\<rparr>) = inv s" "inv (s\<lparr>nextprobe := t\<rparr>) = inv s" "inv (s\<lparr>nexthang := t\<rparr>) = inv s"
  "inv (s\<lparr>nextroute := t\<rparr>) = inv s" "inv (s\<lparr>nextbridge := t\<rparr>) = inv s" "inv (s\<lparr>chuniq := u\<rparr>) = inv s"
  by (simp_all add: inv_def)

lemma inv_same_but_queues: "same_but_queues s s' \<Longrightarrow> inv s' = inv s"
  unfolding same_but_queues_def by (erule ssubst) (simp add: inv_def)

lemma inv_xmitnext [simp]: "inv (snd (xmitnext x s)) = inv s"
  by (rule inv_same_but_queues) simp

lemma inv_chxmitpkt [simp]: "inv (chxmitpkt x p h s) = inv s"
  by (rule inv_same_but_queues) auto

lemma inv_xmitdone: "inv s \<Longrightarrow> inv (xmitdone p s)"
  unfolding xmitdone_def by (auto dest: kept_not_rut intro!: inv_upd_conn split: option.split simp: conn_ok_def)

lemma inv_rlsconn: "inv s \<Longrightarrow> inv (rlsconn i s)"
  by (auto simp: rlsconn_def inv_def split: option.split)

lemma inv_allconn: "inv s \<Longrightarrow> inv (snd (allconn s))"
  by (auto simp: allconn_def inv_def Let_def split: option.split)

lemma inv_fold_xmitdone: "inv s \<Longrightarrow> inv (fold xmitdone ps s)"
  by (induction ps arbitrary: s) (simp_all add: inv_xmitdone)

lemma inv_fold_chxmitpkt: "inv s \<Longrightarrow> inv (fold (\<lambda>p s. chxmitpkt x (f p s) h s) ps s)"
  by (induction ps arbitrary: s) simp_all

text \<open>Sending.\<close>

lemma sendctl_inv:
  assumes "tome_ok tome" "inv s" "not_rut p"
  shows "all_ok inv (sendctl tome p s)"
proof -
  have "all_ok inv (tome [p] s)"
    using assms by (intro tome_okD) auto
  then show ?thesis
    using assms(2) unfolding sendctl_def by (auto intro!: all_ok_and_thenI)
qed

lemma senddata_inv:
  assumes "tome_ok tome" "inv s" "\<forall>p \<in> set ps. not_rut p"
  shows "all_ok inv (senddata tome ps s)"
proof -
  have "all_ok inv (tome ps s)"
    using assms by (intro tome_okD) auto
  then show ?thesis
    using assms(2) unfolding senddata_def Let_def
    by (auto intro!: all_ok_and_thenI inv_fold_xmitdone inv_fold_chxmitpkt)
qed

lemma reflect_inv:
  assumes "tome_ok tome" "inv s" "not_rut p"
  shows "all_ok inv (reflect tome p s)"
  unfolding reflect_def using assms by (intro sendctl_inv) auto

lemma not_rut_makests: "not_rut (snd (makests c p))"
  by (simp add: makests_def setack_def not_rut_def put_short_def SET_PH_LEN_def set_len_expr_def Let_def)

lemma conn_ok_makests: "conn_ok (fst (makests c p)) = conn_ok c"
  by (simp add: makests_def setack_def)

lemma reflect_sts_inv:
  assumes "tome_ok tome" "inv s"
  shows "all_ok inv (reflect_sts tome i p s)"
  using assms not_rut_makests [of _ p] conn_ok_makests [of _ p]
  by (auto simp: reflect_sts_def case_prod_beta intro!: reflect_inv inv_upd_conn dest: inv_conn split: option.split)

lemma sendsts_inv:
  assumes "tome_ok tome" "inv s"
  shows "all_ok inv (sendsts tome i s)"
  using assms not_rut_makests conn_ok_makests
  by (auto simp: sendsts_def case_prod_beta intro!: sendctl_inv inv_upd_conn dest: inv_conn split: option.split)

lemma not_rut_los [simp]: "not_rut (los_packet str name p)"
  by (simp add: los_packet_def Let_def not_rut_def)

lemma sendlos_inv:
  assumes "tome_ok tome" "inv s"
  shows "all_ok inv (sendlos tome p str s)"
  using assms unfolding sendlos_def by (auto intro!: reflect_inv)

text \<open>Receiving.\<close>

lemma chretran_inv:
  assumes "tome_ok tome" "inv s"
  shows "all_ok inv (chretran tome i age s)"
proof (cases "chconntab s i")
  case (Some c)
  have "\<forall>p \<in> set (cn_thead c). not_rut p"
    using inv_conn [OF assms(2) Some] by (simp add: conn_ok_def)
  then show ?thesis
    using assms Some unfolding chretran_def Let_def
    by (auto intro!: senddata_inv inv_upd_conn)
qed (simp add: chretran_def assms)

lemma rcvdata_inv:
  assumes "tome_ok tome" "inv s"
  shows "all_ok inv (rcvdata tome i p s)"
proof (cases "chconntab s i")
  case (Some c)
  then have "conn_ok c"
    using inv_conn assms(2) by blast
  then show ?thesis
    using assms Some unfolding rcvdata_def Let_def
    by (auto intro!: reflect_sts_inv inv_upd_conn)
qed (simp add: rcvdata_def assms)

lemma not_rut_answer [simp]: "not_rut (answer p len)"
  by (simp add: answer_def) (simp add: not_rut_def pkalloc_def)

lemma not_rut_entries [simp]:
  "not_rut (status_entries s off xs p) = not_rut p" "not_rut (routing_entries s nd ns p) = not_rut p"
proof -
  have "not_rut (status_entry s off x p) = not_rut p" for off x p
    by (simp add: status_entry_def Let_def)
  then show "not_rut (status_entries s off xs p) = not_rut p"
    by (induction xs arbitrary: off p) auto
  show "not_rut (routing_entries s nd ns p) = not_rut p"
    by (induction ns arbitrary: nd p) (auto simp: Let_def)
qed

lemma statusrfc_inv:
  assumes "tome_ok tome" "inv s"
  shows "all_ok inv (statusrfc tome p s)"
  using assms unfolding statusrfc_def
  by (cases "direct_routes s [0..<CHNSUBNET]") (auto simp: all_ok_def [of inv "Inl _"] intro!: sendctl_inv)

lemma unmatched_rfc_inv:
  assumes "tome_ok tome" "inv s"
  shows "all_ok inv (unmatched_rfc tome p s)"
proof -
  have "not_rut (time_answer t p)" for t
    by (simp add: time_answer_def) (simp add: not_rut_def)
  then show ?thesis
    using assms unfolding unmatched_rfc_def timerfc_def uptimerfc_def dumprtrfc_def Let_def
    by (auto intro!: statusrfc_inv sendctl_inv reflect_inv sendlos_inv)
qed

lemma rcvrfc_inv:
  assumes "tome_ok tome" "inv s"
  shows "all_ok inv (rcvrfc tome p s)"
  using assms unfolding rcvrfc_def
  by (auto intro!: chretran_inv unmatched_rfc_inv inv_upd_conn split: option.split)

lemma rcvbrd_inv:
  assumes "tome_ok tome" "inv s"
  shows "all_ok inv (rcvbrd tome p s)"
  using assms unfolding rcvbrd_def Let_def by (intro rcvrfc_inv) auto

lemma forward_inv:
  assumes "tome_ok tome" "inv s" "not_rut p"
  shows "all_ok inv (forward tome a p s)"
  using assms unfolding forward_def Let_def by (auto intro!: sendctl_inv)

lemma rcv_rfcsent_inv:
  assumes "tome_ok tome" "inv s" "conn_ok c"
  shows "all_ok inv (rcv_rfcsent tome i c p s)"
  using assms unfolding rcv_rfcsent_def Let_def
  by (auto intro!: all_ok_and_then [of inv] reflect_sts_inv sendlos_inv inv_upd_conn)

lemma rcv_open_inv:
  assumes "tome_ok tome" "inv s" "conn_ok c"
  shows "all_ok inv (rcv_open tome i c p s)"
  using assms unfolding rcv_open_def Let_def
  by (auto intro!: rcvdata_inv reflect_sts_inv sendlos_inv chretran_inv inv_upd_conn)

lemma arrival_inv:
  assumes "inv s"
  shows "all_ok inv (arrival x s)"
  using assms Q_direct unfolding arrival_def Let_def
  by (auto intro!: all_ok_and_thenI simp: fault_simps) (auto simp: inv_def upd_route_def upd_xcvr_def direct_def)

text \<open>A routing packet changes the table entry by entry; the routes of interfaces stay as they are.\<close>

lemma rut_entries_inv:
  assumes "inv s" "subnet (pk_saddr p) < CHNSUBNET"
    "rt_type (chroutetab s (subnet (pk_saddr p))) = CHDIRECT" "is_xcvr (rt_u (chroutetab s (subnet (pk_saddr p))))"
    "\<forall>k \<in> set ks. let n = unat (data_short p (2 * k)) in
        n < CHNSUBNET \<longrightarrow> is_xcvr (rt_u (chroutetab s n)) \<longrightarrow> rt_cost (chroutetab s n) \<le> data_short p (2 * k + 1)"
  shows "inv (fold (rut_entry p) ks s)"
  using assms
proof (induction ks arbitrary: s)
  case (Cons k ks)
  let ?n = "unat (data_short p (2 * k))" and ?cost = "data_short p (2 * k + 1)" and ?b = "pk_saddr p"
  show ?case
  proof (cases "?n < CHNSUBNET")
    case False
    then show ?thesis
      using Cons by (simp add: rut_entry_def)
  next
    case n: True
    let ?s = "upd_route ?n (better_route ?b ?cost) s"
    have ent: "rut_entry p k s = ?s"
      using n by (simp add: rut_entry_def)
    have cheap: "is_xcvr (rt_u (chroutetab s ?n)) \<longrightarrow> rt_cost (chroutetab s ?n) \<le> ?cost"
      using Cons.prems(5) n by (simp add: Let_def)
    have tab: "chroutetab ?s = (chroutetab s)(?n := better_route ?b ?cost (chroutetab s ?n))"
      by (simp add: upd_route_def)
    have "inv ?s"
      using Q_bridge [OF _ n Cons.prems(2,3) cheap] Cons.prems(1) by (simp add: inv_def tab) (simp add: upd_route_def)
    moreover note same = better_route_in [where tab = "chroutetab s" and b = ?b, OF cheap, folded tab]
    ultimately have "inv (fold (rut_entry p) ks ?s)"
      using Cons.prems(2-5) same by (intro Cons.IH) (simp_all add: Let_def)
    then show ?thesis
      by (simp only: fold.simps comp_apply ent)
  qed
qed simp

lemma rcvrut_inv:
  assumes "inv s" "honest p (chroutetab s)"
  shows "all_ok inv (rcvrut p s)"
proof -
  have "Q (chroutetab s)"
    using assms(1) by (simp add: inv_def)
  then show ?thesis
    using assms Q_interface [of "chroutetab s" "subnet (pk_saddr p)"] unfolding rcvrut_def honest_def
    by (auto intro!: rut_entries_inv simp: Let_def)
qed

lemma rcvpkt_inv:
  assumes tome: "tome_ok tome" and "inv s" and rut: "not_rut p \<or> (\<forall>s'. arrival x s = Inr s' \<longrightarrow> honest p (chroutetab s') \<and>
      (is_my_address s' (pk_daddr p) \<or> pk_daddr p = xc_addr (chxcvrs s' x) \<or> pk_daddr p = 0))"
  shows "all_ok inv (rcvpkt tome x p s)"
  unfolding rcvpkt_def
proof (rule all_ok_and_thenI)
  fix s' assume s': "arrival x s = Inr s'"
  then have inv: "inv s'"
    using arrival_inv [OF assms(2)] by (rule all_okD [rotated])
  have conn: "conn_ok c" if "conn_of_packet p s' = Some (i, c)" for i c
    using that inv_conn [OF inv] by (auto simp: conn_of_packet_def Let_def split: if_splits option.splits)
  show "all_ok inv (let a = xc_addr (chxcvrs s' x) in
     if \<not> is_my_address s' (pk_daddr p) \<and> pk_daddr p \<noteq> a \<and> pk_daddr p \<noteq> 0 then forward tome a p s'
     else if pk_op p = RUTOP then rcvrut p s'
     else if pk_op p = MNTOP then Inr s'
     else if pk_op p = RFCOP then rcvrfc tome p s'
     else if pk_op p = BRDOP then rcvbrd tome p s'
     else
       case conn_of_packet p s' of
         None \<Rightarrow> sendlos tome p ''Connection doesn't exist'' s'
       | Some (i, c) \<Rightarrow>
           if cn_state c = CSRFCSENT then rcv_rfcsent tome i c p s'
           else if cn_state c = CSOPEN then rcv_open tome i c p s'
           else sendlos tome p ''Connection is closed'' s')"
    using rut s' inv tome conn unfolding Let_def
    by (auto simp: not_rut_def intro!: forward_inv rcvrut_inv rcvrfc_inv rcvbrd_inv sendlos_inv rcv_rfcsent_inv rcv_open_inv
        split: option.split)
qed

text \<open>Packets for the own host, to any depth.\<close>

lemma each_packet_inv:
  assumes "\<And>p s. not_rut p \<Longrightarrow> inv s \<Longrightarrow> all_ok inv (f p s)" "inv s" "\<forall>p \<in> set ps. not_rut p"
  shows "all_ok inv (each_packet f ps s)"
  using assms(2,3) by (induction ps arbitrary: s) (auto intro!: all_ok_and_then [of inv] assms(1))

lemma sendtome_ok: "tome_ok (sendtome k)"
proof (induction k)
  case 0
  show ?case by (simp add: tome_ok_def)
next
  case (Suc k)
  have "all_ok inv (loop_back (sendtome k) p s)" if "not_rut p" "inv s" for p s
    using that unfolding loop_back_def Let_def by (intro rcvpkt_inv Suc) (auto intro!: inv_xmitdone)
  then show ?case
    by (auto simp: tome_ok_def intro!: each_packet_inv)
qed

text \<open>The users and the clock.\<close>

lemma write_numbered_inv:
  assumes "tome_ok tome" "inv s" "conn_ok c" "not_rut p"
  shows "all_ok inv (write_numbered tome i c p s)"
  using assms unfolding write_numbered_def by (auto intro!: senddata_inv inv_upd_conn)

lemma ch_close_inv:
  assumes "tome_ok tome" "inv s" "pred_option not_rut pkt"
  shows "all_ok inv (ch_close tome i pkt release s)"
proof -
  have rm: "inv (rmlisten i s)"
    using assms(2) by (auto simp: rmlisten_def split: option.split)
  have "all_ok inv (case pkt of None \<Rightarrow> Inr s | Some p \<Rightarrow> sendctl tome ((setpkt c p)\<lparr>pk_ackn := 0, pk_pkn := 0\<rparr>) s)" for c
    using assms by (auto intro!: sendctl_inv split: option.split)
  then show ?thesis
    using assms(2) rm unfolding ch_close_def
    by (auto intro!: all_ok_and_then [of inv] inv_upd_conn inv_rlsconn split: option.split)
qed

lemma ch_write_inv:
  assumes "tome_ok tome" "inv s"
  shows "all_ok (inv \<circ> snd) (ch_write tome i p s)"
proof (cases "chconntab s i")
  case (Some c)
  have c: "conn_ok c"
    using inv_conn [OF assms(2) Some] .
  have okay: "all_ok (inv \<circ> snd) (and_then r (\<lambda>s1. Inr (True, s1)))" if "all_ok inv r" for r
    using that by (auto intro: all_ok_and_then)
  have p: "pk_op p = ANSOP \<or> pk_op p = FWDOP \<or> pk_op p = RFCOP \<or> pk_op p = BRDOP \<or> pk_op p = UNCOP \<or> ISDATOP p \<or> pk_op p = OPNOP
      \<or> pk_op p = EOFOP \<Longrightarrow> not_rut p"
    by (auto simp: not_rut_def ISDATOP_def)
  show ?thesis
    using assms Some c p unfolding ch_write_def
    by (auto simp: setack_def intro!: okay ch_close_inv write_numbered_inv senddata_inv)
qed (simp add: ch_write_def assms)

lemma ch_read_inv:
  assumes "tome_ok tome" "inv s"
  shows "all_ok inv (ch_read tome i s)"
proof (cases "chconntab s i")
  case (Some c)
  then have "conn_ok c"
    using inv_conn assms(2) by blast
  then show ?thesis
    using assms Some unfolding ch_read_def Let_def
    by (auto intro!: reflect_sts_inv inv_upd_conn split: list.split)
qed (simp add: ch_read_def assms)

lemma ch_open_inv:
  assumes "tome_ok tome" "inv s"
  shows "all_ok (inv \<circ> snd) (ch_open tome destaddr rwsize p s)"
  using inv_allconn [OF assms(2)] unfolding ch_open_def Let_def
  by (auto intro!: all_ok_and_then [of "inv \<circ> snd"] ch_write_inv [OF assms(1)] inv_upd_conn split: prod.split option.split)

lemma ch_listen_inv:
  assumes "inv s"
  shows "inv (snd (ch_listen p rwsize s))"
  using inv_allconn [OF assms] unfolding ch_listen_def Let_def
  by (auto intro!: inv_upd_conn split: prod.split option.split)

lemma ch_accept_inv:
  assumes "tome_ok tome" "inv s"
  shows "all_ok inv (ch_accept tome i s)"
  using assms unfolding ch_accept_def Let_def
  by (auto intro!: all_ok_and_then [of inv] all_ok_and_then [of "inv \<circ> snd"] ch_read_inv ch_write_inv [OF assms(1)]
      inv_upd_conn split: option.split)

lemma clock_connection_inv:
  assumes "tome_ok tome" "inv s"
  shows "all_ok inv (clock_connection tome probing i s)"
proof -
  have flush: "all_ok inv (flush_output tome i c s)" for c
    using assms(2) unfolding flush_output_def
    by (auto intro!: all_ok_and_then [of "inv \<circ> snd"] ch_write_inv [OF assms(1)] inv_upd_conn split: option.split)
  have "inv t \<Longrightarrow> inv (probe i t)" for t
    by (auto simp: probe_def Let_def intro!: inv_upd_conn)
  then show ?thesis
    using assms flush unfolding clock_connection_def
    by (auto intro!: all_ok_and_then [of inv] chretran_inv split: option.split)
qed

lemma clock_connections_inv:
  assumes "tome_ok tome" "inv s"
  shows "all_ok inv (clock_connections tome probing is s)"
  using assms(2) by (induction "is" arbitrary: s) (auto intro!: all_ok_and_then [of inv] clock_connection_inv assms(1))

lemma ch_clock_inv:
  assumes "tome_ok tome" "inv s"
  shows "all_ok inv (ch_clock tome s)"
proof -
  have age: "inv t \<Longrightarrow> inv (chroutage t)" for t
    using Q_aged by (auto simp: inv_def chroutage_def aged_def Let_def)
  show ?thesis
    using assms age unfolding ch_clock_def Let_def by (auto intro!: clock_connections_inv)
qed

lemma chattach_inv:
  assumes "inv s"
  shows "all_ok inv (chattach x s)"
  using assms Q_direct unfolding chattach_def Let_def
  by (auto intro!: all_ok_and_thenI simp: fault_simps) (auto simp: inv_def upd_route_def direct_def)

end

section \<open>Events of the NCP\<close>

text \<open>Everything that the interfaces, the clock and the users can make the NCP do; \<open>k\<close> bounds the depth of the
  recursion through the own host.\<close>

inductive ncp_event :: "ncp \<Rightarrow> ncp \<Rightarrow> bool" where
  ncp_attach: "chattach x s = Inr s' \<Longrightarrow> ncp_event s s'"
| ncp_receive: "not_rut p \<or> (\<forall>r. arrival x s = Inr r \<longrightarrow> honest p (chroutetab r) \<and>
      (is_my_address r (pk_daddr p) \<or> pk_daddr p = xc_addr (chxcvrs r x) \<or> pk_daddr p = 0)) \<Longrightarrow>
    rcvpkt (sendtome k) x p s = Inr s' \<Longrightarrow> ncp_event s s'"
| ncp_interrupt: "ncp_event s (chchtint aborted x s)"
| ncp_clock: "ch_clock (sendtome k) s = Inr s' \<Longrightarrow> ncp_event s s'"
| ncp_opening: "ch_open (sendtome k) a w p s = Inr (j, s') \<Longrightarrow> ncp_event s s'"
| ncp_listening: "ch_listen p w s = (j, s') \<Longrightarrow> ncp_event s s'"
| ncp_accepting: "ch_accept (sendtome k) i s = Inr s' \<Longrightarrow> ncp_event s s'"
| ncp_reading: "ch_read (sendtome k) i s = Inr s' \<Longrightarrow> ncp_event s s'"
| ncp_writing: "ch_write (sendtome k) i p s = Inr (ok, s') \<Longrightarrow> ncp_event s s'"
| ncp_status: "ch_sts (sendtome k) i s = Inr s' \<Longrightarrow> ncp_event s s'"
| ncp_closing: "pred_option not_rut pkt \<Longrightarrow> ch_close (sendtome k) i pkt release s = Inr s' \<Longrightarrow> ncp_event s s'"

context route_property
begin

lemma inv_chchtint: "inv s \<Longrightarrow> inv (chchtint aborted x s)"
  by (auto simp: chchtint_def Let_def intro!: inv_xmitdone split: option.split)

lemma inv_event: "ncp_event s s' \<Longrightarrow> inv s \<Longrightarrow> inv s'"
proof (induction rule: ncp_event.induct)
  case (ncp_attach x s s')
  then show ?case by (auto dest: all_okD [OF chattach_inv])
next
  case (ncp_receive p x s k s')
  then show ?case by (auto dest: all_okD [OF rcvpkt_inv [OF sendtome_ok]])
next
  case (ncp_clock k s s')
  then show ?case by (auto dest: all_okD [OF ch_clock_inv [OF sendtome_ok]])
next
  case (ncp_opening k a w p s j s')
  then show ?case by (auto dest: all_okD [OF ch_open_inv [OF sendtome_ok]])
next
  case (ncp_listening p w s j s')
  then show ?case using ch_listen_inv [of s p w] by simp
next
  case (ncp_accepting k i s s')
  then show ?case by (auto dest: all_okD [OF ch_accept_inv [OF sendtome_ok]])
next
  case (ncp_reading k i s s')
  then show ?case by (auto dest: all_okD [OF ch_read_inv [OF sendtome_ok]])
next
  case (ncp_writing k i p s ok s')
  then show ?case by (auto dest: all_okD [OF ch_write_inv [OF sendtome_ok]])
next
  case (ncp_status k i s s')
  then show ?case by (auto simp: ch_sts_def dest: all_okD [OF sendsts_inv [OF sendtome_ok]])
next
  case (ncp_closing pkt k i release s s')
  then show ?case by (auto dest: all_okD [OF ch_close_inv [OF sendtome_ok]])
qed (rule inv_chchtint)

lemma inv_events: "ncp_event\<^sup>*\<^sup>* s s' \<Longrightarrow> inv s \<Longrightarrow> inv s'"
  by (induction rule: rtranclp_induct) (auto intro: inv_event)

end

section \<open>Well-typed routes\<close>

definition table_ok :: "(nat \<Rightarrow> chroute) \<Rightarrow> bool" where
  "table_ok tab \<longleftrightarrow> (\<forall>n < CHNSUBNET. route_ok tab (tab n))"

lemma routes_ok_table: "routes_ok s = table_ok (chroutetab s)"
  by (simp add: routes_ok_def table_ok_def)

lemma route_ok_upd:
  assumes "route_ok tab r" "is_xcvr (rt_u (tab n)) \<longrightarrow> is_xcvr (rt_u r')"
  shows "route_ok (tab(n := r')) r"
  using assms by (auto simp: route_ok_def split: rt_type_t.splits rt_union.splits)

lemma table_ok_upd:
  assumes "table_ok tab" "is_xcvr (rt_u (tab n)) \<longrightarrow> is_xcvr (rt_u r)" "route_ok (tab(n := r)) r"
  shows "table_ok (tab(n := r))"
  using assms route_ok_upd [of tab _ n r] by (auto simp: table_ok_def)

interpretation typed: route_property table_ok
proof
  fix tab n x cost
  assume "table_ok tab"
  then show "table_ok (tab(n := direct x cost))"
    by (rule table_ok_upd) (simp_all add: direct_def route_ok_def is_xcvr_def)
next
  fix tab :: "nat \<Rightarrow> chroute" and n b cost
  assume ok: "table_ok tab" and b: "subnet b < CHNSUBNET" "rt_type (tab (subnet b)) = CHDIRECT" and n: "n < CHNSUBNET"
    and cheap: "is_xcvr (rt_u (tab n)) \<longrightarrow> rt_cost (tab n) \<le> cost"
  let ?r = "better_route b cost (tab n)" and ?t = "tab(n := better_route b cost (tab n))"
  have "is_xcvr (rt_u (tab (subnet b)))"
    using ok b by (auto simp: table_ok_def route_ok_def split: rt_type_t.splits)
  then have gate: "is_xcvr (rt_u (?t (subnet b)))"
    using better_route_in [where tab = tab and b = b, OF cheap] by blast
  have "route_ok ?t ?r"
  proof (cases "?r = tab n")
    case True
    then show ?thesis
      using ok n by (simp add: table_ok_def)
  next
    case False
    then have "?r = (tab n)\<lparr>rt_cost := cost, rt_type := CHBRIDGE, rt_u := RtAddr b\<rparr>"
      by (simp add: better_route_def split: if_splits)
    then show ?thesis
      using gate b unfolding route_ok_def by simp
  qed
  then show "table_ok ?t"
    using ok better_route_interface(1) [OF cheap] by (intro table_ok_upd) simp_all
next
  fix tab n
  assume "table_ok tab" "n < CHNSUBNET" "rt_type (tab n) = CHDIRECT"
  then show "is_xcvr (rt_u (tab n))"
    by (auto simp: table_ok_def route_ok_def split: rt_type_t.splits)
next
  fix tab
  assume "table_ok tab"
  moreover have "rt_u (aged tab n) = rt_u (tab n)" "rt_type (aged tab n) = rt_type (tab n)" for n
    by (simp_all add: aged_def)
  then have "route_ok (aged tab) (aged tab n) = route_ok tab (tab n)" for n
    unfolding route_ok_def by presburger
  ultimately show "table_ok (aged tab)"
    by (simp add: table_ok_def)
qed

lemma fresh_typed:
  assumes "\<forall>n < CHNSUBNET. rt_type (chroutetab s n) = CHNOPATH" "\<forall>i. chconntab s i = None"
  shows "typed.inv s"
  using assms by (simp add: typed.inv_def table_ok_def route_ok_def)

end
