(* ===== verification/Chstream.thy ===== *)
theory Chstream
  imports Chuser
begin

text \<open>
  The stream interface of the NCP (\<^verbatim>\<open>chaos/chncp/chstream.c\<close>): reading characters out of the received packets,
  filling packets with characters, flushing.  Copying from and to the user never fails here.  The reading loop
  takes fuel, since consuming a packet may, through \<open>tome\<close>, bring in others.
\<close>

unbundle bit_operations_syntax

datatype ch_result = CHERROR | CHEOF | CHTEMP | CHCOUNT nat

abbreviation "CHEOFSEEN \<equiv> 1 :: u8"

section \<open>Reading\<close>

text \<open>
  A character packet gives as many characters as are wanted and available, from \<open>cn_roffset\<close> on; the length
  field keeps what is left.
\<close>

definition take_chars :: "nat \<Rightarrow> connection \<Rightarrow> packet \<Rightarrow> u8 list \<times> packet" where
  "take_chars ntodo c p =
     (let count = (if PH_LEN p \<ge> ntodo then ntodo else PH_LEN p)
      in (map (\<lambda>i. pk_data p (cn_roffset c + i)) [0..<count], set_len_expr (\<lambda>len. len - of_nat count) p))"

definition sread_result :: "nat \<Rightarrow> u8 list \<Rightarrow> connection option \<Rightarrow> ch_result" where
  "sread_result ntodo chars c =
     (if chars \<noteq> [] then CHCOUNT (length chars)
      else case c of
        None \<Rightarrow> CHERROR
      | Some c \<Rightarrow> if cn_flags c AND CHEOFSEEN \<noteq> 0 then CHEOF
                   else if cn_state c = CSOPEN then CHCOUNT 0 else CHERROR)"

definition clear_eof :: "connection \<Rightarrow> connection" where
  "clear_eof c = c\<lparr>cn_flags := cn_flags c AND NOT CHEOFSEEN\<rparr>"

definition set_eof :: "connection \<Rightarrow> connection" where
  "set_eof c = c\<lparr>cn_flags := cn_flags c OR CHEOFSEEN\<rparr>"

fun sread_loop :: "nat \<Rightarrow> tome \<Rightarrow> nat \<Rightarrow> nat \<Rightarrow> u8 list \<Rightarrow> ncp \<Rightarrow> fault + (ch_result \<times> u8 list) \<times> ncp" where
  "sread_loop 0 tome i ntodo chars s = Inl (No_return ''ch_sread'')"
| "sread_loop (Suc k) tome i ntodo chars s =
     (case chconntab s i of
        None \<Rightarrow> Inr ((sread_result ntodo chars None, chars), s)
      | Some c \<Rightarrow>
          (case cn_rhead c of
             [] \<Rightarrow> Inr ((sread_result ntodo chars (Some c), chars), s)
           | p # ps \<Rightarrow>
               if ntodo = 0 then Inr ((sread_result ntodo chars (Some c), chars), s)
               else if pk_op p = EOFOP then
                 (if chars \<noteq> [] then Inr ((CHCOUNT (length chars), chars), s)
                  else and_then (ch_read tome i s) (\<lambda>s1. and_then (ch_sts tome i s1) (\<lambda>s2.
                         Inr ((CHEOF, chars), upd_conn i set_eof s2))))
               else if \<not> ISDATOP p \<and> pk_op p \<noteq> ANSOP \<and> pk_op p \<noteq> UNCOP then
                 and_then (ch_read tome i s) (sread_loop k tome i ntodo chars)
               else
                 let (new, p1) = take_chars ntodo c p;
                     c1 = clear_eof (c\<lparr>cn_rhead := p1 # ps\<rparr>);
                     s1 = upd_conn i (\<lambda>_. c1) s
                 in if PH_LEN p1 = 0 then
                      and_then (ch_read tome i s1) (\<lambda>s2.
                      let s3 = upd_conn i (\<lambda>c. let c' = c\<lparr>cn_roffset := 0\<rparr>
                                               in if pk_op p = ANSOP then set_eof c' else c') s2
                      in sread_loop k tome i (ntodo - length new) (chars @ new) s3)
                    else sread_loop k tome i (ntodo - length new) (chars @ new)
                           (upd_conn i (\<lambda>c. c\<lparr>cn_roffset := cn_roffset c + length new\<rparr>) s1)))"

definition ch_sread :: "nat \<Rightarrow> tome \<Rightarrow> nat \<Rightarrow> nat \<Rightarrow> ncp \<Rightarrow> fault + (ch_result \<times> u8 list) \<times> ncp" where
  "ch_sread k tome i nchars s = sread_loop k tome i nchars [] s"

section \<open>Writing\<close>

text \<open>The packet being filled, or a new one with its room.\<close>

definition output_packet :: "connection \<Rightarrow> packet \<times> nat" where
  "output_packet c =
     (case cn_toutput c of
        None \<Rightarrow> (SET_PH_LEN 0 (pkalloc\<lparr>pk_op := (if CHANSWER c then ANSOP else DATOP)\<rparr>), CHMAXDATA)
      | Some p \<Rightarrow> (p, cn_troom c))"

definition put_chars :: "u8 list \<Rightarrow> packet \<Rightarrow> packet" where
  "put_chars bs p = set_len_expr (\<lambda>len. len + of_nat (length bs)) (chmove bs (PH_LEN p) p)"

text \<open>The loop ends with the room of the packet: one that is left with room keeps all characters.\<close>

fun swrite_loop :: "nat \<Rightarrow> tome \<Rightarrow> nat \<Rightarrow> u8 list \<Rightarrow> nat \<Rightarrow> ncp \<Rightarrow> fault + ch_result \<times> ncp" where
  "swrite_loop 0 tome i bs written s = Inl (No_return ''ch_swrite'')"
| "swrite_loop (Suc k) tome i bs written s =
     (case chconntab s i of
        None \<Rightarrow> Inr (CHERROR, s)
      | Some c \<Rightarrow>
          if cn_state c \<noteq> CSOPEN \<and> (cn_state c \<noteq> CSRFCRCVD \<or> \<not> CHANSWER c) then Inr (CHERROR, s)
          else if bs = [] \<or> chtfull c then Inr (CHCOUNT written, s)
          else
            let (p, room) = output_packet c; count = (if length bs > room then room else length bs);
                p1 = put_chars (take count bs) p
            in if room - count = 0 then
                 and_then (ch_write tome i p1 (upd_conn i (\<lambda>c. c\<lparr>cn_toutput := None, cn_troom := 0\<rparr>) s)) (\<lambda>(ok, s1).
                 if \<not> ok then Inr (CHERROR, s1)
                 else swrite_loop k tome i (drop count bs) (written + count) s1)
               else swrite_loop k tome i (drop count bs) (written + count)
                      (upd_conn i (\<lambda>c. c\<lparr>cn_toutput := Some (p1\<lparr>pk_time := chclock_now s\<rparr>), cn_troom := room - count\<rparr>) s))"

definition ch_swrite :: "nat \<Rightarrow> tome \<Rightarrow> nat \<Rightarrow> u8 list \<Rightarrow> ncp \<Rightarrow> fault + ch_result \<times> ncp" where
  "ch_swrite k tome i bs s = swrite_loop k tome i bs 0 s"

section \<open>Flushing\<close>

definition ch_sflush :: "tome \<Rightarrow> nat \<Rightarrow> ncp \<Rightarrow> fault + ch_result \<times> ncp" where
  "ch_sflush tome i s =
     (case chconntab s i of
        None \<Rightarrow> Inr (CHCOUNT 0, s)
      | Some c \<Rightarrow>
          (case cn_toutput c of
             None \<Rightarrow> Inr (CHCOUNT 0, s)
           | Some p \<Rightarrow>
               if chtfull c then Inr (CHTEMP, s)
               else and_then (ch_write tome i p (upd_conn i (\<lambda>c. c\<lparr>cn_toutput := None\<rparr>) s)) (\<lambda>(ok, s1).
                      Inr (if ok then CHCOUNT 0 else CHERROR, s1))))"

end
