(* ===== verification/Ch_Properties.thy ===== *)
theory Ch_Properties
  imports Ch_Transfer Ch_Types Chstream
begin

text \<open>
  The properties of the Chaosnet NCP: transfers between two hosts over an unreliable network, the receive
  window, and three places where the code fails.
\<close>

unbundle bit_operations_syntax

section \<open>A concrete pair of hosts\<close>

definition demo_host :: "u16 \<Rightarrow> (nat \<Rightarrow> connection option) \<Rightarrow> ncp" where
  "demo_host addr tab = \<lparr>chconntab = tab, chuniq = 0, chclock_now = 0, chlsnlist = [], chrfclist = [], chrfcrcv = False,
     chroutetab = (\<lambda>n. if n = 1 then \<lparr>rt_u = RtXcvr (Xcvr 0), rt_type = CHDIRECT, rt_cost = 10\<rparr>
                       else \<lparr>rt_u = RtAddr 0, rt_type = CHNOPATH, rt_cost = 0\<rparr>),
     chxcvrs = (\<lambda>_. \<lparr>xc_list = [], xc_tpkt = None, xc_ttime = 0, xc_addr = 0, xc_cost = 0, xc_rcvd = 0, xc_xmtd = 0,
       xc_abrt = 0, xc_lost = 0, xc_crcr = 0, xc_crci = 0, xc_leng = 0, xc_rej = 0, xc_rtries = 0\<rparr>),
     chmyaddr = addr, chmyname = '''', chhz = 60, chtimes = (0, 0), nextclk = 0, nextprobe = 0, nexthang = 0,
     nextroute = 0, nextbridge = 0\<rparr>"

definition demo_sender :: connection where
  "demo_sender = (new_connection 3 7)\<lparr>cn_state := CSOPEN, cn_laddr := 0x0101, cn_faddr := 0x0102, cn_fidx := 0x0904,
     cn_twsize := 5, cn_tlast := 1, cn_trecvd := 1, cn_tacked := 1\<rparr>"

definition demo_receiver :: connection where
  "demo_receiver = (new_connection 4 9)\<lparr>cn_state := CSOPEN, cn_laddr := 0x0102, cn_faddr := 0x0101, cn_fidx := 0x0703,
     cn_rwsize := 5, cn_rlast := 1, cn_rread := 1\<rparr>"

definition demo_start :: transfer where
  "demo_start = \<lparr>sender_host = demo_host 0x0101 [3 \<mapsto> demo_sender], receiver_host = demo_host 0x0102 [4 \<mapsto> demo_receiver],
     to_receiver = {}, to_sender = {}, written = [], delivered = []\<rparr>"

lemma queued_demo [simp]: "queued (demo_host addr tab) = {}"
  by (simp add: queued_def in_xcvr_def demo_host_def)

lemma routes_ok_demo [simp]: "routes_ok (demo_host addr tab)"
  by (simp add: routes_ok_def route_ok_def is_xcvr_def demo_host_def)

lemma demo_connected: "connected 1 3 4 demo_start"
proof -
  have "ends_match 3 4 demo_sender demo_receiver (demo_host 0x0101 [3 \<mapsto> demo_sender]) (demo_host 0x0102 [4 \<mapsto> demo_receiver])"
    unfolding ends_match_def by (simp, simp add: demo_host_def demo_sender_def demo_receiver_def new_connection_def
      tindex_def is_my_address_def)
  then show ?thesis
    unfolding connected_def
    by (intro conjI exI [of _ demo_sender] exI [of _ demo_receiver])
      (simp_all add: demo_start_def demo_sender_def demo_receiver_def new_connection_def)
qed

text \<open>The sender writes a packet, it arrives, and the receiver reads it.\<close>

definition demo_tome :: tome where
  "demo_tome ps s = Inl (No_return ''sendtome'')"

definition demo_packet :: packet where
  "demo_packet = pkalloc\<lparr>pk_op := DATOP, pk_lenfc := 2, pk_data := (\<lambda>i. of_nat (i + 65))\<rparr>"

definition demo_sent :: ncp where
  "demo_sent = snd (projr (ch_write demo_tome 3 demo_packet (demo_host 0x0101 [3 \<mapsto> demo_sender])))"

definition demo_on_wire :: packet where
  "demo_on_wire = the (xc_tpkt (chxcvrs demo_sent (Xcvr 0)))"

definition demo_got :: ncp where
  "demo_got = projr (rcvpkt demo_tome (Xcvr 0) (SET_PH_FC 1 demo_on_wire) (demo_host 0x0102 [4 \<mapsto> demo_receiver]))"

definition demo_head :: packet where
  "demo_head = hd (cn_rhead (the (chconntab demo_got 4)))"

definition demo_done :: ncp where
  "demo_done = projr (ch_read demo_tome 4 demo_got)"

lemma demo_code:
  "\<not> isl (ch_write demo_tome 3 demo_packet (demo_host 0x0101 [3 \<mapsto> demo_sender]))"
  "\<not> isl (rcvpkt demo_tome (Xcvr 0) (SET_PH_FC 1 demo_on_wire) (demo_host 0x0102 [4 \<mapsto> demo_receiver]))"
  "\<not> isl (ch_read demo_tome 4 demo_got)"
  "\<not> Option.is_none (xc_tpkt (chxcvrs demo_sent (Xcvr 0)))"
  "\<not> Option.is_none (chconntab demo_sent 3)"
  "numbered (cn_lidx (the (chconntab demo_sent 3))) demo_on_wire"
  "\<not> Option.is_none (chconntab demo_got 4)"
  "\<not> List.null (cn_rhead (the (chconntab demo_got 4)))"
  "CONTPKT demo_head" "payload demo_head = (DATOP, [65, 66])" "payload demo_packet = (DATOP, [65, 66])"
  "\<not> Option.is_none (chconntab demo_done 4)" "cn_rwsize (the (chconntab demo_done 4)) = 5"
  by code_simp+

definition demo_written :: transfer where
  "demo_written = sender_does demo_sent (demo_start\<lparr>written := [payload demo_packet]\<rparr>)"

definition demo_arrived :: transfer where
  "demo_arrived = receiver_does demo_got demo_written"

definition demo_read :: transfer where
  "demo_read = receiver_does demo_done (demo_arrived\<lparr>delivered := [payload demo_head]\<rparr>)"

lemmas demo_states = demo_read_def demo_arrived_def demo_written_def demo_start_def sender_does_def receiver_does_def

lemma demo_write_step: "transfer_step demo_tome 3 4 demo_start demo_written"
proof -
  let ?w = "ch_write demo_tome 3 demo_packet (sender_host demo_start)"
  have "?w = Inr (fst (projr ?w), demo_sent)"
    using demo_code(1) by (simp add: demo_start_def demo_sent_def)
  moreover have "\<not> chtfull demo_sender" "data_op (pk_op demo_packet)" "chconntab (sender_host demo_start) 3 = Some demo_sender"
    by (code_simp, code_simp, simp add: demo_start_def demo_host_def)
  ultimately have "transfer_step demo_tome 3 4 demo_start
      (sender_does demo_sent (demo_start\<lparr>written := written demo_start @ [payload demo_packet]\<rparr>))"
    by (intro transfer_step.write_data)
  then show ?thesis
    by (simp add: demo_written_def demo_start_def)
qed

lemma demo_on_the_way:
  "chconntab (sender_host demo_written) 3 = Some (the (chconntab demo_sent 3))"
  "demo_on_wire \<in> to_receiver demo_written" "carried demo_on_wire (SET_PH_FC 1 demo_on_wire)"
  "rcvpkt demo_tome (Xcvr 0) (SET_PH_FC 1 demo_on_wire) (receiver_host demo_written) = Inr demo_got"
proof -
  have "demo_on_wire \<in> queued demo_sent"
    using demo_code(4) by (auto simp: demo_on_wire_def queued_def in_xcvr_def Option.is_none_def)
  then show "demo_on_wire \<in> to_receiver demo_written"
    by (simp add: demo_states)
  show "chconntab (sender_host demo_written) 3 = Some (the (chconntab demo_sent 3))"
    using demo_code(5) by (auto simp: demo_states Option.is_none_def)
  show "carried demo_on_wire (SET_PH_FC 1 demo_on_wire)"
    unfolding carried_def by (rule exI [of _ 1], rule exI [of _ "pk_time demo_on_wire"], rule exI [of _ "pk_xdest demo_on_wire"]) simp
  show "rcvpkt demo_tome (Xcvr 0) (SET_PH_FC 1 demo_on_wire) (receiver_host demo_written) = Inr demo_got"
    using demo_code(2) by (simp add: demo_states demo_got_def)
qed

lemma demo_arrival_step: "transfer_step demo_tome 3 4 demo_written demo_arrived"
  using demo_on_the_way demo_code(6) unfolding demo_arrived_def by (intro transfer_step.data_arrives)

lemma demo_read_step: "transfer_step demo_tome 3 4 demo_arrived demo_read"
proof -
  let ?c = "the (chconntab demo_got 4)"
  have c: "chconntab (receiver_host demo_arrived) 4 = Some ?c" "cn_rhead ?c = demo_head # tl (cn_rhead ?c)"
    using demo_code(7,8) by (auto simp: demo_states demo_head_def Option.is_none_def)
  have "ch_read demo_tome 4 (receiver_host demo_arrived) = Inr demo_done"
    using demo_code(3) by (simp add: demo_states demo_done_def)
  then have "transfer_step demo_tome 3 4 demo_arrived (receiver_does demo_done
     (demo_arrived\<lparr>delivered := delivered demo_arrived @ (if CONTPKT demo_head then [payload demo_head] else [])\<rparr>))"
    using c by (intro transfer_step.read_data)
  then show ?thesis
    using demo_code(9) by (simp add: demo_states)
qed

lemma demo_reached: "transfer_reaches demo_tome 3 4 demo_start demo_written" "transfer_reaches demo_tome 3 4 demo_start demo_read"
  by (meson demo_write_step demo_arrival_step demo_read_step transfer_reaches.intros)+

lemma demo_read_written: "written demo_written = [(DATOP, [65, 66])]" "delivered demo_written = []"
  "written demo_read = [(DATOP, [65, 66])]" "delivered demo_read = [(DATOP, [65, 66])]"
  by (simp_all add: demo_states demo_code)

section \<open>Transfers\<close>

text \<open>
  C5: For up to 2^14 packets, whatever the network loses, duplicates or reorders, the user of the receiving host reads exactly
  what the user of the sending host has written, in order, without gaps or repetitions, up to the point that the reading has
  reached.
\<close>

theorem transfer_in_order:
  assumes "transfer_reaches tome i j t0 t" "connected b i j t0" "length (written t) \<le> 2 ^ 14"
  shows "\<exists>rest. written t = delivered t @ rest"
proof -
  obtain st V K S a c where t: "transfer_inv b i j st V K S a c t"
    using reachable_inv [OF assms] by blast
  let ?T = "b + length (written t)" and ?R = "b + length (delivered t)"
  note inv = transfer_invD [OF t]
  have "[b + 1..<?T + 1] = [b + 1..<?R + 1] @ [?R + 1..<?T + 1]"
    using inv(6) upt_add_eq_append [of "b + 1" "?R + 1" "?T - ?R"] by simp
  then have "written t = map st [b + 1..<?R + 1] @ map st [?R + 1..<?T + 1]"
    using inv(4) by (simp only: map_append)
  then show ?thesis
    using inv(5) by metis
qed

theorem transfer_in_order_witness:
  "(\<exists>rest. written demo_read = delivered demo_read @ rest) \<and> delivered demo_read = [(DATOP, [65, 66])]"
  using transfer_in_order [OF demo_reached(2) demo_connected] by (simp add: demo_read_written)

text \<open>
  C6: Nothing that was written is lost, for up to 2^14 packets: each packet has been read, or the receiving connection holds
  it, or the sending host still has it, in the list of its connection or in the queue of an interface.
\<close>

theorem transfer_keeps_all:
  assumes "transfer_reaches tome i j t0 t" "connected b i j t0" "length (written t) \<le> 2 ^ 14"
    and "length (delivered t) \<le> k" "k < length (written t)"
  shows "(\<exists>c. chconntab (receiver_host t) j = Some c \<and>
            (\<exists>p \<in> set (cn_rhead c) \<union> set (cn_routorder c). pk_pkn p = of_nat (b + 1 + k) \<and> payload p = written t ! k)) \<or>
         (\<exists>a. chconntab (sender_host t) i = Some a \<and>
            (\<exists>p \<in> set (cn_thead a) \<union> queued (sender_host t). pk_pkn p = of_nat (b + 1 + k) \<and> payload p = written t ! k))"
proof -
  obtain st V K S a c where t: "transfer_inv b i j st V K S a c t"
    using reachable_inv [OF assms(1-3)] by blast
  note inv = transfer_invD [OF t]
  let ?n = "b + 1 + k"
  have n: "b + length (delivered t) < ?n" "?n \<le> b + length (written t)"
    using assms(4,5) by auto
  have "written t ! k = map st [b + 1..<b + length (written t) + 1] ! k"
    using arg_cong [OF inv(4), of "\<lambda>xs. xs ! k"] .
  also have "\<dots> = st ?n"
    using assms(5) by (simp del: upt_Suc)
  finally have w: "written t ! k = st ?n" .
  have c: "chconntab (receiver_host t) j = Some c" "chconntab (sender_host t) i = Some a"
    using inv(1) by (simp_all add: ends_match_def)
  show ?thesis
  proof (cases "?n \<le> V")
    case True
    then have "?n \<in> {b + length (delivered t)<..V}"
      using n by auto
    then have "?n \<in> S"
      using inv(9) unfolding got_def by blast
    then obtain p where "p \<in> held c" "copy_of st ?n p"
      using receiver_holds [OF inv(3)] by blast
    then show ?thesis
      using c(1) w by (intro disjI1) (auto simp: held_def copy_of_def)
  next
    case False
    then have "?n \<in> {V<..b + length (written t)}"
      using n by auto
    then obtain p where "p \<in> set (cn_thead a) \<union> queued (sender_host t)" "stream_packet st a ?n p"
      using inv(2) unfolding sender_def by fastforce
    then show ?thesis
      using c(2) w by (intro disjI2) (auto simp: stream_packet_def copy_of_def)
  qed
qed

theorem transfer_keeps_all_witness:
  "(\<exists>c. chconntab (receiver_host demo_written) 4 = Some c \<and>
      (\<exists>p \<in> set (cn_rhead c) \<union> set (cn_routorder c). pk_pkn p = 2 \<and> payload p = (DATOP, [65, 66]))) \<or>
   (\<exists>a. chconntab (sender_host demo_written) 3 = Some a \<and>
      (\<exists>p \<in> set (cn_thead a) \<union> queued (sender_host demo_written). pk_pkn p = 2 \<and> payload p = (DATOP, [65, 66])))"
  using transfer_keeps_all [OF demo_reached(1) demo_connected, of 0] by (simp add: demo_read_written)

lemma written_nth:
  assumes "transfer_inv b i j st V K S a c t" "b < n" "n \<le> b + length (written t)"
  shows "written t ! (n - (b + 1)) = st n"
proof -
  have "written t ! (n - (b + 1)) = map st [b + 1..<b + length (written t) + 1] ! (n - (b + 1))"
    using arg_cong [OF transfer_invD(4) [OF assms(1)], of "\<lambda>xs. xs ! (n - (b + 1))"] .
  also have "\<dots> = st n"
    using assms(2,3) by (simp del: upt_Suc)
  finally show ?thesis .
qed

lemma arrival_in_place:
  assumes t: "transfer_inv b i j st V K S a d t" and len: "length (written t) \<le> 2 ^ 14"
    and p: "p \<in> to_receiver t" "numbered (cn_lidx a) p" "carried p p'" "rcvpkt tome x p' (receiver_host t) = Inr r"
  shows "\<exists>k < length (written t). pk_pkn p' = of_nat (b + 1 + k) \<and> payload p' = written t ! k \<and>
    (k < length (delivered t) \<or> (\<exists>c'. chconntab r j = Some c' \<and>
      (\<exists>q \<in> set (cn_rhead c') \<union> set (cn_routorder c'). pk_pkn q = pk_pkn p' \<and> payload q = payload p')))"
proof -
  let ?R = "b + length (delivered t)" and ?W = "unat (cn_rwsize d)"
  note inv = transfer_invD [OF t]
  obtain n c' where n: "n \<in> {b<..b + length (written t)}" "copy_of st n p'"
    and t': "transfer_inv b i j st V K (S \<union> ({n} \<inter> {?R<..?R + ?W})) a c' (receiver_does r t)"
    by (rule data_arrival [OF t len p])
  have window: "n \<le> ?R + ?W"
    using inv(1,8,10) n(1) by (auto simp: ends_match_def)
  have c': "chconntab r j = Some c'"
    using transfer_invD(1) [OF t'] by (simp add: ends_match_def receiver_does_def)
  have "n \<le> ?R \<or> (\<exists>q \<in> held c'. copy_of st n q)"
  proof (cases "n \<le> ?R")
    case False
    then have "n \<in> S \<union> ({n} \<inter> {?R<..?R + ?W})"
      using window by simp
    then show ?thesis
      using receiver_holds [OF transfer_invD(3) [OF t']] by blast
  qed simp
  then have "n - (b + 1) < length (delivered t) \<or>
      (\<exists>q \<in> set (cn_rhead c') \<union> set (cn_routorder c'). pk_pkn q = pk_pkn p' \<and> payload q = payload p')"
  proof
    assume "\<exists>q \<in> held c'. copy_of st n q"
    then show ?thesis
      using n(2) unfolding held_def copy_of_def by (intro disjI2) auto
  qed (use n(1) in auto)
  then show ?thesis
    using n written_nth [OF t, of n] c' by (intro exI [of _ "n - (b + 1)"]) (auto simp: copy_of_def)
qed

text \<open>
  C7: Flow control, for up to 2^14 packets: the sender is never more than the window of the receiver ahead of the reader; the
  receiver holds at most a window of the data packets of the stream; and a data packet of the connection that is under way is
  never discarded as outside the window: when its reception returns, it is one of the packets written, under its number, and it has
  been read or the receiving connection has it afterwards, in the list to be read or the list of early packets.
\<close>

theorem transfer_flow_control:
  assumes "transfer_reaches tome i j t0 t" "connected b i j t0" "length (written t) \<le> 2 ^ 14"
    and "chconntab (receiver_host t) j = Some c"
  shows "length (written t) \<le> length (delivered t) + unat (cn_rwsize c) \<and>
    length (filter CONTPKT (cn_rhead c)) + length (cn_routorder c) \<le> unat (cn_rwsize c) \<and>
    (\<forall>a p x p' r. chconntab (sender_host t) i = Some a \<and> p \<in> to_receiver t \<and> numbered (cn_lidx a) p \<and> carried p p' \<and>
        rcvpkt tome x p' (receiver_host t) = Inr r \<longrightarrow>
      (\<exists>k < length (written t). pk_pkn p' = of_nat (b + 1 + k) \<and> payload p' = written t ! k \<and>
        (k < length (delivered t) \<or> (\<exists>c'. chconntab r j = Some c' \<and>
          (\<exists>q \<in> set (cn_rhead c') \<union> set (cn_routorder c'). pk_pkn q = pk_pkn p' \<and> payload q = payload p')))))"
proof -
  obtain st V K S a d where t: "transfer_inv b i j st V K S a d t"
    using reachable_inv [OF assms(1-3)] by blast
  note inv = transfer_invD [OF t]
  have d: "d = c" "cn_twsize a = cn_rwsize c" and a: "chconntab (sender_host t) i = Some a"
    using inv(1) assms(4) by (simp_all add: ends_match_def)
  have "b + length (written t) \<le> b + length (delivered t) + unat (cn_rwsize c)"
    using inv(8,10) unfolding d by linarith
  then have "length (written t) \<le> length (delivered t) + unat (cn_rwsize c)"
    by simp
  moreover have "length (filter CONTPKT (cn_rhead c)) + length (cn_routorder c) \<le> unat (cn_rwsize c)"
    using receiver_size [OF inv(3)] d by simp
  ultimately show ?thesis
    using a arrival_in_place [OF t assms(3)] by (intro conjI allI impI; (elim conjE)?) (simp_all only: option.inject)
qed

theorem transfer_flow_control_witness:
  "length (written demo_written) \<le> length (delivered demo_written) + 5 \<and>
   (\<exists>c. chconntab demo_got 4 = Some c \<and>
      (\<exists>q \<in> set (cn_rhead c) \<union> set (cn_routorder c). pk_pkn q = 2 \<and> payload q = (DATOP, [65, 66])))"
proof -
  have c: "chconntab (receiver_host demo_written) 4 = Some demo_receiver" "cn_rwsize demo_receiver = 5"
    by (simp_all add: demo_states demo_host_def demo_receiver_def)
  have a: "chconntab (sender_host demo_written) 3 = Some (the (chconntab demo_sent 3))"
    "demo_on_wire \<in> to_receiver demo_written" "carried demo_on_wire (SET_PH_FC 1 demo_on_wire)"
    "rcvpkt demo_tome (Xcvr 0) (SET_PH_FC 1 demo_on_wire) (receiver_host demo_written) = Inr demo_got"
    by (rule demo_on_the_way)+
  from transfer_flow_control [OF demo_reached(1) demo_connected _ c(1)] a demo_code(6) show ?thesis
    by (fastforce simp: demo_read_written c(2))
qed

section \<open>Routes\<close>

text \<open>
  C37: The routing table is a table of well-typed unions: starting from one without routes, whatever the interfaces, the clock
  and the users do, and as long as routing packets are honest, an interface is stored exactly where the type of
  the route makes the code look for an interface, so that no send follows a bridge address as a pointer.
\<close>

theorem routes_keep_type:
  assumes "ncp_event\<^sup>*\<^sup>* s0 s" "\<forall>n < CHNSUBNET. rt_type (chroutetab s0 n) = CHNOPATH" "\<forall>i. chconntab s0 i = None"
  shows "routes_ok s \<and> (no_route a s \<or> (\<exists>x d. route_to a s = Inr (x, d)))"
proof -
  have "routes_ok s"
    using typed.inv_events [OF assms(1) fresh_typed [OF assms(2,3)]] by (simp add: typed.inv_def routes_ok_table)
  then show ?thesis
    using route_to_ok by metis
qed

definition demo_boot :: ncp where
  "demo_boot = (demo_host 0x0101 (\<lambda>_. None))\<lparr>chroutetab := \<lambda>n. \<lparr>rt_u = RtAddr 0, rt_type = CHNOPATH, rt_cost = CHHCOST\<rparr>,
     chxcvrs := (chxcvrs (demo_host 0 (\<lambda>_. None)))(Xcvr 0 := (chxcvrs (demo_host 0 (\<lambda>_. None)) (Xcvr 0))\<lparr>xc_addr := 0x0101\<rparr>)\<rparr>"

theorem routes_keep_type_witness:
  "\<exists>s. chattach (Xcvr 0) demo_boot = Inr s \<and> routes_ok s \<and> rt_type (chroutetab s 1) = CHDIRECT \<and>
     (no_route 0x0102 s \<or> (\<exists>x d. route_to 0x0102 s = Inr (x, d)))"
proof -
  obtain s where s: "chattach (Xcvr 0) demo_boot = Inr s" "rt_type (chroutetab s 1) = CHDIRECT"
    by (simp add: chattach_def demo_boot_def subnet_def upd_route_def in_bounds_def)
  have "\<forall>n < CHNSUBNET. rt_type (chroutetab demo_boot n) = CHNOPATH" "\<forall>i. chconntab demo_boot i = None"
    by (simp_all add: demo_boot_def demo_host_def)
  then have "routes_ok s \<and> (no_route 0x0102 s \<or> (\<exists>x d. route_to 0x0102 s = Inr (x, d)))"
    using s(1) by (intro routes_keep_type r_into_rtranclp) (auto intro: ncp_attach)
  then show ?thesis
    using s by blast
qed




section \<open>Streams\<close>

text \<open>The length that \<open>ch_swrite\<close> stores in a new packet.\<close>

lemma length_field_value:
  "unat ((((x AND 0xFF00) OR (y AND 0x00FF)) AND 0xF0FF OR (z AND 0x0F00)) AND 0x0FFF :: u16) =
   unat y mod 256 + 256 * (unat z div 256 mod 16)"
proof -
  have m: "(0x0F00 :: u16) = push_bit 8 (mask 4)" "(0x00FF :: u16) = mask 8"
    by (simp_all add: mask_eq_exp_minus_1 push_bit_eq_mult)
  have "(((x AND 0xFF00) OR (y AND 0x00FF)) AND 0xF0FF OR (z AND 0x0F00)) AND 0x0FFF = (y AND 0x00FF) OR (z AND 0x0F00)"
    by (simp add: bit.conj_disj_distrib2 and.assoc)
  moreover have "y AND 0x00FF = take_bit 8 y" "z AND 0x0F00 = push_bit 8 (take_bit 4 (drop_bit 8 z))"
    unfolding m by (simp add: take_bit_eq_mask) (rule bit_word_eqI, auto simp: bit_simps)
  moreover have "take_bit 8 y OR push_bit 8 (take_bit 4 (drop_bit 8 z)) = take_bit 8 y + push_bit 8 (take_bit 4 (drop_bit 8 z))"
    by (rule disjunctive_add [symmetric]) (auto simp: bit_simps)
  ultimately have e: "(((x AND 0xFF00) OR (y AND 0x00FF)) AND 0xF0FF OR (z AND 0x0F00)) AND 0x0FFF =
      take_bit 8 y + push_bit 8 (take_bit 4 (drop_bit 8 z))"
    by simp
  have h: "unat (take_bit 4 (drop_bit 8 z)) = unat z div 256 mod 16"
    by (simp add: unsigned_take_bit_eq unat_drop_bit_eq drop_bit_eq_div take_bit_eq_mod unat_div unat_mod)
  have "unat (push_bit 8 (take_bit 4 (drop_bit 8 z))) = 256 * (unat z div 256 mod 16)"
    unfolding push_bit_eq_mult by (simp add: unat_word_ariths h)
  moreover have "unat (take_bit 8 y) = unat y mod 256"
    by (simp add: unsigned_take_bit_eq take_bit_eq_mod unat_mod)
  moreover have "unat y mod 256 < 256" "unat z div 256 mod 16 < 16"
    by simp_all
  ultimately show ?thesis
    unfolding e by (subst unat_plus_if') simp
qed

lemma two_length_bytes:
  assumes "n \<le> CHMAXDATA"
  shows "n mod 256 + 256 * ((n mod 256 + n) div 256 mod 16) = n \<longleftrightarrow> n mod 256 < 128"
proof -
  define q r where "q = n div 256" and "r = n mod 256"
  have n: "n = r + 256 * q" "q \<le> 1" "r < 256"
    using assms by (simp_all add: q_def r_def)
  have "(r + n) div 256 = (2 * r + 256 * q) div 256"
    by (simp add: n(1))
  also have "\<dots> = q + 2 * r div 256"
    by simp
  also have "2 * r div 256 = (if r < 128 then 0 else 1)"
    using n(3) by (simp add: div_nat_eqI)
  finally have "(r + n) div 256 = q + (if r < 128 then 0 else 1)" .
  then have "r + 256 * ((r + n) div 256 mod 16) = n \<longleftrightarrow> r < 128"
    using n(1,2) by simp
  then show ?thesis
    by (simp only: r_def)
qed

lemma PH_LEN_put_chars:
  assumes "PH_LEN p = 0" "length bs \<le> CHMAXDATA"
  shows "PH_LEN (put_chars bs p) = length bs \<longleftrightarrow> length bs mod 256 < 128"
proof -
  let ?n = "length bs" and ?x = "pk_lenfc p"
  let ?y = "of_nat ?n :: u16"
  have x: "?x AND 0x0FFF = 0"
    using assms(1) unfolding PH_LEN_def by (simp add: unat_eq_0)
  have "?x AND 0xFF00 AND 0x0FFF = (?x AND 0x0FFF) AND 0xFF00"
    by (simp add: and.assoc and.commute and.left_commute)
  then have w: "((?x AND 0xFF00) OR (?y AND 0x00FF)) AND 0x0FFF = ?y AND 0x00FF"
    unfolding bit.conj_disj_distrib2 x by (simp add: and.assoc)
  have "?y AND 0x00FF = take_bit 8 ?y"
    by (simp add: take_bit_eq_mask mask_eq_exp_minus_1)
  moreover have "unat (take_bit 8 ?y) = take_bit 8 (unat ?y)"
    by (rule unsigned_take_bit_eq)
  ultimately have "unat (?y AND 0x00FF) = ?n mod 256"
    using assms(2) by (simp add: take_bit_eq_mod unat_of_nat)
  then have z: "unat ((?y AND 0x00FF) + ?y) = ?n mod 256 + ?n"
    using assms(2) by (subst unat_plus_if') (auto simp: unat_of_nat)
  have "PH_LEN (put_chars bs p) = unat ?y mod 256 + 256 * (unat ((?y AND 0x00FF) + ?y) div 256 mod 16)"
    unfolding length_field_value [of ?x ?y "(?y AND 0x00FF) + ?y", symmetric]
    using assms(1) by (simp add: put_chars_def set_len_expr_def PH_LEN_def chmove_def Let_def x w)
  also have "\<dots> = ?n mod 256 + 256 * ((?n mod 256 + ?n) div 256 mod 16)"
    using assms(2) unfolding z by (simp add: unat_of_nat)
  finally show ?thesis
    using two_length_bytes [OF assms(2)] by (simp only:)
qed

text \<open>
  C39: A user who writes fewer than 488 characters to an idle stream gets a new packet that holds them all, but its length
  field is right only when the length modulo 256 is less than 128, since storing the first byte of the length changes what the
  second byte is computed from: 200 characters, for instance, become a packet of 456.
\<close>

theorem swrite_length:
  assumes "chconntab s i = Some c" "cn_state c = CSOPEN" "\<not> chtfull c" "cn_toutput c = None"
    and "bs \<noteq> []" "length bs < CHMAXDATA"
  shows "\<exists>s' p. ch_swrite 2 tome i bs s = Inr (CHCOUNT (length bs), s') \<and>
     map_option cn_toutput (chconntab s' i) = Some (Some p) \<and> map (pk_data p) [0..<length bs] = bs \<and>
     (PH_LEN p = length bs \<longleftrightarrow> length bs mod 256 < 128)"
proof -
  obtain p where out: "output_packet c = (p, CHMAXDATA)" and len: "PH_LEN p = 0"
    using assms(4) by (simp add: output_packet_def PH_LEN_set)
  let ?q = "(put_chars bs p)\<lparr>pk_time := chclock_now s\<rparr>"
  let ?s = "upd_conn i (\<lambda>c. c\<lparr>cn_toutput := Some ?q, cn_troom := CHMAXDATA - length bs\<rparr>) s"
  have c': "chconntab ?s i = Some (c\<lparr>cn_toutput := Some ?q, cn_troom := CHMAXDATA - length bs\<rparr>)"
    using assms(1) by (simp add: upd_conn_def)
  have "swrite_loop (Suc (Suc 0)) tome i bs 0 s = Inr (CHCOUNT (length bs), ?s)"
    using assms c' by (simp add: out Let_def)
  then have "ch_swrite 2 tome i bs s = Inr (CHCOUNT (length bs), ?s)"
    by (simp only: ch_swrite_def numeral_2_eq_2)
  moreover have "map (pk_data ?q) [0..<length bs] = bs"
    by (intro nth_equalityI) (simp_all add: put_chars_def chmove_def set_len_expr_def len Let_def)
  moreover have "PH_LEN ?q = length bs \<longleftrightarrow> length bs mod 256 < 128"
    using PH_LEN_put_chars [OF len, of bs] assms(6) by (simp add: PH_LEN_def)
  ultimately show ?thesis
    using c' by fastforce
qed

theorem swrite_length_witness:
  "\<exists>s' p. ch_swrite 2 demo_tome 3 (replicate 200 65) (demo_host 0x0101 [3 \<mapsto> demo_sender]) = Inr (CHCOUNT 200, s') \<and>
     map_option cn_toutput (chconntab s' 3) = Some (Some p) \<and> PH_LEN p \<noteq> 200"
proof -
  have "chconntab (demo_host 0x0101 [3 \<mapsto> demo_sender]) 3 = Some demo_sender" "cn_state demo_sender = CSOPEN"
    "\<not> chtfull demo_sender" "cn_toutput demo_sender = None"
    by (simp add: demo_host_def, code_simp, code_simp, code_simp)
  from swrite_length [OF this, of "replicate 200 65" demo_tome] show ?thesis
    by auto
qed

end
