(* ===== verification/Local_Server.thy ===== *)
theory Local_Server
  imports Uch11 Chutil C_Strings
begin

text \<open>
  The server behind the local backend of the Chaosnet interface: the packets the machine sends
  (\<open>chaos_send_to_local\<close> of \<^verbatim>\<open>usim/uch11-local.c\<close>) and the connections of the server's threads, in the
  \<open>SELECT\<close> variant of \<^verbatim>\<open>chaos/chncp/chutil.c\<close>.

  A connection is known by its slot in \<open>Chconntab\<close>; a thread that uses a connection after \<open>rlsconn\<close> gets
  \<open>Out_of_bounds\<close>.  \<open>chaos_connection_queue\<close> and \<open>chaos_connection_dequeue\<close> wait on conditions: one pass
  of their loops is an operation that says whether the thread has to wait, so that what other threads do in the
  meantime can come between two passes.  The buffer that \<open>chaos_send_to_local\<close> gets is always
  \<open>uch11_xmit_buffer\<close>.  Threads that are started are listed with their connection in \<open>ls_started\<close>.
\<close>

unbundle bit_operations_syntax

section \<open>State\<close>

record lconnection = connection +
  packetnumber :: u16
  queuehead :: "packet list"
  orderhead :: "packet list"
  lastpacket :: "packet option"

datatype service = FILE_service | MINI_service

record local_server =
  ls_conntab :: "nat \<Rightarrow> lconnection option"
  ls_index :: u16
  ls_addr :: u16
  ls_serveraddr :: u16
  ls_name :: string
  ls_started :: "(service \<times> nat) list"

record local_sys = uch_sys +
  lsrv :: local_server

definition set_conn :: "nat \<Rightarrow> lconnection \<Rightarrow> 'a local_sys_scheme \<Rightarrow> 'a local_sys_scheme" where
  "set_conn i c m = m\<lparr>lsrv := lsrv m\<lparr>ls_conntab := (ls_conntab (lsrv m))(i \<mapsto> c)\<rparr>\<rparr>"

definition conn_at :: "nat \<Rightarrow> 'a local_sys_scheme \<Rightarrow> fault + lconnection" where
  "conn_at i m = (case ls_conntab (lsrv m) i of None \<Rightarrow> Inl (Out_of_bounds ''conn'') | Some c \<Rightarrow> Inr c)"

section \<open>Packets in memory\<close>

text \<open>The words of a packet, as many as its length says, and the packet that lies in a buffer of words.\<close>

definition packet_header :: "packet \<Rightarrow> u16 list" where
  "packet_header p = [ucast (pk_type p) OR push_bit 8 (ucast (pk_op p)), pk_lenfc p, pk_daddr p, pk_didx p,
     pk_saddr p, pk_sidx p, pk_pkn p, pk_ackn p]"

definition packet_words :: "packet \<Rightarrow> u16 list" where
  "packet_words p = packet_header p @ map (data_short p) [0..<(PH_LEN p + 1) div 2]"

definition buffer_byte :: "(nat \<Rightarrow> u16) \<Rightarrow> nat \<Rightarrow> u8" where
  "buffer_byte b i = (if even i then ucast (b (i div 2)) else ucast (drop_bit 8 (b (i div 2))))"

definition packet_of :: "(nat \<Rightarrow> u16) \<Rightarrow> packet" where
  "packet_of b = pkalloc\<lparr>pk_type := ucast (b 0), pk_op := ucast (drop_bit 8 (b 0)), pk_lenfc := b 1,
     pk_daddr := b 2, pk_didx := b 3, pk_saddr := b 4, pk_sidx := b 5, pk_pkn := b 6, pk_ackn := b 7,
     pk_data := (\<lambda>i. buffer_byte b (16 + i))\<rparr>"

text \<open>\<open>memcpy\<close> of the first \<open>n\<close> words of a buffer into a packet of cleared memory.\<close>

definition copy_of_packet :: "(nat \<Rightarrow> u16) \<Rightarrow> nat \<Rightarrow> packet" where
  "copy_of_packet b n = packet_of (\<lambda>i. if i < n then b i else 0)"

definition pk_string :: "packet \<Rightarrow> nat \<Rightarrow> u8 list" where
  "pk_string p n = map (pk_data p) [0..<n]"

section \<open>The connections of the server\<close>

text \<open>The first free slot; the local index counts on in its high byte.\<close>

definition free_conn_slot :: "local_server \<Rightarrow> nat option" where
  "free_conn_slot s = find (\<lambda>i. ls_conntab s i = None) [0..<CHNCONNS]"

definition local_connection :: "u16 \<Rightarrow> u16 \<Rightarrow> lconnection" where
  "local_connection laddr lidx = \<lparr>cn_closing = False, cn_flags = 0, cn_state = CSCLOSED, cn_active = 0, cn_faddr = 0,
     cn_fidx = 0, cn_lidx = lidx, cn_laddr = laddr, cn_twsize = 5, cn_tlast = 0, cn_trecvd = 0, cn_tacked = 0,
     cn_thead = [], cn_toutput = None, cn_troom = 0, cn_rwsize = 5, cn_rlast = 0, cn_racked = 0, cn_rread = 0,
     cn_rsts = 0, cn_roffset = 0, cn_rhead = [], cn_routorder = [], packetnumber = 0, queuehead = [],
     orderhead = [], lastpacket = None\<rparr>"

definition allconn_local :: "'a local_sys_scheme \<Rightarrow> nat option \<times> 'a local_sys_scheme" where
  "allconn_local m =
     (case free_conn_slot (lsrv m) of
        None \<Rightarrow> (None, m)
      | Some i \<Rightarrow>
          let s = lsrv m; c = local_connection (ls_serveraddr s) (ls_index s)
          in (Some i, m\<lparr>lsrv := s\<lparr>ls_index := ls_index s + 0x100, ls_conntab := (ls_conntab s)(i \<mapsto> c)\<rparr>\<rparr>))"

definition rlsconn_local :: "nat \<Rightarrow> 'a local_sys_scheme \<Rightarrow> 'a local_sys_scheme" where
  "rlsconn_local i m = m\<lparr>lsrv := lsrv m\<lparr>ls_conntab := (ls_conntab (lsrv m))(i := None)\<rparr>\<rparr>"

definition chaos_find_connection :: "u16 \<Rightarrow> local_server \<Rightarrow> nat option" where
  "chaos_find_connection index s =
     find (\<lambda>i. case ls_conntab s i of None \<Rightarrow> False | Some c \<Rightarrow> cn_lidx c = index) [0..<CHNCONNS]"

definition chaos_interrupt_connection :: "lconnection \<Rightarrow> lconnection" where
  "chaos_interrupt_connection c = c\<lparr>cn_tacked := cn_tlast c\<rparr>"

text \<open>The next packet number is never 0; a status carries the current one.\<close>

definition chaos_allocate_packet :: "lconnection \<Rightarrow> u8 \<Rightarrow> nat \<Rightarrow> packet \<times> lconnection" where
  "chaos_allocate_packet c opcode len =
     (let n = (if opcode = STSOP then packetnumber c else packetnumber c + 1);
          n' = (if n = 0 then 1 else n)
      in ((SET_PH_LEN len pkalloc)\<lparr>pk_op := opcode, pk_daddr := cn_faddr c, pk_didx := cn_fidx c,
            pk_saddr := cn_laddr c, pk_sidx := cn_lidx c, pk_pkn := n', pk_ackn := cn_rlast c\<rparr>,
          c\<lparr>packetnumber := n', cn_racked := cn_rlast c\<rparr>))"

section \<open>Queues\<close>

definition chaos_queue :: "packet \<Rightarrow> 'a uch_sys_scheme \<Rightarrow> 'a uch_sys_scheme" where
  "chaos_queue p m = upd_uch (\<lambda>c. c\<lparr>uch11_queue := uch11_queue c @ [packet_words p]\<rparr>) m"

text \<open>
  One pass of \<open>chaos_connection_queue\<close>: \<open>False\<close> says that the window is full and the caller has to wait for at
  most five seconds.  A packet that does not go to the other side is put into one of the two queues of received
  packets.
\<close>

definition conn_queue_try :: "nat \<Rightarrow> packet \<Rightarrow> 'a local_sys_scheme \<Rightarrow> fault + bool \<times> 'a local_sys_scheme" where
  "conn_queue_try i p m =
     and_then (conn_at i m) (\<lambda>c.
       if pk_daddr p = cn_faddr c then
         if chtfull c \<and> pk_op p \<noteq> STSOP then Inr (False, m)
         else
           let c1 = (if pk_op p \<noteq> STSOP \<and> pk_didx p = cn_fidx c \<and> cmp_gt (pk_pkn p) (cn_tlast c)
                     then c\<lparr>cn_tlast := pk_pkn p\<rparr> else c)
           in Inr (True, chaos_queue p (set_conn i (c1\<lparr>lastpacket := Some p\<rparr>) m))
       else if cmp_gt (pk_pkn p) (cn_rlast c + 1)
         then Inr (True, set_conn i (c\<lparr>orderhead := orderhead c @ [p]\<rparr>) m)
       else Inr (True, set_conn i (c\<lparr>queuehead := queuehead c @ [p]\<rparr>) m))"

text \<open>After five seconds without a signal the last packet is sent once more.\<close>

definition conn_queue_timeout :: "nat \<Rightarrow> 'a local_sys_scheme \<Rightarrow> fault + 'a local_sys_scheme" where
  "conn_queue_timeout i m =
     and_then (conn_at i m) (\<lambda>c.
       case lastpacket c of
         None \<Rightarrow> Inr m
       | Some p \<Rightarrow> Inr (chaos_queue p (set_conn i (c\<lparr>lastpacket := None\<rparr>) m)))"

text \<open>
  The call by the machine's own thread.  Should the window be full there, nobody is left to open it, because the
  machine's acknowledgements come through that thread too.
\<close>

definition chaos_connection_queue :: "nat \<Rightarrow> packet \<Rightarrow> 'a local_sys_scheme \<Rightarrow> fault + 'a local_sys_scheme" where
  "chaos_connection_queue i p m =
     and_then (conn_queue_try i p m) (\<lambda>(sent, m1).
       if sent then Inr m1 else Inl (No_return ''chaos_connection_queue''))"

text \<open>One pass of \<open>chaos_connection_dequeue\<close>.\<close>

datatype dequeued = Conn_closed | Conn_wait | Conn_packet packet

definition status_due :: "lconnection \<Rightarrow> bool" where
  "status_due c \<longleftrightarrow> 3 * sint (cn_rlast c - cn_racked c) > uint (cn_rwsize c)"

definition conn_dequeue_try :: "nat \<Rightarrow> 'a local_sys_scheme \<Rightarrow> fault + dequeued \<times> 'a local_sys_scheme" where
  "conn_dequeue_try i m =
     and_then (conn_at i m) (\<lambda>c.
       if cn_state c = CSCLOSED then Inr (Conn_closed, m)
       else case queuehead c of
         [] \<Rightarrow> Inr (Conn_wait, m)
       | p # ps \<Rightarrow>
           let c1 = c\<lparr>queuehead := ps, cn_rlast := if cmp_gt (pk_pkn p) (cn_rlast c) then pk_pkn p else cn_rlast c,
                      cn_tacked := pk_ackn p\<rparr>
           in if status_due c1 then
                let (st, c2) = chaos_allocate_packet c1 STSOP 4;
                    st' = put_short 2 (cn_rwsize c2) (put_short 0 (cn_rlast c2) st)
                in Inr (Conn_packet p, chaos_queue st' (set_conn i (c2\<lparr>cn_racked := cn_rlast c2\<rparr>) m))
              else Inr (Conn_packet p, set_conn i c1 m))"

section \<open>Requests answered at once\<close>

definition simple_answer :: "nat \<Rightarrow> u16 \<Rightarrow> u16 \<Rightarrow> u16 \<Rightarrow> packet" where
  "simple_answer len server saddr sidx = (SET_PH_LEN len pkalloc)\<lparr>pk_op := ANSOP, pk_daddr := saddr, pk_didx := sidx,
     pk_saddr := server, pk_sidx := 0, pk_pkn := 0, pk_ackn := 0\<rparr>"

text \<open>Seconds from 1900 to 1970: \<open>60UL * 60 * 24 * ((1970 - 1900) * 365L + 1970 / 4 - 1900 / 4)\<close>.\<close>

definition epoch_1900 :: u64 where
  "epoch_1900 = 60 * 60 * 24 * ((1970 - 1900) * 365 + 1970 div 4 - 1900 div 4)"

definition chaos_queue_time_pkt :: "u64 \<Rightarrow> u16 \<Rightarrow> u16 \<Rightarrow> 'a local_sys_scheme \<Rightarrow> 'a local_sys_scheme" where
  "chaos_queue_time_pkt now saddr sidx m =
     chaos_queue (put_long 0 (now + epoch_1900) (simple_answer 8 (ls_addr (lsrv m)) saddr sidx)) m"

definition chaos_queue_uptime_pkt :: "u16 \<Rightarrow> u16 \<Rightarrow> 'a local_sys_scheme \<Rightarrow> 'a local_sys_scheme" where
  "chaos_queue_uptime_pkt saddr sidx m =
     chaos_queue (put_long 0 0 (simple_answer 8 (ls_addr (lsrv m)) saddr sidx)) m"

text \<open>The name is cut off after 31 characters; the identification is the subnet with the marker \<open>0x100\<close>.\<close>

definition chaos_queue_status_pkt :: "u16 \<Rightarrow> u16 \<Rightarrow> 'a local_sys_scheme \<Rightarrow> 'a local_sys_scheme" where
  "chaos_queue_status_pkt saddr sidx m =
     (let s = lsrv m; p = simple_answer (CHSTATNAME + 4) (ls_addr s) saddr sidx;
          p1 = chmove (take (CHSTATNAME - 1) (char_bytes (ls_name s))) 0 p
      in chaos_queue (put_short 34 0 (put_short 32 (drop_bit 8 (ls_addr s) OR 0x100) p1)) m)"

section \<open>Requests for a connection\<close>

text \<open>\<open>packet->pk_cdata[PH_LEN(packet->pk_phead)] = 0\<close> changes the transmit buffer.\<close>

definition put_buffer_byte :: "nat \<Rightarrow> u8 \<Rightarrow> (nat \<Rightarrow> u16) \<Rightarrow> nat \<Rightarrow> u16" where
  "put_buffer_byte i v b =
     b(i div 2 := if even i then (b (i div 2) AND 0xFF00) OR ucast v
                  else (b (i div 2) AND 0x00FF) OR push_bit 8 (ucast v))"

definition terminate_request :: "'a uch_sys_scheme \<Rightarrow> 'a uch_sys_scheme" where
  "terminate_request m =
     upd_uch (\<lambda>u. u\<lparr>uch11_xmit_buffer :=
       put_buffer_byte (16 + PH_LEN (packet_of (uch11_xmit_buffer u))) 0 (uch11_xmit_buffer u)\<rparr>) m"

text \<open>
  What the handlers of \<open>FILE\<close> and \<open>MINI\<close> share: a new connection to the sender, an \<open>OPN\<close> for the request, and the
  start of the service.  A full connection table makes \<open>allconn\<close> return a null pointer, which they use.
\<close>

definition open_service :: "service \<Rightarrow> packet \<Rightarrow> 'a local_sys_scheme \<Rightarrow> fault + 'a local_sys_scheme" where
  "open_service sv p m =
     (case allconn_local (terminate_request m) of
        (None, m1) \<Rightarrow> Inl (Out_of_bounds ''conn'')
      | (Some i, m1) \<Rightarrow>
          and_then (conn_at i m1) (\<lambda>c.
            let c1 = c\<lparr>cn_faddr := pk_saddr p, cn_fidx := pk_sidx p\<rparr>;
                (a, c2) = chaos_allocate_packet c1 OPNOP 4;
                a' = put_short 2 (cn_rwsize c2) (put_short 0 (pk_pkn p) (a\<lparr>pk_ackn := pk_pkn p\<rparr>))
            in and_then (chaos_connection_queue i a' (set_conn i (c2\<lparr>cn_racked := pk_pkn p\<rparr>) m1)) (\<lambda>m2.
               and_then (conn_at i m2) (\<lambda>c3.
                 let c4 = c3\<lparr>cn_state := CSLISTEN\<rparr>;
                     c5 = (case sv of FILE_service \<Rightarrow> c4 | MINI_service \<Rightarrow> c4\<lparr>cn_rlast := 1\<rparr>);
                     m3 = set_conn i c5 m2
                 in Inr (m3\<lparr>lsrv := lsrv m3\<lparr>ls_started := ls_started (lsrv m3) @ [(sv, i)]\<rparr>\<rparr>)))))"

definition chaos_queue_file_pkt :: "packet \<Rightarrow> 'a local_sys_scheme \<Rightarrow> fault + 'a local_sys_scheme" where
  "chaos_queue_file_pkt p m = open_service FILE_service p m"

definition chaos_queue_mini_pkt :: "packet \<Rightarrow> 'a local_sys_scheme \<Rightarrow> fault + 'a local_sys_scheme" where
  "chaos_queue_mini_pkt p m = open_service MINI_service p m"

section \<open>What the machine sends\<close>

text \<open>The copy of the transmit buffer into the receive buffer, for loopback and for packets to the own address.\<close>

definition receive_own :: "'a uch_sys_scheme \<Rightarrow> 'a uch_sys_scheme" where
  "receive_own m =
     uch11_rx_pkt (upd_uch (\<lambda>u.
       u\<lparr>uch11_rcv_buffer := copy_in (uch11_rcv_buffer u) 0 (uch11_xmit_buffer_size u) (uch11_xmit_buffer u),
         uch11_rcv_buffer_size := uch11_xmit_buffer_size u, uch11_rcv_buffer_empty := False\<rparr>) m)"

definition contact_is :: "string \<Rightarrow> packet \<Rightarrow> bool" where
  "contact_is name p \<longleftrightarrow> pk_string p (length name) = char_bytes name"

definition local_rfc :: "u64 \<Rightarrow> packet \<Rightarrow> 'a local_sys_scheme \<Rightarrow> fault + 'a local_sys_scheme" where
  "local_rfc now p m =
     (if contact_is ''STATUS'' p then Inr (chaos_queue_status_pkt (pk_saddr p) (pk_sidx p) m)
      else if contact_is ''TIME'' p then Inr (chaos_queue_time_pkt now (pk_saddr p) (pk_sidx p) m)
      else if contact_is ''UPTIME'' p then Inr (chaos_queue_uptime_pkt (pk_saddr p) (pk_sidx p) m)
      else if contact_is ''FILE'' p then chaos_queue_file_pkt p m
      else if contact_is ''MINI'' p then chaos_queue_mini_pkt p m
      else and_then (in_bounds 512 (PH_LEN p) ''buffer'') (\<lambda>_. Inr m))"

definition local_sns :: "nat \<Rightarrow> lconnection \<Rightarrow> packet \<Rightarrow> 'a local_sys_scheme \<Rightarrow> fault + 'a local_sys_scheme" where
  "local_sns i c p m =
     (let c1 = c\<lparr>cn_faddr := pk_saddr p, cn_fidx := pk_sidx p,
                 cn_tacked := if cmp_gt (pk_ackn p) (cn_tacked c) then pk_ackn p else cn_tacked c\<rparr>;
          st = (SET_PH_LEN 4 pkalloc)\<lparr>pk_op := STSOP, pk_daddr := pk_saddr p, pk_didx := pk_sidx p,
                 pk_saddr := cn_laddr c, pk_sidx := cn_lidx c, pk_pkn := pk_pkn p, pk_ackn := cn_racked c\<rparr>
      in chaos_connection_queue i (put_short 2 (cn_rwsize c) (put_short 0 (cn_racked c) st)) (set_conn i c1 m))"

definition local_sts :: "packet \<Rightarrow> lconnection \<Rightarrow> lconnection" where
  "local_sts p c =
     (let tacked = (if cmp_gt (pk_ackn p) (cn_tacked c) then pk_ackn p else cn_tacked c)
      in c\<lparr>cn_tacked := tacked,
           lastpacket := (case lastpacket c of
                            None \<Rightarrow> None
                          | Some l \<Rightarrow> if tacked = pk_pkn l then None else Some l),
           cn_state := CSOPEN, cn_twsize := data_short p 1\<rparr>)"

text \<open>A packet the server has read already: a status, and nothing else.\<close>

definition local_duplicate :: "nat \<Rightarrow> lconnection \<Rightarrow> packet \<Rightarrow> 'a local_sys_scheme \<Rightarrow> fault + 'a local_sys_scheme" where
  "local_duplicate i c p m =
     (let (st, c1) = chaos_allocate_packet c STSOP 4;
          st' = put_short 2 (cn_rwsize c1) (put_short 0 (cn_rlast c1) (st\<lparr>pk_pkn := pk_pkn p\<rparr>))
      in chaos_connection_queue i st' (set_conn i (c1\<lparr>cn_racked := cn_rlast c1\<rparr>) m))"

text \<open>
  \<open>nap\<close> is what the other threads do while \<open>CLSOP\<close> waits a tenth of a second before it releases the connection;
  \<open>now\<close> is the time of day.
\<close>

definition local_packet :: "('a local_sys_scheme \<Rightarrow> 'a local_sys_scheme) \<Rightarrow> u64 \<Rightarrow> packet \<Rightarrow> packet \<Rightarrow>
    'a local_sys_scheme \<Rightarrow> fault + 'a local_sys_scheme" where
  "local_packet nap now p copy m =
     (let found = chaos_find_connection (pk_didx p) (lsrv m);
          conn = Option.bind found (\<lambda>i. map_option (Pair i) (ls_conntab (lsrv m) i))
      in if pk_op p = RFCOP then
           (case conn of
              Some (i, c) \<Rightarrow> if cn_state c = CSLISTEN then Inr m else chaos_connection_queue i copy m
            | None \<Rightarrow> local_rfc now p m)
         else if pk_op p = STSOP then
           (case conn of Some (i, c) \<Rightarrow> Inr (set_conn i (local_sts p c) m) | None \<Rightarrow> Inr m)
         else (case conn of
             None \<Rightarrow> Inr m
           | Some (i, c) \<Rightarrow>
               if pk_op p = SNSOP then local_sns i c p m
               else if pk_op p = CLSOP then
                 Inr (rlsconn_local i (nap (set_conn i (c\<lparr>cn_state := CSCLOSED\<rparr>) m)))
               else if cmp_gt (cn_rlast c) (pk_pkn p) \<or> cn_rlast c = pk_pkn p then local_duplicate i c p m
               else chaos_connection_queue i copy m))"

definition chaos_send_to_local :: "('a local_sys_scheme \<Rightarrow> 'a local_sys_scheme) \<Rightarrow> u64 \<Rightarrow> 'a local_sys_scheme \<Rightarrow>
    fault + 'a local_sys_scheme" where
  "chaos_send_to_local nap now m =
     (if uch11_csr (uch m) AND 2 \<noteq> 0 then Inr (receive_own m)
      else
        let b = uch11_xmit_buffer (uch m); p = packet_of b;
            m1 = (if pk_daddr p = uch11_myaddr (uch m) then receive_own m else m)
        in if pk_daddr p \<noteq> ls_addr (lsrv m1) then Inr m1
           else local_packet nap now p (copy_of_packet b (uch11_xmit_buffer_size (uch m1))) m1)"

text \<open>\<open>uch11_xmit_pkt\<close> with this backend as \<open>uch11_send\<close>.\<close>

definition uch11_xmit_local :: "('a local_sys_scheme \<Rightarrow> 'a local_sys_scheme) \<Rightarrow> u64 \<Rightarrow> 'a local_sys_scheme \<Rightarrow>
    fault + 'a local_sys_scheme" where
  "uch11_xmit_local nap now m0 =
     (let m = idle_activity m0; c = uch m; n = uch11_xmit_buffer_ptr c in
      and_then (in_bounds 4096 n ''uch11_xmit_buffer'') (\<lambda>_.
        let b1 = (uch11_xmit_buffer c)(n := uch11_myaddr c)
        in and_then (in_bounds 4096 (n + 1) ''uch11_xmit_buffer'') (\<lambda>_.
             let b2 = b1(n + 1 := uch11_checksum (word_bytes (buffer_words b1 (n + 1))));
                 m1 = m\<lparr>uch := c\<lparr>uch11_xmit_buffer := b2, uch11_xmit_buffer_size := n + 2\<rparr>\<rparr>
             in and_then (chaos_send_to_local nap now m1) (\<lambda>m2.
                  Inr (uch11_xmit_done_intr (upd_uch (\<lambda>c. c\<lparr>uch11_xmit_buffer_ptr := 0\<rparr>) m2))))))"

end
