(* ===== verification/Local_Properties.thy ===== *)
theory Local_Properties
  imports Local_Server Uch11_Packets Zero_State
begin

text \<open>
  What the server behind the local backend does: answers reach the receive buffer of the machine, requests open
  connections, and what happens to packets that come early or twice.
\<close>

unbundle bit_operations_syntax

section \<open>Packets as words\<close>

lemma packet_header_length [simp]: "length (packet_header p) = 8"
  by (simp add: packet_header_def)

lemma packet_words_length: "length (packet_words p) = 8 + (PH_LEN p + 1) div 2"
  by (simp add: packet_words_def)

lemma packet_words_fields:
  "pkt_word (packet_words p) 1 = pk_lenfc p" "pkt_word (packet_words p) 2 = pk_daddr p"
  "pkt_word (packet_words p) 4 = pk_saddr p"
  by (simp_all add: pkt_word_def packet_words_def packet_header_def)

lemma pkt_size_packet_words: "pkt_size (packet_words p) = length (packet_words p)"
proof -
  have "unat (pk_lenfc p AND 0xFFF) = PH_LEN p"
    by (simp add: PH_LEN_def)
  then have "pkt_size (packet_words p) = (PH_LEN p + 16 + 1) div 2"
    by (simp only: pkt_size_def packet_words_fields)
  then show ?thesis
    by (simp add: packet_words_length)
qed

lemma map_pkt_word: "map (\<lambda>i. f (pkt_word ws i)) [0..<length ws] = map f ws"
  by (rule nth_equalityI) (simp_all add: pkt_word_def)

text \<open>What the processor reads when the packet at the head of the queue is for its machine.\<close>

lemma receive_packet:
  assumes "uch11_rcv_buffer_empty (uch m)" "uch11_csr (uch m) AND 0x10 \<noteq> 0"
    and "uch11_queue (uch m) = packet_words p # ps" "pk_daddr p = uch11_myaddr (uch m)"
  shows "popped (\<lambda>m. projr (uch11_get_rcv_buffer m)) (length (packet_words p) + 3) (uch11_poll m) =
      map ucast (packet_words p @ [pk_daddr p, pk_saddr p, 0])"
    and "uch11_csr (uch (uch11_poll m)) AND 0x8000 \<noteq> 0"
  using receive [of m "packet_words p" ps] assms
  by (simp_all add: packet_words_fields pkt_size_packet_words map_pkt_word)

text \<open>The packet that lies in the transmit buffer after the processor has written words.\<close>

lemma xmit_buffer_words:
  assumes "uch11_xmit_buffer_ptr (uch m) = 0" "length vs \<le> 4096" "i < length vs"
  shows "uch11_xmit_buffer (uch (fold uch11_put_xmit_buffer vs m)) i = vs ! i"
proof -
  have "buffer_words (uch11_xmit_buffer (uch (fold uch11_put_xmit_buffer vs m))) (length vs) = vs"
    using put_words [of m vs] assms by (simp add: buffer_words_def)
  then have "buffer_words (uch11_xmit_buffer (uch (fold uch11_put_xmit_buffer vs m))) (length vs) ! i = vs ! i"
    by simp
  then show ?thesis
    using assms(3) by (simp add: buffer_words_def)
qed

lemma put_words_frame:
  "uch11_myaddr (uch (fold uch11_put_xmit_buffer vs m)) = uch11_myaddr (uch m) \<and>
   uch11_queue (uch (fold uch11_put_xmit_buffer vs m)) = uch11_queue (uch m) \<and>
   uch11_rcv_buffer_empty (uch (fold uch11_put_xmit_buffer vs m)) = uch11_rcv_buffer_empty (uch m) \<and>
   uch11_csr (uch (fold uch11_put_xmit_buffer vs m)) AND 0x12 = uch11_csr (uch m) AND 0x12"
proof (induction vs arbitrary: m)
  case (Cons v vs)
  have "NOT 0x80 AND 0x12 = (0x12 :: u32)"
    by simp
  then have "uch11_csr (uch (uch11_put_xmit_buffer v m)) AND 0x12 = uch11_csr (uch m) AND 0x12"
    by (simp add: uch11_put_xmit_buffer_def upd_uch_def Let_def and.assoc)
  then show ?case
    using Cons.IH [of "uch11_put_xmit_buffer v m"] by (simp add: uch11_put_xmit_buffer_def upd_uch_def Let_def)
qed simp

lemma put_words_lsrv:
  fixes m :: "'a local_sys_scheme"
  shows "lsrv (fold uch11_put_xmit_buffer vs m) = lsrv m"
proof (induction vs arbitrary: m)
  case (Cons v vs)
  have "lsrv (uch11_put_xmit_buffer v m) = lsrv m"
    by (simp add: uch11_put_xmit_buffer_def upd_uch_def)
  with Cons.IH show ?case by simp
qed simp

section \<open>A request and its answer\<close>

lemma and_submask:
  assumes "x AND (m :: u32) = y AND m" "k AND m = k"
  shows "x AND k = y AND k"
proof -
  have k: "z AND k = (z AND m) AND k" for z
    using assms(2) by (simp only: and.assoc and.commute [of m])
  show ?thesis
    by (simp only: k [of x] k [of y] assms(1))
qed

lemma xmit_done_fields:
  fixes m :: "'a local_sys_scheme"
  shows "uch11_myaddr (uch (uch11_xmit_done_intr m)) = uch11_myaddr (uch m)"
  "uch11_queue (uch (uch11_xmit_done_intr m)) = uch11_queue (uch m)"
  "uch11_rcv_buffer_empty (uch (uch11_xmit_done_intr m)) = uch11_rcv_buffer_empty (uch m)"
  "uch11_csr (uch (uch11_xmit_done_intr m)) = uch11_csr (uch m) OR 0x80"
  "lsrv (uch11_xmit_done_intr m) = lsrv m"
  by (simp_all add: uch11_xmit_done_intr_def Let_def upd_uch_def assert_unibus_interrupt_def
      set_interrupt_status_reg_def)

lemma request_answered:
  fixes m :: "'a local_sys_scheme"
  assumes m: "uch11_xmit_buffer_ptr (uch m) = 0" "length vs \<le> 4094" "uch11_rcv_buffer_empty (uch m)"
    "uch11_queue (uch m) = []" "uch11_csr (uch m) AND 0x12 = 0x10"
    and p: "pk_daddr p = uch11_myaddr (uch m)"
    and send: "\<And>m1 :: 'a local_sys_scheme. lsrv m1 = lsrv m \<Longrightarrow> uch11_myaddr (uch m1) = uch11_myaddr (uch m) \<Longrightarrow>
      uch11_csr (uch m1) AND 0x12 = 0x10 \<Longrightarrow> (\<And>i. i < length vs \<Longrightarrow> uch11_xmit_buffer (uch m1) i = vs ! i) \<Longrightarrow>
      chaos_send_to_local nap now m1 = Inr (chaos_queue p m1)"
  shows "\<exists>m'. uch11_xmit_local nap now (fold uch11_put_xmit_buffer vs m) = Inr m' \<and>
    popped (\<lambda>m. projr (uch11_get_rcv_buffer m)) (length (packet_words p) + 3) (uch11_poll m') =
      map ucast (packet_words p @ [pk_daddr p, pk_saddr p, 0]) \<and>
    uch11_csr (uch (uch11_poll m')) AND 0x8000 \<noteq> 0 \<and> lsrv m' = lsrv m"
proof -
  let ?m = "fold uch11_put_xmit_buffer vs m"
  let ?n = "length vs"
  have f: "uch11_myaddr (uch ?m) = uch11_myaddr (uch m)" "uch11_queue (uch ?m) = []"
    "uch11_rcv_buffer_empty (uch ?m)" "uch11_csr (uch ?m) AND 0x12 = 0x10" "uch11_xmit_buffer_ptr (uch ?m) = ?n"
    using put_words_frame [of vs m] put_words [of m vs] m by simp_all
  let ?idle = "idle_activity ?m"
  have idle: "uch ?idle = uch ?m" "lsrv ?idle = lsrv m"
    using put_words_lsrv [of vs m] by (simp_all add: idle_activity_def)
  define b1 where "b1 = (uch11_xmit_buffer (uch ?m))(?n := uch11_myaddr (uch ?m))"
  define b2 where "b2 = b1(?n + 1 := uch11_checksum (word_bytes (buffer_words b1 (?n + 1))))"
  define m1 where "m1 = ?idle\<lparr>uch := (uch ?m)\<lparr>uch11_xmit_buffer := b2, uch11_xmit_buffer_size := ?n + 2\<rparr>\<rparr>"
  have "uch11_xmit_buffer (uch m1) i = vs ! i" if "i < ?n" for i
    using xmit_buffer_words [of m vs i] that m(1,2) by (simp add: m1_def b2_def b1_def)
  then have sent: "chaos_send_to_local nap now m1 = Inr (chaos_queue p m1)"
    by (intro send) (simp_all add: m1_def idle f)
  define m2 where "m2 = upd_uch (\<lambda>c. c\<lparr>uch11_xmit_buffer_ptr := 0\<rparr>) (chaos_queue p m1)"
  have m2: "uch11_queue (uch m2) = [packet_words p]" "uch11_myaddr (uch m2) = uch11_myaddr (uch m)"
    "uch11_rcv_buffer_empty (uch m2)" "uch11_csr (uch m2) = uch11_csr (uch ?m)" "lsrv m2 = lsrv m"
    by (simp_all add: m2_def chaos_queue_def upd_uch_def m1_def f idle)
  have xmit: "uch11_xmit_local nap now ?m = Inr (uch11_xmit_done_intr m2)"
    using m(2) by (simp only: uch11_xmit_local_def Let_def idle_activity_slots f(5) in_bounds_ok and_then.simps
      b1_def [symmetric] b2_def [symmetric] m1_def [symmetric] sent m2_def [symmetric])
  have "(uch11_csr (uch ?m) OR 0x80) AND 0x10 = uch11_csr (uch ?m) AND 0x10"
    by (simp add: bit.conj_disj_distrib2)
  also have "\<dots> = 0x10 AND 0x10"
    by (rule and_submask [of _ "0x12"]) (simp_all add: f(4))
  finally have enable: "uch11_csr (uch (uch11_xmit_done_intr m2)) AND 0x10 \<noteq> 0"
    by (simp add: xmit_done_fields m2)
  show ?thesis
    using receive_packet [of "uch11_xmit_done_intr m2" p "[]"] enable p
    by (simp add: xmit xmit_done_fields m2)
qed

text \<open>The fields of a packet in the transmit buffer.\<close>

lemma packet_of_fields:
  "pk_op (packet_of b) = ucast (drop_bit 8 (b 0))" "pk_lenfc (packet_of b) = b 1" "pk_daddr (packet_of b) = b 2"
  "pk_didx (packet_of b) = b 3" "pk_saddr (packet_of b) = b 4" "pk_sidx (packet_of b) = b 5"
  "pk_pkn (packet_of b) = b 6" "pk_ackn (packet_of b) = b 7" "pk_data (packet_of b) i = buffer_byte b (16 + i)"
  by (simp_all add: packet_of_def)

lemma short_of_bytes: "push_bit 8 (ucast (ucast (drop_bit 8 w) :: u8)) OR ucast (ucast w :: u8) = (w :: u16)"
  by (rule bit_word_eqI) (auto simp: bit_simps)

lemma data_short_put_long:
  "k < 4 \<Longrightarrow> data_short (put_long 0 v p) k = ucast (drop_bit (16 * k) v)"
  by (rule bit_word_eqI) (auto simp: data_short_def put_long_def bit_simps)

lemma time_answer_words:
  "packet_words (put_long 0 v (simple_answer 8 server saddr sidx)) =
    [0x0500, 8, saddr, sidx, server, 0, 0, 0,
     ucast v, ucast (drop_bit 16 v), ucast (drop_bit 32 v), ucast (drop_bit 48 v)]"
proof -
  let ?p = "put_long 0 v (simple_answer 8 server saddr sidx)"
  have "pk_lenfc ?p = 8"
    by (simp add: put_long_def simple_answer_def SET_PH_LEN_def set_len_expr_def pkalloc_def Let_def)
  then have head: "packet_header ?p = [0x0500, 8, saddr, sidx, server, 0, 0, 0]" and "PH_LEN ?p = 8"
    by (simp_all add: packet_header_def PH_LEN_def) (simp_all add: put_long_def simple_answer_def SET_PH_LEN_def
      set_len_expr_def pkalloc_def Let_def)
  then have "packet_words ?p = [0x0500, 8, saddr, sidx, server, 0, 0, 0] @ map (data_short ?p) [0..<4]"
    by (simp add: packet_words_def)
  also have "map (data_short ?p) [0..<4] = [data_short ?p 0, data_short ?p 1, data_short ?p 2, data_short ?p 3]"
    by (simp add: upt_rec numeral_2_eq_2 numeral_3_eq_3)
  finally show ?thesis
    using data_short_put_long [of 0] data_short_put_long [of 1] data_short_put_long [of 2] data_short_put_long [of 3]
    by simp
qed

text \<open>A request for the time: the words the processor writes, with the contact name \<open>TIME\<close>.\<close>

definition time_request :: "u16 \<Rightarrow> u16 \<Rightarrow> u16 \<Rightarrow> u16 list" where
  "time_request server saddr sidx = [0x0100, 4, server, 0, saddr, sidx, 1, 0, 0x4954, 0x454D, server]"

lemma first_indices: "[0..<4] = [0, 1, 2, 3 :: nat]" "[0..<6] = [0, 1, 2, 3, 4, 5 :: nat]"
  by (simp_all add: upt_rec numeral_eq_Suc)

lemma contact_words:
  assumes "b 8 = 0x4954" "b 9 = 0x454D"
  shows "contact_is ''TIME'' (packet_of b)" "\<not> contact_is ''STATUS'' (packet_of b)"
  using assms
  by (simp_all add: contact_is_def pk_string_def packet_of_fields buffer_byte_def char_bytes_def first_indices of_char_def)

lemma time_request_sent:
  fixes m :: "'a local_sys_scheme"
  assumes m: "uch11_csr (uch m) AND 0x12 = 0x10" "uch11_myaddr (uch m) \<noteq> ls_addr (lsrv m)"
    "chaos_find_connection 0 (lsrv m) = None"
    and b: "\<And>i. i < 11 \<Longrightarrow> uch11_xmit_buffer (uch m) i = time_request (ls_addr (lsrv m)) saddr sidx ! i"
  shows "chaos_send_to_local nap now m =
    Inr (chaos_queue (put_long 0 (now + epoch_1900) (simple_answer 8 (ls_addr (lsrv m)) saddr sidx)) m)"
proof -
  let ?b = "uch11_xmit_buffer (uch m)"
  have w: "?b 0 = 0x0100" "?b 2 = ls_addr (lsrv m)" "?b 3 = 0" "?b 4 = saddr" "?b 5 = sidx" "?b 8 = 0x4954" "?b 9 = 0x454D"
    using b [of 0] b [of 2] b [of 3] b [of 4] b [of 5] b [of 8] b [of 9] by (simp_all add: time_request_def)
  have "uch11_csr (uch m) AND 2 = 0x10 AND 2"
    by (rule and_submask [of _ "0x12"]) (simp_all add: m)
  then show ?thesis
    using m(2,3)
    by (simp add: chaos_send_to_local_def Let_def packet_of_fields w local_packet_def local_rfc_def
        contact_words chaos_queue_time_pkt_def)
qed

text \<open>
  C3: The local server answers a request for the time: when nothing is queued for the machine, its receiver is enabled and not in
  loopback mode, and the request is for no connection of the server, the processor that writes the words of the request, transmits
  and polls reads an answer packet (ANS) from the server with the seconds since 1900 in its data, followed by the hardware's
  addresses, and finds receive done set.
\<close>

theorem time_service:
  fixes m :: "'a local_sys_scheme"
  assumes m: "uch11_xmit_buffer_ptr (uch m) = 0" "uch11_rcv_buffer_empty (uch m)" "uch11_queue (uch m) = []"
    "uch11_csr (uch m) AND 0x12 = 0x10"
    and a: "myaddr = uch11_myaddr (uch m)" "server = ls_addr (lsrv m)" "myaddr \<noteq> server"
    "chaos_find_connection 0 (lsrv m) = None"
    and t: "t = now + 2208988800"
  shows "\<exists>m'. uch11_xmit_local nap now (fold uch11_put_xmit_buffer (time_request server myaddr sidx) m) = Inr m' \<and>
    popped (\<lambda>m. projr (uch11_get_rcv_buffer m)) 15 (uch11_poll m') =
      map ucast [0x0500, 8, myaddr, sidx, server, 0, 0, 0,
        ucast t, ucast (drop_bit 16 t), ucast (drop_bit 32 t), ucast (drop_bit 48 t), myaddr, server, 0 :: u16] \<and>
    uch11_csr (uch (uch11_poll m')) AND 0x8000 \<noteq> 0"
proof -
  let ?p = "put_long 0 t (simple_answer 8 server myaddr sidx)"
  have t': "now + epoch_1900 = t"
    by (simp add: t epoch_1900_def)
  have send: "chaos_send_to_local nap now m1 = Inr (chaos_queue ?p m1)"
    if "lsrv m1 = lsrv m" "uch11_myaddr (uch m1) = uch11_myaddr (uch m)" "uch11_csr (uch m1) AND 0x12 = 0x10"
      "\<And>i. i < length (time_request server myaddr sidx) \<Longrightarrow>
        uch11_xmit_buffer (uch m1) i = time_request server myaddr sidx ! i" for m1 :: "'a local_sys_scheme"
    using time_request_sent [of m1 myaddr sidx nap now] that a by (simp add: t' time_request_def)
  have fields: "pk_daddr ?p = myaddr" "pk_saddr ?p = server" and dest: "pk_daddr ?p = uch11_myaddr (uch m)"
    by (simp_all add: put_long_def simple_answer_def a)
  have size: "length (time_request server myaddr sidx) \<le> 4094"
    by (simp add: time_request_def)
  have len: "length (packet_words ?p) + 3 = 15"
    by (simp add: time_answer_words)
  have words: "packet_words ?p @ [myaddr, server, 0] = [0x0500, 8, myaddr, sidx, server, 0, 0, 0,
      ucast t, ucast (drop_bit 16 t), ucast (drop_bit 32 t), ucast (drop_bit 48 t), myaddr, server, 0]"
    by (simp add: time_answer_words)
  have "\<exists>m'. uch11_xmit_local nap now (fold uch11_put_xmit_buffer (time_request server myaddr sidx) m) = Inr m' \<and>
    popped (\<lambda>m. projr (uch11_get_rcv_buffer m)) (length (packet_words ?p) + 3) (uch11_poll m') =
      map ucast (packet_words ?p @ [pk_daddr ?p, pk_saddr ?p, 0]) \<and>
    uch11_csr (uch (uch11_poll m')) AND 0x8000 \<noteq> 0 \<and> lsrv m' = lsrv m"
    by (rule request_answered [OF m(1) size m(2-4) dest]) (rule send)
  then show ?thesis
    unfolding fields len words by (elim exE conjE) (intro exI conjI)
qed

text \<open>A machine with a server that knows nobody yet.\<close>

definition local_machine :: local_sys where
  "local_machine = uch_sys.extend (uch_sys.truncate zero_machine) (local_sys.fields
     \<lparr>ls_conntab = \<lambda>_. None, ls_index = 0x0101, ls_addr = 0xFE01, ls_serveraddr = 0xFE01, ls_name = ''LOCAL'',
      ls_started = []\<rparr>)\<lparr>uch := zero_uch11\<lparr>uch11_myaddr := 0xFE20, uch11_csr := 0x30, uch11_rcv_buffer_empty := True\<rparr>\<rparr>"

lemma local_machine_fields:
  "uch local_machine = zero_uch11\<lparr>uch11_myaddr := 0xFE20, uch11_csr := 0x30, uch11_rcv_buffer_empty := True\<rparr>"
  "lsrv local_machine = \<lparr>ls_conntab = \<lambda>_. None, ls_index = 0x0101, ls_addr = 0xFE01, ls_serveraddr = 0xFE01,
     ls_name = ''LOCAL'', ls_started = []\<rparr>"
  by (simp_all add: local_machine_def uch_sys.defs local_sys.defs)

theorem time_service_witness:
  "\<exists>m'. uch11_xmit_local (\<lambda>m. m) 0x5000 (fold uch11_put_xmit_buffer (time_request 0xFE01 0xFE20 0x77) local_machine) = Inr m' \<and>
    popped (\<lambda>m. projr (uch11_get_rcv_buffer m)) 15 (uch11_poll m') =
      [0x0500, 8, 0xFE20, 0x77, 0xFE01, 0, 0, 0, 0xCE80, 0x83AA, 0, 0, 0xFE20, 0xFE01, 0]"
proof -
  have m: "uch11_xmit_buffer_ptr (uch local_machine) = 0" "uch11_rcv_buffer_empty (uch local_machine)"
    "uch11_queue (uch local_machine) = []" "uch11_csr (uch local_machine) AND 0x12 = 0x10"
    "0xFE20 = uch11_myaddr (uch local_machine)" "0xFE01 = ls_addr (lsrv local_machine)"
    "chaos_find_connection 0 (lsrv local_machine) = None"
    by (simp_all add: local_machine_fields zero_uch11_def chaos_find_connection_def find_None_iff)
  have t: "(0x83AACE80 :: u64) = 0x5000 + 2208988800"
    by simp
  from time_service [OF m(1-6) _ m(7) t, where nap = "\<lambda>m. m" and sidx = "0x77"] show ?thesis
    by simp blast
qed

section \<open>Packets that come early or twice\<close>

lemma queue_received:
  "ls_conntab (lsrv m) i = Some c \<Longrightarrow> pk_daddr p \<noteq> cn_faddr c \<Longrightarrow>
    chaos_connection_queue i p m =
      Inr (set_conn i (if cmp_gt (pk_pkn p) (cn_rlast c + 1) then c\<lparr>orderhead := orderhead c @ [p]\<rparr>
                       else c\<lparr>queuehead := queuehead c @ [p]\<rparr>) m)"
  by (simp add: chaos_connection_queue_def conn_queue_try_def conn_at_def)

lemma conn_of_set_conn [simp]: "ls_conntab (lsrv (set_conn i c m)) i = Some c"
  by (simp add: set_conn_def)

lemma conn_of_chaos_queue [simp]: "lsrv (chaos_queue p m) = lsrv m"
  by (simp add: chaos_queue_def upd_uch_def)

text \<open>What a dequeue leaves of a connection: the queue without its head, and the set-aside packets as they were.\<close>

lemma dequeue_head_case:
  assumes "ls_conntab (lsrv m) i = Some c" "cn_state c \<noteq> CSCLOSED" "queuehead c = p # ps"
  shows "case conn_dequeue_try i m of Inl e \<Rightarrow> False
    | Inr (d, m') \<Rightarrow> d = Conn_packet p \<and> (case ls_conntab (lsrv m') i of None \<Rightarrow> False
        | Some c' \<Rightarrow> queuehead c' = ps \<and> orderhead c' = orderhead c \<and> cn_state c' = cn_state c \<and>
            cn_rlast c' = (if cmp_gt (pk_pkn p) (cn_rlast c) then pk_pkn p else cn_rlast c))"
  using assms by (simp add: conn_dequeue_try_def conn_at_def chaos_allocate_packet_def Let_def)

lemma dequeue_head:
  assumes "ls_conntab (lsrv m) i = Some c" "cn_state c \<noteq> CSCLOSED" "queuehead c = p # ps"
  obtains m' c' where "conn_dequeue_try i m = Inr (Conn_packet p, m')" "ls_conntab (lsrv m') i = Some c'"
    "queuehead c' = ps" "orderhead c' = orderhead c" "cn_state c' = cn_state c"
    "cn_rlast c' = (if cmp_gt (pk_pkn p) (cn_rlast c) then pk_pkn p else cn_rlast c)"
  using dequeue_head_case [OF assms] that by (auto split: sum.splits option.splits)

lemma dequeue_empty:
  "ls_conntab (lsrv m) i = Some c \<Longrightarrow> cn_state c \<noteq> CSCLOSED \<Longrightarrow> queuehead c = [] \<Longrightarrow>
    conn_dequeue_try i m = Inr (Conn_wait, m)"
  by (simp add: conn_dequeue_try_def conn_at_def)

text \<open>
  The server neither reorders nor recognises what it has not read yet.  Of two packets that arrive in order before
  its thread has read the first, the second is set aside and no read returns it; and a packet that arrives twice
  before it is read is read twice.
\<close>

lemma early_packet_set_aside:
  assumes c: "ls_conntab (lsrv m) i = Some c" "cn_state c \<noteq> CSCLOSED" "queuehead c = []"
    and p: "pk_daddr p \<noteq> cn_faddr c" "pk_pkn p = cn_rlast c + 1"
    and q: "pk_daddr q \<noteq> cn_faddr c" "pk_pkn q = cn_rlast c + 2"
  shows "(\<exists>m1 m2 m3. chaos_connection_queue i p m = Inr m1 \<and> chaos_connection_queue i q m1 = Inr m2 \<and>
      conn_dequeue_try i m2 = Inr (Conn_packet p, m3) \<and> conn_dequeue_try i m3 = Inr (Conn_wait, m3)) \<and>
    (\<exists>m1 m2 m3 m4. chaos_connection_queue i p m = Inr m1 \<and> chaos_connection_queue i p m1 = Inr m2 \<and>
      conn_dequeue_try i m2 = Inr (Conn_packet p, m3) \<and> conn_dequeue_try i m3 = Inr (Conn_packet p, m4) \<and>
      conn_dequeue_try i m4 = Inr (Conn_wait, m4))"
proof -
  let ?c1 = "c\<lparr>queuehead := [p]\<rparr>"
  define m1 where "m1 = set_conn i ?c1 m"
  have m1: "chaos_connection_queue i p m = Inr m1" "ls_conntab (lsrv m1) i = Some ?c1"
    using queue_received [of m i c p] c p by (simp_all add: m1_def cmp_gt_def)
  have far: "cmp_gt (pk_pkn q) (cn_rlast c + 1)"
  proof -
    have "cn_rlast c + 1 - (cn_rlast c + 2) = (0xFFFF :: u16)"
      by simp
    then show ?thesis
      by (simp add: cmp_gt_def q(2))
  qed
  let ?c2 = "c\<lparr>queuehead := [p], orderhead := orderhead c @ [q]\<rparr>"
  have m2: "chaos_connection_queue i q m1 = Inr (set_conn i ?c2 m1)"
    using queue_received [OF m1(2), of q] q far by simp
  obtain m3 c3 where m3: "conn_dequeue_try i (set_conn i ?c2 m1) = Inr (Conn_packet p, m3)"
    "ls_conntab (lsrv m3) i = Some c3" "queuehead c3 = []" "cn_state c3 = cn_state c"
    by (rule dequeue_head [of "set_conn i ?c2 m1" i ?c2 p "[]"]) (use c in auto)
  have "conn_dequeue_try i m3 = Inr (Conn_wait, m3)"
    using dequeue_empty [OF m3(2)] m3 c(2) by simp
  then have early: "\<exists>m1 m2 m3. chaos_connection_queue i p m = Inr m1 \<and> chaos_connection_queue i q m1 = Inr m2 \<and>
      conn_dequeue_try i m2 = Inr (Conn_packet p, m3) \<and> conn_dequeue_try i m3 = Inr (Conn_wait, m3)"
    using m1 m2 m3 by blast
  let ?d2 = "c\<lparr>queuehead := [p, p]\<rparr>"
  have d2: "chaos_connection_queue i p m1 = Inr (set_conn i ?d2 m1)"
    using queue_received [OF m1(2), of p] p by (simp add: cmp_gt_def)
  obtain d3 e3 where d3: "conn_dequeue_try i (set_conn i ?d2 m1) = Inr (Conn_packet p, d3)"
    "ls_conntab (lsrv d3) i = Some e3" "queuehead e3 = [p]" "cn_state e3 = cn_state c"
    by (rule dequeue_head [of "set_conn i ?d2 m1" i ?d2 p "[p]"]) (use c in auto)
  obtain d4 e4 where d4: "conn_dequeue_try i d3 = Inr (Conn_packet p, d4)"
    "ls_conntab (lsrv d4) i = Some e4" "queuehead e4 = []" "cn_state e4 = cn_state c"
    by (rule dequeue_head [OF d3(2) _ d3(3)]) (use d3 c in auto)
  have "conn_dequeue_try i d4 = Inr (Conn_wait, d4)"
    using dequeue_empty [OF d4(2)] d4 c(2) by simp
  then have twice: "\<exists>m1 m2 m3 m4. chaos_connection_queue i p m = Inr m1 \<and> chaos_connection_queue i p m1 = Inr m2 \<and>
      conn_dequeue_try i m2 = Inr (Conn_packet p, m3) \<and> conn_dequeue_try i m3 = Inr (Conn_packet p, m4) \<and>
      conn_dequeue_try i m4 = Inr (Conn_wait, m4)"
    using m1 d2 d3 d4 by blast
  show ?thesis
    using early twice by (rule conjI)
qed

end
