(* ===== verification/Ini.thy ===== *)
theory Ini
  imports C_Strings
begin

text \<open>
  The parser of configuration files (\<^verbatim>\<open>usim/ini.c\<close>), with the options of \<^verbatim>\<open>usim/ini.h\<close>: continuation lines, inline
  comments, a line buffer of 200 bytes, no stop at the first error.  A file is the list of its characters; the
  handler acts on a state of any type and may stop the process.  Files are opened by name through the parameter
  \<open>fs\<close>; the depth of the recursion through \<open>%include\<close> is bounded by the number of files that may be open, beyond which
  \<open>fopen\<close> fails.
\<close>

section \<open>Characters\<close>

text \<open>The text of a buffer up to its terminating NUL.\<close>

definition c_text :: "string \<Rightarrow> string" where
  "c_text = takeWhile (\<lambda>c. c \<noteq> CHR 0x00)"

definition rstrip :: "string \<Rightarrow> string" where
  "rstrip s = rev (dropWhile c_isspace (rev s))"

definition lskip :: "string \<Rightarrow> string" where
  "lskip s = dropWhile c_isspace s"

text \<open>
  The split of a string at the first of the characters \<open>cs\<close>, or at an inline comment: a semicolon behind
  a space.  The second part is what the returned pointer points to.
\<close>

fun find_chars_or_comment :: "bool \<Rightarrow> string \<Rightarrow> string \<Rightarrow> string \<times> string" where
  "find_chars_or_comment was_space cs [] = ([], [])"
| "find_chars_or_comment was_space cs (c # s) =
     (if c \<in> set cs \<or> was_space \<and> c = CHR '';'' then ([], c # s)
      else let (a, b) = find_chars_or_comment (c_isspace c) cs s in (c # a, b))"

definition strncpy0 :: "string \<Rightarrow> nat \<Rightarrow> string" where
  "strncpy0 src n = take (n - 1) src"

section \<open>Lines\<close>

text \<open>\<open>fgets\<close>: at most 199 characters, up to and with the newline.\<close>

abbreviation "INI_MAX_LINE \<equiv> 200 :: nat"
abbreviation "MAX_SECTION \<equiv> 50 :: nat"
abbreviation "MAX_NAME \<equiv> 50 :: nat"

fun fgets :: "nat \<Rightarrow> string \<Rightarrow> string \<times> string" where
  "fgets n [] = ([], [])"
| "fgets 0 s = ([], s)"
| "fgets (Suc n) (c # s) =
     (if c = CHR 0x0A then ([c], s) else let (a, b) = fgets n s in (c # a, b))"

lemma fgets_shorter: "length (snd (fgets n s)) \<le> length s"
  by (induction n s rule: fgets.induct) (auto simp: case_prod_beta)

function ini_lines :: "string \<Rightarrow> string list" where
  "ini_lines [] = []"
| "ini_lines (c # s) = (let (a, b) = fgets (INI_MAX_LINE - 1) (c # s) in a # ini_lines b)"
  by pat_completeness auto
termination
proof (relation "measure length")
  fix c s x a b
  assume "x = fgets (INI_MAX_LINE - 1) (c # s)" "(a, b) = x"
  then show "(b, c # s) \<in> measure length"
    using fgets_shorter [of 198 s] by (auto simp: numeral_eq_Suc case_prod_beta split: if_splits)
qed auto

section \<open>A line\<close>

text \<open>\<open>ini_parse_stream\<close>'s variables.  The error is the first line with an error, 0 if there is none.\<close>

record 'u ini_state =
  ini_section :: string
  ini_prev_name :: string
  ini_error :: int
  ini_user :: 'u

type_synonym 'u ini_handler = "string \<Rightarrow> string \<Rightarrow> string \<Rightarrow> 'u \<Rightarrow> fault + bool \<times> 'u"
type_synonym 'u ini_include = "string \<Rightarrow> 'u \<Rightarrow> fault + int \<times> 'u"

definition note_error :: "int \<Rightarrow> 'u ini_state \<Rightarrow> 'u ini_state" where
  "note_error lineno st = (if ini_error st = 0 then st\<lparr>ini_error := lineno\<rparr> else st)"

definition call_handler :: "'u ini_handler \<Rightarrow> int \<Rightarrow> string \<Rightarrow> string \<Rightarrow> 'u ini_state \<Rightarrow> fault + 'u ini_state" where
  "call_handler h lineno name value st =
     and_then (h (ini_section st) name value (ini_user st)) (\<lambda>(ok, u).
     let st1 = st\<lparr>ini_user := u\<rparr> in Inr (if ok then st1 else note_error lineno st1))"

text \<open>
  A directive.  \<open>stripped\<close> tells whether white space was stripped off the end of the line, which leaves an empty string
  behind a directive without an argument.
\<close>

definition ini_directive :: "'u ini_include \<Rightarrow> int \<Rightarrow> bool \<Rightarrow> string \<Rightarrow> 'u ini_state \<Rightarrow> fault + 'u ini_state" where
  "ini_directive inc lineno stripped start st =
     (let (pcmd, rest) = find_chars_or_comment False '' '' (tl start) in
      and_then (in_bounds 33 (length pcmd) ''pcmd'') (\<lambda>_.
      if pcmd = ''include'' then
        and_then (if rest \<noteq> [] \<or> stripped then Inr () else Inl (Out_of_bounds ''line'')) (\<lambda>_.
        and_then (inc (fst (find_chars_or_comment False [] (tl rest))) (ini_user st)) (\<lambda>(e, u).
        let st1 = st\<lparr>ini_user := u\<rparr> in Inr (if e < 0 then note_error lineno st1 else st1)))
      else Inr (note_error lineno st)))"

definition ini_section_line :: "int \<Rightarrow> string \<Rightarrow> 'u ini_state \<Rightarrow> 'u ini_state" where
  "ini_section_line lineno start st =
     (let (name, rest) = find_chars_or_comment False '']'' (tl start) in
      if rest \<noteq> [] \<and> hd rest = CHR '']''
      then st\<lparr>ini_section := strncpy0 name MAX_SECTION, ini_prev_name := []\<rparr>
      else note_error lineno st)"

definition ini_pair_line :: "'u ini_handler \<Rightarrow> int \<Rightarrow> string \<Rightarrow> 'u ini_state \<Rightarrow> fault + 'u ini_state" where
  "ini_pair_line h lineno start st =
     (let (left, rest) = find_chars_or_comment False ''=:'' start in
      if rest \<noteq> [] \<and> (hd rest = CHR ''='' \<or> hd rest = CHR '':'') then
        let name = rstrip left;
            value = rstrip (lskip (fst (find_chars_or_comment False [] (tl rest))))
        in call_handler h lineno name value (st\<lparr>ini_prev_name := strncpy0 name MAX_NAME\<rparr>)
      else Inr (note_error lineno st))"

definition ini_line :: "'u ini_include \<Rightarrow> 'u ini_handler \<Rightarrow> int \<Rightarrow> string \<Rightarrow> 'u ini_state \<Rightarrow> fault + 'u ini_state" where
  "ini_line inc h lineno raw st =
     (let line = c_text raw;
          bom = lineno = 1 \<and> take 3 line = [CHR 0xEF, CHR 0xBB, CHR 0xBF];
          line1 = (if bom then drop 3 line else line);
          start = lskip (rstrip line1)
      in if start = [] \<or> hd start = CHR '';'' \<or> hd start = CHR ''#'' then Inr st
         else if ini_prev_name st \<noteq> [] \<and> (bom \<or> c_isspace (hd line1)) then
           call_handler h lineno (ini_prev_name st) start st
         else if hd start = CHR ''%'' then ini_directive inc lineno (rstrip line1 \<noteq> line1) start st
         else if hd start = CHR ''['' then Inr (ini_section_line lineno start st)
         else ini_pair_line h lineno start st)"

section \<open>Files\<close>

fun ini_parse_lines :: "'u ini_include \<Rightarrow> 'u ini_handler \<Rightarrow> int \<Rightarrow> string list \<Rightarrow> 'u ini_state \<Rightarrow> fault + 'u ini_state" where
  "ini_parse_lines inc h n [] st = Inr st"
| "ini_parse_lines inc h n (l # ls) st = and_then (ini_line inc h (n + 1) l st) (ini_parse_lines inc h (n + 1) ls)"

definition ini_parse_stream :: "'u ini_include \<Rightarrow> 'u ini_handler \<Rightarrow> string \<Rightarrow> 'u \<Rightarrow> fault + int \<times> 'u" where
  "ini_parse_stream inc h content u =
     and_then (ini_parse_lines inc h 0 (ini_lines content)
         \<lparr>ini_section = [], ini_prev_name = [], ini_error = 0, ini_user = u\<rparr>)
       (\<lambda>st. Inr (ini_error st, ini_user st))"

fun ini_parse :: "(string \<Rightarrow> string option) \<Rightarrow> 'u ini_handler \<Rightarrow> nat \<Rightarrow> string \<Rightarrow> 'u \<Rightarrow> fault + int \<times> 'u" where
  "ini_parse fs h 0 filename u = Inr (-1, u)"
| "ini_parse fs h (Suc k) filename u =
     (case fs filename of
        None \<Rightarrow> Inr (-1, u)
      | Some content \<Rightarrow> ini_parse_stream (ini_parse fs h k) h content u)"

text \<open>Parsing a string; \<open>ini_reader_string\<close> reads lines like \<open>fgets\<close>.\<close>

definition ini_parse_string :: "(string \<Rightarrow> string option) \<Rightarrow> 'u ini_handler \<Rightarrow> nat \<Rightarrow> string \<Rightarrow> 'u \<Rightarrow> fault + int \<times> 'u" where
  "ini_parse_string fs h k str u = ini_parse_stream (ini_parse fs h k) h (c_text str) u"

end
