(* ===== verification/Ucfg.thy ===== *)
theory Ucfg
  imports Ini Complex_Main
begin

text \<open>
  The configuration of the simulator (\<^verbatim>\<open>usim/ucfg.c\<close>, \<^verbatim>\<open>usim/ucfg.defs\<close>), in the SDL3 build: the handler of
  configuration lines, the defaults, and the dump of the running configuration, with the tables of cadet key
  names (\<^verbatim>\<open>usim/sdl3-keyboard.c\<close>).  What SDL and the floating point conversions of the C library answer is
  in the parameter \<open>ucfg_env\<close>.
\<close>

unbundle bit_operations_syntax

section \<open>Numbers\<close>

text \<open>
  \<open>strtol\<close>: the value, what is left, and whether the value was out of range.  Base 0 takes the
  prefix \<open>0x\<close> or \<open>0\<close>.
\<close>

definition digit_value :: "char \<Rightarrow> nat option" where
  "digit_value c =
     (let n = of_char c :: nat in
      if 48 \<le> n \<and> n \<le> 57 then Some (n - 48)
      else if 97 \<le> n \<and> n \<le> 122 then Some (n - 87)
      else if 65 \<le> n \<and> n \<le> 90 then Some (n - 55)
      else None)"

definition is_digit_of :: "nat \<Rightarrow> char \<Rightarrow> bool" where
  "is_digit_of base c = (case digit_value c of None \<Rightarrow> False | Some d \<Rightarrow> d < base)"

fun digits_value :: "nat \<Rightarrow> nat \<Rightarrow> string \<Rightarrow> nat" where
  "digits_value base acc [] = acc"
| "digits_value base acc (c # cs) = digits_value base (acc * base + (case digit_value c of None \<Rightarrow> 0 | Some d \<Rightarrow> d)) cs"

definition c_sign :: "string \<Rightarrow> bool \<times> string" where
  "c_sign s = (case s of c # cs \<Rightarrow> if c = CHR ''-'' then (True, cs) else if c = CHR ''+'' then (False, cs) else (False, s)
                      | [] \<Rightarrow> (False, []))"

definition c_base :: "nat \<Rightarrow> string \<Rightarrow> nat \<times> string" where
  "c_base base s =
     (if base \<noteq> 0 then (base, s)
      else if length s \<ge> 3 \<and> s ! 0 = CHR ''0'' \<and> (s ! 1 = CHR ''x'' \<or> s ! 1 = CHR ''X'') \<and> is_digit_of 16 (s ! 2)
      then (16, drop 2 s)
      else if s \<noteq> [] \<and> hd s = CHR ''0'' then (8, s) else (10, s))"

definition c_strtol :: "nat \<Rightarrow> string \<Rightarrow> int \<times> string \<times> bool" where
  "c_strtol base0 s =
     (let (neg, s1) = c_sign (lskip s); (base, s2) = c_base base0 s1;
          ds = takeWhile (is_digit_of base) s2;
          v = (if neg then - int (digits_value base 0 ds) else int (digits_value base 0 ds))
      in if ds = [] then (0, s, False)
         else if v > 2 ^ 63 - 1 then (2 ^ 63 - 1, drop (length ds) s2, True)
         else if v < - (2 ^ 63) then (- (2 ^ 63), drop (length ds) s2, True)
         else (v, drop (length ds) s2, False))"

text \<open>A \<open>long\<close> stored in an \<open>int\<close>, and in a \<open>size_t\<close>.\<close>

definition to_int :: "int \<Rightarrow> int" where
  "to_int v = sint (word_of_int v :: u32)"

text \<open>\<open>sscanf\<close> with up to \<open>n\<close> conversions \<open>%d\<close>: the values that could be read.\<close>

fun scan_ints :: "nat \<Rightarrow> string \<Rightarrow> int list" where
  "scan_ints 0 s = []"
| "scan_ints (Suc n) s =
     (let (neg, s1) = c_sign (lskip s); ds = takeWhile (is_digit_of 10) s1 in
      if ds = [] then []
      else (let (v, rest, _) = c_strtol 10 s in to_int v # scan_ints n rest))"

section \<open>Key names\<close>

text \<open>\<open>sdl3-keyboard-cadet-scancodes.defs\<close>, in its order.\<close>

definition cadet_scancodes :: "(string \<times> nat) list" where
  "cadet_scancodes =
    [(''macro'', 0x40), (''terminal'', 0x20), (''quote'', 0x50), (''over_strike'', 0x70), (''clear_input'', 0x48),
     (''clear_screen'', 0x28), (''hold_output'', 0x18), (''stop_output'', 0x78), (''abort'', 0x37), (''break'', 0x77),
     (''resume'', 0x27), (''call'', 0x40),
     (''roman_i'', 0x41), (''roman_ii'', 0x01), (''system'', 0x61), (''colon'', 0x11), (''1'', 0x51), (''2'', 0x31),
     (''3'', 0x71), (''4'', 0x09), (''5'', 0x49), (''6'', 0x29), (''7'', 0x69), (''8'', 0x19), (''9'', 0x39), (''0'', 0x79),
     (''minus'', 0x59), (''equal'', 0x56), (''brace_left'', 0x76), (''brace_right'', 0x66), (''status'', 0x26),
     (''hand_up'', 0x46), (''hand_down'', 0x7E),
     (''roman_iii'', 0x42), (''roman_iv'', 0x02), (''network'', 0x22), (''tab'', 0x12), (''q'', 0x52), (''w'', 0x32),
     (''e'', 0x72), (''r'', 0x0A), (''t'', 0x4A), (''y'', 0x2A), (''u'', 0x6A), (''i'', 0x1A), (''o'', 0x3A), (''p'', 0x7A),
     (''paran_left'', 0x5A), (''paran_right'', 0x5F), (''grave'', 0x3F), (''backslash'', 0x1F), (''delete'', 0x6F),
     (''hand_left'', 0x4F), (''hand_right'', 0x0F),
     (''mode_lock'', 0x03), (''alt_mode'', 0x63), (''rubout'', 0x13), (''a'', 0x53), (''s'', 0x33), (''d'', 0x73), (''f'', 0x0B),
     (''g'', 0x4B), (''h'', 0x2B), (''j'', 0x6B), (''k'', 0x1B), (''l'', 0x3B), (''semicolon'', 0x7B), (''apostrophe'', 0x5B),
     (''return'', 0x5E), (''line'', 0x1E), (''end'', 0x6E), (''help'', 0x4E),
     (''caps_lock'', 0x55), (''top'', 0x44), (''greek'', 0x24), (''shift'', 0x14), (''z'', 0x54), (''x'', 0x34), (''c'', 0x74),
     (''v'', 0x0C), (''b'', 0x4C), (''n'', 0x2C), (''m'', 0x6C), (''comma'', 0x1C), (''period'', 0x3C), (''slash'', 0x7C),
     (''repeat'', 0x00), (''alt_lock'', 0x0D), (''hyper'', 0x65), (''super'', 0x05), (''meta'', 0x25), (''ctrl'', 0x10),
     (''space'', 0x5C)]"

text \<open>The names by scan code that \<open>sdl3_keyboard_early_init\<close> stores, a later one over an earlier one.\<close>

definition cadet_key_names :: "nat \<Rightarrow> string option" where
  "cadet_key_names = foldl (\<lambda>names (k, sc). names(sc \<mapsto> k)) [0 \<mapsto> ''null''] cadet_scancodes"

definition sdl3_keyboard_get_cadet_scancode_from_name :: "string \<Rightarrow> nat" where
  "sdl3_keyboard_get_cadet_scancode_from_name name =
     (case find (\<lambda>i. cadet_key_names i = Some name) [0..<128] of None \<Rightarrow> 0 | Some i \<Rightarrow> i)"

record ucfg_env =
  SDL_GetScancodeFromName :: "string \<Rightarrow> nat"
  SDL_GetKeyFromName :: "string \<Rightarrow> nat"
  SDL_GetScancodeFromKey :: "nat \<Rightarrow> nat"
  SDL_GetScancodeName :: "nat \<Rightarrow> string"
  c_strtod :: "string \<Rightarrow> real \<times> string \<times> bool"
  printf_g :: "real \<Rightarrow> string"

text \<open>Adding a mapping; the result tells whether SDL knows the key.\<close>

definition sdl3_keyboard_map_add :: "ucfg_env \<Rightarrow> string \<Rightarrow> nat \<Rightarrow> (nat \<Rightarrow> nat) \<Rightarrow> bool \<times> (nat \<Rightarrow> nat)" where
  "sdl3_keyboard_map_add E keycode_name scancode key_map =
     (let keycode = SDL_GetKeyFromName E keycode_name; sc = SDL_GetScancodeFromKey E keycode in
      if keycode = 0 \<or> sc = 0 then (False, key_map) else (True, key_map(sc := scancode)))"

section \<open>The configuration\<close>

text \<open>\<open>ucfg_values\<close> holds the strings of \<open>ucfg\<close>, the rest the variables of other modules that the handler sets.\<close>

record config =
  ucfg_values :: "string \<times> string \<Rightarrow> string option"
  ucfg_kbd_modifiers :: "(string \<times> string) list"
  ucfg_kbd :: "(string \<times> string) list"
  usim_fs_root_directory :: string
  tv_monitor :: nat
  window_position_x :: int
  window_position_y :: int
  window_display :: int
  window_always_on_top :: bool
  headless :: bool
  sdl3_video_scale :: real
  sdl3_video_allow_resize :: bool
  sdl3_video_linear :: bool
  sdl3_audio_beep_amplitude :: real
  sdl3_audio_use_ascii_beep :: bool
  sdl3_special_key_scancode :: nat
  cfg_memory_npages :: nat
  idle_enabled :: bool
  cfg_idle_cycles :: u64
  cfg_idle_quantum :: u64
  cfg_idle_timeout :: u64
  uch11_backend :: nat
  hybrid_udp_and_local :: bool
  trace_level :: nat
  trace_facilities :: u32
  cfg_key_map :: "nat \<Rightarrow> nat"

text \<open>The options of \<^verbatim>\<open>ucfg.defs\<close> with their defaults.\<close>

definition ucfg_options :: "(string \<times> string \<times> string option) list" where
  "ucfg_options =
    map (\<lambda>(n, d). (''usim'', n, d))
      [(''state_filename'', Some ''''), (''screenshot_filename'', Some ''''), (''sys_directory'', None),
       (''fs_root_directory'', Some ''..''), (''monitor'', Some ''other''), (''geometry'', Some ''-1 -1 -1''),
       (''always_on_top'', Some ''false''), (''kbd'', Some ''cadet''), (''grab_keyboard'', Some ''true''),
       (''headless'', Some ''false''), (''scale'', Some ''1''), (''scale_filter'', Some ''linear''),
       (''allow_resize'', Some ''false''), (''beep_amplitude'', Some ''0.8''), (''use_ascii_beep'', Some ''false''),
       (''special_key'', Some '''')] @
    map (\<lambda>(n, d). (''ucode'', n, d))
      [(''prommcr_filename'', Some ''../sys/ubin/promh.mcr''), (''promsym_filename'', Some ''../sys/ubin/promh.sym''),
       (''mcrsym_filename'', Some ''../sys/ubin/ucadr.sym'')] @
    map (\<lambda>(n, d). (''chaos'', n, d))
      [(''backend'', Some ''local''), (''hosts'', Some ''hosts.text''), (''myname'', Some ''LOCAL-CADR''),
       (''servername'', Some ''LOCAL-BRIDGE''), (''bridgeip'', Some ''10.0.0.1''), (''bridgechaos'', Some ''3040''),
       (''bridgeport'', Some ''42042''), (''bridgeport_local'', Some ''42042''), (''udp_local_hybrid'', Some ''false'')] @
    [(''memory'', ''size'', Some ''2048'')] @
    map (\<lambda>(n, d). (''disk'', n, d))
      [(''disk0_filename'', Some ''disk.img''), (''disk1_filename'', None), (''disk2_filename'', None),
       (''disk3_filename'', None), (''disk4_filename'', None), (''disk5_filename'', None), (''disk6_filename'', None),
       (''disk7_filename'', None), (''disk0'', Some ''disk.img''), (''disk1'', None), (''disk2'', None), (''disk3'', None),
       (''disk4'', None), (''disk5'', None), (''disk6'', None), (''disk7'', None)] @
    map (\<lambda>n. (''tape'', n, None))
      [''tape0'', ''tape1'', ''tape2'', ''tape3'', ''tape4'', ''tape5'', ''tape6'', ''tape7''] @
    [(''trace'', ''level'', Some ''notice''), (''trace'', ''facilities'', Some ''usim''),
     (''idle'', ''cycles'', Some ''655350''), (''idle'', ''quantum'', Some ''65535''), (''idle'', ''timeout'', Some ''1000'')]"

definition is_option :: "string \<Rightarrow> string \<Rightarrow> bool" where
  "is_option s n = list_ex (\<lambda>(s', n', d). s' = s \<and> n' = n) ucfg_options"

definition old_disk_names :: "string list" where
  "old_disk_names = [''disk0_filename'', ''disk1_filename'', ''disk2_filename'', ''disk3_filename'', ''disk4_filename'',
     ''disk5_filename'', ''disk6_filename'', ''disk7_filename'']"

section \<open>The handler\<close>

definition read_integer_value :: "string \<Rightarrow> u64 \<Rightarrow> u64" where
  "read_integer_value value old =
     (let (v, rest, erange) = c_strtol 10 value in
      if value = [] \<or> rest \<noteq> [] \<or> erange then old else word_of_int v)"

definition read_double_value :: "ucfg_env \<Rightarrow> string \<Rightarrow> real \<Rightarrow> real" where
  "read_double_value E value old =
     (let (v, rest, erange) = c_strtod E value in if value = [] \<or> rest \<noteq> [] \<or> erange then old else v)"

definition set_geometry :: "string \<Rightarrow> config \<Rightarrow> config" where
  "set_geometry value c =
     (case scan_ints 3 value of
        x # y # ds \<Rightarrow>
          let c1 = (if window_position_x c < 0 then c\<lparr>window_position_x := x\<rparr> else c);
              c2 = (if window_position_y c1 < 0 then c1\<lparr>window_position_y := y\<rparr> else c1)
          in (case ds of [] \<Rightarrow> c2 | d # _ \<Rightarrow> c2\<lparr>window_display := d\<rparr>)
      | _ \<Rightarrow> c)"

definition ucfg_usim :: "ucfg_env \<Rightarrow> string \<Rightarrow> string \<Rightarrow> config \<Rightarrow> config" where
  "ucfg_usim E name value c =
     (if name = ''fs_root_directory'' then c\<lparr>usim_fs_root_directory := value\<rparr>
      else if name = ''monitor'' then
        (if value = ''cpt'' then c\<lparr>tv_monitor := 0\<rparr> else if value = ''other'' then c\<lparr>tv_monitor := 1\<rparr> else c)
      else if name = ''geometry'' then set_geometry value c
      else if name = ''always_on_top'' then c\<lparr>window_always_on_top := (value = ''true'')\<rparr>
      else if name = ''headless'' then c\<lparr>headless := (value = ''true'')\<rparr>
      else if name = ''scale'' then c\<lparr>sdl3_video_scale := read_double_value E value (sdl3_video_scale c)\<rparr>
      else if name = ''allow_resize'' then c\<lparr>sdl3_video_allow_resize := (value = ''true'')\<rparr>
      else if name = ''scale_filter'' then
        (if value = ''nearest'' then c\<lparr>sdl3_video_linear := False\<rparr>
         else if value = ''linear'' then c\<lparr>sdl3_video_linear := True\<rparr> else c)
      else if name = ''beep_amplitude'' then
        (let a = read_double_value E value (sdl3_audio_beep_amplitude c) in
         c\<lparr>sdl3_audio_beep_amplitude := (if a > 1 \<or> a < 0 then 0 else a)\<rparr>)
      else if name = ''use_ascii_beep'' then c\<lparr>sdl3_audio_use_ascii_beep := (value = ''true'')\<rparr>
      else if name = ''special_key'' then
        (if value \<noteq> [] \<and> SDL_GetScancodeFromName E value \<noteq> 0
         then c\<lparr>sdl3_special_key_scancode := SDL_GetScancodeFromName E value\<rparr> else c)
      else c)"

abbreviation "NUMBER_OF_MAX_MAIN_MEMORY_PAGES \<equiv> 16384 :: nat"

definition ucfg_memory :: "string \<Rightarrow> string \<Rightarrow> config \<Rightarrow> fault + config" where
  "ucfg_memory name value c =
     (if name = ''size'' then
        (let kw = to_int (fst (c_strtol 0 value)) in
         if kw \<le> 0 then Inl (Errx ''memory.size shall be > 0'')
         else if kw > int (NUMBER_OF_MAX_MAIN_MEMORY_PAGES div 4) then Inl (Errx ''memory.size shall be <='')
         else if kw mod 16 \<noteq> 0 then Inl (Errx ''memory.size shall be a multiple of 16'')
         else Inr (c\<lparr>cfg_memory_npages := nat kw * 4\<rparr>))
      else Inr c)"

definition ucfg_idle :: "string \<Rightarrow> string \<Rightarrow> config \<Rightarrow> config" where
  "ucfg_idle name value c =
     (if name = ''cycles'' then
        (let cycles = to_int (fst (c_strtol 0 value)) in
         if cycles < 0 then c\<lparr>idle_enabled := False\<rparr> else c\<lparr>cfg_idle_cycles := word_of_int cycles\<rparr>)
      else if name = ''quantum'' then c\<lparr>cfg_idle_quantum := read_integer_value value (cfg_idle_quantum c)\<rparr>
      else if name = ''timeout'' then c\<lparr>cfg_idle_timeout := read_integer_value value (cfg_idle_timeout c)\<rparr>
      else c)"

abbreviation (input) "UCH11_BACKEND_DAEMON \<equiv> 0 :: nat"
abbreviation (input) "UCH11_BACKEND_LOCAL \<equiv> 1 :: nat"
abbreviation (input) "UCH11_BACKEND_UDP \<equiv> 2 :: nat"

definition ucfg_chaos :: "string \<Rightarrow> string \<Rightarrow> config \<Rightarrow> config" where
  "ucfg_chaos name value c =
     (if name = ''backend'' then
        (if value = ''daemon'' then c\<lparr>uch11_backend := UCH11_BACKEND_DAEMON\<rparr>
         else if value = ''local'' then c\<lparr>uch11_backend := UCH11_BACKEND_LOCAL\<rparr>
         else if value = ''udp'' then c\<lparr>uch11_backend := UCH11_BACKEND_UDP\<rparr>
         else if value = ''hybrid'' then c\<lparr>uch11_backend := UCH11_BACKEND_UDP, hybrid_udp_and_local := True\<rparr>
         else c)
      else if name = ''udp_local_hybrid'' then c\<lparr>hybrid_udp_and_local := (value = ''true'')\<rparr>
      else c)"

text \<open>The levels of \<open>syslog\<close>, from 0, and the bits of the facilities.\<close>

definition trace_level_names :: "string list" where
  "trace_level_names = [''emerg'', ''alert'', ''crit'', ''err'', ''warning'', ''notice'', ''info'', ''debug'']"

definition facility_bits :: "(string \<times> u32) list" where
  "facility_bits =
    [(''usim'', 0x1), (''ucode'', 0x2), (''microcode'', 0x4), (''macrocode'', 0x8), (''int'', 0x10), (''vm'', 0x20),
     (''unibus'', 0x40), (''unibus-mapping'', 0x80), (''xbus'', 0x100), (''bus-interface'', 0x200), (''iob'', 0x400),
     (''kbd'', 0x800), (''tv'', 0x1000), (''color'', 0x2000), (''mouse'', 0x4000), (''disk'', 0x8000), (''chaos'', 0x10000),
     (''x11'', 0x20000), (''spy'', 0x40000), (''lashup'', 0x80000), (''misc'', 0x100000), (''tape'', 0x200000),
     (''idle'', 0x400000)]"

abbreviation "TRACE_ALL \<equiv> 0x7FFFFFF :: u32"

text \<open>The words are taken one after the other; an unknown one ends the loop.\<close>

fun add_facilities :: "string list \<Rightarrow> u32 \<Rightarrow> u32" where
  "add_facilities [] f = f"
| "add_facilities (w # ws) f =
     (if w = ''all'' then add_facilities ws TRACE_ALL
      else if w = ''none'' then add_facilities ws 0
      else case map_of facility_bits w of
             None \<Rightarrow> f
           | Some b \<Rightarrow> add_facilities ws (f OR b))"

definition ucfg_trace :: "string \<Rightarrow> string \<Rightarrow> config \<Rightarrow> config" where
  "ucfg_trace name value c =
     (if name = ''level'' then
        (case find (\<lambda>i. trace_level_names ! i = value) [0..<8] of None \<Rightarrow> c | Some i \<Rightarrow> c\<lparr>trace_level := i\<rparr>)
      else if name = ''facilities'' then
        c\<lparr>trace_facilities := add_facilities (filter (\<lambda>w. w \<noteq> []) (split_on (CHR '' '') value)) (trace_facilities c)\<rparr>
      else c)"

text \<open>Keys: the result tells whether the line is accepted.\<close>

definition ucfg_key :: "ucfg_env \<Rightarrow> string \<Rightarrow> string \<Rightarrow> config \<Rightarrow> bool \<times> config" where
  "ucfg_key E name value c =
     (if SDL_GetKeyFromName E name = 0 then (True, c)
      else
        let scancode = sdl3_keyboard_get_cadet_scancode_from_name value in
        if scancode = 0 then (False, c)
        else let (ok, km) = sdl3_keyboard_map_add E name scancode (cfg_key_map c) in (ok, c\<lparr>cfg_key_map := km\<rparr>))"

text \<open>The strings of the configuration, set first.\<close>

definition ucfg_store :: "string \<Rightarrow> string \<Rightarrow> string \<Rightarrow> config \<Rightarrow> config" where
  "ucfg_store section name value c =
     (let c1 = (if is_option section name then c\<lparr>ucfg_values := (ucfg_values c)((section, name) := Some value)\<rparr> else c)
      in if section = ''kbd.modifiers'' then c1\<lparr>ucfg_kbd_modifiers := ucfg_kbd_modifiers c1 @ [(name, value)]\<rparr>
         else if section = ''kbd'' then c1\<lparr>ucfg_kbd := ucfg_kbd c1 @ [(name, value)]\<rparr>
         else c1)"

definition ucfg_handler :: "ucfg_env \<Rightarrow> string \<Rightarrow> string \<Rightarrow> string \<Rightarrow> config \<Rightarrow> fault + bool \<times> config" where
  "ucfg_handler E section name value c =
     (let c1 = ucfg_store section name value c in
      if section = ''usim'' then Inr (True, ucfg_usim E name value c1)
      else if section = ''memory'' then and_then (ucfg_memory name value c1) (\<lambda>c2. Inr (True, c2))
      else if section = ''disk'' \<and> name \<in> set old_disk_names then Inl (Errx ''[disk] configuration has changed'')
      else if section = ''idle'' then Inr (True, ucfg_idle name value c1)
      else if section = ''chaos'' then Inr (True, ucfg_chaos name value c1)
      else if section = ''trace'' then Inr (True, ucfg_trace name value c1)
      else if section = ''kbd'' then Inr (ucfg_key E name value c1)
      else Inr (True, c1))"

section \<open>Initialisation and loading\<close>

text \<open>The default mapping of \<^verbatim>\<open>sdl3-keyboard-default-mapping.defs\<close> is the parameter \<open>defaults\<close> of key and cadet scan code.\<close>

definition sdl3_keyboard_early_init :: "ucfg_env \<Rightarrow> (string \<times> nat) list \<Rightarrow> config \<Rightarrow> config" where
  "sdl3_keyboard_early_init E defaults c =
     c\<lparr>cfg_key_map := foldl (\<lambda>km (k, sc). snd (sdl3_keyboard_map_add E k sc km)) (cfg_key_map c) defaults\<rparr>"

fun set_defaults :: "ucfg_env \<Rightarrow> (string \<times> string \<times> string option) list \<Rightarrow> config \<Rightarrow> fault + config" where
  "set_defaults E [] c = Inr c"
| "set_defaults E ((s, n, d) # os) c =
     (case d of
        None \<Rightarrow> set_defaults E os c
      | Some v \<Rightarrow> if n \<in> set old_disk_names then set_defaults E os c
                  else and_then (ucfg_handler E s n v c) (\<lambda>(_, c1). set_defaults E os c1))"

definition ucfg_init :: "ucfg_env \<Rightarrow> (string \<times> nat) list \<Rightarrow> config \<Rightarrow> fault + config" where
  "ucfg_init E defaults c =
     set_defaults E ucfg_options (sdl3_keyboard_early_init E defaults (c\<lparr>ucfg_kbd_modifiers := [], ucfg_kbd := []\<rparr>))"

definition ucfg_load_config_file ::
    "ucfg_env \<Rightarrow> (string \<Rightarrow> string option) \<Rightarrow> nat \<Rightarrow> string \<Rightarrow> config \<Rightarrow> fault + bool \<times> config" where
  "ucfg_load_config_file E fs k filename c =
     and_then (ini_parse fs (ucfg_handler E) k filename c) (\<lambda>(error, c1). Inr (error = 0, c1))"

end
