(* ===== verification/Ini_Print.thy ===== *)
theory Ini_Print
  imports Ini
begin

text \<open>
  Printing a configuration file, and that the parser reads back what was printed: the handler is called with
  the printed sections, names and values, in order.
\<close>

section \<open>Printed files\<close>

datatype ini_entry = Blank | Section string | Pair string string

primrec print_entry :: "ini_entry \<Rightarrow> string" where
  "print_entry Blank = [CHR 0x0A]"
| "print_entry (Section s) = CHR ''['' # s @ [CHR '']'', CHR 0x0A]"
| "print_entry (Pair n v) = n @ '' = '' @ v @ [CHR 0x0A]"

definition print_ini :: "ini_entry list \<Rightarrow> string" where
  "print_ini es = concat (map print_entry es)"

text \<open>Text without the characters \<open>cs\<close> and without an inline comment.\<close>

fun clean :: "bool \<Rightarrow> string \<Rightarrow> string \<Rightarrow> bool" where
  "clean was_space cs [] = True"
| "clean was_space cs (c # s) \<longleftrightarrow> c \<notin> set cs \<and> \<not> (was_space \<and> c = CHR '';'') \<and> clean (c_isspace c) cs s"

definition no_margin :: "string \<Rightarrow> bool" where
  "no_margin s \<longleftrightarrow> s = [] \<or> \<not> c_isspace (hd s) \<and> \<not> c_isspace (last s)"

definition one_line :: "string \<Rightarrow> bool" where
  "one_line s \<longleftrightarrow> CHR 0x0A \<notin> set s \<and> CHR 0x00 \<notin> set s"

primrec entry_ok :: "ini_entry \<Rightarrow> bool" where
  "entry_ok Blank = True"
| "entry_ok (Section s) \<longleftrightarrow> clean False '']'' s \<and> one_line s \<and> length s < MAX_SECTION"
| "entry_ok (Pair n v) \<longleftrightarrow>
     n \<noteq> [] \<and> hd n \<notin> set '';#%['' \<and> hd n \<noteq> CHR 0xEF \<and> clean False ''=:'' n \<and> no_margin n \<and> one_line n \<and>
     clean True [] v \<and> no_margin v \<and> one_line v \<and> length n + length v + 4 < INI_MAX_LINE"

text \<open>The calls of the handler; the result tells whether all lines were accepted.\<close>

fun ini_calls :: "'u ini_handler \<Rightarrow> ini_entry list \<Rightarrow> string \<Rightarrow> 'u \<Rightarrow> fault + bool \<times> 'u" where
  "ini_calls h [] sec u = Inr (True, u)"
| "ini_calls h (Blank # es) sec u = ini_calls h es sec u"
| "ini_calls h (Section s # es) sec u = ini_calls h es s u"
| "ini_calls h (Pair n v # es) sec u =
     and_then (h sec n v u) (\<lambda>(ok, u1). and_then (ini_calls h es sec u1) (\<lambda>(oks, u2). Inr (ok \<and> oks, u2)))"

section \<open>Splitting and stripping\<close>

lemma find_clean: "clean w cs a \<Longrightarrow> c \<in> set cs \<Longrightarrow> find_chars_or_comment w cs (a @ c # b) = (a, c # b)"
  by (induction a arbitrary: w) auto

lemma find_clean_end: "clean w cs a \<Longrightarrow> find_chars_or_comment w cs a = (a, [])"
  by (induction a arbitrary: w) auto

lemma rstrip_no_margin: "no_margin s \<Longrightarrow> rstrip s = s"
  by (cases s rule: rev_cases) (auto simp: rstrip_def no_margin_def)

lemma rstrip_append_space: "c_isspace c \<Longrightarrow> rstrip (s @ [c]) = rstrip s"
  by (simp add: rstrip_def)

lemma lskip_no_margin: "no_margin s \<Longrightarrow> lskip s = s"
  by (cases s) (auto simp: lskip_def no_margin_def)

lemma no_margin_rstrip_hd: "s \<noteq> [] \<Longrightarrow> \<not> c_isspace (hd s) \<Longrightarrow> no_margin (rstrip s) \<and> hd (rstrip s) = hd s \<and> rstrip s \<noteq> []"
proof -
  assume s: "s \<noteq> []" "\<not> c_isspace (hd s)"
  obtain b where b: "s = rstrip s @ b"
    unfolding rstrip_def using takeWhile_dropWhile_id [of c_isspace "rev s"] by (metis rev_append rev_rev_ident)
  have "rstrip s \<noteq> []"
    using s by (auto simp: rstrip_def dropWhile_eq_Nil_conv)
  moreover have "hd (rstrip s) = hd s"
    using b calculation by (metis hd_append2)
  moreover have "\<not> c_isspace (last (rstrip s))"
    using calculation(1) hd_dropWhile [of c_isspace "rev s"] unfolding rstrip_def by (simp add: last_rev)
  ultimately show ?thesis
    using s by (simp add: no_margin_def)
qed

lemma c_isspace_simps [simp]:
  "c_isspace CHR 0x0A" "c_isspace (CHR '' '')" "\<not> c_isspace (CHR '']'')" "\<not> c_isspace (CHR ''['')" "\<not> c_isspace (CHR ''='')"
  by (simp_all add: c_isspace_def)

lemma c_text_one_line: "CHR 0x00 \<notin> set s \<Longrightarrow> c_text s = s"
  by (auto simp: c_text_def takeWhile_eq_all_conv)

section \<open>Lines\<close>

lemma fgets_line: "CHR 0x0A \<notin> set l \<Longrightarrow> length l < n \<Longrightarrow> fgets n (l @ CHR 0x0A # rest) = (l @ [CHR 0x0A], rest)"
proof (induction l arbitrary: n)
  case Nil
  then show ?case by (cases n) auto
next
  case (Cons c l)
  then show ?case by (cases n) auto
qed

lemma ini_lines_line:
  assumes "CHR 0x0A \<notin> set l" "length l < 199"
  shows "ini_lines (l @ CHR 0x0A # rest) = (l @ [CHR 0x0A]) # ini_lines rest"
proof -
  have "fgets 199 (l @ CHR 0x0A # rest) = (l @ [CHR 0x0A], rest)"
    using assms by (rule fgets_line)
  then show ?thesis
    by (cases l) (simp_all add: Let_def)
qed

lemma print_entry_line:
  assumes "entry_ok e"
  obtains l where "print_entry e = l @ [CHR 0x0A]" "CHR 0x0A \<notin> set l" "length l < 199" "CHR 0x00 \<notin> set l"
proof (cases e)
  case Blank
  then show ?thesis by (intro that [of "[]"]) auto
next
  case (Section s)
  then show ?thesis
    using assms by (intro that [of "CHR ''['' # s @ '']''"]) (auto simp: one_line_def)
next
  case (Pair n v)
  then show ?thesis
    using assms by (intro that [of "n @ '' = '' @ v"]) (auto simp: one_line_def)
qed

lemma ini_lines_print: "\<forall>e \<in> set es. entry_ok e \<Longrightarrow> ini_lines (print_ini es) = map print_entry es"
proof (induction es)
  case (Cons e es)
  obtain l where "print_entry e = l @ [CHR 0x0A]" "CHR 0x0A \<notin> set l" "length l < 199"
    using Cons.prems by (auto elim: print_entry_line)
  then show ?case
    using Cons ini_lines_line [of l "print_ini es"] by (simp add: print_ini_def)
qed (simp add: print_ini_def)

section \<open>Parsing what was printed\<close>

lemma ini_line_blank: "ini_line inc h k (print_entry Blank) st = Inr st"
  by (simp add: ini_line_def c_text_def rstrip_def lskip_def Let_def)

lemma ini_line_section:
  assumes "entry_ok (Section s)"
  shows "ini_line inc h k (print_entry (Section s)) st = Inr (st\<lparr>ini_section := s, ini_prev_name := []\<rparr>)"
proof -
  let ?l = "CHR ''['' # s @ '']''"
  have t: "c_text (print_entry (Section s)) = ?l @ [CHR 0x0A]"
    using assms by (simp add: c_text_one_line one_line_def)
  have "no_margin ?l"
    by (simp add: no_margin_def)
  then have "lskip (rstrip (?l @ [CHR 0x0A])) = ?l"
    by (simp only: rstrip_append_space c_isspace_simps rstrip_no_margin lskip_no_margin)
  moreover have "find_chars_or_comment False '']'' (s @ '']'') = (s, '']'')"
    using assms find_clean [of False "'']''" s "CHR '']''" "[]"] by simp
  ultimately show ?thesis
    using assms unfolding ini_line_def t by (simp add: ini_section_line_def strncpy0_def Let_def)
qed

lemma ini_line_pair:
  assumes "entry_ok (Pair n v)"
  shows "ini_line inc h k (print_entry (Pair n v)) st =
    call_handler h k n v (st\<lparr>ini_prev_name := strncpy0 n MAX_NAME\<rparr>)"
proof -
  let ?l = "n @ '' = '' @ v"
  have n: "n \<noteq> []" "hd n \<notin> set '';#%[''" "hd n \<noteq> CHR 0xEF" "\<not> c_isspace (hd n)"
    using assms by (auto simp: no_margin_def)
  have t: "c_text (print_entry (Pair n v)) = ?l @ [CHR 0x0A]"
    using assms by (simp add: c_text_one_line one_line_def)
  have hd: "hd (?l @ [CHR 0x0A]) = hd n"
    using n by simp
  let ?r = "rstrip (?l @ [CHR 0x0A])"
  have r: "no_margin ?r" "hd ?r = hd n" "?r \<noteq> []"
    using no_margin_rstrip_hd [of "?l @ [CHR 0x0A]"] n(4) unfolding hd by auto
  have strip: "?r = n @ '' ='' @ (if v = [] then [] else CHR '' '' # v)"
  proof (cases "v = []")
    case True
    then show ?thesis by (simp add: rstrip_def)
  next
    case False
    then have "no_margin ?l"
      using assms n by (auto simp: no_margin_def)
    with False show ?thesis
      by (simp only: rstrip_append_space c_isspace_simps rstrip_no_margin) simp
  qed
  have left: "clean False ''=:'' (n @ '' '')"
  proof -
    have "clean w ''=:'' m \<Longrightarrow> clean w ''=:'' (m @ '' '')" for w m
      by (induction m arbitrary: w) auto
    then show ?thesis
      using assms by simp
  qed
  have split: "find_chars_or_comment False ''=:'' ?r = (n @ '' '', CHR ''='' # (if v = [] then [] else CHR '' '' # v))"
    using find_clean [OF left, of "CHR ''=''"] unfolding strip by simp
  have name: "rstrip (n @ '' '') = n"
    using assms by (simp add: rstrip_append_space rstrip_no_margin)
  have "find_chars_or_comment False [] (if v = [] then [] else CHR '' '' # v) = (if v = [] then [] else CHR '' '' # v, [])"
    using assms by (simp add: find_clean_end)
  moreover have "rstrip (lskip (if v = [] then [] else CHR '' '' # v)) = v"
  proof (cases "v = []")
    case True
    then show ?thesis by (simp add: lskip_def rstrip_def)
  next
    case False
    then have "lskip (CHR '' '' # v) = v"
      using assms lskip_no_margin [of v] by (simp add: lskip_def)
    then show ?thesis
      using assms False by (simp add: rstrip_no_margin)
  qed
  ultimately have val: "rstrip (lskip (fst (find_chars_or_comment False [] (if v = [] then [] else CHR '' '' # v)))) = v"
    by simp
  have bom: "take 3 (?l @ [CHR 0x0A]) \<noteq> [CHR 0xEF, CHR 0xBB, CHR 0xBF]"
    using n(1,3) by (cases n) auto
  have "ini_line inc h k (print_entry (Pair n v)) st = ini_pair_line h k ?r st"
    unfolding ini_line_def t Let_def using bom hd r n by (simp add: lskip_no_margin)
  also have "\<dots> = call_handler h k n v (st\<lparr>ini_prev_name := strncpy0 n MAX_NAME\<rparr>)"
    unfolding ini_pair_line_def split prod.case using name val by (simp add: Let_def)
  finally show ?thesis .
qed

lemma ini_parse_lines_print:
  assumes "\<forall>e \<in> set es. entry_ok e"
  shows "ini_parse_lines inc h k (map print_entry es) st = Inl x \<Longrightarrow>
      ini_calls h es (ini_section st) (ini_user st) = Inl x"
    "ini_parse_lines inc h k (map print_entry es) st = Inr st' \<Longrightarrow> 0 \<le> k \<Longrightarrow>
      \<exists>ok. ini_calls h es (ini_section st) (ini_user st) = Inr (ok, ini_user st') \<and>
        (ini_error st' = 0 \<longleftrightarrow> ini_error st = 0 \<and> ok)"
proof -
  have "case ini_parse_lines inc h k (map print_entry es) st of
      Inl x \<Rightarrow> ini_calls h es (ini_section st) (ini_user st) = Inl x
    | Inr st' \<Rightarrow> 0 \<le> k \<longrightarrow> (\<exists>ok. ini_calls h es (ini_section st) (ini_user st) = Inr (ok, ini_user st') \<and>
        (ini_error st' = 0 \<longleftrightarrow> ini_error st = 0 \<and> ok))"
    using assms
  proof (induction es arbitrary: k st)
    case Nil
    then show ?case by auto
  next
    case (Cons e es)
    have es: "\<forall>e \<in> set es. entry_ok e"
      using Cons.prems by simp
    show ?case
    proof (cases e)
      case Blank
      then show ?thesis
        using Cons.IH [OF es, where k = "k + 1" and st = st] ini_line_blank [of inc h "k + 1" st] by (simp split: sum.splits)
    next
      case (Section s)
      then have "ini_line inc h (k + 1) (print_entry e) st = Inr (st\<lparr>ini_section := s, ini_prev_name := []\<rparr>)"
        using Cons.prems ini_line_section [of s] by simp
      then show ?thesis
        using Cons.IH [OF es, where k = "k + 1" and st = "st\<lparr>ini_section := s, ini_prev_name := []\<rparr>"] Section by (simp split: sum.splits)
    next
      case (Pair n v)
      let ?st = "st\<lparr>ini_prev_name := strncpy0 n MAX_NAME\<rparr>"
      have line: "ini_line inc h (k + 1) (print_entry e) st = call_handler h (k + 1) n v ?st"
        using Cons.prems Pair ini_line_pair [of n v] by simp
      show ?thesis
      proof (cases "h (ini_section st) n v (ini_user st)")
        case (Inl x)
        then show ?thesis
          using line by (simp add: Pair call_handler_def)
      next
        case (Inr r)
        obtain ok u where r: "r = (ok, u)"
          by (cases r)
        define st1 where "st1 = (if ok then ?st\<lparr>ini_user := u\<rparr> else note_error (k + 1) (?st\<lparr>ini_user := u\<rparr>))"
        have "ini_line inc h (k + 1) (print_entry e) st = Inr st1"
          using line Inr r by (simp add: call_handler_def Let_def st1_def)
        moreover have "ini_section st1 = ini_section st" "ini_user st1 = u"
          "0 \<le> k \<longrightarrow> (ini_error st1 = 0 \<longleftrightarrow> ini_error st = 0 \<and> ok)"
          by (auto simp: note_error_def st1_def)
        ultimately show ?thesis
          using Cons.IH [OF es, where k = "k + 1" and st = st1] Inr r by (auto simp: Pair split: sum.splits)
      qed
    qed
  qed
  then show "ini_parse_lines inc h k (map print_entry es) st = Inl x \<Longrightarrow> ini_calls h es (ini_section st) (ini_user st) = Inl x"
    and "ini_parse_lines inc h k (map print_entry es) st = Inr st' \<Longrightarrow> 0 \<le> k \<Longrightarrow>
      \<exists>ok. ini_calls h es (ini_section st) (ini_user st) = Inr (ok, ini_user st') \<and>
        (ini_error st' = 0 \<longleftrightarrow> ini_error st = 0 \<and> ok)"
    by simp_all
qed

lemma ini_parse_print:
  assumes "\<forall>e \<in> set es. entry_ok e" "fs filename = Some (print_ini es)"
  shows "case ini_parse fs h (Suc k) filename u of
      Inl x \<Rightarrow> ini_calls h es [] u = Inl x
    | Inr (error, u') \<Rightarrow> ini_calls h es [] u = Inr (error = 0, u')"
proof -
  let ?st = "\<lparr>ini_section = [], ini_prev_name = [], ini_error = 0, ini_user = u\<rparr>"
  let ?r = "ini_parse_lines (ini_parse fs h k) h 0 (map print_entry es) ?st"
  have "ini_parse fs h (Suc k) filename u = and_then ?r (\<lambda>st. Inr (ini_error st, ini_user st))"
    by (simp add: assms(2) ini_parse_stream_def ini_lines_print [OF assms(1)])
  then show ?thesis
    using ini_parse_lines_print [OF assms(1), of "ini_parse fs h k" h 0 ?st] by (cases ?r) auto
qed

end
