(* ===== verification/Ucfg_Dump.thy ===== *)
theory Ucfg_Dump
  imports Ucfg Ini_Print
begin

text \<open>
  The dump of the running configuration (\<open>ucfg_dump_running_config\<close> of \<^verbatim>\<open>usim/ucfg.c\<close>) and what loading it again
  restores.
\<close>

unbundle bit_operations_syntax

section \<open>The dump\<close>

definition dec_digit :: "nat \<Rightarrow> char" where
  "dec_digit d = char_of (48 + d)"

fun show_nat :: "nat \<Rightarrow> string" where
  "show_nat n = (if n < 10 then [dec_digit n] else show_nat (n div 10) @ [dec_digit (n mod 10)])"

declare show_nat.simps [simp del]

definition show_int :: "int \<Rightarrow> string" where
  "show_int i = (if i < 0 then CHR ''-'' # show_nat (nat (- i)) else show_nat (nat i))"

definition BOOL2STR :: "bool \<Rightarrow> string" where
  "BOOL2STR b = (if b then ''true'' else ''false'')"

text \<open>A string of \<open>ucfg\<close>; glibc prints \<open>(null)\<close> for the null pointer.\<close>

definition ucfg_string :: "string \<Rightarrow> string \<Rightarrow> config \<Rightarrow> string" where
  "ucfg_string s n c = (case ucfg_values c (s, n) of None \<Rightarrow> ''(null)'' | Some v \<Rightarrow> v)"

text \<open>What the dump reads besides the configuration.\<close>

record dump_context =
  usim_state_filename :: string
  usim_sys_directory :: string
  configured_disks :: "(nat \<times> string \<times> string) list"

definition geometry_string :: "config \<Rightarrow> string" where
  "geometry_string c = show_int (window_position_x c) @ '' '' @ show_int (window_position_y c) @ '' '' @ show_int (window_display c)"

definition dump_usim :: "ucfg_env \<Rightarrow> dump_context \<Rightarrow> config \<Rightarrow> ini_entry list" where
  "dump_usim E d c =
     [Section ''usim'', Pair ''state_filename'' (usim_state_filename d)] @
     (if usim_sys_directory d \<noteq> [] then [Pair ''sys_directory'' (usim_sys_directory d)] else []) @
     (if usim_fs_root_directory c \<noteq> [] then [Pair ''fs_root_directory'' (usim_fs_root_directory c)] else []) @
     [Pair ''monitor'' (if tv_monitor c = 0 then ''cpt'' else ''other''),
      Pair ''geometry'' (geometry_string c),
      Pair ''always_on_top'' (BOOL2STR (window_always_on_top c)),
      Pair ''headless'' (BOOL2STR (headless c)),
      Pair ''grab_keyboard'' (ucfg_string ''usim'' ''grab_keyboard'' c),
      Pair ''kbd'' (ucfg_string ''usim'' ''kbd'' c),
      Pair ''scale'' (printf_g E (sdl3_video_scale c)),
      Pair ''allow_resize'' (BOOL2STR (sdl3_video_allow_resize c)),
      Pair ''scale_filter'' (if sdl3_video_linear c then ''linear'' else ''nearest''),
      Pair ''beep_amplitude'' (printf_g E (sdl3_audio_beep_amplitude c)),
      Pair ''use_ascii_beep'' (BOOL2STR (sdl3_audio_use_ascii_beep c)),
      Pair ''special_key'' (SDL_GetScancodeName E (sdl3_special_key_scancode c)), Blank]"

definition dump_ucode :: "config \<Rightarrow> ini_entry list" where
  "dump_ucode c =
     [Section ''ucode'',
      Pair ''prommcr_filename'' (ucfg_string ''ucode'' ''prommcr_filename'' c),
      Pair ''promsym_filename'' (ucfg_string ''ucode'' ''promsym_filename'' c),
      Pair ''mcrsym_filename'' (ucfg_string ''ucode'' ''mcrsym_filename'' c), Blank]"

definition backend_name :: "config \<Rightarrow> fault + string" where
  "backend_name c =
     (if uch11_backend c = UCH11_BACKEND_DAEMON then Inr ''daemon''
      else if uch11_backend c = UCH11_BACKEND_LOCAL then Inr ''local''
      else if uch11_backend c = UCH11_BACKEND_UDP then Inr (if hybrid_udp_and_local c then ''hybrid'' else ''udp'')
      else Inl (Errx ''unknown chaos backend''))"

definition dump_chaos :: "string \<Rightarrow> config \<Rightarrow> ini_entry list" where
  "dump_chaos backend c =
     [Section ''chaos'', Pair ''backend'' backend,
      Pair ''myname'' (ucfg_string ''chaos'' ''myname'' c),
      Pair ''servername'' (ucfg_string ''chaos'' ''servername'' c),
      Pair ''bridgeip'' (ucfg_string ''chaos'' ''bridgeip'' c),
      Pair ''bridgeport'' (ucfg_string ''chaos'' ''bridgeport'' c),
      Pair ''bridgeport_local'' (ucfg_string ''chaos'' ''bridgeport_local'' c),
      Pair ''bridgechaos'' (ucfg_string ''chaos'' ''bridgechaos'' c),
      Pair ''udp_local_hybrid'' (BOOL2STR (hybrid_udp_and_local c)),
      Pair ''hosts'' (ucfg_string ''chaos'' ''hosts'' c), Blank]"

definition dump_disks :: "dump_context \<Rightarrow> ini_entry list" where
  "dump_disks d =
     Section ''disk'' # map (\<lambda>(i, t, f). Pair (''disk'' @ show_nat i) (t @ '','' @ f)) (configured_disks d) @ [Blank]"

definition level_name :: "config \<Rightarrow> fault + string" where
  "level_name c =
     (if 3 \<le> trace_level c \<and> trace_level c \<le> 7 then Inr (trace_level_names ! trace_level c)
      else Inl (Errx ''unknown trace level''))"

text \<open>The facilities that the dump knows: all but \<open>tape\<close>.\<close>

definition dumped_facilities :: "(string \<times> u32) list" where
  "dumped_facilities = filter (\<lambda>(n, b). n \<noteq> ''tape'') facility_bits"

definition facility_names :: "u32 \<Rightarrow> string list" where
  "facility_names f =
     (if f = TRACE_ALL then [''all''] else if f = 0 then [''none'']
      else map fst (filter (\<lambda>(n, b). f AND b \<noteq> 0) dumped_facilities))"

definition facilities_line :: "u32 \<Rightarrow> string" where
  "facilities_line f = ''facilities ='' @ concat (map (\<lambda>w. '' '' @ w) (facility_names f)) @ [CHR 0x0A]"

definition dump_idle :: "config \<Rightarrow> ini_entry list" where
  "dump_idle c =
     [Blank, Section ''idle'', Pair ''cycles'' (show_nat (unat (cfg_idle_cycles c))),
      Pair ''quantum'' (show_nat (unat (cfg_idle_quantum c))), Pair ''timeout'' (show_nat (unat (cfg_idle_timeout c))), Blank]"

definition dump_keys :: "config \<Rightarrow> ini_entry list" where
  "dump_keys c =
     [Section ''kbd.modifiers''] @ map (\<lambda>(n, v). Pair n v) (ucfg_kbd_modifiers c) @
     [Blank, Section ''kbd''] @ map (\<lambda>(n, v). Pair n v) (ucfg_kbd c)"

definition ucfg_dump_running_config :: "ucfg_env \<Rightarrow> dump_context \<Rightarrow> config \<Rightarrow> fault + string" where
  "ucfg_dump_running_config E d c =
     and_then (backend_name c) (\<lambda>backend. and_then (level_name c) (\<lambda>level.
     Inr (print_ini (dump_usim E d c @ dump_ucode c @ dump_chaos backend c @ dump_disks d @
            [Section ''trace'', Pair ''level'' level]) @
          facilities_line (trace_facilities c) @ print_ini (dump_idle c @ dump_keys c))))"

section \<open>Numbers\<close>

lemma digit_value_dec: "d < 10 \<Longrightarrow> digit_value (dec_digit d) = Some d"
  by (simp add: digit_value_def dec_digit_def Let_def)

lemma dec_digit_facts:
  assumes "d < 10" "10 \<le> b"
  shows "is_digit_of b (dec_digit d)" "\<not> c_isspace (dec_digit d)" "dec_digit d \<noteq> CHR ''-''" "dec_digit d \<noteq> CHR ''+''"
    "dec_digit d = CHR ''0'' \<longleftrightarrow> d = 0"
proof -
  have n: "(of_char (dec_digit d) :: nat) = 48 + d"
    using assms by (simp add: dec_digit_def)
  show "is_digit_of b (dec_digit d)"
    using assms by (simp add: is_digit_of_def digit_value_dec)
  show "\<not> c_isspace (dec_digit d)"
    using n by (simp add: c_isspace_def)
  show "dec_digit d \<noteq> CHR ''-''" "dec_digit d \<noteq> CHR ''+''"
    using n by auto
  have "dec_digit d = CHR ''0'' \<longleftrightarrow> (of_char (dec_digit d) :: nat) = of_char (CHR ''0'')"
    by (simp only: of_char_eq_iff)
  also have "\<dots> \<longleftrightarrow> d = 0"
    unfolding n by simp
  finally show "dec_digit d = CHR ''0'' \<longleftrightarrow> d = 0" .
qed

lemma show_nat_digits:
  "\<exists>d ds. show_nat n = dec_digit d # map dec_digit ds \<and> d < 10 \<and> (\<forall>e \<in> set ds. e < 10) \<and> (n \<noteq> 0 \<longrightarrow> d \<noteq> 0) \<and> (n = 0 \<longrightarrow> ds = [])"
proof (induction n rule: show_nat.induct)
  case (1 n)
  show ?case
  proof (cases "n < 10")
    case True
    then show ?thesis
      by (intro exI [of _ n] exI [of _ "[]"]) (simp add: show_nat.simps)
  next
    case False
    then obtain d ds where d: "show_nat (n div 10) = dec_digit d # map dec_digit ds" "d < 10" "\<forall>e \<in> set ds. e < 10" "d \<noteq> 0"
      using 1 by auto
    then show ?thesis
      using False by (intro exI [of _ d] exI [of _ "ds @ [n mod 10]"]) (subst show_nat.simps, auto)
  qed
qed

lemma digits_value_append: "digits_value b acc (xs @ ys) = digits_value b (digits_value b acc xs) ys"
  by (induction xs arbitrary: acc) auto

lemma digits_value_show: "digits_value 10 0 (show_nat n) = n"
proof (induction n rule: show_nat.induct)
  case (1 n)
  show ?case
  proof (cases "n < 10")
    case True
    then show ?thesis by (subst show_nat.simps) (simp add: digit_value_dec)
  next
    case False
    then show ?thesis
      using 1 by (subst show_nat.simps) (simp add: digits_value_append digit_value_dec)
  qed
qed

lemma strtol_show:
  assumes "n < 2 ^ 63" "b = 10 \<or> b = 0"
  shows "c_strtol b (show_nat n) = (int n, [], False)"
proof -
  obtain d ds where d: "show_nat n = dec_digit d # map dec_digit ds" "d < 10" "\<forall>e \<in> set ds. e < 10" "n \<noteq> 0 \<longrightarrow> d \<noteq> 0"
      "n = 0 \<longrightarrow> ds = []"
    using show_nat_digits by blast
  note f = dec_digit_facts [OF d(2), of 10, simplified]
  have sign: "c_sign (lskip (show_nat n)) = (False, show_nat n)"
    using f by (simp add: d(1) lskip_def c_sign_def)
  have all: "takeWhile (is_digit_of k) (show_nat n) = show_nat n" if "10 \<le> k" for k
    using d(2,3) dec_digit_facts(1) [OF _ that] unfolding d(1) by (auto simp: takeWhile_eq_all_conv)
  show ?thesis
  proof (cases "n = 0 \<and> b = 0")
    case True
    then have "show_nat n = ''0''"
      using dec_digit_facts(5) [of 0 10] by (simp add: show_nat.simps)
    then have "c_base b (show_nat n) = (8, ''0'')" "takeWhile (is_digit_of 8) ''0'' = ''0''" "digits_value 8 0 ''0'' = 0"
      using True by (simp_all add: c_base_def is_digit_of_def digit_value_def)
    then show ?thesis
      using True sign \<open>show_nat n = ''0''\<close> by (simp add: c_strtol_def)
  next
    case False
    then have "c_base b (show_nat n) = (10, show_nat n)"
      using assms(2) f(5) d by (auto simp: c_base_def)
    moreover have "show_nat n \<noteq> []"
      by (simp add: d(1))
    ultimately show ?thesis
      using assms(1) by (simp add: c_strtol_def sign all digits_value_show Let_def)
  qed
qed

section \<open>Reading the dump\<close>

text \<open>The pairs of a file with their sections, and the values given to one setting.\<close>

fun ini_pairs :: "ini_entry list \<Rightarrow> string \<Rightarrow> (string \<times> string \<times> string) list" where
  "ini_pairs [] sec = []"
| "ini_pairs (Blank # es) sec = ini_pairs es sec"
| "ini_pairs (Section t # es) sec = ini_pairs es t"
| "ini_pairs (Pair n v # es) sec = (sec, n, v) # ini_pairs es sec"

definition values_of :: "string \<Rightarrow> string \<Rightarrow> (string \<times> string \<times> string) list \<Rightarrow> string list" where
  "values_of s n ps = map (\<lambda>(s', n', v). v) (filter (\<lambda>(s', n', v). s' = s \<and> n' = n) ps)"

lemma values_of_simps [simp]:
  "values_of s n [] = []"
  "values_of s n ((s', n', v) # ps) = (if s' = s \<and> n' = n then v # values_of s n ps else values_of s n ps)"
  "values_of s n (ps @ qs) = values_of s n ps @ values_of s n qs"
  by (simp_all add: values_of_def)

lemma ini_pairs_append:
  "ini_pairs (es @ fs) sec = ini_pairs es sec @ ini_pairs fs (fold (\<lambda>e s. case e of Section t \<Rightarrow> t | _ \<Rightarrow> s) es sec)"
  by (induction es sec rule: ini_pairs.induct) auto

lemma ini_pairs_list: "ini_pairs (map (\<lambda>(n, v). Pair (f n) (g v)) xs @ es) sec = map (\<lambda>(n, v). (sec, f n, g v)) xs @ ini_pairs es sec"
  by (induction xs) auto

lemma values_of_other: "s' \<noteq> s \<Longrightarrow> values_of s n (map (\<lambda>(n, v). (s', f n, g v)) xs) = []"
  by (induction xs) auto

text \<open>A setting that one pair of section and name governs.\<close>

definition governed :: "ucfg_env \<Rightarrow> (config \<Rightarrow> 'a) \<Rightarrow> string \<Rightarrow> string \<Rightarrow> (string \<Rightarrow> 'a \<Rightarrow> 'a) \<Rightarrow> bool" where
  "governed E f s n g \<longleftrightarrow>
     (\<forall>s' n' v c ok c'. ucfg_handler E s' n' v c = Inr (ok, c') \<longrightarrow> f c' = (if s' = s \<and> n' = n then g v (f c) else f c))"

text \<open>A setting that every line of the file transforms.\<close>

definition governed_by :: "ucfg_env \<Rightarrow> (config \<Rightarrow> 'a) \<Rightarrow> (string \<times> string \<times> string \<Rightarrow> 'a \<Rightarrow> 'a) \<Rightarrow> bool" where
  "governed_by E f g \<longleftrightarrow>
     (\<forall>s n v c ok c'. ucfg_handler E s n v c = Inr (ok, c') \<longrightarrow> f c' = g (s, n, v) (f c))"

lemma governed_by_calls:
  assumes "governed_by E f g"
  shows "ini_calls (ucfg_handler E) es sec c = Inr (ok, c') \<Longrightarrow> f c' = fold g (ini_pairs es sec) (f c)"
proof (induction es arbitrary: sec c ok)
  case (Cons e es)
  show ?case
  proof (cases e)
    case (Pair n' v)
    show ?thesis
    proof (cases "ucfg_handler E sec n' v c")
      case (Inl x)
      then show ?thesis
        using Cons.prems Pair by simp
    next
      case (Inr r)
      obtain ok1 u where r: "r = (ok1, u)"
        by (cases r)
      obtain ok2 where rest: "ini_calls (ucfg_handler E) es sec u = Inr (ok2, c')"
        using Cons.prems Pair Inr r by (cases "ini_calls (ucfg_handler E) es sec u") auto
      have "f u = g (sec, n', v) (f c)"
        using assms Inr r unfolding governed_by_def by blast
      then show ?thesis
        using Cons.IH [OF rest] Pair by simp
    qed
  qed (use Cons in auto)
qed simp

lemma governed_calls:
  assumes "governed E f s n g" "ini_calls (ucfg_handler E) es sec c = Inr (ok, c')"
  shows "f c' = fold g (values_of s n (ini_pairs es sec)) (f c)"
proof -
  let ?g = "\<lambda>(s', n', v). if s' = s \<and> n' = n then g v else id"
  have "governed_by E f ?g"
    using assms(1) unfolding governed_def governed_by_def by simp
  then have "f c' = fold ?g (ini_pairs es sec) (f c)"
    using assms(2) by (rule governed_by_calls)
  moreover have "fold ?g ps x = fold g (values_of s n ps) x" for ps x
    by (induction ps arbitrary: x) auto
  ultimately show ?thesis
    by simp
qed

lemma fold_untouched: "\<forall>p \<in> set ps. g p = id \<Longrightarrow> fold g ps x = x"
  by (induction ps arbitrary: x) auto

lemma handler_returns:
  assumes "s \<noteq> ''memory''" "s = ''disk'' \<longrightarrow> n \<notin> set old_disk_names"
  shows "\<exists>ok c'. ucfg_handler E s n v c = Inr (ok, c')"
  using assms by (auto simp: ucfg_handler_def Let_def)

lemma calls_return:
  "\<forall>(s, n, v) \<in> set (ini_pairs es sec). s \<noteq> ''memory'' \<and> (s = ''disk'' \<longrightarrow> n \<notin> set old_disk_names) \<Longrightarrow>
   \<exists>ok c'. ini_calls (ucfg_handler E) es sec c = Inr (ok, c')"
proof (induction es arbitrary: sec c)
  case (Cons e es)
  show ?case
  proof (cases e)
    case (Pair n v)
    obtain ok u where h: "ucfg_handler E sec n v c = Inr (ok, u)"
      using handler_returns [of sec n E v c] Cons.prems Pair by auto
    obtain oks u' where "ini_calls (ucfg_handler E) es sec u = Inr (oks, u')"
      using Cons.IH [of sec u] Cons.prems Pair by auto
    then show ?thesis
      using Pair h by simp
  qed (use Cons in auto)
qed auto

section \<open>The facilities\<close>

lemma or_bit_if:
  fixes f x :: u32
  assumes "b = push_bit k 1"
  shows "(if f AND b \<noteq> 0 then x OR b else x) = x OR (f AND b)"
proof -
  have "f AND b = (if bit f k then b else 0)"
    unfolding assms by (rule bit_word_eqI) (auto simp: bit_simps)
  then show ?thesis
    by simp
qed

lemma add_facilities_filter:
  fixes f x :: u32
  assumes "\<forall>(n, b) \<in> set ps. map_of facility_bits n = Some b \<and> n \<noteq> ''all'' \<and> n \<noteq> ''none'' \<and> (\<exists>k. b = push_bit k 1)"
  shows "add_facilities (map fst (filter (\<lambda>(n, b). f AND b \<noteq> 0) ps)) x = x OR (f AND foldr (\<lambda>(n, b) m. b OR m) ps 0)"
  using assms
proof (induction ps arbitrary: x)
  case (Cons p ps)
  obtain n b k where p: "p = (n, b)" "map_of facility_bits n = Some b" "n \<noteq> ''all''" "n \<noteq> ''none''" "b = push_bit k 1"
    using Cons.prems by (cases p) auto
  let ?rest = "map fst (filter (\<lambda>(n, b). f AND b \<noteq> 0) ps)"
  let ?m = "foldr (\<lambda>(n, b) m. b OR m) ps 0"
  have "add_facilities (map fst (filter (\<lambda>(n, b). f AND b \<noteq> 0) (p # ps))) x
      = add_facilities ?rest (if f AND b \<noteq> 0 then x OR b else x)"
    using p(1-4) by simp
  also have "\<dots> = (x OR (f AND b)) OR (f AND ?m)"
    unfolding or_bit_if [OF p(5)] using Cons by auto
  also have "\<dots> = x OR (f AND (b OR ?m))"
    by (simp add: bit.conj_disj_distrib or.assoc)
  finally show ?case
    by (simp add: p(1))
qed simp

lemma facility_bits_single:
  "\<forall>(n, b) \<in> set facility_bits. map_of facility_bits n = Some b \<and> n \<noteq> ''all'' \<and> n \<noteq> ''none'' \<and> (\<exists>k. b = push_bit k 1)"
proof -
  have "facility_bits = map (\<lambda>(n, k). (n, push_bit k 1))
      (zip [''usim'', ''ucode'', ''microcode'', ''macrocode'', ''int'', ''vm'', ''unibus'', ''unibus-mapping'', ''xbus'',
            ''bus-interface'', ''iob'', ''kbd'', ''tv'', ''color'', ''mouse'', ''disk'', ''chaos'', ''x11'', ''spy'', ''lashup'',
            ''misc'', ''tape'', ''idle''] [0..<23])"
    by (simp add: facility_bits_def upt_conv_Cons push_bit_eq_mult)
  then have "\<forall>(n, b) \<in> set facility_bits. \<exists>k. b = push_bit k 1"
    by (smt (verit) case_prodI2 imageE list.set_map prod.case_eq_if snd_conv)
  moreover have "\<forall>(n, b) \<in> set facility_bits. map_of facility_bits n = Some b \<and> n \<noteq> ''all'' \<and> n \<noteq> ''none''"
    by (simp add: facility_bits_def)
  ultimately show ?thesis
    by blast
qed

lemma split_words:
  assumes "CHR '' '' \<notin> set w" "w \<noteq> []"
  shows "filter (\<lambda>w. w \<noteq> []) (split_on (CHR '' '') (w @ CHR '' '' # s)) = w # filter (\<lambda>w. w \<noteq> []) (split_on (CHR '' '') s)"
    and "split_on (CHR '' '') w = [w]"
proof -
  have e: "split_on (CHR '' '') (w @ CHR '' '' # s) = w # split_on (CHR '' '') s"
    if "CHR '' '' \<notin> set w" for w
    using that by (induction w) auto
  show "filter (\<lambda>w. w \<noteq> []) (split_on (CHR '' '') (w @ CHR '' '' # s)) = w # filter (\<lambda>w. w \<noteq> []) (split_on (CHR '' '') s)"
    using assms by (simp add: e)
  show "split_on (CHR '' '') w = [w]"
    using assms(1) by (induction w) auto
qed

text \<open>The words of the facilities, joined.\<close>

fun unwords :: "string list \<Rightarrow> string" where
  "unwords [] = []"
| "unwords [w] = w"
| "unwords (w # ws) = w @ CHR '' '' # unwords ws"

lemma filter_split_unwords:
  "\<forall>w \<in> set ws. CHR '' '' \<notin> set w \<and> w \<noteq> [] \<Longrightarrow> filter (\<lambda>w. w \<noteq> []) (split_on (CHR '' '') (unwords ws)) = ws"
  by (induction ws rule: unwords.induct) (simp_all add: split_words)

lemma facilities_line_pair:
  "facility_names f \<noteq> [] \<Longrightarrow> facilities_line f = print_entry (Pair ''facilities'' (unwords (facility_names f)))"
proof -
  have "concat (map (\<lambda>w. CHR '' '' # w) ws) = CHR '' '' # unwords ws" if "ws \<noteq> []" for ws :: "string list"
    using that by (induction ws rule: unwords.induct) auto
  then show "facility_names f \<noteq> [] \<Longrightarrow> ?thesis"
    by (simp add: facilities_line_def)
qed

lemma facility_names_words: "\<forall>w \<in> set (facility_names f). CHR '' '' \<notin> set w \<and> w \<noteq> []"
proof -
  have "\<forall>w \<in> set (map fst facility_bits). CHR '' '' \<notin> set w \<and> w \<noteq> []"
    by (simp add: facility_bits_def)
  then show ?thesis
    unfolding facility_names_def dumped_facilities_def by auto
qed

definition dumped_bits :: u32 where
  "dumped_bits = 0x5FFFFF"

lemma facilities_restored:
  "add_facilities (filter (\<lambda>w. w \<noteq> []) (split_on (CHR '' '') (unwords (facility_names f)))) x =
     (if f = TRACE_ALL then TRACE_ALL else if f = 0 then 0 else x OR (f AND dumped_bits))"
proof -
  have m: "foldr (\<lambda>(n, b) m. b OR m) dumped_facilities 0 = dumped_bits"
    by (simp add: dumped_facilities_def facility_bits_def dumped_bits_def)
  have all: "\<forall>(n, b) \<in> set dumped_facilities. map_of facility_bits n = Some b \<and> n \<noteq> ''all'' \<and> n \<noteq> ''none'' \<and> (\<exists>k. b = push_bit k 1)"
    using facility_bits_single unfolding dumped_facilities_def by auto
  have "add_facilities (map fst (filter (\<lambda>(n, b). f AND b \<noteq> 0) dumped_facilities)) x = x OR (f AND dumped_bits)"
    using add_facilities_filter [OF all, of f x] unfolding m .
  then show ?thesis
    unfolding filter_split_unwords [OF facility_names_words]
    by (simp add: facility_names_def del: word_neq_0_conv)
qed

section \<open>Loading the dump\<close>

definition dump_entries :: "ucfg_env \<Rightarrow> dump_context \<Rightarrow> config \<Rightarrow> string \<Rightarrow> string \<Rightarrow> ini_entry list" where
  "dump_entries E d c backend level =
     dump_usim E d c @ dump_ucode c @ dump_chaos backend c @ dump_disks d @
     [Section ''trace'', Pair ''level'' level, Pair ''facilities'' (unwords (facility_names (trace_facilities c)))] @
     dump_idle c @ dump_keys c"

lemma dump_print:
  assumes "ucfg_dump_running_config E d c = Inr text" "facility_names (trace_facilities c) \<noteq> []"
  obtains backend level where "backend_name c = Inr backend" "level_name c = Inr level"
    "text = print_ini (dump_entries E d c backend level)"
  using assms
  by (cases "backend_name c"; cases "level_name c")
     (auto simp: ucfg_dump_running_config_def dump_entries_def print_ini_def facilities_line_pair)

text \<open>The pairs of the dump.\<close>

lemma dump_pairs:
  "ini_pairs (dump_entries E d c backend level) [] =
     map (\<lambda>e. case e of Pair n v \<Rightarrow> (''usim'', n, v)) (filter (\<lambda>e. case e of Pair n v \<Rightarrow> True | _ \<Rightarrow> False) (dump_usim E d c)) @
     map (\<lambda>e. case e of Pair n v \<Rightarrow> (''ucode'', n, v)) (filter (\<lambda>e. case e of Pair n v \<Rightarrow> True | _ \<Rightarrow> False) (dump_ucode c)) @
     map (\<lambda>e. case e of Pair n v \<Rightarrow> (''chaos'', n, v)) (filter (\<lambda>e. case e of Pair n v \<Rightarrow> True | _ \<Rightarrow> False) (dump_chaos backend c)) @
     map (\<lambda>(i, t, f). (''disk'', ''disk'' @ show_nat i, t @ '','' @ f)) (configured_disks d) @
     [(''trace'', ''level'', level), (''trace'', ''facilities'', unwords (facility_names (trace_facilities c))),
      (''idle'', ''cycles'', show_nat (unat (cfg_idle_cycles c))), (''idle'', ''quantum'', show_nat (unat (cfg_idle_quantum c))),
      (''idle'', ''timeout'', show_nat (unat (cfg_idle_timeout c)))] @
     map (\<lambda>(n, v). (''kbd.modifiers'', n, v)) (ucfg_kbd_modifiers c) @ map (\<lambda>(n, v). (''kbd'', n, v)) (ucfg_kbd c)"
proof -
  have disks: "ini_pairs (map (\<lambda>(i, t, f). Pair (''disk'' @ show_nat i) (t @ '','' @ f)) ds @ es) sec =
      map (\<lambda>(i, t, f). (sec, ''disk'' @ show_nat i, t @ '','' @ f)) ds @ ini_pairs es sec"
    for ds :: "(nat \<times> string \<times> string) list" and es sec
    by (induction ds) auto
  have keys: "ini_pairs (map (\<lambda>(n, v). Pair n v) ks @ es) sec = map (\<lambda>(n, v). (sec, n, v)) ks @ ini_pairs es sec"
    for ks :: "(string \<times> string) list" and es sec
    by (induction ks) auto
  show ?thesis
    unfolding dump_entries_def dump_usim_def dump_ucode_def dump_chaos_def dump_disks_def dump_idle_def dump_keys_def
    by (simp add: disks [simplified] keys keys [where es = "[]", simplified])
qed

lemma disk_name: "''disk'' @ show_nat i \<notin> set old_disk_names"
proof -
  obtain d0 ds where d: "show_nat i = dec_digit d0 # map dec_digit ds" "d0 < 10" "\<forall>e \<in> set ds. e < 10"
    using show_nat_digits by blast
  have "dec_digit e \<noteq> CHR ''_''" if "e < 10" for e
    using dec_digit_facts(1) [OF that, of 10] by (auto simp: is_digit_of_def digit_value_def)
  then have "CHR ''_'' \<notin> set (show_nat i)"
    unfolding d(1) using d(2,3) by (metis (no_types, lifting) imageE list.set_map set_ConsD)
  then show ?thesis
    by (auto simp: old_disk_names_def)
qed

lemma dump_sections:
  "\<forall>(s, n, v) \<in> set (ini_pairs (dump_entries E d c backend level) []). s \<noteq> ''memory'' \<and> (s = ''disk'' \<longrightarrow> n \<notin> set old_disk_names)"
  unfolding dump_pairs using disk_name
  by (auto simp: dump_usim_def dump_ucode_def dump_chaos_def)

text \<open>The settings and the pairs that govern them.\<close>

lemma set_geometry_only: "\<exists>x y k. set_geometry v c = c\<lparr>window_position_x := x, window_position_y := y, window_display := k\<rparr>"
proof -
  have *: "\<exists>x y k. c = c\<lparr>window_position_x := x, window_position_y := y, window_display := k\<rparr>" for c :: config
    by (intro exI [of _ "window_position_x c"] exI [of _ "window_position_y c"] exI [of _ "window_display c"]) simp
  show ?thesis
  proof (cases "scan_ints 3 v")
    case (Cons x r)
    then show ?thesis
    proof (cases r)
      case r: (Cons y ds)
      let ?x = "if window_position_x c < 0 then x else window_position_x c"
      let ?y = "if window_position_y c < 0 then y else window_position_y c"
      have "set_geometry v c = c\<lparr>window_position_x := ?x, window_position_y := ?y,
          window_display := (case ds of [] \<Rightarrow> window_display c | k # _ \<Rightarrow> k)\<rparr>"
        using Cons r by (cases ds) (simp_all add: set_geometry_def Let_def)
      then show ?thesis
        by blast
    qed (use * in \<open>simp add: set_geometry_def\<close>)
  qed (use * in \<open>simp add: set_geometry_def\<close>)
qed

lemma governedI:
  assumes "\<And>s' n' v c. f (ucfg_store s' n' v c) = f c" "s \<in> {''usim'', ''idle'', ''chaos'', ''trace''}"
    "\<And>n' v c. f (ucfg_usim E n' v c) = (if s = ''usim'' \<and> n' = n then g v (f c) else f c)"
    "\<And>n' v c c'. ucfg_memory n' v c = Inr c' \<Longrightarrow> f c' = f c"
    "\<And>n' v c. f (ucfg_idle n' v c) = (if s = ''idle'' \<and> n' = n then g v (f c) else f c)"
    "\<And>n' v c. f (ucfg_chaos n' v c) = (if s = ''chaos'' \<and> n' = n then g v (f c) else f c)"
    "\<And>n' v c. f (ucfg_trace n' v c) = (if s = ''trace'' \<and> n' = n then g v (f c) else f c)"
    "\<And>n' v c. f (snd (ucfg_key E n' v c)) = f c"
  shows "governed E f s n g"
  unfolding governed_def
proof (intro allI impI)
  fix s' n' v c ok c'
  assume h: "ucfg_handler E s' n' v c = Inr (ok, c')"
  show "f c' = (if s' = s \<and> n' = n then g v (f c) else f c)"
  proof (cases "s' \<in> {''usim'', ''memory'', ''idle'', ''chaos'', ''trace'', ''kbd''}")
    case False
    then have "c' = ucfg_store s' n' v c"
      using h by (auto simp: ucfg_handler_def Let_def split: if_splits)
    then show ?thesis
      using False assms(1,2) by auto
  next
    case True
    have s: "s \<noteq> ''memory''" "s \<noteq> ''kbd''"
      using assms(2) by auto
    show ?thesis
      using True
    proof (elim insertE emptyE)
      assume s': "s' = ''memory''"
      then obtain c2 where "ucfg_memory n' v (ucfg_store s' n' v c) = Inr c2" "c' = c2"
        using h by (auto simp: ucfg_handler_def Let_def fault_simps)
      then have "f c' = f c"
        using assms(1,4) by simp
      then show ?thesis
        using s s' by simp
    next
      assume s': "s' = ''kbd''"
      then have "c' = snd (ucfg_key E n' v (ucfg_store s' n' v c))"
        using h by (cases "ucfg_key E n' v (ucfg_store s' n' v c)") (simp add: ucfg_handler_def Let_def)
      then have "f c' = f c"
        using assms(1,8) by simp
      then show ?thesis
        using s s' by simp
    qed (use h in \<open>simp_all add: ucfg_handler_def Let_def assms(1,3,5,6,7)\<close>, auto simp: assms(1,3,5,6,7))
  qed
qed

lemma ucfg_usim_other:
  "uch11_backend (ucfg_usim E n v c) = uch11_backend c" "trace_level (ucfg_usim E n v c) = trace_level c"
  "trace_facilities (ucfg_usim E n v c) = trace_facilities c" "cfg_idle_cycles (ucfg_usim E n v c) = cfg_idle_cycles c"
  "cfg_idle_quantum (ucfg_usim E n v c) = cfg_idle_quantum c" "cfg_idle_timeout (ucfg_usim E n v c) = cfg_idle_timeout c"
  "hybrid_udp_and_local (ucfg_usim E n v c) = hybrid_udp_and_local c" "ucfg_kbd (ucfg_usim E n v c) = ucfg_kbd c"
  "ucfg_kbd_modifiers (ucfg_usim E n v c) = ucfg_kbd_modifiers c" "ucfg_values (ucfg_usim E n v c) = ucfg_values c"
proof -
  obtain x y k where g: "set_geometry v c = c\<lparr>window_position_x := x, window_position_y := y, window_display := k\<rparr>"
    using set_geometry_only by blast
  show "uch11_backend (ucfg_usim E n v c) = uch11_backend c" "trace_level (ucfg_usim E n v c) = trace_level c"
    "trace_facilities (ucfg_usim E n v c) = trace_facilities c" "cfg_idle_cycles (ucfg_usim E n v c) = cfg_idle_cycles c"
    "cfg_idle_quantum (ucfg_usim E n v c) = cfg_idle_quantum c" "cfg_idle_timeout (ucfg_usim E n v c) = cfg_idle_timeout c"
    "hybrid_udp_and_local (ucfg_usim E n v c) = hybrid_udp_and_local c" "ucfg_kbd (ucfg_usim E n v c) = ucfg_kbd c"
    "ucfg_kbd_modifiers (ucfg_usim E n v c) = ucfg_kbd_modifiers c" "ucfg_values (ucfg_usim E n v c) = ucfg_values c"
    by (simp_all add: ucfg_usim_def g Let_def)
qed

lemma ucfg_usim_settings:
  "tv_monitor (ucfg_usim E n v c) =
     (if n = ''monitor'' then if v = ''cpt'' then 0 else if v = ''other'' then 1 else tv_monitor c else tv_monitor c)"
  "window_always_on_top (ucfg_usim E n v c) = (if n = ''always_on_top'' then v = ''true'' else window_always_on_top c)"
  "headless (ucfg_usim E n v c) = (if n = ''headless'' then v = ''true'' else headless c)"
  "sdl3_video_allow_resize (ucfg_usim E n v c) = (if n = ''allow_resize'' then v = ''true'' else sdl3_video_allow_resize c)"
  "sdl3_audio_use_ascii_beep (ucfg_usim E n v c) = (if n = ''use_ascii_beep'' then v = ''true'' else sdl3_audio_use_ascii_beep c)"
  "sdl3_video_linear (ucfg_usim E n v c) =
     (if n = ''scale_filter'' then if v = ''nearest'' then False else if v = ''linear'' then True else sdl3_video_linear c
      else sdl3_video_linear c)"
  "usim_fs_root_directory (ucfg_usim E n v c) = (if n = ''fs_root_directory'' then v else usim_fs_root_directory c)"
  "sdl3_video_scale (ucfg_usim E n v c) = (if n = ''scale'' then read_double_value E v (sdl3_video_scale c) else sdl3_video_scale c)"
  "sdl3_audio_beep_amplitude (ucfg_usim E n v c) =
     (if n = ''beep_amplitude'' then
        let a = read_double_value E v (sdl3_audio_beep_amplitude c) in if a > 1 \<or> a < 0 then 0 else a
      else sdl3_audio_beep_amplitude c)"
  "sdl3_special_key_scancode (ucfg_usim E n v c) =
     (if n = ''special_key'' then
        if v \<noteq> [] \<and> SDL_GetScancodeFromName E v \<noteq> 0 then SDL_GetScancodeFromName E v else sdl3_special_key_scancode c
      else sdl3_special_key_scancode c)"
proof -
  obtain x y k where g: "set_geometry v c = c\<lparr>window_position_x := x, window_position_y := y, window_display := k\<rparr>"
    using set_geometry_only by blast
  note defs = ucfg_usim_def g Let_def
  show "tv_monitor (ucfg_usim E n v c) =
     (if n = ''monitor'' then if v = ''cpt'' then 0 else if v = ''other'' then 1 else tv_monitor c else tv_monitor c)"
    by (simp add: defs)
  show "window_always_on_top (ucfg_usim E n v c) = (if n = ''always_on_top'' then v = ''true'' else window_always_on_top c)"
    by (simp add: defs)
  show "headless (ucfg_usim E n v c) = (if n = ''headless'' then v = ''true'' else headless c)"
    by (simp add: defs)
  show "sdl3_video_allow_resize (ucfg_usim E n v c) = (if n = ''allow_resize'' then v = ''true'' else sdl3_video_allow_resize c)"
    by (simp add: defs)
  show "sdl3_audio_use_ascii_beep (ucfg_usim E n v c) = (if n = ''use_ascii_beep'' then v = ''true'' else sdl3_audio_use_ascii_beep c)"
    by (simp add: defs)
  show "sdl3_video_linear (ucfg_usim E n v c) =
     (if n = ''scale_filter'' then if v = ''nearest'' then False else if v = ''linear'' then True else sdl3_video_linear c
      else sdl3_video_linear c)"
    by (simp add: defs)
  show "usim_fs_root_directory (ucfg_usim E n v c) = (if n = ''fs_root_directory'' then v else usim_fs_root_directory c)"
    by (simp add: defs)
  show "sdl3_video_scale (ucfg_usim E n v c) = (if n = ''scale'' then read_double_value E v (sdl3_video_scale c) else sdl3_video_scale c)"
    by (simp add: defs)
  show "sdl3_audio_beep_amplitude (ucfg_usim E n v c) =
     (if n = ''beep_amplitude'' then
        let a = read_double_value E v (sdl3_audio_beep_amplitude c) in if a > 1 \<or> a < 0 then 0 else a
      else sdl3_audio_beep_amplitude c)"
    by (simp add: defs)
  show "sdl3_special_key_scancode (ucfg_usim E n v c) =
     (if n = ''special_key'' then
        if v \<noteq> [] \<and> SDL_GetScancodeFromName E v \<noteq> 0 then SDL_GetScancodeFromName E v else sdl3_special_key_scancode c
      else sdl3_special_key_scancode c)"
    by (cases "n = ''geometry''") (simp add: defs, simp add: ucfg_usim_def Let_def)
qed

lemmas other_defs = ucfg_store_def ucfg_memory_def ucfg_idle_def ucfg_chaos_def ucfg_trace_def ucfg_key_def Let_def

lemma governed_usim:
  "governed E tv_monitor ''usim'' ''monitor'' (\<lambda>v m. if v = ''cpt'' then 0 else if v = ''other'' then 1 else m)"
  "governed E window_always_on_top ''usim'' ''always_on_top'' (\<lambda>v _. v = ''true'')"
  "governed E headless ''usim'' ''headless'' (\<lambda>v _. v = ''true'')"
  "governed E sdl3_video_allow_resize ''usim'' ''allow_resize'' (\<lambda>v _. v = ''true'')"
  "governed E sdl3_audio_use_ascii_beep ''usim'' ''use_ascii_beep'' (\<lambda>v _. v = ''true'')"
  "governed E sdl3_video_linear ''usim'' ''scale_filter'' (\<lambda>v l. if v = ''nearest'' then False else if v = ''linear'' then True else l)"
  "governed E usim_fs_root_directory ''usim'' ''fs_root_directory'' (\<lambda>v _. v)"
  "governed E sdl3_video_scale ''usim'' ''scale'' (read_double_value E)"
  "governed E sdl3_audio_beep_amplitude ''usim'' ''beep_amplitude''
     (\<lambda>v a. let a' = read_double_value E v a in if a' > 1 \<or> a' < 0 then 0 else a')"
  "governed E sdl3_special_key_scancode ''usim'' ''special_key''
     (\<lambda>v k. if v \<noteq> [] \<and> SDL_GetScancodeFromName E v \<noteq> 0 then SDL_GetScancodeFromName E v else k)"
  by (rule governedI; (simp add: ucfg_usim_settings)?; auto simp: other_defs split: if_splits option.splits prod.splits)+

lemma governed_chaos:
  "governed E uch11_backend ''chaos'' ''backend''
     (\<lambda>v b. if v = ''daemon'' then 0 else if v = ''local'' then 1 else if v = ''udp'' \<or> v = ''hybrid'' then 2 else b)"
  by (rule governedI; (simp add: ucfg_usim_other)?; auto simp: other_defs split: if_splits option.splits prod.splits)

lemma governed_trace:
  "governed E trace_level ''trace'' ''level''
     (\<lambda>v l. case find (\<lambda>i. trace_level_names ! i = v) [0..<8] of None \<Rightarrow> l | Some i \<Rightarrow> i)"
  "governed E trace_facilities ''trace'' ''facilities'' (\<lambda>v. add_facilities (filter (\<lambda>w. w \<noteq> []) (split_on (CHR '' '') v)))"
  by (rule governedI; (simp add: ucfg_usim_other)?; auto simp: other_defs split: if_splits option.splits prod.splits)+

lemma governed_idle:
  "governed E cfg_idle_quantum ''idle'' ''quantum'' read_integer_value"
  "governed E cfg_idle_timeout ''idle'' ''timeout'' read_integer_value"
  "governed E cfg_idle_cycles ''idle'' ''cycles''
     (\<lambda>v k. let n = to_int (fst (c_strtol 0 v)) in if n < 0 then k else word_of_int n)"
  by (rule governedI; (simp add: ucfg_usim_other)?; auto simp: other_defs split: if_splits option.splits prod.splits)+

lemma governed_string:
  assumes "is_option s n"
  shows "governed E (\<lambda>c. ucfg_values c (s, n)) s n (\<lambda>v _. Some v)"
  unfolding governed_def
proof (intro allI impI)
  fix s' n' v c ok c'
  assume h: "ucfg_handler E s' n' v c = Inr (ok, c')"
  have "ucfg_values c' = ucfg_values (ucfg_store s' n' v c)"
    using h
    by (auto simp: ucfg_usim_other ucfg_handler_def ucfg_memory_def ucfg_idle_def ucfg_chaos_def ucfg_trace_def ucfg_key_def Let_def
        fault_simps split: if_splits option.splits prod.splits)
  then show "ucfg_values c' (s, n) = (if s' = s \<and> n' = n then Some v else ucfg_values c (s, n))"
    using assms by (simp add: ucfg_store_def Let_def)
qed

lemma governed_geometry:
  "governed E (\<lambda>c. (window_position_x c, window_position_y c, window_display c)) ''usim'' ''geometry''
     (\<lambda>v (x, y, k). case scan_ints 3 v of
        x' # y' # ds \<Rightarrow> (if x < 0 then x' else x, if y < 0 then y' else y, case ds of [] \<Rightarrow> k | d # _ \<Rightarrow> d)
      | _ \<Rightarrow> (x, y, k))"
proof (rule governedI)
  fix n' v c
  show "(window_position_x (ucfg_usim E n' v c), window_position_y (ucfg_usim E n' v c), window_display (ucfg_usim E n' v c)) =
     (if ''usim'' = ''usim'' \<and> n' = ''geometry'' then
        (\<lambda>(x, y, k). case scan_ints 3 v of
           x' # y' # ds \<Rightarrow> (if x < 0 then x' else x, if y < 0 then y' else y, case ds of [] \<Rightarrow> k | d # _ \<Rightarrow> d)
         | _ \<Rightarrow> (x, y, k)) (window_position_x c, window_position_y c, window_display c)
      else (window_position_x c, window_position_y c, window_display c))"
    by (cases "n' = ''geometry''") (simp add: ucfg_usim_def set_geometry_def Let_def split: list.split,
      simp add: ucfg_usim_def Let_def)
next
  fix n' v c c'
  assume "ucfg_memory n' v c = Inr c'"
  then show "(window_position_x c', window_position_y c', window_display c') =
      (window_position_x c, window_position_y c, window_display c)"
    by (auto simp: ucfg_memory_def Let_def split: if_splits)
qed (simp_all add: ucfg_store_def ucfg_idle_def ucfg_chaos_def ucfg_trace_def ucfg_key_def Let_def split: option.split prod.split)

lemma governed_byI:
  assumes "\<And>s n v c. f (if s = ''chaos'' then ucfg_chaos n v (ucfg_store s n v c) else ucfg_store s n v c) = g (s, n, v) (f c)"
    "\<And>n v c. f (ucfg_usim E n v c) = f c" "\<And>n v c c'. ucfg_memory n v c = Inr c' \<Longrightarrow> f c' = f c"
    "\<And>n v c. f (ucfg_idle n v c) = f c" "\<And>n v c. f (ucfg_trace n v c) = f c" "\<And>n v c. f (snd (ucfg_key E n v c)) = f c"
  shows "governed_by E f g"
  unfolding governed_by_def
proof (intro allI impI)
  fix s n v c ok c'
  assume h: "ucfg_handler E s n v c = Inr (ok, c')"
  have "f c' = f (if s = ''chaos'' then ucfg_chaos n v (ucfg_store s n v c) else ucfg_store s n v c)"
  proof (cases "s = ''memory''")
    case True
    then obtain c2 where "ucfg_memory n v (ucfg_store s n v c) = Inr c2" "c' = c2"
      using h by (auto simp: ucfg_handler_def Let_def fault_simps)
    then show ?thesis
      using True assms(3) by simp
  next
    case False
    show ?thesis
    proof (cases "s = ''kbd''")
      case True
      then have "c' = snd (ucfg_key E n v (ucfg_store s n v c))"
        using h by (cases "ucfg_key E n v (ucfg_store s n v c)") (simp add: ucfg_handler_def Let_def)
      then show ?thesis
        using True assms(6) by simp
    next
      case k: False
      then show ?thesis
        using h False assms(2,4,5) by (auto simp: ucfg_handler_def Let_def split: if_splits)
    qed
  qed
  then show "f c' = g (s, n, v) (f c)"
    using assms(1) by simp
qed

lemma governed_by_sections:
  "governed_by E hybrid_udp_and_local (\<lambda>(s, n, v) h.
     if s = ''chaos'' \<and> n = ''backend'' \<and> v = ''hybrid'' then True
     else if s = ''chaos'' \<and> n = ''udp_local_hybrid'' then v = ''true'' else h)"
  "governed_by E ucfg_kbd_modifiers (\<lambda>(s, n, v) ks. if s = ''kbd.modifiers'' then ks @ [(n, v)] else ks)"
  "governed_by E ucfg_kbd (\<lambda>(s, n, v) ks. if s = ''kbd'' then ks @ [(n, v)] else ks)"
  by (rule governed_byI; (simp add: ucfg_usim_other)?;
    (simp add: ucfg_store_def ucfg_idle_def ucfg_chaos_def ucfg_trace_def ucfg_key_def Let_def split: option.split prod.split)?;
    auto simp: ucfg_memory_def Let_def split: if_splits)+

section \<open>The geometry\<close>

lemma digits_end:
  assumes "s = [] \<or> hd s = CHR '' ''"
  shows "takeWhile (is_digit_of 10) (show_nat n @ s) = show_nat n" "dropWhile (is_digit_of 10) (show_nat n @ s) = s"
proof -
  obtain d ds where "show_nat n = dec_digit d # map dec_digit ds" "d < 10" "\<forall>e \<in> set ds. e < 10"
    using show_nat_digits by blast
  then have all: "\<forall>c \<in> set (show_nat n). is_digit_of 10 c"
    using dec_digit_facts(1) [of _ 10] by auto
  have "s = [] \<or> \<not> is_digit_of 10 (hd s)"
    using assms by (auto simp: is_digit_of_def digit_value_def)
  then have "takeWhile (is_digit_of 10) s = []" "dropWhile (is_digit_of 10) s = s"
    by (cases s; simp)+
  then show "takeWhile (is_digit_of 10) (show_nat n @ s) = show_nat n" "dropWhile (is_digit_of 10) (show_nat n @ s) = s"
    using all by (simp_all add: takeWhile_append dropWhile_append)
qed

lemma show_nat_head:
  "lskip (show_nat n @ s) = show_nat n @ s" "c_sign (show_nat n @ s) = (False, show_nat n @ s)"
proof -
  obtain d ds where d: "show_nat n = dec_digit d # map dec_digit ds" "d < 10"
    using show_nat_digits by blast
  show "lskip (show_nat n @ s) = show_nat n @ s" "c_sign (show_nat n @ s) = (False, show_nat n @ s)"
    using dec_digit_facts [OF d(2), of 10] by (simp_all add: d(1) lskip_def c_sign_def)
qed

lemma sign_show_int:
  "c_sign (lskip (show_int i @ s)) = (i < 0, show_nat (nat \<bar>i\<bar>) @ s)"
  by (simp add: show_int_def show_nat_head) (simp add: lskip_def c_sign_def c_isspace_def)

lemma show_nat_some [simp]: "show_nat n \<noteq> []"
  using show_nat_digits by (metis list.distinct(1))

lemma strtol_show_int:
  assumes "- (2 ^ 31) \<le> i" "i < 2 ^ 31" "s = [] \<or> hd s = CHR '' ''"
  shows "c_strtol 10 (show_int i @ s) = (i, s, False)"
  using assms(1,2)
  by (simp add: c_strtol_def sign_show_int c_base_def digits_end [OF assms(3)] digits_value_show Let_def)

lemma scan_show_int:
  assumes "- (2 ^ 31) \<le> i" "i < 2 ^ 31" "s = [] \<or> hd s = CHR '' ''"
  shows "scan_ints (Suc n) (show_int i @ s) = i # scan_ints n s"
proof -
  have "to_int i = i"
    unfolding to_int_def sint_sbintrunc' using assms(1,2) by (simp add: signed_take_bit_int_eq_self)
  then show ?thesis
    by (simp add: sign_show_int digits_end [OF assms(3)] strtol_show_int [OF assms] Let_def)
qed

lemma scan_space: "scan_ints n (CHR '' '' # s) = scan_ints n s"
  by (cases n) (auto simp: c_strtol_def c_base_def lskip_def c_isspace_def Let_def split: prod.splits)

definition fits_int :: "int \<Rightarrow> bool" where
  "fits_int i \<longleftrightarrow> - (2 ^ 31) \<le> i \<and> i < 2 ^ 31"

lemma scan_geometry:
  assumes "fits_int (window_position_x c)" "fits_int (window_position_y c)" "fits_int (window_display c)"
  shows "scan_ints 3 (geometry_string c) = [window_position_x c, window_position_y c, window_display c]"
proof -
  have "scan_ints (Suc 0) (show_int (window_display c)) = [window_display c]"
    using scan_show_int [of "window_display c" "[]" 0] assms(3) by (simp add: fits_int_def del: scan_ints.simps(2))
  then have "scan_ints (Suc (Suc 0)) (show_int (window_position_y c) @ CHR '' '' # show_int (window_display c)) =
      [window_position_y c, window_display c]"
    using scan_show_int [of "window_position_y c" "CHR '' '' # show_int (window_display c)" "Suc 0"] assms(2)
    by (simp add: fits_int_def scan_space del: scan_ints.simps(2))
  then have "scan_ints (Suc (Suc (Suc 0))) (geometry_string c) = [window_position_x c, window_position_y c, window_display c]"
    using scan_show_int [of "window_position_x c"
        "CHR '' '' # show_int (window_position_y c) @ CHR '' '' # show_int (window_display c)" "Suc (Suc 0)"] assms(1)
    by (simp add: fits_int_def scan_space geometry_string_def del: scan_ints.simps(2))
  then show ?thesis
    by (simp only: numeral_3_eq_3)
qed

text \<open>
  A configuration whose dump is a file that the parser can read: every line is short enough and free of the characters that
  the parser takes as syntax, and the line of the facilities has a word.
\<close>

definition dumpable :: "ucfg_env \<Rightarrow> dump_context \<Rightarrow> config \<Rightarrow> bool" where
  "dumpable E d c \<longleftrightarrow> facility_names (trace_facilities c) \<noteq> [] \<and>
     (case (backend_name c, level_name c) of
        (Inr backend, Inr level) \<Rightarrow> list_all entry_ok (dump_entries E d c backend level)
      | _ \<Rightarrow> False)"

lemma load_of_dump:
  assumes "ucfg_dump_running_config E d c = Inr text" "fs filename = Some text" "dumpable E d c"
  shows "\<exists>backend level ok oks c'. backend_name c = Inr backend \<and> level_name c = Inr level \<and>
    ucfg_load_config_file E fs (Suc k) filename c0 = Inr (ok, c') \<and>
    ini_calls (ucfg_handler E) (dump_entries E d c backend level) [] c0 = Inr (oks, c')"
proof -
  have names: "facility_names (trace_facilities c) \<noteq> []"
    using assms(3) by (simp add: dumpable_def)
  obtain backend level where b: "backend_name c = Inr backend" "level_name c = Inr level"
    "text = print_ini (dump_entries E d c backend level)"
    using dump_print [OF assms(1) names] by metis
  let ?es = "dump_entries E d c backend level"
  have ok: "\<forall>e \<in> set ?es. entry_ok e"
    using assms(3) b by (simp add: dumpable_def list_all_iff)
  obtain oks c' where r: "ini_calls (ucfg_handler E) ?es [] c0 = Inr (oks, c')"
    using calls_return [OF dump_sections] by blast
  have "\<exists>e. ini_parse fs (ucfg_handler E) (Suc k) filename c0 = Inr (e, c')"
    using ini_parse_print [OF ok, where fs = fs and filename = filename and h = "ucfg_handler E" and k = k and u = c0] assms(2) b(3) r
    by (simp del: ini_parse.simps split: sum.splits prod.splits)
  then obtain ok' where "ucfg_load_config_file E fs (Suc k) filename c0 = Inr (ok', c')"
    unfolding ucfg_load_config_file_def by (auto simp del: ini_parse.simps)
  then show ?thesis
    using b(1,2) r by blast
qed

lemma values_of_maps:
  "s \<noteq> s' \<Longrightarrow> values_of s n (map (\<lambda>(a, b). (s', f a b, g a b)) xs) = []"
  "s \<noteq> s' \<Longrightarrow> values_of s n (map (\<lambda>(a, b, e). (s', f' a b e, g' a b e)) ys) = []"
  "s \<noteq> s' \<Longrightarrow> values_of s n (map (Product_Type.Pair s') zs) = []"
  by (auto simp: values_of_def filter_empty_conv)

lemma dump_values:
  fixes backend level
  assumes "p = ini_pairs (dump_entries E d c backend level) []"
  shows "values_of ''usim'' ''monitor'' p = [if tv_monitor c = 0 then ''cpt'' else ''other'']"
    "values_of ''usim'' ''always_on_top'' p = [BOOL2STR (window_always_on_top c)]"
    "values_of ''usim'' ''headless'' p = [BOOL2STR (headless c)]"
    "values_of ''usim'' ''allow_resize'' p = [BOOL2STR (sdl3_video_allow_resize c)]"
    "values_of ''usim'' ''use_ascii_beep'' p = [BOOL2STR (sdl3_audio_use_ascii_beep c)]"
    "values_of ''usim'' ''scale_filter'' p = [if sdl3_video_linear c then ''linear'' else ''nearest'']"
    "values_of ''usim'' ''geometry'' p = [geometry_string c]"
    "values_of ''chaos'' ''backend'' p = [backend]"
    "values_of ''trace'' ''level'' p = [level]"
    "values_of ''trace'' ''facilities'' p = [unwords (facility_names (trace_facilities c))]"
    "values_of ''idle'' ''cycles'' p = [show_nat (unat (cfg_idle_cycles c))]"
    "values_of ''idle'' ''quantum'' p = [show_nat (unat (cfg_idle_quantum c))]"
    "values_of ''idle'' ''timeout'' p = [show_nat (unat (cfg_idle_timeout c))]"
    "values_of ''usim'' ''fs_root_directory'' p = (if usim_fs_root_directory c \<noteq> [] then [usim_fs_root_directory c] else [])"
    "values_of ''usim'' ''sys_directory'' p = (if usim_sys_directory d \<noteq> [] then [usim_sys_directory d] else [])"
    "values_of ''usim'' ''state_filename'' p = [usim_state_filename d]"
    "values_of ''usim'' ''scale'' p = [printf_g E (sdl3_video_scale c)]"
    "values_of ''usim'' ''beep_amplitude'' p = [printf_g E (sdl3_audio_beep_amplitude c)]"
    "values_of ''usim'' ''special_key'' p = [SDL_GetScancodeName E (sdl3_special_key_scancode c)]"
  unfolding assms dump_pairs
  by (simp_all add: values_of_maps dump_usim_def dump_ucode_def dump_chaos_def)

lemma of_level_name:
  "level_name c = Inr level \<Longrightarrow> find (\<lambda>i. trace_level_names ! i = level) [0..<8] = Some (trace_level c)"
proof -
  assume "level_name c = Inr level"
  then have l: "level = trace_level_names ! trace_level c" "trace_level c \<in> {3, 4, 5, 6, 7}"
    by (auto simp: level_name_def split: if_splits)
  then show ?thesis
    by (auto simp: trace_level_names_def upt_conv_Cons)
qed

lemma of_backend_name:
  "backend_name c = Inr b \<Longrightarrow>
     (if b = ''daemon'' then 0 else if b = ''local'' then 1 else if b = ''udp'' \<or> b = ''hybrid'' then 2 else x) = uch11_backend c"
  by (auto simp: backend_name_def split: if_splits)

lemma show_nat_nonempty [simp]: "show_nat n \<noteq> []"
  using show_nat_digits by (metis list.distinct(1))

lemma read_show_nat: "n < 2 ^ 63 \<Longrightarrow> read_integer_value (show_nat n) old = word_of_nat n"
  by (simp add: read_integer_value_def strtol_show)

lemma cycles_show_nat:
  assumes "unat n < 2 ^ 31"
  shows "(let i = to_int (fst (c_strtol 0 (show_nat (unat n)))) in if i < 0 then old else word_of_int i) = (n :: u64)"
proof -
  have "to_int i = i" if "0 \<le> i" "i < 2 ^ 31" for i
    unfolding to_int_def sint_sbintrunc' using that by (simp add: signed_take_bit_int_eq_self)
  then have "to_int (int (unat n)) = int (unat n)"
    using assms by (metis of_nat_0_le_iff of_nat_less_numeral_power_cancel_iff)
  then show ?thesis
    using assms by (simp add: strtol_show)
qed

lemma fold1: "vs = [v] \<Longrightarrow> fold g vs x = g v x"
  by simp

text \<open>The strings of the configuration that the dump writes.\<close>

definition dumped_strings :: "(string \<times> string) list" where
  "dumped_strings =
     [(''usim'', ''grab_keyboard''), (''usim'', ''kbd''), (''ucode'', ''prommcr_filename''), (''ucode'', ''promsym_filename''),
      (''ucode'', ''mcrsym_filename''), (''chaos'', ''myname''), (''chaos'', ''servername''), (''chaos'', ''bridgeip''),
      (''chaos'', ''bridgeport''), (''chaos'', ''bridgeport_local''), (''chaos'', ''bridgechaos''), (''chaos'', ''hosts'')]"

lemma dumped_string_values:
  assumes "(s, n) \<in> set dumped_strings"
  shows "values_of s n (ini_pairs (dump_entries E d c backend level) []) = [ucfg_string s n c]" "is_option s n"
proof -
  have "\<forall>(s, n) \<in> set dumped_strings. values_of s n (ini_pairs (dump_entries E d c backend level) []) = [ucfg_string s n c]"
    unfolding dump_pairs
    by (simp add: dumped_strings_def values_of_maps dump_usim_def dump_ucode_def dump_chaos_def)
  moreover have "list_all (\<lambda>(s, n). is_option s n) dumped_strings"
    by code_simp
  ultimately show "values_of s n (ini_pairs (dump_entries E d c backend level) []) = [ucfg_string s n c]" "is_option s n"
    using assms by (auto simp: list_all_iff)
qed

lemma show_nat_inj: "show_nat m = show_nat n \<longleftrightarrow> m = n"
  using digits_value_show by metis

lemma dumped_disk_values:
  assumes "distinct (map fst (configured_disks d))" "(i, t, f) \<in> set (configured_disks d)"
  shows "values_of ''disk'' (''disk'' @ show_nat i) (ini_pairs (dump_entries E d c backend level) []) = [t @ '','' @ f]"
proof -
  have none: "values_of ''disk'' (''disk'' @ show_nat i) (map (\<lambda>(i, t, f). (''disk'', ''disk'' @ show_nat i, t @ '','' @ f)) ds) = []"
    if "i \<notin> set (map fst ds)" for ds :: "(nat \<times> string \<times> string) list"
    using that by (induction ds) (auto simp: show_nat_inj)
  have one: "values_of ''disk'' (''disk'' @ show_nat i) (map (\<lambda>(i, t, f). (''disk'', ''disk'' @ show_nat i, t @ '','' @ f)) ds) = [t @ '','' @ f]"
    if "distinct (map fst ds)" "(i, t, f) \<in> set ds" for ds :: "(nat \<times> string \<times> string) list"
    using that
  proof (induction ds)
    case (Cons e ds)
    show ?case
    proof (cases "fst e = i")
      case True
      then have "i \<notin> set (map fst ds)" "e = (i, t, f)"
        using Cons.prems by (force, cases e) (force simp: image_iff)+
      then show ?thesis
        using none [of ds] by simp
    next
      case False
      then show ?thesis
        using Cons by (cases e) (auto simp: show_nat_inj)
    qed
  qed simp
  show ?thesis
    unfolding dump_pairs using one [OF assms]
    by (simp add: values_of_maps dump_usim_def dump_ucode_def dump_chaos_def)
qed

text \<open>What the calls for the entries of a dump make of the settings that more than one line governs.\<close>

lemma restored_hybrid:
  assumes "ini_calls (ucfg_handler E) (dump_entries E d c backend level) [] c0 = Inr (oks, c')"
  shows "hybrid_udp_and_local c' = hybrid_udp_and_local c"
  using governed_by_calls [OF governed_by_sections(1) assms] unfolding dump_pairs
  by (simp add: fold_untouched fun_eq_iff split_beta dump_usim_def dump_ucode_def dump_chaos_def BOOL2STR_def)

lemma fold_keys:
  "fold (\<lambda>(s, n, v) ks. if s = sec then ks @ [(n, v)] else ks) (map (Product_Type.Pair sec) xs) ks = ks @ xs"
  by (induction xs arbitrary: ks) auto

lemma restored_keys:
  assumes "ini_calls (ucfg_handler E) (dump_entries E d c backend level) [] c0 = Inr (oks, c')"
  shows "ucfg_kbd_modifiers c' = ucfg_kbd_modifiers c0 @ ucfg_kbd_modifiers c" "ucfg_kbd c' = ucfg_kbd c0 @ ucfg_kbd c"
  using governed_by_calls [OF governed_by_sections(2) assms] governed_by_calls [OF governed_by_sections(3) assms]
  unfolding dump_pairs
  by (simp_all add: fold_keys fold_untouched fun_eq_iff split_beta dump_usim_def dump_ucode_def dump_chaos_def)

lemma restored_window:
  assumes "ini_calls (ucfg_handler E) (dump_entries E d c backend level) [] c0 = Inr (oks, c')"
  shows "tv_monitor c' = min (tv_monitor c) 1" "window_always_on_top c' = window_always_on_top c" "headless c' = headless c"
    "sdl3_video_allow_resize c' = sdl3_video_allow_resize c" "sdl3_video_linear c' = sdl3_video_linear c"
    "sdl3_audio_use_ascii_beep c' = sdl3_audio_use_ascii_beep c"
proof -
  note v = dump_values [OF refl, of E d c backend level]
  show "tv_monitor c' = min (tv_monitor c) 1"
    using governed_calls [OF governed_usim(1) assms] v(1) by simp
  show "window_always_on_top c' = window_always_on_top c" "headless c' = headless c"
    "sdl3_video_allow_resize c' = sdl3_video_allow_resize c" "sdl3_video_linear c' = sdl3_video_linear c"
    "sdl3_audio_use_ascii_beep c' = sdl3_audio_use_ascii_beep c"
    using governed_calls [OF governed_usim(2) assms] governed_calls [OF governed_usim(3) assms]
      governed_calls [OF governed_usim(4) assms] governed_calls [OF governed_usim(5) assms]
      governed_calls [OF governed_usim(6) assms] v(2-6) by (simp_all add: BOOL2STR_def)
qed

lemma restored_geometry:
  assumes "ini_calls (ucfg_handler E) (dump_entries E d c backend level) [] c0 = Inr (oks, c')"
    "fits_int (window_position_x c)" "fits_int (window_position_y c)" "fits_int (window_display c)"
  shows "window_position_x c' = (if window_position_x c0 < 0 then window_position_x c else window_position_x c0)"
    "window_position_y c' = (if window_position_y c0 < 0 then window_position_y c else window_position_y c0)"
    "window_display c' = window_display c"
  using governed_calls [OF governed_geometry assms(1)] unfolding dump_values(7) [OF refl]
  by (simp_all add: scan_geometry [OF assms(2-4)])

lemma restored_strings:
  assumes "ini_calls (ucfg_handler E) (dump_entries E d c backend level) [] c0 = Inr (oks, c')"
  shows "\<forall>(s, n) \<in> set dumped_strings. ucfg_values c' (s, n) = Some (ucfg_string s n c)"
    "ucfg_values c' (''usim'', ''state_filename'') = Some (usim_state_filename d)"
    "usim_sys_directory d \<noteq> [] \<longrightarrow> ucfg_values c' (''usim'', ''sys_directory'') = Some (usim_sys_directory d)"
proof -
  note string = governed_calls [OF governed_string assms]
  have o: "is_option ''usim'' ''state_filename''" "is_option ''usim'' ''sys_directory''"
    by (code_simp, code_simp)
  show "\<forall>(s, n) \<in> set dumped_strings. ucfg_values c' (s, n) = Some (ucfg_string s n c)"
    using string [OF dumped_string_values(2)] dumped_string_values(1) by (auto simp: fold1)
  show "ucfg_values c' (''usim'', ''state_filename'') = Some (usim_state_filename d)"
    "usim_sys_directory d \<noteq> [] \<longrightarrow> ucfg_values c' (''usim'', ''sys_directory'') = Some (usim_sys_directory d)"
    using string [OF o(1)] string [OF o(2)] dump_values(15,16) [OF refl, of E d c backend level] by simp_all
qed

lemma restored_disks:
  assumes "ini_calls (ucfg_handler E) (dump_entries E d c backend level) [] c0 = Inr (oks, c')"
    "distinct (map fst (configured_disks d))"
  shows "\<forall>(i, t, f) \<in> set (configured_disks d). i < 8 \<longrightarrow>
    ucfg_values c' (''disk'', ''disk'' @ show_nat i) = Some (t @ '','' @ f)"
proof -
  have o: "is_option ''disk'' (''disk'' @ show_nat i)" if "i < 8" for i
  proof -
    have "list_all (\<lambda>i. is_option ''disk'' (''disk'' @ show_nat i)) [0..<8]"
      by code_simp
    then show ?thesis
      using that by (simp add: list_all_iff)
  qed
  show ?thesis
    using governed_calls [OF governed_string assms(1), OF o] dumped_disk_values [OF assms(2)] by (auto simp: fold1)
qed

text \<open>Settings that go through the printing and reading of SDL and the C library, and the root directory.\<close>

lemma restored_outside:
  assumes "ini_calls (ucfg_handler E) (dump_entries E d c backend level) [] c0 = Inr (oks, c')"
  shows "usim_fs_root_directory c' =
      (if usim_fs_root_directory c = [] then usim_fs_root_directory c0 else usim_fs_root_directory c)"
    "sdl3_video_scale c' = read_double_value E (printf_g E (sdl3_video_scale c)) (sdl3_video_scale c0)"
    "sdl3_audio_beep_amplitude c' =
      (let a = read_double_value E (printf_g E (sdl3_audio_beep_amplitude c)) (sdl3_audio_beep_amplitude c0)
       in if a > 1 \<or> a < 0 then 0 else a)"
    "sdl3_special_key_scancode c' =
      (let v = SDL_GetScancodeName E (sdl3_special_key_scancode c)
       in if v \<noteq> [] \<and> SDL_GetScancodeFromName E v \<noteq> 0 then SDL_GetScancodeFromName E v else sdl3_special_key_scancode c0)"
  using governed_calls [OF governed_usim(7) assms] governed_calls [OF governed_usim(8) assms]
    governed_calls [OF governed_usim(9) assms] governed_calls [OF governed_usim(10) assms]
  unfolding dump_values(14,17-19) [OF refl] by (simp_all add: Let_def)

lemma restored_chaos_trace:
  assumes "ini_calls (ucfg_handler E) (dump_entries E d c backend level) [] c0 = Inr (oks, c')"
    "backend_name c = Inr backend" "level_name c = Inr level"
  shows "uch11_backend c' = uch11_backend c" "trace_level c' = trace_level c"
    "trace_facilities c' = (if trace_facilities c = TRACE_ALL then TRACE_ALL else if trace_facilities c = 0 then 0
                           else trace_facilities c0 OR (trace_facilities c AND dumped_bits))"
proof -
  note v = dump_values [OF refl, of E d c backend level]
  show "uch11_backend c' = uch11_backend c"
    using governed_calls [OF governed_chaos assms(1)] v(8) of_backend_name [OF assms(2)] by simp
  show "trace_level c' = trace_level c"
    using governed_calls [OF governed_trace(1) assms(1)] v(9) of_level_name [OF assms(3)] by simp
  show "trace_facilities c' = (if trace_facilities c = TRACE_ALL then TRACE_ALL else if trace_facilities c = 0 then 0
                           else trace_facilities c0 OR (trace_facilities c AND dumped_bits))"
    using governed_calls [OF governed_trace(2) assms(1)] unfolding v(10) by (simp only: fold1 [OF refl] facilities_restored)
qed

lemma restored_idle:
  assumes "ini_calls (ucfg_handler E) (dump_entries E d c backend level) [] c0 = Inr (oks, c')"
    "unat (cfg_idle_cycles c) < 2 ^ 31" "unat (cfg_idle_quantum c) < 2 ^ 63" "unat (cfg_idle_timeout c) < 2 ^ 63"
  shows "cfg_idle_cycles c' = cfg_idle_cycles c" "cfg_idle_quantum c' = cfg_idle_quantum c" "cfg_idle_timeout c' = cfg_idle_timeout c"
proof -
  note v = dump_values [OF refl, of E d c backend level]
  show "cfg_idle_cycles c' = cfg_idle_cycles c"
    using governed_calls [OF governed_idle(3) assms(1)] unfolding v(11)
    by (simp only: fold1 [OF refl] cycles_show_nat [OF assms(2)])
  show "cfg_idle_quantum c' = cfg_idle_quantum c" "cfg_idle_timeout c' = cfg_idle_timeout c"
    using governed_calls [OF governed_idle(1) assms(1)] governed_calls [OF governed_idle(2) assms(1)] assms(3,4)
    unfolding v(12,13) by (simp_all add: read_show_nat)
qed

end
