(* ===== verification/Le_Words.thy ===== *)
theory Le_Words
  imports Prelude
begin

text \<open>
  Little-endian words in files (\<open>write32le\<close> and \<open>read32le\<close> of \<^verbatim>\<open>usim/misc.c\<close>) and the tags of four characters.
\<close>

unbundle bit_operations_syntax

type_synonym bytes = "u8 list"

definition le_bytes :: "u32 \<Rightarrow> bytes" where
  "le_bytes w = [ucast w, ucast (drop_bit 8 w), ucast (drop_bit 16 w), ucast (drop_bit 24 w)]"

definition words_bytes :: "u32 list \<Rightarrow> bytes" where
  "words_bytes ws = concat (map le_bytes ws)"

fun bytes_words :: "bytes \<Rightarrow> u32 list" where
  "bytes_words (a # b # c # d # bs) =
     (ucast a OR push_bit 8 (ucast b) OR push_bit 16 (ucast c) OR push_bit 24 (ucast d)) # bytes_words bs"
| "bytes_words bs = []"

lemma bytes_of_word:
  fixes w :: u32
  shows "ucast (ucast w :: u8) OR push_bit 8 (ucast (ucast (drop_bit 8 w) :: u8)) OR
     push_bit 16 (ucast (ucast (drop_bit 16 w) :: u8)) OR push_bit 24 (ucast (ucast (drop_bit 24 w) :: u8)) = w"
proof (rule bit_word_eqI)
  fix n
  assume "n < LENGTH(32)"
  then show "bit (ucast (ucast w :: u8) OR push_bit 8 (ucast (ucast (drop_bit 8 w) :: u8)) OR
     push_bit 16 (ucast (ucast (drop_bit 16 w) :: u8)) OR push_bit 24 (ucast (ucast (drop_bit 24 w) :: u8)) :: u32) n = bit w n"
    by (cases "n < 8"; cases "n < 16"; cases "n < 24") (auto simp: bit_simps)
qed

lemma le_bytes_of:
  fixes a b c d :: u8
  defines "w \<equiv> ucast a OR push_bit 8 (ucast b) OR push_bit 16 (ucast c) OR push_bit 24 (ucast d) :: u32"
  shows "le_bytes w = [a, b, c, d]"
proof -
  have "ucast w = a" "ucast (drop_bit 8 w) = b" "ucast (drop_bit 16 w) = c" "ucast (drop_bit 24 w) = d"
    unfolding w_def by (rule bit_word_eqI; auto simp: bit_simps dest: bit_imp_le_length)+
  then show ?thesis
    by (simp add: le_bytes_def)
qed

lemma four_bytes: "length bs = 4 * Suc n \<Longrightarrow> \<exists>a b c d r. bs = a # b # c # d # r \<and> length r = 4 * n"
  by (auto simp: length_Suc_conv numeral_eq_Suc)

lemma bytes_words_append: "length bs = 4 * n \<Longrightarrow> bytes_words (bs @ cs) = bytes_words bs @ bytes_words cs"
proof (induction n arbitrary: bs)
  case (Suc n)
  then show ?case
    using four_bytes [OF Suc.prems] by auto
qed simp

lemma bytes_words_of: "bytes_words (words_bytes ws @ cs) = ws @ bytes_words cs"
  by (induction ws) (simp_all add: words_bytes_def le_bytes_def bytes_of_word)

lemma length_words_bytes: "length (words_bytes ws) = 4 * length ws"
  by (induction ws) (simp_all add: words_bytes_def le_bytes_def)

lemma length_bytes_words: "length (bytes_words bs) = length bs div 4"
  by (induction bs rule: bytes_words.induct) simp_all

lemma words_bytes_of: "length bs = 4 * n \<Longrightarrow> words_bytes (bytes_words bs) = bs"
proof (induction n arbitrary: bs)
  case (Suc n)
  then show ?case
    using four_bytes [OF Suc.prems] by (auto simp: words_bytes_def le_bytes_of)
qed (simp add: words_bytes_def)

end
