(* ===== verification/Diskmaker.thy ===== *)
theory Diskmaker
  imports Ini Le_Words
begin

text \<open>
  The tool that creates and edits disk packs (\<^verbatim>\<open>usim/diskmaker.c\<close>).  A file is the list of its bytes, a
  directory a map from names to files; an operation that stops with \<open>errx\<close> or a failed assertion yields a fault.
  Of what is printed on the terminal the label and the template are modelled, progress messages are not.
\<close>

unbundle bit_operations_syntax

type_synonym directory = "string \<Rightarrow> bytes option"

section \<open>Disk labels\<close>

record part_s =
  part_name :: u32
  part_start :: u32
  part_size :: u32
  part_label :: "u32 list"

record disk_label_s =
  lb_magic :: u32
  lb_version :: u32
  lb_n_cylinders :: u32
  lb_n_heads :: u32
  lb_n_blocks_per_track :: u32
  lb_n_blocks_per_cylinder :: u32
  lb_current_microload :: u32
  lb_current_band :: u32
  lb_drive_name :: bytes
  lb_pack_name :: bytes
  lb_comment :: bytes
  lb_not_used :: "u32 list"
  lb_n_partitions :: u32
  lb_words_per_part :: u32
  lb_parts :: "part_s list"

definition char_bytes8 :: "string \<Rightarrow> bytes" where
  "char_bytes8 s = map of_char s"

text \<open>\<open>str4\<close> takes signed characters, so that a byte from 0x80 fills the bits above it.\<close>

definition diskmaker_str4 :: "bytes \<Rightarrow> u32" where
  "diskmaker_str4 s = push_bit 24 (scast (s ! 3)) OR push_bit 16 (scast (s ! 2)) OR push_bit 8 (scast (s ! 1)) OR scast (s ! 0)"

definition diskmaker_unstr4 :: "u32 \<Rightarrow> bytes" where
  "diskmaker_unstr4 w = le_bytes w"

definition unstr16 :: "u32 list \<Rightarrow> bytes" where
  "unstr16 l = concat (map (\<lambda>i. diskmaker_unstr4 (l ! i)) [0..<4])"

text \<open>\<open>strncpy\<close>: the string cut to \<open>n\<close> bytes or filled with NULs.\<close>

definition c_strncpy :: "nat \<Rightarrow> bytes \<Rightarrow> bytes" where
  "c_strncpy n s = take n (s @ replicate n 0)"

section \<open>Labels as bytes\<close>

text \<open>The words of the host are little-endian, and the structures are packed.\<close>

definition part_words :: "part_s \<Rightarrow> u32 list" where
  "part_words p = [part_name p, part_start p, part_size p] @ part_label p"

definition words_part :: "u32 list \<Rightarrow> part_s" where
  "words_part w = \<lparr>part_name = w ! 0, part_start = w ! 1, part_size = w ! 2, part_label = take 4 (drop 3 w)\<rparr>"

definition label_bytes :: "disk_label_s \<Rightarrow> bytes" where
  "label_bytes l =
     words_bytes [lb_magic l, lb_version l, lb_n_cylinders l, lb_n_heads l, lb_n_blocks_per_track l,
       lb_n_blocks_per_cylinder l, lb_current_microload l, lb_current_band l] @
     lb_drive_name l @ lb_pack_name l @ lb_comment l @
     words_bytes (lb_not_used l @ [lb_n_partitions l, lb_words_per_part l] @ concat (map part_words (lb_parts l)))"

definition bytes_label :: "bytes \<Rightarrow> disk_label_s" where
  "bytes_label b =
     (let w = bytes_words b in
      \<lparr>lb_magic = w ! 0, lb_version = w ! 1, lb_n_cylinders = w ! 2, lb_n_heads = w ! 3, lb_n_blocks_per_track = w ! 4,
       lb_n_blocks_per_cylinder = w ! 5, lb_current_microload = w ! 6, lb_current_band = w ! 7,
       lb_drive_name = take 32 (drop 32 b), lb_pack_name = take 32 (drop 64 b), lb_comment = take 32 (drop 96 b),
       lb_not_used = take 96 (drop 32 w), lb_n_partitions = w ! 128, lb_words_per_part = w ! 129,
       lb_parts = map (\<lambda>i. words_part (drop (130 + 7 * i) w)) [0..<18]\<rparr>)"

section \<open>Templates\<close>

text \<open>What \<open>memset\<close> and the first assignments leave.\<close>

definition empty_part :: part_s where
  "empty_part = \<lparr>part_name = 0, part_start = 0, part_size = 0, part_label = replicate 4 0\<rparr>"

definition LABL :: u32 where
  "LABL = diskmaker_str4 (char_bytes8 ''LABL'')"

definition new_label :: disk_label_s where
  "new_label = \<lparr>lb_magic = LABL, lb_version = 1, lb_n_cylinders = 0, lb_n_heads = 0, lb_n_blocks_per_track = 0,
     lb_n_blocks_per_cylinder = 0, lb_current_microload = 0, lb_current_band = 0,
     lb_drive_name = replicate 32 0, lb_pack_name = replicate 32 0, lb_comment = replicate 32 0,
     lb_not_used = replicate 96 0, lb_n_partitions = 0, lb_words_per_part = 7, lb_parts = replicate 18 empty_part\<rparr>"

text \<open>Number fields.  The value of \<open>strtol\<close> is stored in 32 bits.\<close>

definition tm_digit :: "nat \<Rightarrow> char \<Rightarrow> nat option" where
  "tm_digit base c =
     (let n = of_char c :: nat;
          v = (if 48 \<le> n \<and> n \<le> 57 then n - 48 else if 97 \<le> n \<and> n \<le> 102 then n - 87
               else if 65 \<le> n \<and> n \<le> 70 then n - 55 else 99)
      in if v < base then Some v else None)"

fun tm_digits :: "nat \<Rightarrow> int \<Rightarrow> string \<Rightarrow> int" where
  "tm_digits base acc [] = acc"
| "tm_digits base acc (c # cs) =
     (case tm_digit base c of None \<Rightarrow> acc | Some d \<Rightarrow> tm_digits base (acc * int base + int d) cs)"

definition tm_unsigned :: "string \<Rightarrow> int" where
  "tm_unsigned s =
     (if length s \<ge> 3 \<and> s ! 0 = CHR ''0'' \<and> (s ! 1 = CHR ''x'' \<or> s ! 1 = CHR ''X'') \<and> tm_digit 16 (s ! 2) \<noteq> None
      then tm_digits 16 0 (drop 2 s)
      else if s \<noteq> [] \<and> hd s = CHR ''0'' then tm_digits 8 0 s else tm_digits 10 0 s)"

definition strtol_0 :: "string \<Rightarrow> u32" where
  "strtol_0 s =
     (let t = lskip s;
          v = (if t \<noteq> [] \<and> hd t = CHR ''-'' then - tm_unsigned (tl t)
               else if t \<noteq> [] \<and> hd t = CHR ''+'' then tm_unsigned (tl t) else tm_unsigned t)
      in word_of_int (max (- (2 ^ 63)) (min (2 ^ 63 - 1) v)))"

text \<open>\<open>sscanf\<close>: a word, and the conversions of the two kinds of lines.  A conversion that fails leaves its buffer empty.\<close>

definition template_word :: "string \<Rightarrow> string \<times> string" where
  "template_word s = (let t = lskip s in (takeWhile (\<lambda>c. \<not> c_isspace c) t, dropWhile (\<lambda>c. \<not> c_isspace c) t))"

definition scan_parameter :: "string \<Rightarrow> string \<times> string" where
  "scan_parameter line =
     (let (name, rest) = template_word line in (name, if name = [] then [] else takeWhile (\<lambda>c. c \<noteq> CHR 0x0A) (lskip rest)))"

definition scan_partition :: "string \<Rightarrow> string \<times> string \<times> string \<times> string" where
  "scan_partition line =
     (let name = take 4 line; (sstart, r1) = template_word (drop 4 line); (ssize, r2) = template_word r1; (label, _) = template_word r2
      in (name, sstart, ssize, label))"

text \<open>A line of the first part of the template.\<close>

definition template_parameter :: "string \<Rightarrow> disk_label_s \<Rightarrow> fault + disk_label_s" where
  "template_parameter line l =
     (let (name, value) = scan_parameter line; v = strtol_0 value; bs = char_bytes8 value in
      if name = ''cylinders'' then
        (if v \<ge> 4096 then Inl (Errx ''cylinders has to be <= 4095'') else Inr (l\<lparr>lb_n_cylinders := v\<rparr>))
      else if name = ''heads'' then
        (if v \<ge> 256 then Inl (Errx ''heads has to be <= 255'') else Inr (l\<lparr>lb_n_heads := v\<rparr>))
      else if name = ''blockspertrack'' then
        (if v \<ge> 256 then Inl (Errx ''blockspertrack has to be <= 255'') else Inr (l\<lparr>lb_n_blocks_per_track := v\<rparr>))
      else if name = ''blockspercylinder'' then Inr (l\<lparr>lb_n_blocks_per_cylinder := v\<rparr>)
      else if name = ''mcr'' then
        and_then (c_assert False (length value = 4) ''strlen(value) == 4'') (\<lambda>_.
        Inr (l\<lparr>lb_current_microload := diskmaker_str4 bs\<rparr>))
      else if name = ''lod'' then
        and_then (c_assert False (length value = 4) ''strlen(value) == 4'') (\<lambda>_.
        Inr (l\<lparr>lb_current_band := diskmaker_str4 bs\<rparr>))
      else if name = ''brand'' \<or> name = ''drive'' then Inr (l\<lparr>lb_drive_name := c_strncpy 32 bs\<rparr>)
      else if name = ''text'' \<or> name = ''pack'' then Inr (l\<lparr>lb_pack_name := c_strncpy 32 bs\<rparr>)
      else if name = ''comment'' then Inr (l\<lparr>lb_comment := c_strncpy 32 bs\<rparr>)
      else Inl (Errx ''invalid line in template''))"

text \<open>The line \<open>partitions:\<close> ends the first part.\<close>

definition template_partitions :: "disk_label_s \<Rightarrow> fault + disk_label_s" where
  "template_partitions l =
     (if lb_magic l = 0 \<or> lb_version l = 0 \<or> lb_n_cylinders l = 0 \<or> lb_n_heads l = 0 \<or> lb_n_blocks_per_track l = 0 \<or>
         lb_current_microload l = 0 \<or> lb_current_band l = 0
      then Inl (Errx ''missing disk parameters, please check the template file'')
      else Inr (if lb_n_blocks_per_cylinder l = 0
                then l\<lparr>lb_n_blocks_per_cylinder := lb_n_heads l * lb_n_blocks_per_track l\<rparr> else l))"

definition disk_capacity :: "disk_label_s \<Rightarrow> nat" where
  "disk_capacity l = unat (lb_n_cylinders l) * unat (lb_n_heads l) * unat (lb_n_blocks_per_track l)"

text \<open>
  The start and the size of a partition.  As the code is written, the size \<open>-\<close> is computed and then replaced by
  the value of \<open>strtol\<close>, since the \<open>else\<close> belongs to the test for \<open>c\<close> only.
\<close>

definition partition_range :: "string \<Rightarrow> string \<Rightarrow> u32 \<Rightarrow> disk_label_s \<Rightarrow> u32 \<times> u32" where
  "partition_range sstart ssize next_start l =
     (let start = (if sstart \<noteq> [] \<and> hd sstart = CHR ''-'' then next_start else strtol_0 sstart);
          bpc = lb_n_blocks_per_cylinder l in
      if ssize \<noteq> [] \<and> hd ssize = CHR ''c'' then
        (let rest = start mod bpc in (if rest > 0 then start + (bpc - rest) else start, strtol_0 (tl ssize) * bpc))
      else (start, strtol_0 ssize))"

text \<open>A line of the second part, with the block behind the last partition.\<close>

definition template_partition :: "string \<Rightarrow> u32 \<times> disk_label_s \<Rightarrow> fault + u32 \<times> disk_label_s" where
  "template_partition line = (\<lambda>(next_start, l).
     if lb_n_partitions l \<ge> 18 then Inl (Errx ''maximum 18 partitions can be created'')
     else
       let (name, sstart, ssize, label) = scan_partition line in
       and_then (in_bounds 32 (length label) ''label'') (\<lambda>_.
       let (start, size) = partition_range sstart ssize next_start l; next_start' = start + size;
           lbl = c_strncpy 32 (char_bytes8 label)
       in if unat next_start' > disk_capacity l then Inl (Errx ''invalid line, disk capacity exceeded'')
          else Inr (next_start', l\<lparr>
            lb_parts := (lb_parts l)[unat (lb_n_partitions l) :=
              \<lparr>part_name = diskmaker_str4 (c_strncpy 4 (char_bytes8 name)), part_start = start, part_size = size,
               part_label = map (\<lambda>i. diskmaker_str4 (drop (4 * i) lbl)) [0..<4]\<rparr>],
            lb_n_partitions := lb_n_partitions l + 1\<rparr>)))"

text \<open>
  The loop over the lines.  \<open>None\<close> as the next block stands for the first part, and every line loses its last character,
  a newline or not.
\<close>

fun read_lines :: "string list \<Rightarrow> u32 option \<Rightarrow> disk_label_s \<Rightarrow> fault + disk_label_s" where
  "read_lines [] next_start l = Inr l"
| "read_lines (raw # ls) next_start l =
     (let line = butlast (c_text raw) in
      if line \<noteq> [] \<and> hd line = CHR ''#'' then read_lines ls next_start l
      else if line = ''partitions:'' then
        and_then (template_partitions l) (\<lambda>l1. read_lines ls (Some (lb_n_blocks_per_track l1)) l1)
      else case next_start of
        None \<Rightarrow> and_then (template_parameter line l) (read_lines ls None)
      | Some n \<Rightarrow> and_then (template_partition line (n, l)) (\<lambda>(n1, l1). read_lines ls (Some n1) l1))"

function lines_255 :: "string \<Rightarrow> string list" where
  "lines_255 [] = []"
| "lines_255 (c # s) = (let (a, b) = fgets 255 (c # s) in a # lines_255 b)"
  by pat_completeness auto
termination
proof (relation "measure length")
  fix c s x a b
  assume "x = fgets 255 (c # s)" "(a, b) = x"
  then show "(b, c # s) \<in> measure length"
    using fgets_shorter [of 254 s] by (auto simp: numeral_eq_Suc case_prod_beta split: if_splits)
qed auto

definition read_template :: "string \<Rightarrow> fault + disk_label_s" where
  "read_template content = read_lines (lines_255 content) None new_label"

section \<open>Files\<close>

text \<open>A write behind the end fills the gap with zeros, and a write of no bytes changes nothing.\<close>

definition file_write :: "nat \<Rightarrow> bytes \<Rightarrow> bytes \<Rightarrow> bytes" where
  "file_write off bs f =
     (if bs = [] then f else take off (f @ replicate (off - length f) 0) @ bs @ drop (off + length bs) f)"

definition read_disk_label :: "string \<Rightarrow> directory \<Rightarrow> fault + disk_label_s" where
  "read_disk_label filename fs =
     (case fs filename of
        None \<Rightarrow> Inl (Errx ''cannot open file for read'')
      | Some f \<Rightarrow>
          and_then (c_assert False (length f \<ge> 1024) ''ret == sizeof(struct disk_label_s)'') (\<lambda>_.
          let l = bytes_label (take 1024 f) in
          if lb_magic l \<noteq> LABL then Inl (Errx ''invalid disk pack file (invalid magic)'')
          else if lb_version l \<noteq> 1 then Inl (Errx ''invalid disk pack file (invalid version)'')
          else if lb_n_partitions l > 18 then Inl (Errx ''invalid disk pack file (invalid n_partitions)'')
          else if lb_words_per_part l \<noteq> 7 then Inl (Errx ''invalid disk pack file (invalid words per part)'')
          else Inr l))"

text \<open>A file that does not exist is created, one that exists is overwritten in place.\<close>

definition open_for_write :: "string \<Rightarrow> directory \<Rightarrow> bytes" where
  "open_for_write filename fs = (case fs filename of None \<Rightarrow> [] | Some f \<Rightarrow> f)"

definition write_disk_label :: "disk_label_s \<Rightarrow> string \<Rightarrow> directory \<Rightarrow> directory" where
  "write_disk_label l filename fs = fs(filename \<mapsto> file_write 0 (label_bytes l) (open_for_write filename fs))"

definition create_empty_disk :: "disk_label_s \<Rightarrow> string \<Rightarrow> directory \<Rightarrow> directory" where
  "create_empty_disk l filename fs =
     fs(filename \<mapsto> file_write 0 (replicate (1024 * (unat (lb_n_cylinders l) * unat (lb_n_blocks_per_cylinder l))) 0)
       (open_for_write filename fs))"

definition edit_label :: "(disk_label_s \<Rightarrow> fault + disk_label_s) \<Rightarrow> string \<Rightarrow> directory \<Rightarrow> fault + directory" where
  "edit_label f filename fs =
     and_then (read_disk_label filename fs) (\<lambda>l. and_then (f l) (\<lambda>l1. Inr (write_disk_label l1 filename fs)))"

definition set_drive_name :: "string \<Rightarrow> bytes \<Rightarrow> directory \<Rightarrow> fault + directory" where
  "set_drive_name filename name fs =
     (if length name > 32 then Inl (Errx ''DRIVE_NAME should be less than 32 characters'')
      else edit_label (\<lambda>l. Inr (l\<lparr>lb_drive_name := c_strncpy 32 name\<rparr>)) filename fs)"

definition set_pack_name :: "string \<Rightarrow> bytes \<Rightarrow> directory \<Rightarrow> fault + directory" where
  "set_pack_name filename name fs =
     (if length name > 32 then Inl (Errx ''PACK_NAME should be less than 32 characters'')
      else edit_label (\<lambda>l. Inr (l\<lparr>lb_pack_name := c_strncpy 32 name\<rparr>)) filename fs)"

definition set_comment :: "string \<Rightarrow> bytes \<Rightarrow> directory \<Rightarrow> fault + directory" where
  "set_comment filename comment fs =
     (if length comment > 32 then Inl (Errx ''COMMENT should be less than 32 characters'')
      else edit_label (\<lambda>l. Inr (l\<lparr>lb_comment := c_strncpy 32 comment\<rparr>)) filename fs)"

text \<open>The first partition with a name.  A name shorter than four characters is read beyond its end by \<open>str4\<close>.\<close>

definition find_part :: "u32 \<Rightarrow> disk_label_s \<Rightarrow> nat option" where
  "find_part band l = find (\<lambda>i. part_name (lb_parts l ! i) = band) [0..<unat (lb_n_partitions l)]"

text \<open>The bytes of a comment, or-ed into a word as signed characters.\<close>

fun comment_word :: "nat \<Rightarrow> bytes \<Rightarrow> u32" where
  "comment_word k [] = 0"
| "comment_word k (b # bs) = push_bit (8 * k) (scast b) OR comment_word (k + 1) bs"

definition comment_words :: "bytes \<Rightarrow> u32 list" where
  "comment_words c = map (\<lambda>j. comment_word 0 (take 4 (drop (4 * j) c))) [0..<4]"

definition set_partition_comment :: "string \<Rightarrow> bytes \<Rightarrow> bytes \<Rightarrow> directory \<Rightarrow> fault + directory" where
  "set_partition_comment filename band comment fs =
     (if length comment > 16 then Inl (Errx ''COMMENT should be less than 16 characters'')
      else edit_label (\<lambda>l.
        and_then (in_bounds (length band + 1) 3 ''band_name'') (\<lambda>_.
        case find_part (diskmaker_str4 (band @ [0])) l of
          None \<Rightarrow> Inl (Errx ''disk does not contain a partition'')
        | Some i \<Rightarrow> Inr (l\<lparr>lb_parts := (lb_parts l)[i := (lb_parts l ! i)\<lparr>part_label := comment_words comment\<rparr>]\<rparr>))) filename fs)"

definition validate_band_name :: "bytes \<Rightarrow> fault + unit" where
  "validate_band_name band = (if length band \<noteq> 4 then Inl (Errx ''band name should have 4 characters'') else Inr ())"

definition set_current_band :: "string \<Rightarrow> bytes \<Rightarrow> bool \<Rightarrow> directory \<Rightarrow> fault + directory" where
  "set_current_band filename band set_mcr_band fs =
     and_then (validate_band_name band) (\<lambda>_.
     edit_label (\<lambda>l.
       let b = diskmaker_str4 band in
       case find_part b l of
         None \<Rightarrow> Inl (Errx ''disk does not contain a partition'')
       | Some i \<Rightarrow> Inr (if set_mcr_band then l\<lparr>lb_current_microload := b\<rparr> else l\<lparr>lb_current_band := b\<rparr>)) filename fs)"

text \<open>\<open>basename\<close> of the C library: what follows the last slash, without slashes at the end.\<close>

definition c_basename :: "string \<Rightarrow> string" where
  "c_basename s =
     (if s = [] then ''.''
      else let t = rev (dropWhile (\<lambda>c. c = CHR ''/'') (rev s)) in
           if t = [] then ''/'' else rev (takeWhile (\<lambda>c. c \<noteq> CHR ''/'') (rev t)))"

text \<open>
  The loop that copies blocks from the source, at \<open>q\<close>, into the pack, at \<open>p\<close>.  The two may be one file, and
  then the loop may read what it has written, and never come to an end.
\<close>

partial_function (option) copy_blocks :: "string \<Rightarrow> string \<Rightarrow> nat \<Rightarrow> nat \<Rightarrow> directory \<Rightarrow> directory option" where
  "copy_blocks src dst q p fs =
     (let block = take 1024 (drop q (open_for_write src fs))
      in if block = [] then Some fs
         else copy_blocks src dst (q + length block) (p + length block)
                (fs(dst \<mapsto> file_write p block (open_for_write dst fs))))"

text \<open>
  Restoring a band copies the file into its partition and then stores the name of the file as the label of the
  partition.  A source that does not exist stops the process when it is opened: \<open>stat\<close> leaves the size indeterminate.
\<close>

definition restore_band :: "string \<Rightarrow> string \<Rightarrow> bytes \<Rightarrow> directory \<Rightarrow> fault + directory" where
  "restore_band src filename band fs =
     and_then (validate_band_name band) (\<lambda>_.
     and_then (read_disk_label filename fs) (\<lambda>l.
     case find_part (diskmaker_str4 band) l of
       None \<Rightarrow> Inl (Errx ''disk does not contain a partition'')
     | Some i \<Rightarrow>
         (case fs src of
            None \<Rightarrow> Inl (Errx ''cannot open file for read'')
          | Some content \<Rightarrow>
              if length content > 1024 * unat (part_size (lb_parts l ! i)) then Inl (Errx ''SRC_FILE is larger than the partition'')
              else
                (case copy_blocks src filename 0 (1024 * unat (part_start (lb_parts l ! i))) fs of
                   None \<Rightarrow> Inl (No_return ''restore_band'')
                 | Some fs1 \<Rightarrow>
                     let lbl = c_strncpy 16 (char_bytes8 (c_basename src));
                         words = map (\<lambda>k. diskmaker_str4 (drop (4 * k) lbl)) [0..<4];
                         l1 = l\<lparr>lb_parts := (lb_parts l)[i := (lb_parts l ! i)\<lparr>part_label := words\<rparr>]\<rparr>
                     in Inr (write_disk_label l1 filename fs1)))))"

text \<open>
  Dumping reads ahead of what it writes, so that the partition may be taken as a whole even when it is written over
  the beginning of the pack itself.
\<close>

definition dump_band :: "string \<Rightarrow> bytes \<Rightarrow> string \<Rightarrow> directory \<Rightarrow> fault + directory" where
  "dump_band filename band dst fs =
     and_then (validate_band_name band) (\<lambda>_.
     and_then (read_disk_label filename fs) (\<lambda>l.
     case find_part (diskmaker_str4 band) l of
       None \<Rightarrow> Inl (Errx ''disk does not contain a partition'')
     | Some i \<Rightarrow>
         let p = lb_parts l ! i; f = open_for_write filename fs;
             content = take (1024 * unat (part_size p)) (drop (1024 * unat (part_start p)) f)
         in Inr (fs(dst \<mapsto> file_write 0 content (open_for_write dst fs)))))"

definition create_disk_pack :: "string \<Rightarrow> string \<Rightarrow> directory \<Rightarrow> fault + directory" where
  "create_disk_pack filename template fs =
     (if fs filename \<noteq> None then Inl (Errx ''file already exists'')
      else case fs template of
        None \<Rightarrow> Inl (Errx ''cannot open template file'')
      | Some t \<Rightarrow>
          and_then (read_template (map (\<lambda>b. char_of (unat b)) t)) (\<lambda>l.
          let fs1 = write_disk_label l filename (create_empty_disk l filename fs)
          in and_then (read_disk_label filename fs1) (\<lambda>_. Inr fs1)))"

section \<open>The template of a disk pack\<close>

text \<open>\<open>%s\<close> of a field stops at a NUL, and goes on behind the
  field when it has none.\<close>

definition show_bytes :: "bytes \<Rightarrow> string" where
  "show_bytes bs = map (\<lambda>b. char_of (unat b)) (takeWhile (\<lambda>b. b \<noteq> 0) bs)"

definition print_template :: "disk_label_s \<Rightarrow> string" where
  "print_template l =
     ''cylinders '' @ show_u32 10 (lb_n_cylinders l) @ [CHR 0x0A] @
     ''heads '' @ show_u32 10 (lb_n_heads l) @ [CHR 0x0A] @
     ''blockspertrack '' @ show_u32 10 (lb_n_blocks_per_track l) @ [CHR 0x0A] @
     ''drive '' @ show_bytes (lb_drive_name l @ lb_pack_name l @ lb_comment l @ words_bytes (lb_not_used l)) @ [CHR 0x0A] @
     ''pack '' @ show_bytes (lb_pack_name l @ lb_comment l @ words_bytes (lb_not_used l)) @ [CHR 0x0A] @
     ''comment '' @ show_bytes (lb_comment l @ words_bytes (lb_not_used l)) @ [CHR 0x0A] @
     ''mcr '' @ show_bytes (diskmaker_unstr4 (lb_current_microload l)) @ [CHR 0x0A] @
     ''lod '' @ show_bytes (diskmaker_unstr4 (lb_current_band l)) @ [CHR 0x0A] @
     ''partitions:'' @ [CHR 0x0A] @
     concat (map (\<lambda>i. let p = lb_parts l ! i in
       show_bytes (diskmaker_unstr4 (part_name p)) @ '' 0'' @ show_u32 8 (part_start p) @ '' 0'' @ show_u32 8 (part_size p) @
       '' '' @ show_bytes (unstr16 (part_label p)) @ [CHR 0x0A]) [0..<unat (lb_n_partitions l)])"

section \<open>The label as text\<close>

definition start_width :: "u32 \<Rightarrow> nat" where
  "start_width m = (if m > 0xFFFFFF then 9 else if m > 0x1FFFFF then 8 else if m > 0x3FFFF then 7 else 6)"

definition size_width :: "u32 \<Rightarrow> nat" where
  "size_width m = (if m > 0x3FFFF then 8 else if m > 0x3FFFF then 7 else if m > 0x7FFF then 6 else 5)"

definition print_part :: "disk_label_s \<Rightarrow> nat \<Rightarrow> nat \<Rightarrow> part_s \<Rightarrow> string" where
  "print_part l sw zw p =
     (let bpc = lb_n_blocks_per_cylinder l; bpt = lb_n_blocks_per_track l;
          c = part_start p div bpc; h = (part_start p - c * bpc) div bpt; b = part_start p - c * bpc - h * bpt
      in show_bytes (diskmaker_unstr4 (part_name p)) @ '': start: '' @ pad sw (show_u32 8 (part_start p)) @
         '' ['' @ pad 4 (show_u32 10 c) @ ''/'' @ pad 3 (show_u32 10 h) @ ''/'' @ pad 3 (show_u32 10 b) @ ''] size: '' @
         pad zw (show_u32 8 (part_size p)) @ [CHR 0x20, CHR 0x27] @ show_bytes (unstr16 (part_label p)) @ [CHR 0x27, CHR 0x0A])"

text \<open>A label without blocks per cylinder or per track stops the process with a division by zero at its first partition.\<close>

definition print_disk_label :: "disk_label_s \<Rightarrow> fault + string" where
  "print_disk_label l =
     (let ps = take (unat (lb_n_partitions l)) (lb_parts l);
          sw = start_width (foldl max 0 (map part_start ps)); zw = size_width (foldl max 0 (map part_size ps));
          heads = lb_n_heads l; bpt = lb_n_blocks_per_track l; bpc = lb_n_blocks_per_cylinder l;
          quoted = (\<lambda>bs. CHR 0x27 # show_bytes bs @ [CHR 0x27, CHR 0x0A])
      in if ps \<noteq> [] \<and> (bpc = 0 \<or> bpt = 0) then Inl (Out_of_bounds ''division by zero'')
         else Inr (show_bytes (diskmaker_unstr4 (lb_magic l)) @ '' '' @ show_u32 10 (lb_version l) @ [CHR 0x0A] @
           show_u32 10 (lb_n_cylinders l) @ ''/'' @ show_u32 10 heads @ ''/'' @ show_u32 10 bpt @ '' '' @ show_u32 10 bpc @
           ''(='' @ show_u32 10 heads @ ''x'' @ show_u32 10 bpt @ ''+'' @ show_u32 10 (bpc - heads * bpt) @ '')'' @ [CHR 0x0A] @
           show_bytes (diskmaker_unstr4 (lb_current_microload l)) @ '' '' @
           show_bytes (diskmaker_unstr4 (lb_current_band l)) @ [CHR 0x0A] @
           quoted (lb_drive_name l @ lb_pack_name l @ lb_comment l @ words_bytes (lb_not_used l)) @
           quoted (lb_pack_name l @ lb_comment l @ words_bytes (lb_not_used l)) @
           quoted (lb_comment l @ words_bytes (lb_not_used l)) @
           concat (map (print_part l sw zw) ps)))"

section \<open>The command line\<close>

definition is_command :: "string \<Rightarrow> string \<Rightarrow> string \<Rightarrow> bool" where
  "is_command c cmd s \<longleftrightarrow> s = cmd \<or> s = c"

text \<open>An argument that is missing is a null pointer, which the operations assert away.\<close>

definition argument :: "string list \<Rightarrow> nat \<Rightarrow> fault + string" where
  "argument args i = (if i < length args then Inr (args ! i) else Inl (Assertion ''!= NULL''))"

definition need_args :: "nat \<Rightarrow> string list \<Rightarrow> fault + unit" where
  "need_args n args = (if length args < n then Inl (Errx ''usage'') else Inr ())"

definition then_show :: "string \<Rightarrow> fault + directory \<Rightarrow> fault + string \<times> directory" where
  "then_show pack r =
     and_then r (\<lambda>fs1. and_then (read_disk_label pack fs1) (\<lambda>l. and_then (print_disk_label l) (\<lambda>t. Inr (t, fs1))))"

definition silently :: "fault + directory \<Rightarrow> fault + string \<times> directory" where
  "silently r = and_then r (\<lambda>fs1. Inr ([], fs1))"

definition diskmaker_main :: "string list \<Rightarrow> directory \<Rightarrow> fault + string \<times> directory" where
  "diskmaker_main args fs =
     and_then (need_args 2 args) (\<lambda>_.
     let cmd = args ! 1; bytes = char_bytes8 in
     if is_command ''h'' ''help'' cmd then Inr ([], fs)
     else if is_command ''c'' ''create-disk-pack'' cmd then
       and_then (need_args 3 args) (\<lambda>_. and_then (argument args 2) (\<lambda>pack.
       if fs pack \<noteq> None then Inl (Errx ''file already exists'')
       else and_then (argument args 3) (\<lambda>template.
         case fs template of
           None \<Rightarrow> Inl (Errx ''cannot open template file'')
         | Some t \<Rightarrow>
             and_then (read_template (map (\<lambda>b. char_of (unat b)) t)) (\<lambda>l.
             and_then (print_disk_label l) (\<lambda>before.
             and_then (then_show pack (create_disk_pack pack template fs)) (\<lambda>(after, fs1). Inr (before @ after, fs1)))))))
     else if is_command ''s'' ''show-disk-pack'' cmd then
       and_then (argument args 2) (\<lambda>pack. then_show pack (Inr fs))
     else if cmd = ''set-drive-name'' then
       and_then (need_args 3 args) (\<lambda>_. and_then (argument args 2) (\<lambda>pack. and_then (argument args 3) (\<lambda>name.
       then_show pack (set_drive_name pack (bytes name) fs))))
     else if cmd = ''set-pack-name'' then
       and_then (need_args 3 args) (\<lambda>_. and_then (argument args 2) (\<lambda>pack. and_then (argument args 3) (\<lambda>name.
       then_show pack (set_pack_name pack (bytes name) fs))))
     else if cmd = ''set-comment'' then
       and_then (need_args 3 args) (\<lambda>_. and_then (argument args 2) (\<lambda>pack. and_then (argument args 3) (\<lambda>name.
       then_show pack (set_comment pack (bytes name) fs))))
     else if cmd = ''set-partition-comment'' then
       and_then (need_args 4 args) (\<lambda>_. and_then (argument args 2) (\<lambda>pack. and_then (argument args 3) (\<lambda>band.
       and_then (argument args 4) (\<lambda>text. then_show pack (set_partition_comment pack (bytes band) (bytes text) fs)))))
     else if is_command ''t'' ''show-template'' cmd then
       and_then (argument args 2) (\<lambda>pack. and_then (read_disk_label pack fs) (\<lambda>l. Inr (print_template l, fs)))
     else if is_command ''m'' ''set-microload'' cmd then
       and_then (need_args 4 args) (\<lambda>_. silently (set_current_band (args ! 2) (bytes (args ! 3)) True fs))
     else if is_command ''b'' ''set-band'' cmd then
       and_then (need_args 4 args) (\<lambda>_. silently (set_current_band (args ! 2) (bytes (args ! 3)) False fs))
     else if is_command ''r'' ''restore-band'' cmd then
       and_then (need_args 5 args) (\<lambda>_. silently (restore_band (args ! 2) (args ! 3) (bytes (args ! 4)) fs))
     else if is_command ''d'' ''dump-band'' cmd then
       and_then (need_args 5 args) (\<lambda>_.
       if fs (args ! 4) \<noteq> None then Inl (Errx ''file already exists'')
       else silently (dump_band (args ! 2) (bytes (args ! 3)) (args ! 4) fs))
     else Inl (Errx ''usage''))"

end

