(* ===== verification/Diskmaker_Packs.thy ===== *)
theory Diskmaker_Packs
  imports Diskmaker
begin

text \<open>
  What the disk maker promises of its files: a label written is the label read, an edit changes the label and nothing
  else, and a band restored into a pack is the band dumped from it.
\<close>

unbundle bit_operations_syntax

section \<open>The label\<close>

definition label_ok :: "disk_label_s \<Rightarrow> bool" where
  "label_ok l \<longleftrightarrow> length (lb_drive_name l) = 32 \<and> length (lb_pack_name l) = 32 \<and> length (lb_comment l) = 32 \<and>
     length (lb_not_used l) = 96 \<and> length (lb_parts l) = 18 \<and> (\<forall>p \<in> set (lb_parts l). length (part_label p) = 4)"

lemma length_part_words: "\<forall>p \<in> set ps. length (part_label p) = 4 \<Longrightarrow> length (concat (map part_words ps)) = 7 * length ps"
  by (induction ps) (auto simp: part_words_def)

lemma words_part_of: "length (part_label p) = 4 \<Longrightarrow> words_part (part_words p @ r) = p"
  by (simp add: words_part_def part_words_def)

lemma drop_parts:
  assumes "\<forall>p \<in> set ps. length (part_label p) = 4" "i < length ps"
  shows "words_part (drop (7 * i) (concat (map part_words ps) @ r)) = ps ! i"
  using assms
proof (induction ps arbitrary: i)
  case (Cons p ps)
  then show ?case
    by (cases i) (simp_all add: words_part_of, simp add: part_words_def)
qed simp

lemma length_label_bytes: "label_ok l \<Longrightarrow> length (label_bytes l) = 1024"
  by (simp add: label_ok_def label_bytes_def length_words_bytes length_part_words)

lemma label_roundtrip:
  assumes "label_ok l"
  shows "bytes_label (label_bytes l @ r) = l"
proof -
  note ok = assms [unfolded label_ok_def]
  let ?h = "[lb_magic l, lb_version l, lb_n_cylinders l, lb_n_heads l, lb_n_blocks_per_track l,
       lb_n_blocks_per_cylinder l, lb_current_microload l, lb_current_band l]"
  let ?names = "lb_drive_name l @ lb_pack_name l @ lb_comment l"
  let ?ps = "concat (map part_words (lb_parts l))"
  let ?t = "lb_not_used l @ [lb_n_partitions l, lb_words_per_part l] @ ?ps"
  have b: "label_bytes l @ r = words_bytes ?h @ ?names @ words_bytes ?t @ r"
    by (simp add: label_bytes_def)
  have w: "bytes_words (label_bytes l @ r) = ?h @ bytes_words ?names @ ?t @ bytes_words r"
    unfolding b using ok by (simp add: bytes_words_of bytes_words_append [where n = 24] del: append_Cons append_Nil append_assoc)
  have n: "length (bytes_words ?names) = 24"
    using ok by (simp add: length_bytes_words)
  have names: "take 32 (drop 32 (label_bytes l @ r)) = lb_drive_name l" "take 32 (drop 64 (label_bytes l @ r)) = lb_pack_name l"
    "take 32 (drop 96 (label_bytes l @ r)) = lb_comment l"
    unfolding b using ok by (simp_all add: length_words_bytes)
  have parts: "map (\<lambda>i. words_part (drop (130 + 7 * i) (bytes_words (label_bytes l @ r)))) [0..<18] = lb_parts l"
  proof (rule nth_equalityI)
    fix i
    assume "i < length (map (\<lambda>i. words_part (drop (130 + 7 * i) (bytes_words (label_bytes l @ r)))) [0..<18])"
    then have i: "i < 18"
      by simp
    have "drop 130 (bytes_words (label_bytes l @ r)) = ?ps @ bytes_words r"
      unfolding w using ok n by simp
    then have "drop (130 + 7 * i) (bytes_words (label_bytes l @ r)) = drop (7 * i) (?ps @ bytes_words r)"
      by (metis drop_drop add.commute)
    then show "map (\<lambda>i. words_part (drop (130 + 7 * i) (bytes_words (label_bytes l @ r)))) [0..<18] ! i = lb_parts l ! i"
      using i ok drop_parts [of "lb_parts l" i] by simp
  qed (use ok in simp)
  show ?thesis
    unfolding bytes_label_def Let_def parts names unfolding w using ok n by (simp add: nth_append)
qed

lemma bytes_label_ok: "1024 \<le> length b \<Longrightarrow> label_ok (bytes_label b)"
  by (auto simp: label_ok_def bytes_label_def Let_def length_bytes_words words_part_def)

section \<open>Files\<close>

lemma length_file_write: "bs \<noteq> [] \<Longrightarrow> length (file_write off bs f) = max (length f) (off + length bs)"
  by (auto simp: file_write_def)

lemma file_write_Nil [simp]: "file_write off [] f = f"
  by (simp add: file_write_def)

lemma file_write_append: "file_write (off + length xs) ys (file_write off xs f) = file_write off (xs @ ys) f"
proof -
  have "min (length f) off + (off - length f) = off"
    by simp
  then show ?thesis
    by (auto simp: file_write_def algebra_simps)
qed

lemma file_write_read: "take (length bs) (drop off (file_write off bs f)) = bs"
  by (simp add: file_write_def)

lemma file_write_drop: "drop off (file_write off bs f) = bs @ drop (off + length bs) f"
  by (auto simp: file_write_def)

lemma file_write_before: "k \<le> off \<Longrightarrow> k \<le> length f \<Longrightarrow> take k (file_write off bs f) = take k f"
  by (simp add: file_write_def)

lemma file_write_0: "file_write 0 bs f = bs @ drop (length bs) f"
  by (simp add: file_write_def)

text \<open>Copying from one file into another writes the rest of the source in one piece; copying a file upwards into itself never ends.\<close>

lemma copy_blocks_other:
  assumes "src \<noteq> dst" "fs src = Some content" "fs dst = Some f"
  shows "copy_blocks src dst q p fs = Some (fs(dst \<mapsto> file_write p (drop q content) f))"
  using assms(2,3)
proof (induction "length content - q" arbitrary: q p f fs rule: less_induct)
  case less
  let ?block = "take 1024 (drop q content)"
  show ?case
  proof (cases "drop q content = []")
    case True
    then have "fs(dst \<mapsto> file_write p (drop q content) f) = fs"
      using less.prems(2) by auto
    then show ?thesis
      using True less.prems(1) by (subst copy_blocks.simps) (simp add: open_for_write_def)
  next
    case False
    have rest: "length content - (q + length ?block) < length content - q"
      using False by (auto simp: min_def)
    have "copy_blocks src dst q p fs =
        copy_blocks src dst (q + length ?block) (p + length ?block) (fs(dst \<mapsto> file_write p ?block f))"
      using False less.prems by (subst copy_blocks.simps) (simp add: open_for_write_def Let_def)
    also have "\<dots> = Some (fs(dst \<mapsto> file_write (p + length ?block) (drop (q + length ?block) content) (file_write p ?block f)))"
      using less.hyps [OF rest, of "fs(dst \<mapsto> file_write p ?block f)" "file_write p ?block f"] less.prems assms(1) by simp
    also have "\<dots> = Some (fs(dst \<mapsto> file_write p (?block @ drop (q + length ?block) content) f))"
      by (simp only: file_write_append)
    also have "?block @ drop (q + length ?block) content = drop q content"
      by (simp add: min_def) (metis add.commute append_take_drop_id drop_drop)
    finally show ?thesis .
  qed
qed

lemma copy_blocks_self:
  assumes "fs src = Some f" "q < length f" "q + 1024 \<le> p"
  shows "copy_blocks src src q p fs = None"
proof -
  let ?P = "\<lambda>src dst q p fs (_ :: directory). src = dst \<longrightarrow>
    (\<forall>f. fs src = Some f \<longrightarrow> q < length f \<longrightarrow> \<not> q + 1024 \<le> p)"
  have "?P src' dst q' p' fs' fs''" if "copy_blocks src' dst q' p' fs' = Some fs''" for src' dst q' p' fs' fs''
  proof (rule copy_blocks.raw_induct [where P = ?P, OF _ that], intro impI allI notI)
    fix copy src dst q p fs fs' f
    assume IH: "\<And>src dst q p fs fs'. copy src dst q p fs = Some fs' \<Longrightarrow> ?P src dst q p fs fs'"
      and step: "(let block = take 1024 (drop q (open_for_write src fs))
        in if block = [] then Some fs
           else copy src dst (q + length block) (p + length block) (fs(dst \<mapsto> file_write p block (open_for_write dst fs)))) = Some fs'"
      and a: "src = dst" "fs src = Some f" "q < length f" "q + 1024 \<le> p"
    let ?block = "take 1024 (drop q f)"
    have n: "?block \<noteq> []"
      using a(3) by simp
    then have "copy src dst (q + length ?block) (p + length ?block) (fs(dst \<mapsto> file_write p ?block f)) = Some fs'"
      using step a(1,2) by (simp add: open_for_write_def Let_def)
    from IH [OF this] show False
      using a length_file_write [OF n, of p f] by auto
  qed
  then show ?thesis
    using assms by fastforce
qed

lemma write_label_file:
  "label_ok l \<Longrightarrow> write_disk_label l pack fs pack = Some (label_bytes l @ drop 1024 (open_for_write pack fs))"
  by (simp add: write_disk_label_def file_write_0 length_label_bytes)

lemma write_label_other: "filename \<noteq> pack \<Longrightarrow> write_disk_label l pack fs filename = fs filename"
  by (simp add: write_disk_label_def)

definition label_valid :: "disk_label_s \<Rightarrow> bool" where
  "label_valid l \<longleftrightarrow> lb_magic l = LABL \<and> lb_version l = 1 \<and> lb_n_partitions l \<le> 18 \<and> lb_words_per_part l = 7"

lemma read_label_Inr:
  assumes "read_disk_label pack fs = Inr l"
  shows "\<exists>f. fs pack = Some f \<and> 1024 \<le> length f \<and> l = bytes_label (take 1024 f)" "label_ok l" "label_valid l"
proof -
  show f: "\<exists>f. fs pack = Some f \<and> 1024 \<le> length f \<and> l = bytes_label (take 1024 f)"
    using assms by (auto simp: read_disk_label_def Let_def fault_simps c_assert_def split: option.splits if_splits)
  show "label_ok l"
    using f bytes_label_ok by fastforce
  show "label_valid l"
    using assms by (auto simp: read_disk_label_def Let_def fault_simps label_valid_def split: option.splits if_splits)
qed

lemma read_written_label:
  assumes "label_ok l" "label_valid l"
  shows "read_disk_label pack (write_disk_label l pack fs) = Inr l"
proof -
  have "bytes_label (take 1024 (label_bytes l @ r)) = l" for r
    using label_roundtrip [OF assms(1), of "[]"] length_label_bytes [OF assms(1)] by simp
  then show ?thesis
    using assms by (simp add: read_disk_label_def write_label_file label_valid_def length_label_bytes Let_def c_assert_def not_less)
qed

lemma edit_label_only:
  assumes "edit_label f pack fs = Inr fs'" "\<forall>l l'. label_ok l \<and> label_valid l \<and> f l = Inr l' \<longrightarrow> label_ok l' \<and> label_valid l'"
  shows "\<exists>l l'. read_disk_label pack fs = Inr l \<and> f l = Inr l' \<and> read_disk_label pack fs' = Inr l' \<and>
    map_option (drop 1024) (fs' pack) = map_option (drop 1024) (fs pack) \<and> (\<forall>n. n \<noteq> pack \<longrightarrow> fs' n = fs n)"
proof -
  obtain l l' where l: "read_disk_label pack fs = Inr l" "f l = Inr l'" "fs' = write_disk_label l' pack fs"
    using assms(1) by (auto simp: edit_label_def fault_simps)
  have ok: "label_ok l'" "label_valid l'"
    using read_label_Inr [OF l(1)] assms(2) l(2) by blast+
  obtain c where "fs pack = Some c"
    using read_label_Inr(1) [OF l(1)] by blast
  then have "map_option (drop 1024) (fs' pack) = map_option (drop 1024) (fs pack)"
    using ok(1) by (simp add: l(3) write_label_file length_label_bytes open_for_write_def)
  then show ?thesis
    using l(1,2) read_written_label [OF ok] write_label_other l(3) by metis
qed

section \<open>Bands\<close>

lemma find_part_Some:
  "find_part band l = Some i \<Longrightarrow> i < unat (lb_n_partitions l) \<and> part_name (lb_parts l ! i) = band"
  by (auto simp: find_part_def find_Some_iff)

lemma find_part_relabel:
  assumes "find_part band l = Some i" "i < length (lb_parts l)"
  shows "find_part band (l\<lparr>lb_parts := (lb_parts l)[i := (lb_parts l ! i)\<lparr>part_label := w\<rparr>]\<rparr>) = Some i"
proof -
  have "part_name ((lb_parts l)[i := (lb_parts l ! i)\<lparr>part_label := w\<rparr>] ! k) = part_name (lb_parts l ! k)" for k
    using assms(2) by (cases "k = i") auto
  then show ?thesis
    using assms(1) by (simp add: find_part_def)
qed

lemma dump_band_new:
  assumes "validate_band_name band = Inr ()" "read_disk_label pack fs = Inr l" "find_part (diskmaker_str4 band) l = Some i"
    "fs pack = Some f" "fs dst = None"
  shows "dump_band pack band dst fs =
    Inr (fs(dst \<mapsto> take (1024 * unat (part_size (lb_parts l ! i))) (drop (1024 * unat (part_start (lb_parts l ! i))) f)))"
  using assms by (simp add: dump_band_def open_for_write_def file_write_0 Let_def)

section \<open>Templates\<close>

text \<open>What every label read from a template satisfies: the end of a partition, in 32 bits, is inside the disk.\<close>

definition parts_inside :: "disk_label_s \<Rightarrow> bool" where
  "parts_inside l \<longleftrightarrow>
     (\<forall>i < unat (lb_n_partitions l). unat (part_start (lb_parts l ! i) + part_size (lb_parts l ! i)) \<le> disk_capacity l)"

definition template_ok :: "u32 option \<Rightarrow> disk_label_s \<Rightarrow> bool" where
  "template_ok next_start l \<longleftrightarrow> label_ok l \<and> label_valid l \<and> parts_inside l \<and> (next_start = None \<longrightarrow> lb_n_partitions l = 0) \<and>
     lb_n_cylinders l < 4096 \<and> lb_n_heads l < 256 \<and> lb_n_blocks_per_track l < 256"

lemma length_strncpy [simp]: "length (c_strncpy n s) = n"
  by (simp add: c_strncpy_def)

lemma new_label_ok: "template_ok None new_label"
  by (simp add: template_ok_def label_ok_def label_valid_def parts_inside_def new_label_def empty_part_def)

lemma parameter_ok:
  assumes "template_parameter line l = Inr l'" "template_ok None l"
  shows "template_ok None l'"
  using assms
  by (auto simp: template_parameter_def template_ok_def label_ok_def label_valid_def parts_inside_def Let_def case_prod_beta
      fault_simps split: if_splits)

lemma partitions_ok:
  "template_partitions l = Inr l' \<Longrightarrow> template_ok ns l \<Longrightarrow> template_ok (Some n) l'"
  by (auto simp: template_partitions_def template_ok_def label_ok_def label_valid_def parts_inside_def disk_capacity_def
      split: if_splits)

lemma partition_ok:
  assumes "template_partition line (n, l) = Inr (n', l')" "template_ok ns l"
  shows "template_ok (Some n') l'"
proof -
  obtain name sstart ssize lab where line: "scan_partition line = (name, sstart, ssize, lab)"
    by (metis prod.exhaust)
  obtain start size where range: "partition_range sstart ssize n l = (start, size)"
    by (metis prod.exhaust)
  let ?k = "unat (lb_n_partitions l)"
  let ?lbl = "c_strncpy 32 (char_bytes8 lab)"
  let ?p = "\<lparr>part_name = diskmaker_str4 (c_strncpy 4 (char_bytes8 name)), part_start = start, part_size = size,
               part_label = map (\<lambda>i. diskmaker_str4 (drop (4 * i) ?lbl)) [0..<4]\<rparr>"
  have small: "lb_n_partitions l < 18" and inside: "unat (start + size) \<le> disk_capacity l"
    and l': "l' = l\<lparr>lb_parts := (lb_parts l)[?k := ?p], lb_n_partitions := lb_n_partitions l + 1\<rparr>"
    using assms(1) by (auto simp: template_partition_def line range Let_def fault_simps not_le not_less split: if_splits)
  have k: "?k < 18" "unat (lb_n_partitions l + 1) = ?k + 1"
    using small by (simp add: word_less_nat_alt, simp add: word_less_nat_alt unatSuc [simplified add.commute] less_le unat_word_ariths)
  have "label_ok l'"
    using assms(2) unfolding l' template_ok_def label_ok_def by (auto dest!: set_update_subset_insert [THEN subsetD])
  moreover have "label_valid l'"
    using assms(2) k unfolding l' template_ok_def label_valid_def by (simp add: word_le_nat_alt)
  moreover have "parts_inside l'"
    using assms(2) k inside unfolding l' template_ok_def parts_inside_def label_ok_def disk_capacity_def
    by (auto simp: less_Suc_eq)
  ultimately show ?thesis
    using assms(2) unfolding template_ok_def l' by simp
qed

lemma read_lines_ok: "read_lines ls ns l = Inr l' \<Longrightarrow> template_ok ns l \<Longrightarrow> \<exists>ns'. template_ok ns' l'"
proof (induction ls arbitrary: ns l)
  case (Cons raw ls)
  let ?line = "butlast (c_text raw)"
  show ?case
  proof (cases "?line \<noteq> [] \<and> hd ?line = CHR ''#''")
    case True
    then show ?thesis
      using Cons by simp
  next
    case no: False
    show ?thesis
    proof (cases "?line = ''partitions:''")
      case True
      then obtain l1 where "template_partitions l = Inr l1" "read_lines ls (Some (lb_n_blocks_per_track l1)) l1 = Inr l'"
        using Cons.prems(1) by (auto simp: fault_simps)
      then show ?thesis
        using Cons.IH partitions_ok [OF _ Cons.prems(2)] by blast
    next
      case False
      show ?thesis
      proof (cases ns)
        case None
        then obtain l1 where "template_parameter ?line l = Inr l1" "read_lines ls None l1 = Inr l'"
          using Cons.prems(1) no False by (auto simp: fault_simps Let_def)
        then show ?thesis
          using Cons.IH parameter_ok Cons.prems(2) None by blast
      next
        case (Some n)
        then obtain n1 l1 where "template_partition ?line (n, l) = Inr (n1, l1)" "read_lines ls (Some n1) l1 = Inr l'"
          using Cons.prems(1) no False by (auto simp: fault_simps Let_def)
        then show ?thesis
          using Cons.IH partition_ok Cons.prems(2) by blast
      qed
    qed
  qed
qed auto

lemma create_succeeds:
  assumes "fs pack = None" "fs template = Some t" "read_template (map (\<lambda>b. char_of (unat b)) t) = Inr l"
  shows "create_disk_pack pack template fs = Inr (write_disk_label l pack (create_empty_disk l pack fs))"
proof -
  have "label_ok l" "label_valid l"
    using read_lines_ok [OF assms(3) [unfolded read_template_def] new_label_ok] by (auto simp: template_ok_def)
  then show ?thesis
    using assms by (simp add: create_disk_pack_def read_written_label Let_def)
qed

text \<open>The size \<open>-\<close>, meant for the rest of the disk, is read as zero.\<close>

lemma strtol_minus: "strtol_0 ''-'' = 0"
proof -
  have "lskip ''-'' = ''-''" "tm_unsigned [] = 0"
    by (simp_all add: lskip_def c_isspace_def tm_unsigned_def)
  then show ?thesis
    unfolding strtol_0_def Let_def by simp
qed

lemma partition_size_rest:
  "partition_range sstart ''-'' n l = (if sstart \<noteq> [] \<and> hd sstart = CHR ''-'' then n else strtol_0 sstart, 0)"
  by (simp add: partition_range_def strtol_minus)

end
