(* ===== verification/Tool_Properties.thy ===== *)
theory Tool_Properties
  imports Ucfg_Dump Diskmaker_Packs
begin

text \<open>
  The properties of the configuration and of the disk maker.
\<close>

unbundle bit_operations_syntax

section \<open>The configuration\<close>









section \<open>The disk maker\<close>

definition sample_template :: string where
  "sample_template = ''cylinders 10'' @ [CHR 0x0A] @ ''heads 2'' @ [CHR 0x0A] @ ''blockspertrack 4'' @ [CHR 0x0A] @
     ''mcr MCR1'' @ [CHR 0x0A] @ ''lod LOD1'' @ [CHR 0x0A] @ ''partitions:'' @ [CHR 0x0A] @
     ''MCR1 - 3 first'' @ [CHR 0x0A] @ ''LOD1 - - rest'' @ [CHR 0x0A]"

lemma sample_template_read:
  "\<exists>l. read_template sample_template = Inr l \<and> lb_n_partitions l = 2 \<and> map part_start (take 2 (lb_parts l)) = [4, 7] \<and>
     map part_size (take 2 (lb_parts l)) = [3, 0] \<and> lb_n_cylinders l = 10 \<and> lb_n_blocks_per_cylinder l = 8"
proof -
  have "case read_template sample_template of Inl _ \<Rightarrow> False
      | Inr l \<Rightarrow> lb_n_partitions l = 2 \<and> map part_start (take 2 (lb_parts l)) = [4, 7] \<and>
          map part_size (take 2 (lb_parts l)) = [3, 0] \<and> lb_n_cylinders l = 10 \<and> lb_n_blocks_per_cylinder l = 8"
    by code_simp
  then show ?thesis
    by (auto split: sum.splits)
qed

lemma text_bytes: "map (\<lambda>b. char_of (unat b)) (char_bytes8 s) = s"
proof -
  have "unat (of_char c :: u8) = of_char c" for c
  proof -
    have "unat (of_nat (of_char c) :: u8) = of_char c"
      by (simp only: unat_of_nat) simp
    then show ?thesis
      by (simp only: of_nat_of_char)
  qed
  then show ?thesis
    by (induction s) (simp_all add: char_bytes8_def)
qed

text \<open>
  C30: the disk maker creates a pack from a template that it can read back: the label of the file is the one the template
  describes, behind it there are only zeros up to the end of the last cylinder, and no other file is changed.
\<close>

theorem create_then_read:
  assumes "create_disk_pack pack template fs = Inr fs'" "fs template = Some t"
  shows "\<exists>l f. read_template (map (\<lambda>b. char_of (unat b)) t) = Inr l \<and> read_disk_label pack fs' = Inr l \<and> fs' pack = Some f \<and>
    length f = max 1024 (1024 * (unat (lb_n_cylinders l) * unat (lb_n_blocks_per_cylinder l))) \<and>
    (\<forall>b \<in> set (drop 1024 f). b = 0) \<and> (\<forall>n. n \<noteq> pack \<longrightarrow> fs' n = fs n)"
proof -
  obtain l where l: "read_template (map (\<lambda>b. char_of (unat b)) t) = Inr l" "fs pack = None"
      "fs' = write_disk_label l pack (create_empty_disk l pack fs)"
    using assms by (auto simp: create_disk_pack_def fault_simps Let_def split: if_splits)
  have ok: "label_ok l" "label_valid l"
    using read_lines_ok [OF l(1) [unfolded read_template_def] new_label_ok] by (auto simp: template_ok_def)
  let ?n = "1024 * (unat (lb_n_cylinders l) * unat (lb_n_blocks_per_cylinder l))"
  have f: "fs' pack = Some (label_bytes l @ drop 1024 (replicate ?n 0))"
    using l(2) by (simp add: l(3) write_label_file [OF ok(1)] create_empty_disk_def open_for_write_def file_write_0)
  have "\<forall>n. n \<noteq> pack \<longrightarrow> fs' n = fs n"
    by (simp add: l(3) write_label_other create_empty_disk_def)
  then show ?thesis
    using l(1) read_written_label [OF ok] f length_label_bytes [OF ok(1)] by (auto simp: l(3))
qed

theorem create_then_read_witness:
  "\<exists>l fs'. create_disk_pack ''disk.img'' ''template'' [''template'' \<mapsto> char_bytes8 sample_template] = Inr fs' \<and>
    read_disk_label ''disk.img'' fs' = Inr l \<and> lb_n_partitions l = 2 \<and> map_option length (fs' ''disk.img'') = Some 81920"
proof -
  let ?fs = "[''template'' \<mapsto> char_bytes8 sample_template]"
  obtain l where l: "read_template sample_template = Inr l" "lb_n_partitions l = 2" "lb_n_cylinders l = 10" "lb_n_blocks_per_cylinder l = 8"
    using sample_template_read by blast
  obtain fs' where c: "create_disk_pack ''disk.img'' ''template'' ?fs = Inr fs'"
    using create_succeeds [of ?fs "''disk.img''" "''template''" "char_bytes8 sample_template" l] l(1) by (simp add: text_bytes)
  show ?thesis
    using create_then_read [OF c] c l by (auto simp: text_bytes)
qed

text \<open>
  C31: a template that is accepted gives a well-formed label: at most 18 partitions, each of which ends inside the disk (its
  end computed in 32 bits, as the code does), on a disk with less than 4096 cylinders, 256 heads and 256 blocks per track.
\<close>

theorem template_bounds:
  assumes "read_template content = Inr l"
  shows "label_ok l \<and> label_valid l \<and> lb_n_cylinders l < 4096 \<and> lb_n_heads l < 256 \<and> lb_n_blocks_per_track l < 256 \<and>
    unat (lb_n_partitions l) \<le> 18 \<and>
    (\<forall>i < unat (lb_n_partitions l). unat (part_start (lb_parts l ! i) + part_size (lb_parts l ! i)) \<le> disk_capacity l)"
  using read_lines_ok [OF assms [unfolded read_template_def] new_label_ok]
  by (auto simp: template_ok_def label_valid_def word_le_nat_alt parts_inside_def)

theorem template_bounds_witness:
  "\<exists>l. read_template sample_template = Inr l \<and> label_ok l \<and> lb_n_partitions l = 2 \<and>
    unat (part_start (lb_parts l ! 1) + part_size (lb_parts l ! 1)) \<le> disk_capacity l"
proof -
  obtain l where "read_template sample_template = Inr l" "lb_n_partitions l = 2"
    using sample_template_read by blast
  then show ?thesis
    using template_bounds [of sample_template l] by auto
qed

text \<open>
  C29: a file restored into a partition and dumped again comes back: when the partition does not overlap the label, the
  dump is the content of the file followed by what the rest of the partition held.
\<close>

theorem restore_then_dump:
  assumes "restore_band src pack band fs = Inr fs1" "fs src = Some content" "dst \<noteq> pack" "fs dst = None"
    "\<forall>l i. read_disk_label pack fs = Inr l \<and> find_part (diskmaker_str4 band) l = Some i \<longrightarrow> 1 \<le> part_start (lb_parts l ! i)"
  shows "\<exists>fs2 l i f. dump_band pack band dst fs1 = Inr fs2 \<and> read_disk_label pack fs = Inr l \<and>
    find_part (diskmaker_str4 band) l = Some i \<and> fs pack = Some f \<and>
    fs2 dst = Some (content @ drop (length content)
      (take (1024 * unat (part_size (lb_parts l ! i))) (drop (1024 * unat (part_start (lb_parts l ! i))) f)))"
proof -
  obtain l i fs0 where l: "validate_band_name band = Inr ()" "read_disk_label pack fs = Inr l"
      "find_part (diskmaker_str4 band) l = Some i" "length content \<le> 1024 * unat (part_size (lb_parts l ! i))"
    and fs0: "copy_blocks src pack 0 (1024 * unat (part_start (lb_parts l ! i))) fs = Some fs0"
    and fs1': "fs1 = write_disk_label (l\<lparr>lb_parts := (lb_parts l)[i := (lb_parts l ! i)\<lparr>part_label :=
        map (\<lambda>k. diskmaker_str4 (drop (4 * k) (c_strncpy 16 (char_bytes8 (c_basename src))))) [0..<4]\<rparr>]\<rparr>) pack fs0"
    using assms(1,2) by (auto simp: restore_band_def fault_simps Let_def split: option.splits if_splits)
  let ?p = "lb_parts l ! i" and ?w = "map (\<lambda>k. diskmaker_str4 (drop (4 * k) (c_strncpy 16 (char_bytes8 (c_basename src))))) [0..<4]"
  let ?l1 = "l\<lparr>lb_parts := (lb_parts l)[i := ?p\<lparr>part_label := ?w\<rparr>]\<rparr>"
  let ?f = "file_write (1024 * unat (part_start ?p)) content (open_for_write pack fs)"
  have start: "1024 \<le> 1024 * unat (part_start ?p)"
    using assms(5) l(2,3) by (auto simp: word_le_nat_alt)
  obtain f where f: "fs pack = Some f" "1024 \<le> length f"
    using read_label_Inr [OF l(2)] by blast
  have "src \<noteq> pack"
    using fs0 copy_blocks_self [of fs pack f 0 "1024 * unat (part_start ?p)"] f start by fastforce
  then have fs0': "fs0 = fs(pack \<mapsto> ?f)"
    using fs0 copy_blocks_other [OF _ assms(2) f(1)] f(1) by (simp add: open_for_write_def)
  note fs1 = fs1' [unfolded fs0']
  have ok: "label_ok l" "label_valid l"
    using read_label_Inr [OF l(2)] by auto
  have i: "i < length (lb_parts l)"
    using find_part_Some [OF l(3)] ok by (simp add: label_ok_def label_valid_def word_le_nat_alt)
  have ok1: "label_ok ?l1" "label_valid ?l1"
    using ok i by (auto simp: label_ok_def label_valid_def dest!: set_update_subset_insert [THEN subsetD])
  have read1: "read_disk_label pack fs1 = Inr ?l1"
    unfolding fs1 by (rule read_written_label [OF ok1])
  have file1: "fs1 pack = Some (label_bytes ?l1 @ drop 1024 ?f)"
    using write_label_file [OF ok1(1)] by (simp add: fs1 open_for_write_def)
  have find1: "find_part (diskmaker_str4 band) ?l1 = Some i"
    by (rule find_part_relabel [OF l(3) i])
  have "drop (1024 * unat (part_start ?p)) (label_bytes ?l1 @ drop 1024 ?f) = drop (1024 * unat (part_start ?p)) ?f"
    using start length_label_bytes [OF ok1(1)] by simp
  also have "\<dots> = content @ drop (1024 * unat (part_start ?p) + length content) f"
    using f(1) by (simp add: file_write_drop open_for_write_def)
  finally have r: "drop (1024 * unat (part_start ?p)) (label_bytes ?l1 @ drop 1024 ?f) =
      content @ drop (1024 * unat (part_start ?p) + length content) f" .
  have new: "fs1 dst = None"
    using assms(3,4) by (simp add: fs1 write_label_other)
  have same: "part_size (lb_parts ?l1 ! i) = part_size ?p" "part_start (lb_parts ?l1 ! i) = part_start ?p"
    using i by simp_all
  let ?n = "1024 * unat (part_size ?p)"
  have "dump_band pack band dst fs1 =
      Inr (fs1(dst \<mapsto> take ?n (content @ drop (1024 * unat (part_start ?p) + length content) f)))"
    using dump_band_new [OF l(1) read1 find1 file1 new] unfolding same r .
  moreover have "take ?n (content @ drop (1024 * unat (part_start ?p) + length content) f) =
      content @ drop (length content) (take ?n (drop (1024 * unat (part_start ?p)) f))"
    using l(4) by (simp add: drop_take add.commute)
  ultimately show ?thesis
    using l(2,3) f(1) by auto
qed

definition sample_label :: disk_label_s where
  "sample_label = new_label\<lparr>lb_n_partitions := 1, lb_parts := (replicate 18 empty_part)[0 :=
     \<lparr>part_name = diskmaker_str4 (char_bytes8 ''LOD1''), part_start = 2, part_size = 1, part_label = replicate 4 0\<rparr>]\<rparr>"

lemma sample_label_ok: "label_ok sample_label" "label_valid sample_label"
  "find_part (diskmaker_str4 (char_bytes8 ''LOD1'')) sample_label = Some 0"
  by (auto simp: label_ok_def label_valid_def find_part_def sample_label_def new_label_def empty_part_def upt_conv_Cons
      dest!: set_update_subset_insert [THEN subsetD])

theorem restore_then_dump_witness:
  "\<exists>fs1 fs2 rest. restore_band ''band'' ''disk.img'' (char_bytes8 ''LOD1'')
      (write_disk_label sample_label ''disk.img'' [''band'' \<mapsto> [1, 2, 3]]) = Inr fs1 \<and>
    dump_band ''disk.img'' (char_bytes8 ''LOD1'') ''copy'' fs1 = Inr fs2 \<and> fs2 ''copy'' = Some ([1, 2, 3] @ rest)"
proof -
  let ?fs = "write_disk_label sample_label ''disk.img'' [''band'' \<mapsto> [1, 2, 3]]"
  have r: "read_disk_label ''disk.img'' ?fs = Inr sample_label"
    by (rule read_written_label [OF sample_label_ok(1,2)])
  have src: "?fs ''band'' = Some [1, 2, 3]" "?fs ''copy'' = None"
    by (simp_all add: write_disk_label_def)
  obtain pack where "?fs ''disk.img'' = Some pack"
    by (simp add: write_disk_label_def)
  note copy = copy_blocks_other [of "''band''" "''disk.img''" ?fs, OF _ src(1) this]
  have p: "part_start (lb_parts sample_label ! 0) = 2" "part_size (lb_parts sample_label ! 0) = 1"
    by (simp_all add: sample_label_def)
  have v: "validate_band_name (char_bytes8 ''LOD1'') = Inr ()"
    by (simp add: validate_band_name_def char_bytes8_def)
  obtain fs1 where fs1: "restore_band ''band'' ''disk.img'' (char_bytes8 ''LOD1'') ?fs = Inr fs1"
    unfolding restore_band_def by (simp add: v r sample_label_ok(3) src p copy Let_def)
  have beyond: "\<forall>l i. read_disk_label ''disk.img'' ?fs = Inr l \<and> find_part (diskmaker_str4 (char_bytes8 ''LOD1'')) l = Some i \<longrightarrow>
      1 \<le> part_start (lb_parts l ! i)"
    using r sample_label_ok(3) p by simp
  show ?thesis
    using restore_then_dump [OF fs1 src(1) _ src(2) beyond] fs1 by blast
qed

text \<open>
  C32: a partition whose size is given as a dash, for the rest of the disk, gets no block at all: its size is zero and the
  next partition starts where it starts.
\<close>

theorem rest_of_disk_is_empty:
  assumes "scan_partition line = (name, sstart, ''-'', lab)" "lb_n_partitions l < 18"
    "label_ok l" "template_partition line (n, l) = Inr (n', l')"
  shows "lb_n_partitions l' = lb_n_partitions l + 1 \<and> part_size (lb_parts l' ! unat (lb_n_partitions l)) = 0 \<and>
    n' = part_start (lb_parts l' ! unat (lb_n_partitions l))"
proof -
  have "unat (lb_n_partitions l) < length (lb_parts l)"
    using assms(2,3) by (simp add: label_ok_def word_less_nat_alt)
  then show ?thesis
    using assms(1,2,4) by (auto simp: template_partition_def partition_size_rest Let_def fault_simps split: if_splits)
qed

theorem rest_of_disk_is_empty_witness:
  "case template_partition ''LOD1 - - rest'' (4, new_label\<lparr>lb_n_cylinders := 1, lb_n_heads := 2, lb_n_blocks_per_track := 4\<rparr>) of
     Inl _ \<Rightarrow> False | Inr (n', l') \<Rightarrow> n' = 4 \<and> part_size (lb_parts l' ! 0) = 0"
proof -
  let ?l = "new_label\<lparr>lb_n_cylinders := 1, lb_n_heads := 2, lb_n_blocks_per_track := 4\<rparr>"
  have s: "scan_partition ''LOD1 - - rest'' = (''LOD1'', ''-'', ''-'', ''rest'')"
    by code_simp
  have ok: "label_ok ?l" "lb_n_partitions ?l < 18" "unat (lb_n_partitions ?l) = 0"
    by (simp_all add: label_ok_def new_label_def empty_part_def)
  have "case template_partition ''LOD1 - - rest'' (4, ?l) of Inl _ \<Rightarrow> False | Inr (n', l') \<Rightarrow> n' = 4"
    by code_simp
  then show ?thesis
    using rest_of_disk_is_empty [OF s ok(2,1)] ok(3) by (auto split: sum.splits)
qed

end
