(* ===== verification/Dump.thy ===== *)
theory Dump
  imports Machine Le_Words
begin

text \<open>
  The histories, the trace and dump points, and the state file (\<^verbatim>\<open>usim/dump.c\<close>, with the segments of \<^verbatim>\<open>usim/misc.c\<close> and the page
  transfers of \<^verbatim>\<open>usim/main-memory.c\<close>).  A file is the list of its bytes.
\<close>

unbundle bit_operations_syntax

section \<open>Histories\<close>

abbreviation "MAX_PC_HISTORY \<equiv> 4096 :: nat"
abbreviation "MAX_LC_HISTORY \<equiv> 20000 :: nat"
abbreviation "MAX_PDL_HISTORY \<equiv> 4096 :: nat"

record pdl_event =
  read_write_indexer_npc :: u32
  ev_index :: u32
  ev_value :: u32
  ev_lc :: u32

record history =
  pc_history :: "nat \<Rightarrow> u32 \<times> bool"
  pc_history_head :: nat
  lc_history :: "nat \<Rightarrow> u16 \<times> u32"
  lc_history_head :: nat
  pdl_history :: "nat \<Rightarrow> pdl_event"
  pdl_history_next :: nat

definition record_pc_history :: "u32 \<Rightarrow> bool \<Rightarrow> history \<Rightarrow> history" where
  "record_pc_history pc pc_imem h =
     h\<lparr>pc_history := (pc_history h)(pc_history_head h := (pc, pc_imem)),
       pc_history_head := (pc_history_head h + 1) mod MAX_PC_HISTORY\<rparr>"

text \<open>The macro instruction is read through the map; the access must not change \<open>vmaok\<close>.\<close>

definition record_lc_history :: "'a cadr_sys_scheme \<Rightarrow> history \<Rightarrow> fault + 'a cadr_sys_scheme \<times> history" where
  "record_lc_history m h =
     (let opff = vmaok (ms m); l = lc (cpu m) in
      and_then (vmRead (drop_bit 2 l) (indet m ''instr'') m) (\<lambda>(instr, m1).
      let m2 = m1\<lparr>ms := (ms m1)\<lparr>vmaok := opff\<rparr>\<rparr>;
          half = (if l AND 2 \<noteq> 0 then ucast (drop_bit 16 instr) else ucast instr)
      in Inr (m2, h\<lparr>lc_history := (lc_history h)(lc_history_head h := (half, l)),
                    lc_history_head := (lc_history_head h + 1) mod MAX_LC_HISTORY\<rparr>)))"

definition last_pc :: "history \<Rightarrow> u32 \<times> bool" where
  "last_pc h = pc_history h ((pc_history_head h + MAX_PC_HISTORY - 1) mod MAX_PC_HISTORY)"

definition last_lc :: "history \<Rightarrow> u32" where
  "last_lc h = snd (lc_history h ((lc_history_head h + MAX_LC_HISTORY - 1) mod MAX_LC_HISTORY))"

abbreviation (input) "USE_PDL_PTR \<equiv> 1 :: u32"
abbreviation (input) "USE_PDL_INDEX \<equiv> 2 :: u32"
abbreviation (input) "PDL_READ \<equiv> 0 :: u32"
abbreviation (input) "PDL_WRITE \<equiv> 1 :: u32"
abbreviation (input) "PDL_PUSH \<equiv> 2 :: u32"
abbreviation (input) "PDL_POP \<equiv> 3 :: u32"

definition trace_pdl :: "u32 \<Rightarrow> u32 \<Rightarrow> u32 \<Rightarrow> cpu \<Rightarrow> history \<Rightarrow> history" where
  "trace_pdl read_write indexer v c h =
     (let e = \<lparr>read_write_indexer_npc = push_bit 24 read_write OR push_bit 16 indexer OR fst (last_pc h),
               ev_index = (if indexer = USE_PDL_PTR then pdl_pointer c else pdl_index c),
               ev_value = v, ev_lc = last_lc h\<rparr>;
          n = pdl_history_next h + 1
      in h\<lparr>pdl_history := (pdl_history h)(pdl_history_next h := e),
           pdl_history_next := (if n \<ge> MAX_PDL_HISTORY then 0 else n)\<rparr>)"

definition trace_pdlptr_pop :: "u32 \<Rightarrow> cpu \<Rightarrow> history \<Rightarrow> history" where
  "trace_pdlptr_pop v = trace_pdl PDL_POP USE_PDL_PTR v"

definition trace_pdlptr_push :: "u32 \<Rightarrow> cpu \<Rightarrow> history \<Rightarrow> history" where
  "trace_pdlptr_push v = trace_pdl PDL_PUSH USE_PDL_PTR v"

definition trace_pdlidx_read :: "u32 \<Rightarrow> cpu \<Rightarrow> history \<Rightarrow> history" where
  "trace_pdlidx_read v = trace_pdl PDL_READ USE_PDL_INDEX v"

definition trace_pdlptr_read :: "u32 \<Rightarrow> cpu \<Rightarrow> history \<Rightarrow> history" where
  "trace_pdlptr_read v = trace_pdl PDL_READ USE_PDL_PTR v"

definition trace_pdlidx_write :: "u32 \<Rightarrow> cpu \<Rightarrow> history \<Rightarrow> history" where
  "trace_pdlidx_write v = trace_pdl PDL_WRITE USE_PDL_INDEX v"

definition trace_pdlptr_write :: "u32 \<Rightarrow> cpu \<Rightarrow> history \<Rightarrow> history" where
  "trace_pdlptr_write v = trace_pdl PDL_WRITE USE_PDL_PTR v"

section \<open>Trace and dump points\<close>

record trace_points =
  full_trace_lc :: u32
  full_trace_repeat_counter :: u32
  full_trace_last_lc :: u32
  tp_trace_level :: nat
  tp_trace_facilities :: u32
  lc_dump_values :: "u32 list"
  npc_dump_values :: "u32 list"
  vmem_trace_values :: "u32 list"

text \<open>The counter counts only the turns at the wanted LC; the values TRACE_UCODE and TRACE_MICROCODE are 2 and 4.\<close>

definition check_enable_full_tracing_after_lc :: "u32 \<Rightarrow> trace_points \<Rightarrow> trace_points" where
  "check_enable_full_tracing_after_lc l t =
     (let here = l AND 0xFFFFFF;
          hit = full_trace_lc t > 0 \<and> here = full_trace_lc t;
          t1 = (if hit then t\<lparr>full_trace_repeat_counter := full_trace_repeat_counter t + 1\<rparr> else t);
          t2 = (if hit \<and> full_trace_repeat_counter t1 = 4 \<and> full_trace_last_lc t1 \<noteq> here
                then t1\<lparr>tp_trace_level := 7, tp_trace_facilities := 2 OR 4\<rparr> else t1)
      in t2\<lparr>full_trace_last_lc := l\<rparr>)"

text \<open>The tables have 256 entries and are filled without a check.\<close>

definition add_dump_lc :: "u32 \<Rightarrow> trace_points \<Rightarrow> fault + trace_points" where
  "add_dump_lc l t = and_then (in_bounds 256 (length (lc_dump_values t)) ''lc_dump_values'') (\<lambda>_.
     Inr (t\<lparr>lc_dump_values := lc_dump_values t @ [l]\<rparr>))"

definition add_dump_npc :: "u32 \<Rightarrow> trace_points \<Rightarrow> fault + trace_points" where
  "add_dump_npc n t = and_then (in_bounds 256 (length (npc_dump_values t)) ''npc_dump_values'') (\<lambda>_.
     Inr (t\<lparr>npc_dump_values := npc_dump_values t @ [n]\<rparr>))"

definition add_trace_vmem :: "u32 \<Rightarrow> trace_points \<Rightarrow> fault + trace_points" where
  "add_trace_vmem v t = and_then (in_bounds 256 (length (vmem_trace_values t)) ''vmem_trace_values'') (\<lambda>_.
     Inr (t\<lparr>vmem_trace_values := vmem_trace_values t @ [v]\<rparr>))"

text \<open>The number of state files written, and of lines traced, at a point.\<close>

definition check_lc_dump :: "u32 \<Rightarrow> trace_points \<Rightarrow> nat" where
  "check_lc_dump l t = length (filter (\<lambda>v. l = v) (lc_dump_values t))"

definition check_npc_dump :: "u32 \<Rightarrow> trace_points \<Rightarrow> nat" where
  "check_npc_dump n t = length (filter (\<lambda>v. n = v) (npc_dump_values t))"

definition trace_memory_location :: "u32 \<Rightarrow> trace_points \<Rightarrow> nat" where
  "trace_memory_location vaddr t = length (filter (\<lambda>v. vaddr AND 0xFFFFFF = v) (vmem_trace_values t))"

section \<open>Segments\<close>

definition tag :: "string \<Rightarrow> u32" where
  "tag s = of_char (s ! 0) OR push_bit 8 (of_char (s ! 1)) OR push_bit 16 (of_char (s ! 2)) OR push_bit 24 (of_char (s ! 3))"

text \<open>The file written so far, with what a call appends.\<close>

definition dump_write_header :: "u32 \<Rightarrow> u32 \<Rightarrow> bytes \<Rightarrow> bytes" where
  "dump_write_header type n f = f @ le_bytes type @ le_bytes n"

definition dump_write_segment :: "u32 \<Rightarrow> u32 list \<Rightarrow> bytes \<Rightarrow> bytes" where
  "dump_write_segment type ws f = dump_write_header type (of_nat (length ws)) f @ words_bytes ws"

definition dump_write_value :: "u32 \<Rightarrow> u32 \<Rightarrow> bytes \<Rightarrow> bytes" where
  "dump_write_value type v f = dump_write_header type 1 f @ le_bytes v"

text \<open>Reading: the file, and the position in it.  A short read stops the process.\<close>

definition read32le :: "bytes \<Rightarrow> nat \<Rightarrow> fault + u32 \<times> nat" where
  "read32le f pos =
     (case bytes_words (take 4 (drop pos f)) of
        w # _ \<Rightarrow> Inr (w, pos + 4)
      | [] \<Rightarrow> Inl (Errx ''read32le: read error''))"

text \<open>\<open>lseek\<close> relative to the position: a target before the start of the file is refused and changes nothing.  The distance is a
  32-bit product.\<close>

definition seek_cur :: "u32 \<Rightarrow> nat \<Rightarrow> nat" where
  "seek_cur s pos = (let p = int pos + sint (s * 4) in if p < 0 then pos else nat p)"

text \<open>The search for a segment; fuel bounds the segments visited.  The result is the size and the position of the data.\<close>

fun find_segment :: "nat \<Rightarrow> bytes \<Rightarrow> u32 \<Rightarrow> nat \<Rightarrow> fault + u32 \<times> nat" where
  "find_segment 0 f wanted pos = Inl (No_return ''dump_find_segment'')"
| "find_segment (Suc k) f wanted pos =
     and_then (read32le f pos) (\<lambda>(t, pos1). and_then (read32le f pos1) (\<lambda>(s, pos2).
     if t = wanted then Inr (s, pos2)
     else let pos3 = seek_cur s pos2 in
       if t \<noteq> tag ''EOF_'' then find_segment k f wanted pos3 else Inr (-1, pos3)))"

definition dump_find_segment :: "nat \<Rightarrow> bytes \<Rightarrow> u32 \<Rightarrow> fault + u32 \<times> nat" where
  "dump_find_segment k f wanted = find_segment k f wanted 8"

definition dump_read_segment_single_value :: "nat \<Rightarrow> bytes \<Rightarrow> u32 \<Rightarrow> fault + u32" where
  "dump_read_segment_single_value k f wanted =
     and_then (dump_find_segment k f wanted) (\<lambda>(s, pos).
     if s \<noteq> 1 then Inl (Errx ''read error; failed to read segment'')
     else and_then (read32le f pos) (\<lambda>(w, _). Inr w))"

section \<open>Saving\<close>

definition first_words :: "nat \<Rightarrow> (nat \<Rightarrow> u32) \<Rightarrow> u32 list" where
  "first_words n a = map a [0..<n]"

text \<open>The instruction memory has words of 64 bits, of which the low half comes first.\<close>

definition imem_words :: "cpu \<Rightarrow> u32 list" where
  "imem_words c = concat (map (\<lambda>i. [ucast (imem c i), ucast (drop_bit 32 (imem c i))]) [0..<16384])"

text \<open>A history, newest entry first.\<close>

definition newest_first :: "nat \<Rightarrow> nat \<Rightarrow> (nat \<Rightarrow> 'b) \<Rightarrow> 'b list" where
  "newest_first n head a = map (\<lambda>i. a ((head + n - i - 1) mod n)) [0..<n]"

definition pdl_event_words :: "pdl_event \<Rightarrow> u32 list" where
  "pdl_event_words e = [read_write_indexer_npc e, ev_index e, ev_value e, ev_lc e]"

definition dump_ucode_things :: "history \<Rightarrow> cpu \<Rightarrow> bytes \<Rightarrow> bytes" where
  "dump_ucode_things h c f =
     (let f1 = dump_write_value (tag ''MCPC'') (fst (last_pc h)) f;
          f2 = dump_write_value (tag ''USTP'') (spcptr c) f1;
          f3 = dump_write_value (tag ''RMD_'') (md_reg c) f2;
          f4 = dump_write_value (tag ''RVMA'') (vma_reg c) f3;
          f5 = dump_write_value (tag ''RQ__'') (q_r c) f4;
          f6 = dump_write_value (tag ''ROPC'') (opc c) f5;
          f7 = dump_write_value (tag ''ROAL'') (oa_reg_low c) f6;
          f8 = dump_write_value (tag ''ROAH'') (oa_reg_high c) f7;
          f9 = dump_write_segment (tag ''DMEM'') (first_words 2048 (dmem c)) f8;
          f10 = dump_write_segment (tag ''IMEM'') (imem_words c) f9;
          f11 = dump_write_segment (tag ''USTK'') (first_words 32 (spc c)) f10;
          f12 = dump_write_header (tag ''PCHL'') (of_nat MAX_PC_HISTORY) f11
                @ words_bytes (map fst (newest_first MAX_PC_HISTORY (pc_history_head h) (pc_history h)))
      in dump_write_header (tag ''PDHL'') (4 * of_nat MAX_PDL_HISTORY) f12
           @ words_bytes (concat (map pdl_event_words (newest_first MAX_PDL_HISTORY (pdl_history_next h) (pdl_history h)))))"

definition main_memory_save_page_to_file :: "nat \<Rightarrow> 'a mem_sys_scheme \<Rightarrow> bytes" where
  "main_memory_save_page_to_file pn m = words_bytes (first_words 256 (pages (mem m) pn))"

definition save_state :: "history \<Rightarrow> 'a cadr_sys_scheme \<Rightarrow> bytes" where
  "save_state h m =
     (let c = cpu m;
          f0 = le_bytes (tag ''LMDF'') @ le_bytes 1;
          f1 = dump_write_value (tag ''PDLI'') (pdl_index c) f0;
          f2 = dump_write_value (tag ''PDLP'') (pdl_pointer c) f1;
          f3 = dump_write_value (tag ''LCLV'') (lc c) f2;
          f4 = dump_write_header (tag ''LCHL'') (of_nat MAX_LC_HISTORY) f3
               @ words_bytes (map snd (newest_first MAX_LC_HISTORY (lc_history_head h) (lc_history h)));
          f5 = dump_ucode_things h c f4;
          f6 = dump_write_segment (tag ''L1MP'') (first_words 2048 (l1_map (vmem m))) f5;
          f7 = dump_write_segment (tag ''L2MP'') (first_words 1024 (l2_map (vmem m))) f6;
          f8 = dump_write_segment (tag ''PDLM'') (first_words 1024 (pdl c)) f7;
          f9 = dump_write_segment (tag ''AMEM'') (first_words 1024 (amem c)) f8;
          f10 = dump_write_segment (tag ''MMEM'') (first_words 32 (mmem c)) f9;
          n = main_memory_npages (mem m);
          f11 = dump_write_header (tag ''PMEM'') (n * 256) f10
                @ concat (map (\<lambda>i. main_memory_save_page_to_file i m) [0..<unat n])
      in dump_write_header (tag ''EOF_'') 0 f11)"

section \<open>Restoring\<close>

text \<open>A page is read as far as the file goes; the rest of it keeps what it held.\<close>

definition main_memory_load_page_from_file :: "nat \<Rightarrow> bytes \<Rightarrow> nat \<Rightarrow> 'a mem_sys_scheme \<Rightarrow> 'a mem_sys_scheme \<times> nat" where
  "main_memory_load_page_from_file pn f pos m =
     (let bs = take 1024 (drop pos f);
          old = words_bytes (first_words 256 (pages (mem m) pn));
          ws = bytes_words (bs @ drop (length bs) old)
      in (m\<lparr>mem := (mem m)\<lparr>pages := (pages (mem m))(pn := copy_in (pages (mem m) pn) 0 256 (\<lambda>i. ws ! i))\<rparr>\<rparr>, pos + length bs))"

fun load_pages :: "nat list \<Rightarrow> bytes \<Rightarrow> nat \<Rightarrow> 'a mem_sys_scheme \<Rightarrow> 'a mem_sys_scheme" where
  "load_pages [] f pos m = m"
| "load_pages (i # is) f pos m = (let (m1, pos1) = main_memory_load_page_from_file i f pos m in load_pages is f pos1 m1)"

text \<open>The first argument is the flag \<open>restored\<close>; the file may be missing.\<close>

definition restore_state :: "nat \<Rightarrow> bool \<Rightarrow> bytes option \<Rightarrow> 'a mem_sys_scheme \<Rightarrow> fault + 'a mem_sys_scheme" where
  "restore_state k restored file m =
     (if restored then Inr m
      else case file of None \<Rightarrow> Inr m
      | Some f \<Rightarrow>
          and_then (read32le f 0) (\<lambda>(magic, pos1). and_then (read32le f pos1) (\<lambda>(version, pos2).
          if magic \<noteq> tag ''LMDF'' \<or> version \<noteq> 1 then Inr m
          else and_then (dump_find_segment k f (tag ''PMEM'')) (\<lambda>(s, pos).
            if s <s 0 \<or> s AND 0xFF \<noteq> 0 \<or> 16384 * 256 <s s then Inr m
            else let n = s div 256; m1 = m\<lparr>mem := (mem m)\<lparr>main_memory_npages := n\<rparr>\<rparr>
                 in Inr (load_pages [0..<unat n] f pos m1)))))"

end
