(* ===== verification/Dump_Files.thy ===== *)
theory Dump_Files
  imports Dump
begin

text \<open>
  State files: what is saved is a sequence of segments, the search skips them, and restoring brings main memory back.
\<close>

unbundle bit_operations_syntax

section \<open>Segments\<close>

definition segment :: "u32 \<Rightarrow> u32 list \<Rightarrow> bytes" where
  "segment t ws = le_bytes t @ le_bytes (of_nat (length ws)) @ words_bytes ws"

lemma length_le_bytes [simp]: "length (le_bytes w) = 4"
  by (simp add: le_bytes_def)

lemma length_segment: "length (segment t ws) = 8 + 4 * length ws"
  by (simp add: segment_def length_words_bytes)

lemma read32le_at: "read32le (pre @ le_bytes w @ post) (length pre) = Inr (w, length pre + 4)"
proof -
  have "bytes_words (le_bytes w) = [w]"
    using bytes_words_of [of "[w]" "[]"] by (simp add: words_bytes_def)
  then show ?thesis
    by (simp add: read32le_def)
qed

lemma read_header:
  "read32le (pre @ segment t ws @ post) (length pre) = Inr (t, length pre + 4)"
  "read32le (pre @ segment t ws @ post) (length pre + 4) = Inr (of_nat (length ws), length pre + 8)"
  using read32le_at [of pre t] read32le_at [of "pre @ le_bytes t" "of_nat (length ws)"]
  by (simp_all add: segment_def)

lemma sint_small:
  assumes "n < 2 ^ 31"
  shows "sint (of_nat n :: u32) = int n"
proof -
  have "sint (word_of_int (int n) :: u32) = int n"
    unfolding sint_sbintrunc' using assms by (simp add: signed_take_bit_int_eq_self)
  then show ?thesis
    by simp
qed

lemma seek_over:
  assumes "n < 2 ^ 29"
  shows "seek_cur (of_nat n) pos = pos + 4 * n"
proof -
  have "sint (of_nat n * 4 :: u32) = int (4 * n)"
    using sint_small [of "4 * n"] assms by (simp add: mult.commute)
  then show ?thesis
    by (simp add: seek_cur_def)
qed

lemma find_segment_skip:
  assumes "length ws < 2 ^ 29" "t \<noteq> wanted" "t \<noteq> tag ''EOF_''"
  shows "find_segment (Suc k) (pre @ segment t ws @ post) wanted (length pre) =
    find_segment k (pre @ segment t ws @ post) wanted (length (pre @ segment t ws))"
  using assms by (simp add: read_header seek_over length_segment add.assoc)

lemma find_segment_hit:
  "find_segment (Suc k) (pre @ segment t ws @ post) t (length pre) = Inr (of_nat (length ws), length pre + 8)"
  by (simp add: read_header)

lemma find_segment_behind:
  assumes "\<forall>(t, ws) \<in> set segs. length ws < 2 ^ 29 \<and> t \<noteq> wanted \<and> t \<noteq> tag ''EOF_''" "length segs < k"
  shows "find_segment k (pre @ concat (map (\<lambda>(t, ws). segment t ws) segs) @ segment wanted ws @ post) wanted (length pre) =
    Inr (of_nat (length ws), length (pre @ concat (map (\<lambda>(t, ws). segment t ws) segs)) + 8)"
  using assms
proof (induction segs arbitrary: pre k)
  case Nil
  then show ?case
    using find_segment_hit by (cases k) (simp_all del: find_segment.simps)
next
  case (Cons s segs)
  obtain t us where s: "s = (t, us)"
    by (cases s)
  obtain k' where k: "k = Suc k'" "length segs < k'"
    using Cons.prems(2) by (cases k) auto
  show ?case
    using find_segment_skip [of us t wanted k' pre "concat (map (\<lambda>(t, ws). segment t ws) segs) @ segment wanted ws @ post"]
      Cons.IH [of k' "pre @ segment t us"] Cons.prems(1) k
    by (simp add: s del: find_segment.simps)
qed

text \<open>A segment whose size is -2 is read again and again.\<close>

lemma find_segment_again:
  assumes "t \<noteq> wanted" "t \<noteq> tag ''EOF_''"
  shows "find_segment k (pre @ le_bytes t @ le_bytes (-2) @ post) wanted (length pre) = Inl (No_return ''dump_find_segment'')"
proof (induction k)
  case (Suc k)
  have r: "read32le (pre @ le_bytes t @ le_bytes (-2) @ post) (length pre) = Inr (t, length pre + 4)"
    "read32le (pre @ le_bytes t @ le_bytes (-2) @ post) (length pre + 4) = Inr (-2, length pre + 8)"
    using read32le_at [of pre t] read32le_at [of "pre @ le_bytes t" "-2"] by simp_all
  have "seek_cur (-2) (length pre + 8) = length pre"
    by (simp add: seek_cur_def)
  then show ?case
    using assms r Suc by simp
qed simp

section \<open>The state file as segments\<close>

lemma write_segment: "dump_write_segment t ws f = f @ segment t ws"
  by (simp add: dump_write_segment_def dump_write_header_def segment_def)

lemma write_value: "dump_write_value t v f = f @ segment t [v]"
  by (simp add: dump_write_value_def dump_write_header_def segment_def words_bytes_def)

lemma write_header_words:
  "length ws = n \<Longrightarrow> dump_write_header t (of_nat n) f @ words_bytes ws = f @ segment t ws"
  by (simp add: dump_write_header_def segment_def)

lemma length_newest_first [simp]: "length (newest_first n head a) = n"
  by (simp add: newest_first_def)

lemma length_first_words [simp]: "length (first_words n a) = n"
  by (simp add: first_words_def)

lemma length_concat_same: "(\<And>x. x \<in> set xs \<Longrightarrow> length (f x) = n) \<Longrightarrow> length (concat (map f xs)) = n * length xs"
  by (induction xs) auto

lemma length_imem_words: "length (imem_words c) = 32768"
  unfolding imem_words_def by (subst length_concat_same [where n = 2]) simp_all

definition ucode_segments :: "history \<Rightarrow> cpu \<Rightarrow> (u32 \<times> u32 list) list" where
  "ucode_segments h c =
     [(tag ''MCPC'', [fst (last_pc h)]), (tag ''USTP'', [spcptr c]), (tag ''RMD_'', [md_reg c]), (tag ''RVMA'', [vma_reg c]),
      (tag ''RQ__'', [q_r c]), (tag ''ROPC'', [opc c]), (tag ''ROAL'', [oa_reg_low c]), (tag ''ROAH'', [oa_reg_high c]),
      (tag ''DMEM'', first_words 2048 (dmem c)), (tag ''IMEM'', imem_words c), (tag ''USTK'', first_words 32 (spc c)),
      (tag ''PCHL'', map fst (newest_first MAX_PC_HISTORY (pc_history_head h) (pc_history h))),
      (tag ''PDHL'', concat (map pdl_event_words (newest_first MAX_PDL_HISTORY (pdl_history_next h) (pdl_history h))))]"

definition memory_words :: "'a mem_sys_scheme \<Rightarrow> u32 list" where
  "memory_words m = concat (map (\<lambda>i. first_words 256 (pages (mem m) i)) [0..<unat (main_memory_npages (mem m))])"

definition segments_before_memory :: "history \<Rightarrow> 'a cadr_sys_scheme \<Rightarrow> (u32 \<times> u32 list) list" where
  "segments_before_memory h m =
     [(tag ''PDLI'', [pdl_index (cpu m)]), (tag ''PDLP'', [pdl_pointer (cpu m)]), (tag ''LCLV'', [lc (cpu m)]),
      (tag ''LCHL'', map snd (newest_first MAX_LC_HISTORY (lc_history_head h) (lc_history h)))] @
     ucode_segments h (cpu m) @
     [(tag ''L1MP'', first_words 2048 (l1_map (vmem m))), (tag ''L2MP'', first_words 1024 (l2_map (vmem m))),
      (tag ''PDLM'', first_words 1024 (pdl (cpu m))), (tag ''AMEM'', first_words 1024 (amem (cpu m))),
      (tag ''MMEM'', first_words 32 (mmem (cpu m)))]"

lemma write_history:
  "dump_write_header t (of_nat n) f @ words_bytes (map g (newest_first n head a)) = f @ segment t (map g (newest_first n head a))"
  by (rule write_header_words) simp

lemma write_pdl_history:
  "dump_write_header t (4 * of_nat n) f @ words_bytes (concat (map pdl_event_words (newest_first n head a))) =
     f @ segment t (concat (map pdl_event_words (newest_first n head a)))"
  by (simp add: dump_write_header_def segment_def length_concat_same [where n = 4] pdl_event_words_def)

lemma dump_ucode_things_segments:
  "dump_ucode_things h c f = f @ concat (map (\<lambda>(t, ws). segment t ws) (ucode_segments h c))"
  unfolding dump_ucode_things_def Let_def write_segment write_value write_history write_pdl_history
  by (simp add: ucode_segments_def)

lemma length_memory_words: "length (memory_words m) = 256 * unat (main_memory_npages (mem m))"
  by (simp add: memory_words_def length_concat_same [where n = 256])

lemma words_bytes_concat: "words_bytes (concat wss) = concat (map words_bytes wss)"
  by (induction wss) (simp_all add: words_bytes_def)

lemma save_state_segments:
  "save_state h m = (le_bytes (tag ''LMDF'') @ le_bytes 1) @
     concat (map (\<lambda>(t, ws). segment t ws) (segments_before_memory h m)) @
     segment (tag ''PMEM'') (memory_words m) @ segment (tag ''EOF_'') []"
proof -
  let ?n = "main_memory_npages (mem m)"
  have pm: "dump_write_header (tag ''PMEM'') (?n * 256) f @ concat (map (\<lambda>i. main_memory_save_page_to_file i m) [0..<unat ?n]) =
      f @ segment (tag ''PMEM'') (memory_words m)" for f
  proof -
    have "words_bytes (memory_words m) = concat (map (\<lambda>i. main_memory_save_page_to_file i m) [0..<unat ?n])"
      unfolding memory_words_def words_bytes_concat main_memory_save_page_to_file_def by (simp add: comp_def)
    then show ?thesis
      by (simp add: dump_write_header_def segment_def length_memory_words mult.commute)
  qed
  have eof: "dump_write_header (tag ''EOF_'') 0 f = f @ segment (tag ''EOF_'') []" for f
    by (simp add: dump_write_header_def segment_def words_bytes_def)
  show ?thesis
    unfolding save_state_def Let_def write_segment write_value write_history dump_ucode_things_segments pm eof
    by (simp add: segments_before_memory_def)
qed

section \<open>Restoring memory\<close>

lemma load_page:
  assumes "drop pos f = words_bytes ws @ rest" "length ws = 256"
  shows "main_memory_load_page_from_file pn f pos m =
    (m\<lparr>mem := (mem m)\<lparr>pages := (pages (mem m))(pn := copy_in (pages (mem m) pn) 0 256 (\<lambda>i. ws ! i))\<rparr>\<rparr>, pos + 1024)"
proof -
  have "take 1024 (drop pos f) = words_bytes ws"
    using assms by (simp add: length_words_bytes)
  moreover have "bytes_words (words_bytes ws @ r) = ws @ bytes_words r" for r
    by (rule bytes_words_of)
  ultimately show ?thesis
    using assms(2) by (simp add: main_memory_load_page_from_file_def Let_def length_words_bytes bytes_words_of [of ws "[]", simplified])
qed

lemma load_pages_segment:
  assumes "drop pos f = concat (map (\<lambda>i. words_bytes (first_words 256 (g i))) is) @ rest" "distinct is"
  shows "load_pages is f pos m = m\<lparr>mem := (mem m)\<lparr>pages := (\<lambda>pn. if pn \<in> set is then copy_in (pages (mem m) pn) 0 256 (\<lambda>i. first_words 256 (g pn) ! i)
     else pages (mem m) pn)\<rparr>\<rparr>"
  using assms
proof (induction "is" arbitrary: pos m)
  case (Cons i "is")
  let ?m1 = "m\<lparr>mem := (mem m)\<lparr>pages := (pages (mem m))(i := copy_in (pages (mem m) i) 0 256 (\<lambda>k. first_words 256 (g i) ! k))\<rparr>\<rparr>"
  have d: "drop pos f = words_bytes (first_words 256 (g i)) @ concat (map (\<lambda>i. words_bytes (first_words 256 (g i))) is) @ rest"
    using Cons.prems(1) by simp
  have "drop (pos + 1024) f = concat (map (\<lambda>i. words_bytes (first_words 256 (g i))) is) @ rest"
    using arg_cong [OF d, of "drop 1024"] by (simp add: length_words_bytes add.commute)
  then have "load_pages is f (pos + 1024) ?m1 = ?m1\<lparr>mem := (mem ?m1)\<lparr>pages := (\<lambda>pn. if pn \<in> set is
      then copy_in (pages (mem ?m1) pn) 0 256 (\<lambda>k. first_words 256 (g pn) ! k) else pages (mem ?m1) pn)\<rparr>\<rparr>"
    using Cons.IH Cons.prems(2) by simp
  moreover have "load_pages (i # is) f pos m = load_pages is f (pos + 1024) ?m1"
    by (simp add: load_page [OF d])
  moreover have "(\<lambda>pn. if pn \<in> set is then copy_in (pages (mem ?m1) pn) 0 256 (\<lambda>k. first_words 256 (g pn) ! k) else pages (mem ?m1) pn) =
      (\<lambda>pn. if pn \<in> set (i # is) then copy_in (pages (mem m) pn) 0 256 (\<lambda>k. first_words 256 (g pn) ! k) else pages (mem m) pn)"
    using Cons.prems(2) by (intro ext) auto
  ultimately show ?case
    by simp
qed simp

lemma tags:
  "tag ''PMEM'' = 0x4D454D50" "tag ''EOF_'' = 0x5F464F45" "tag ''PDLI'' = 0x494C4450" "tag ''PDLP'' = 0x504C4450"
  "tag ''LCLV'' = 0x564C434C" "tag ''LCHL'' = 0x4C48434C" "tag ''MCPC'' = 0x4350434D" "tag ''USTP'' = 0x50545355"
  "tag ''RMD_'' = 0x5F444D52" "tag ''RVMA'' = 0x414D5652" "tag ''RQ__'' = 0x5F5F5152" "tag ''ROPC'' = 0x43504F52"
  "tag ''ROAL'' = 0x4C414F52" "tag ''ROAH'' = 0x48414F52" "tag ''DMEM'' = 0x4D454D44" "tag ''IMEM'' = 0x4D454D49"
  "tag ''USTK'' = 0x4B545355" "tag ''PCHL'' = 0x4C484350" "tag ''PDHL'' = 0x4C484450" "tag ''L1MP'' = 0x504D314C"
  "tag ''L2MP'' = 0x504D324C" "tag ''PDLM'' = 0x4D4C4450" "tag ''AMEM'' = 0x4D454D41" "tag ''MMEM'' = 0x4D454D4D"
  "tag ''LMDF'' = 0x46444D4C"
  by (simp_all add: tag_def push_bit_eq_mult)

lemma other_tags:
  "\<forall>(t, ws) \<in> set (segments_before_memory h m). length ws < 2 ^ 29 \<and> t \<noteq> tag ''PMEM'' \<and> t \<noteq> tag ''EOF_''"
  unfolding segments_before_memory_def ucode_segments_def tags
  by (simp add: length_imem_words length_concat_same [where n = 4] pdl_event_words_def)

lemma number_of_segments: "length (segments_before_memory h m) = 22"
  by (simp add: segments_before_memory_def ucode_segments_def)

lemma memory_found:
  assumes "23 \<le> k"
  shows "\<exists>pos. dump_find_segment k (save_state h m) (tag ''PMEM'') = Inr (of_nat (256 * unat (main_memory_npages (mem m))), pos) \<and>
    drop pos (save_state h m) = words_bytes (memory_words m) @ segment (tag ''EOF_'') []"
proof -
  let ?pre = "le_bytes (tag ''LMDF'') @ le_bytes 1"
  let ?before = "concat (map (\<lambda>(t, ws). segment t ws) (segments_before_memory h m))"
  have "find_segment k (?pre @ ?before @ segment (tag ''PMEM'') (memory_words m) @ segment (tag ''EOF_'') []) (tag ''PMEM'') (length ?pre) =
      Inr (of_nat (length (memory_words m)), length (?pre @ ?before) + 8)"
    by (rule find_segment_behind [OF other_tags]) (use assms number_of_segments [of h m] in simp)
  moreover have "length ?pre = 8"
    by simp
  moreover have "drop (length (?pre @ ?before) + 8) (save_state h m) = words_bytes (memory_words m) @ segment (tag ''EOF_'') []"
    by (simp add: save_state_segments segment_def)
  ultimately show ?thesis
    unfolding dump_find_segment_def length_memory_words save_state_segments by (metis append_assoc)
qed

lemma header_read:
  "read32le (save_state h m) 0 = Inr (tag ''LMDF'', 4)" "read32le (save_state h m) 4 = Inr (1, 8)"
  using read32le_at [of "[]"] read32le_at [of "le_bytes (tag ''LMDF'')"] by (simp_all add: save_state_segments)

end
