(* ===== verification/Udiss.thy ===== *)
theory Udiss
  imports Usym M32
begin

text \<open>
  The disassembler of microcode (\<^verbatim>\<open>usim/udiss.c\<close>).  A description yields the text that it appends to the buffer \<open>uinstbuf\<close>
  of 128 bytes; the text is written without a check, so \<open>uinst_desc\<close> faults when it does not fit.
\<close>

unbundle bit_operations_syntax

abbreviation "UBUFSZ \<equiv> 128 :: nat"

definition octal :: "u64 \<Rightarrow> string" where
  "octal w = show_u64 8 w"

definition sp :: "string \<Rightarrow> string" where
  "sp s = s @ '' ''"

section \<open>Fields\<close>

definition byte_field_out :: "u64 \<Rightarrow> u64 \<Rightarrow> bool \<Rightarrow> bool \<Rightarrow> string" where
  "byte_field_out u val always_reflect_mrot length_is_minus_one =
     (let l = load_byte val 5 5; tem = load_byte val 0 5;
          tem1 = (if tem \<noteq> 0 \<and> (always_reflect_mrot \<or> load_byte u 12 2 = 1) then 32 - tem else tem)
      in ''(Byte-field '' @ sp (octal (if length_is_minus_one then l + 1 else l)) @ octal tem1 @ '') '')"

definition c_or_d_adr_out :: "symtab \<Rightarrow> symtype_t \<Rightarrow> u64 \<Rightarrow> string" where
  "c_or_d_adr_out tab type val =
     (case sym_find_by_type_val tab type (ucast val) False of Some (lbl, _) \<Rightarrow> sp lbl | None \<Rightarrow> sp (octal val))"

definition a_or_m_adr_out :: "symtab \<Rightarrow> symtype_t \<Rightarrow> u64 \<Rightarrow> string" where
  "a_or_m_adr_out tab type val =
     (if val = 0 then []
      else sp (case sym_find_by_type_val tab type (ucast val) False of
                 Some (lbl, _) \<Rightarrow> lbl
               | None \<Rightarrow> octal val @ ''@'' @ (if type = AMEM then ''A'' else ''M'')))"

definition type_field :: "symtab \<Rightarrow> symtype_t \<Rightarrow> u64 \<Rightarrow> nat \<Rightarrow> nat \<Rightarrow> string" where
  "type_field tab type u pp ss =
     (let val = load_byte u pp ss in
      if type = IMEM \<or> type = DMEM then c_or_d_adr_out tab type val
      else if type = AMEM \<or> type = MMEM then a_or_m_adr_out tab type val
      else sp (octal val))"

definition mf_desc :: "u64 \<Rightarrow> string" where
  "mf_desc u = (let mf = load_byte u 10 2 in if mf = 0 then [] else sp (''MF-'' @ octal mf))"

definition ilong_desc :: "u64 \<Rightarrow> string" where
  "ilong_desc u = (if load_byte u 45 1 = 1 then sp ''ILONG'' else [])"

section \<open>Sources and destinations\<close>

definition fsource_name :: "u64 \<Rightarrow> string" where
  "fsource_name f =
     (if f = 0 then ''READ-I-ARG'' else if f = 1 then ''MICRO-STACK-PNTR-AND-DATA''
      else if f = 2 then ''PDL-BUFFER-POINTER'' else if f = 3 then ''PDL-BUFFER-INDEX''
      else if f = 5 then ''C-PDL-BUFFER-INDEX'' else if f = 6 then ''C-OPC-BUFFER'' else if f = 7 then ''Q-R''
      else if f = 8 then ''VMA'' else if f = 9 then ''MEMORY-MAP-DATA'' else if f = 10 then ''MD''
      else if f = 11 then ''LOCATION-COUNTER'' else if f = 12 then ''MICRO-STACK-PNTR-AND-DATA-POP''
      else if f = 20 then ''C-PDL-BUFFER-POINTER-POP'' else if f = 21 then ''C-PDL-BUFFER-POINTER''
      else ''FSOURCE-'' @ octal f)"

definition m_source_desc :: "symtab \<Rightarrow> u64 \<Rightarrow> string" where
  "m_source_desc tab u = (if load_byte u 31 1 = 0 then type_field tab MMEM u 26 6 else sp (fsource_name (load_byte u 26 5)))"

definition q_dest_desc :: "u64 \<Rightarrow> string" where
  "q_dest_desc u = (if load_byte u 43 2 = 0 \<and> load_byte u 0 2 = 3 then '' (Q-R) '' else [])"

definition a_dest_desc :: "symtab \<Rightarrow> u64 \<Rightarrow> string" where
  "a_dest_desc tab u = type_field tab AMEM u 14 10"

definition fdest_name :: "u64 \<Rightarrow> string" where
  "fdest_name f =
     (if f = 1 then ''LOCATION-COUNTER'' else if f = 2 then ''INTERRUPT-CONTROL''
      else if f = 8 then ''C-PDL-BUFFER-POINTER'' else if f = 9 then ''C-PDL-BUFFER-POINTER-PUSH''
      else if f = 10 then ''C-PDL-BUFFER-INDEX'' else if f = 11 then ''PDL-BUFFER-INDEX'' else if f = 12 then ''PDL-BUFFER-POINTER''
      else if f = 13 then ''MICRO-STACK-DATA-PUSH'' else if f = 14 then ''OA-REG-LOW'' else if f = 15 then ''OA-REG-HI''
      else if f = 16 then ''VMA'' else if f = 17 then ''VMA-START-READ'' else if f = 18 then ''VMA-START-WRITE''
      else if f = 19 then ''VMA-WRITE-MAP'' else if f = 24 then ''MD'' else if f = 26 then ''MD-START-WRITE''
      else if f = 27 then ''MD-WRITE-MAP'' else ''FDEST-'' @ octal f)"

definition m_dest_desc :: "symtab \<Rightarrow> u64 \<Rightarrow> string" where
  "m_dest_desc tab u =
     (let fdest = load_byte u 19 5 in type_field tab MMEM u 14 5 @ (if fdest = 0 then [] else sp (fdest_name fdest)))"

definition dest_desc_1 :: "symtab \<Rightarrow> u64 \<Rightarrow> string" where
  "dest_desc_1 tab u =
     '' ('' @ (if load_byte u 25 1 = 0 then m_dest_desc tab u else a_dest_desc tab u) @
     (if load_byte u 43 2 = 0 \<and> load_byte u 0 2 = 3 then ''Q-R'' else []) @ '') ''"

definition dest_desc :: "symtab \<Rightarrow> u64 \<Rightarrow> string" where
  "dest_desc tab u = (if load_byte u 14 11 = 0 then q_dest_desc u else dest_desc_1 tab u)"

section \<open>ALU instructions\<close>

definition sub_carry_desc :: "u64 \<Rightarrow> string" where
  "sub_carry_desc u = (if load_byte u 2 1 = 0 then sp ''ALU-CARRY-IN-ZERO'' else [])"

definition normal_carry_desc :: "u64 \<Rightarrow> string" where
  "normal_carry_desc u = (if load_byte u 2 1 = 1 then sp ''ALU-CARRY-IN-ONE'' else [])"

definition logic_names :: "string list" where
  "logic_names = [''SETZ'', ''AND'', ''ANDCA'', ''SETM'', ''ANDCM'', '''', ''XOR'', ''IOR'', ''ANDCB'', ''EQV'', ''SETCA'', ''ORCA'',
     ''SETCM'', ''ORCM'', ''ORCB'', ''SETO'']"

definition alu_function_desc :: "u64 \<Rightarrow> string" where
  "alu_function_desc f =
     (if f = 5 then [] else if f < 16 then sp (logic_names ! unat f)
      else if f = 22 then sp ''SUB'' else if f = 25 then sp ''ADD'' else if f = 28 then sp ''INCM'' else if f = 31 then sp ''LSHM''
      else if f = 32 then sp ''MUL'' else if f = 33 then sp ''DIV'' else if f = 37 then sp ''DIVRC'' else if f = 41 then sp ''DIVFS''
      else sp (''ALU-FUNCTION-'' @ octal f))"

definition alu_desc :: "symtab \<Rightarrow> u64 \<Rightarrow> string" where
  "alu_desc tab u =
     (let f = load_byte u 3 6; s = load_byte u 12 2; q = load_byte u 0 2 in
      dest_desc tab u @ alu_function_desc f @ (if f = 0x16 then sub_carry_desc u else normal_carry_desc u) @
      (if s = 0 then sp (''OUTPUT-SELECTOR-'' @ octal s) else if s = 1 then []
       else if s = 2 then sp ''OUTPUT-SELECTOR-RIGHTSHIFT-1'' else sp ''OUTPUT-SELECTOR-LEFTSHIFT-1'') @
      (if q = 1 then sp ''SHIFT-Q-LEFT'' else if q = 2 then sp ''SHIFT-Q-RIGHT'' else []) @
      m_source_desc tab u @ type_field tab AMEM u 32 10 @ mf_desc u @ ilong_desc u)"

section \<open>Jumps\<close>

definition condition_names :: "string list" where
  "condition_names = [''T'', ''-LESS-THAN'', ''-LESS-OR-EQUAL'', ''-EQUAL'', ''-IF-PAGE-FAULT'', ''-IF-PAGE-FAULT-OR-INTERRUPT'',
     ''-IF-SEQUENCE-BREAK'', ''NIL'', ''T'', ''-GREATER-OR-EQUAL'', ''-GREATER-THAN'', ''-NOT-EQUAL'', ''-IF-NO-PAGE-FAULT'',
     ''-IF-NO-PAGE-FAULT-OR-INTERRUPT'', ''-IF-NO-SEQUENCE-BREAK'', ''-NEVER'']"

definition type_jump_condition :: "u64 \<Rightarrow> string" where
  "type_jump_condition number =
     (let kind = drop_bit 8 (number AND 0x300); xct_next = (if number AND 0x80 = 0 then ''-XCT-NEXT'' else []) in
      (if kind = 0 then ''JUMP'' else if kind = 1 then ''CALL'' else if kind = 2 then ''POPJ'' else ''CALL-POPJ-??'') @
      (if number AND 0x20 = 0 then
         ''-IF-BIT-'' @ (if number AND 0x40 = 0 then ''Set'' else ''Clear'') @ xct_next @
         '' (Byte-field 1 '' @ octal (32 - (number AND 0x1F)) @ '')''
       else
         let cond = (if number AND 0x40 = 0 then number AND 7 else (number AND 7) + 8);
             tem = condition_names ! unat cond in
         if tem = ''T'' then
           xct_next @ '' JUMP-CONDITION '' @ octal (number AND 7) @ (if number AND 0x40 = 0 then ''(Inverted)'' else [])
         else (if tem \<noteq> ''NIL'' then tem else []) @ xct_next) @ '' '')"

definition jmp_desc :: "symtab \<Rightarrow> u64 \<Rightarrow> string" where
  "jmp_desc tab u =
     type_jump_condition (load_byte u 0 10) @ m_source_desc tab u @ type_field tab AMEM u 32 10 @ type_field tab IMEM u 12 14 @
     mf_desc u @ ilong_desc u"

section \<open>Dispatches and byte operations\<close>

definition dsp_const_desc :: "symtab \<Rightarrow> u64 \<Rightarrow> string" where
  "dsp_const_desc tab u = '' ('' @ type_field tab NUMBER u 32 10 @ '') ''"

definition dsp_desc :: "symtab \<Rightarrow> u64 \<Rightarrow> string" where
  "dsp_desc tab u =
     (let map = load_byte u 8 2 in
      sp ''DISPATCH'' @ (if load_byte u 32 10 = 0 then [] else dsp_const_desc tab u) @
      byte_field_out u (load_byte u 0 8) True False @ m_source_desc tab u @ type_field tab DMEM u 12 11 @
      (if load_byte u 25 1 = 1 then sp ''PUSH-OWN-ADDRESS'' else []) @ (if load_byte u 24 1 = 1 then sp ''IFETCH'' else []) @
      (if map = 0 then [] else if map = 1 then sp ''MAP-14'' else if map = 2 then sp ''MAP-15'' else sp ''MAP-BOTH-14-AND-15'') @
      mf_desc u @ ilong_desc u)"

definition byt_desc :: "symtab \<Rightarrow> u64 \<Rightarrow> string" where
  "byt_desc tab u =
     (let b = load_byte u 12 2 in
      dest_desc tab u @
      (if b = 0 then sp (''BYTE-OPERATION-'' @ octal b) else if b = 1 then sp ''LDB''
       else if b = 2 then sp ''SELECTIVE-DEPOSIT'' else sp ''DPB'') @
      byte_field_out u (load_byte u 0 10) False True @ m_source_desc tab u @ type_field tab AMEM u 32 10 @ mf_desc u @ ilong_desc u)"

section \<open>The whole instruction\<close>

text \<open>After an opening parenthesis or a space that was copied, a space is skipped, and a closing parenthesis replaces it.\<close>

fun uinst_strip :: "string \<Rightarrow> string" where
  "uinst_strip [] = []"
| "uinst_strip [c] = [c]"
| "uinst_strip (c # d # s) =
     (if c = CHR ''('' \<or> c = CHR '' '' then
        (if d = CHR '' '' then c # uinst_strip s
         else if d = CHR '')'' then uinst_strip (d # s) else c # uinst_strip (d # s))
      else c # uinst_strip (d # s))"

definition uinst_raw :: "symtab \<Rightarrow> u64 \<Rightarrow> string" where
  "uinst_raw tab u =
     (let opclass = load_byte u 43 2 in
      ''('' @ (if load_byte u 42 1 = 1 then sp ''POPJ-AFTER-NEXT'' else []) @
      (if opclass = 0 then alu_desc tab u else if opclass = 1 then jmp_desc tab u
       else if opclass = 2 then dsp_desc tab u else byt_desc tab u) @
      (if load_byte u 46 1 = 1 then sp ''STAT-BIT'' else []) @ (if load_byte u 47 1 = 1 then sp ''BIT-47'' else []) @ '')'')"

definition uinst_desc :: "u64 \<Rightarrow> symtab \<Rightarrow> fault + string" where
  "uinst_desc u tab =
     (let raw = uinst_raw tab u in and_then (in_bounds UBUFSZ (length raw) ''uinstbuf'') (\<lambda>_. Inr (uinst_strip raw)))"

end
