(* ===== verification/Dump_Show.thy ===== *)
theory Dump_Show
  imports Dump Udiss
begin

text \<open>
  The printed part of a dump (\<^verbatim>\<open>usim/dump.c\<close>: labels, histories, memories) as text.
\<close>

unbundle bit_operations_syntax

section \<open>Labels and instructions\<close>

record symbols =
  sym_mcr :: symtab
  sym_prom :: symtab

definition o_pad :: "nat \<Rightarrow> u32 \<Rightarrow> string" where
  "o_pad n w = zero_pad n (show_u32 8 w)"

definition nl :: string where
  "nl = [CHR 0x0A]"

definition tab :: string where
  "tab = [CHR 0x09]"

definition printlbl :: "symbols \<Rightarrow> symtype_t \<Rightarrow> u32 \<Rightarrow> bool \<Rightarrow> string" where
  "printlbl sy type loc loc_imem =
     (case sym_find_by_type_val (if loc_imem then sym_mcr sy else sym_prom sy) type loc True of
        None \<Rightarrow> o_pad 3 loc
      | Some (l, offset) \<Rightarrow> if offset = 0 then ''('' @ l @ '')'' else ''('' @ l @ '' '' @ show_u32 8 offset @ '')'')"

definition disassemble_pc2 :: "symbols \<Rightarrow> cpu \<Rightarrow> u32 \<Rightarrow> bool \<Rightarrow> fault + string" where
  "disassemble_pc2 sy c pc pc_imem =
     (if pc_imem then and_then (in_bounds 16384 (unat pc) ''imem'') (\<lambda>_. uinst_desc (imem c (unat pc)) (sym_mcr sy))
      else and_then (in_bounds 512 (unat pc) ''prom'') (\<lambda>_. uinst_desc (prom c (unat pc)) (sym_prom sy)))"

section \<open>Histories\<close>

text \<open>An entry of the PC history; entries with address 0 were never recorded.\<close>

definition pc_entry :: "symbols \<Rightarrow> cpu \<Rightarrow> bool \<Rightarrow> u32 \<times> bool \<Rightarrow> fault + string" where
  "pc_entry sy c with_inst = (\<lambda>(pc, pc_imem).
     if pc = 0 then Inr []
     else let line = ''   '' @ o_pad 5 pc @ tab @ printlbl sy IMEM pc pc_imem @ (if pc_imem then [] else tab @ ''...in the PROM.'') @ nl in
       if with_inst then and_then (disassemble_pc2 sy c pc pc_imem) (\<lambda>s. Inr (line @ tab @ s @ nl)) else Inr line)"

fun all_text :: "(fault + string) list \<Rightarrow> fault + string" where
  "all_text [] = Inr []"
| "all_text (x # xs) = and_then x (\<lambda>s. and_then (all_text xs) (\<lambda>t. Inr (s @ t)))"

text \<open>
  With a length the history starts that many entries before its head; \<open>head\<close> is unsigned, so the test for a negative
  one never holds and the access is behind the array.
\<close>

definition show_pc_history :: "symbols \<Rightarrow> cpu \<Rightarrow> bool \<Rightarrow> nat \<Rightarrow> history \<Rightarrow> fault + string" where
  "show_pc_history sy c verbose len h =
     (let n = (if len > 0 then min len MAX_PC_HISTORY else MAX_PC_HISTORY);
          entry = (\<lambda>i. pc_entry sy c (verbose \<or> len > 0) (pc_history h (i mod MAX_PC_HISTORY)))
      in and_then (if len > pc_history_head h then Inl (Out_of_bounds ''pc_history'') else Inr ()) (\<lambda>_.
         and_then (all_text (map (\<lambda>i. entry (pc_history_head h - len + i)) [0..<n])) (\<lambda>t.
         Inr (''Micro PC History (OPC'' @ CHR 0x27 # ''s), oldest first:'' @ tab @ nl @ t))))"

definition show_lc_history :: "history \<Rightarrow> string" where
  "show_lc_history h =
     ''Complete backtrace follows:'' @ nl @ nl @
     concat (map (\<lambda>i. let (instr, l) = lc_history h ((lc_history_head h + i) mod MAX_LC_HISTORY); loc = l AND 0x3FFFFFF in
        if loc = 0 \<and> instr = 0 then [] else pad 11 (show_u32 8 loc) @ '' '' @ o_pad 6 (ucast instr) @ nl) [0..<MAX_LC_HISTORY]) @ nl"

text \<open>Pointers are below the size of the stack, which \<open>uexec.c\<close> ensures.\<close>

definition show_spc_stack :: "symbols \<Rightarrow> cpu \<Rightarrow> string" where
  "show_spc_stack sy c =
     (if spcptr c = 0 then []
      else ''Backtrace of microcode subroutine stack:'' @ nl @
        concat (map (\<lambda>i. pad 2 (show_u32 8 (of_nat i)) @ '' '' @ o_pad 11 (spc c i) @ '' '' @
          printlbl sy IMEM (spc c i AND 0x3FFF) True @ nl) (rev [0..<unat (spcptr c) + 1])))"

section \<open>Memories\<close>

definition quad_line :: "string \<Rightarrow> nat \<Rightarrow> (nat \<Rightarrow> u32) \<Rightarrow> nat \<Rightarrow> string" where
  "quad_line name w a i =
     tab @ name @ ''['' @ o_pad w (of_nat i) @ '']'' @ concat (map (\<lambda>k. '' '' @ o_pad 11 (a (i + k))) [0..<4]) @ nl"

definition show_all_quads :: "string \<Rightarrow> nat \<Rightarrow> (nat \<Rightarrow> u32) \<Rightarrow> string" where
  "show_all_quads name n a = concat (map (\<lambda>j. quad_line name 2 a (4 * j)) [0..<n div 4])"

definition show_mmem :: "cpu \<Rightarrow> string" where
  "show_mmem c = ''M-MEM:'' @ nl @ show_all_quads ''M'' 32 (mmem c) @ nl"

definition show_spc :: "cpu \<Rightarrow> string" where
  "show_spc c = ''SPC STACK:'' @ nl @ tab @ ''SPC POINTER: '' @ show_u32 8 (spcptr c) @ nl @ show_all_quads ''SPC'' 32 (spc c) @ nl"

text \<open>
  The loop that skips lines equal to their successor: it compares before it tests the index, so it reads behind the array.  The
  result is the index of the last line skipped.
\<close>

function skip_same :: "nat \<Rightarrow> (nat \<Rightarrow> u32) \<Rightarrow> nat \<Rightarrow> fault + nat" where
  "skip_same n a i =
     (if i + 4 \<ge> n then Inl (Out_of_bounds ''quad'')
      else if a i = a (i + 4) \<and> a (i + 1) = a (i + 5) \<and> a (i + 2) = a (i + 6) \<and> a (i + 3) = a (i + 7)
      then skip_same n a (i + 4) else Inr i)"
  by pat_completeness auto
termination
  by (relation "measure (\<lambda>(n, a, i). n - i)") auto

declare skip_same.simps [simp del]

lemma skip_same_le: "skip_same n a i = Inr j \<Longrightarrow> i \<le> j \<and> j + 4 < n"
proof (induction n a i rule: skip_same.induct)
  case (1 n a i)
  then show ?case
    by (auto simp: skip_same.simps [of n a i] split: if_splits)
qed

function show_quads :: "string \<Rightarrow> nat \<Rightarrow> (nat \<Rightarrow> u32) \<Rightarrow> nat \<Rightarrow> fault + string" where
  "show_quads name n a i =
     (if i \<ge> n then Inr []
      else case skip_same n a i of
        Inl e \<Rightarrow> Inl e
      | Inr j \<Rightarrow> and_then (show_quads name n a (j + 4)) (\<lambda>t.
          Inr (quad_line name 4 a i @ (if j = i then [] else tab @ ''...'' @ nl) @ t)))"
  by pat_completeness auto
termination
  by (relation "measure (\<lambda>(name, n, a, i). n - i)") (auto dest: skip_same_le)

declare show_quads.simps [simp del]

definition show_amem :: "cpu \<Rightarrow> fault + string" where
  "show_amem c = and_then (show_quads ''A'' 1024 (amem c) 0) (\<lambda>t. Inr (''A-MEM:'' @ nl @ t @ nl))"

definition show_pdl :: "cpu \<Rightarrow> fault + string" where
  "show_pdl c = and_then (show_quads ''PDL'' 1024 (pdl c) 0) (\<lambda>t. Inr (''PDL MEMORY:'' @ nl @ tab @
     ''PDL POINTER: '' @ show_u32 8 (pdl_pointer c) @ '', PDL INDEX: '' @ show_u32 8 (pdl_index c) @ nl @ t @ nl))"

definition show_l1_map :: "uvmem \<Rightarrow> fault + string" where
  "show_l1_map v = and_then (show_quads ''L1'' 2048 (l1_map v) 0) (\<lambda>t. Inr (''L1 MAP:'' @ nl @ t @ nl))"

definition show_l2_map :: "uvmem \<Rightarrow> fault + string" where
  "show_l2_map v = and_then (show_quads ''L2'' 1024 (l2_map v) 0) (\<lambda>t. Inr (''L2 MAP:'' @ nl @ t @ nl))"

definition show_ammem_sym :: "symbols \<Rightarrow> bool \<Rightarrow> cpu \<Rightarrow> string" where
  "show_ammem_sym sy disabled c =
     (let st = (if disabled then sym_mcr sy else sym_prom sy);
          left40 = (\<lambda>l. l @ replicate (40 - length l) (CHR '' ''))
      in ''A/M-MEMORY BY SYMBOL:'' @ nl @
         concat (map (\<lambda>i. case sym_find_by_type_val st AMEM (of_nat i) False of
             None \<Rightarrow> []
           | Some (l, _) \<Rightarrow> tab @ o_pad 4 (of_nat i) @ '' '' @ left40 l @ '' '' @ o_pad 11 (amem c i) @
               (if i < 32 then case sym_find_by_type_val st MMEM (of_nat i) False of
                    None \<Rightarrow> []
                  | Some (l2, _) \<Rightarrow> ''  '' @ left40 l2 @ '' '' @ o_pad 11 (mmem c i)
                else []) @ nl) [0..<1024]) @ nl)"

section \<open>The dump\<close>

definition dump_state :: "symbols \<Rightarrow> bool \<Rightarrow> nat \<Rightarrow> history \<Rightarrow> 'a cadr_sys_scheme \<Rightarrow> fault + string" where
  "dump_state sy verbose len h m =
     (let c = cpu m; (pc, pc_imem) = last_pc h in
      and_then (disassemble_pc2 sy c pc pc_imem) (\<lambda>ir.
      and_then (show_pc_history sy c verbose len h) (\<lambda>pcs.
      let start = ''***********************************************'' @ nl @ ''PC='' @ o_pad 5 pc @ '' '' @ printlbl sy IMEM pc pc_imem @
            (if pc_imem then [] else tab @ ''...in the PROM.'') @ nl @ ''IR='' @ ir @ nl @ pcs @ show_spc_stack sy c
      in if \<not> verbose then Inr start
         else and_then (show_amem c) (\<lambda>am. and_then (show_pdl c) (\<lambda>pd.
              and_then (show_l1_map (vmem m)) (\<lambda>l1. and_then (show_l2_map (vmem m)) (\<lambda>l2.
              Inr (start @ show_lc_history h @ show_mmem c @ am @ show_ammem_sym sy (promdisabled (ms m)) c @ show_spc c @
                pd @ l1 @ l2))))))))"

section \<open>Reading behind the array\<close>

lemma skip_same_multiple: "skip_same n a i = Inr j \<Longrightarrow> 4 dvd i \<Longrightarrow> 4 dvd j"
proof (induction n a i rule: skip_same.induct)
  case (1 n a i)
  then show ?case
    by (auto simp: skip_same.simps [of n a i] split: if_splits)
qed

text \<open>The last line is always compared with its successor.\<close>

lemma show_quads_beyond: "i < n \<Longrightarrow> 4 dvd i \<Longrightarrow> 4 dvd n \<Longrightarrow> show_quads name n a i = Inl (Out_of_bounds ''quad'')"
proof (induction name n a i rule: show_quads.induct)
  case (1 name n a i)
  have e: "skip_same n a k = Inl e \<Longrightarrow> e = Out_of_bounds ''quad''" for k e
    by (induction n a k rule: skip_same.induct) (auto simp: skip_same.simps split: if_splits)
  show ?case
  proof (cases "skip_same n a i")
    case (Inl x)
    then show ?thesis
      using 1 e by (simp add: show_quads.simps [of name n a i])
  next
    case (Inr j)
    then have "j + 4 < n" "4 dvd j + 4"
      using skip_same_le skip_same_multiple "1.prems" by auto
    then have "show_quads name n a (j + 4) = Inl (Out_of_bounds ''quad'')"
      using "1.IH" [OF _ Inr] "1.prems" by simp
    then show ?thesis
      using Inr "1.prems" by (simp add: show_quads.simps [of name n a i])
  qed
qed

end
