(* ===== verification/Udiss_Length.thy ===== *)
theory Udiss_Length
  imports Udiss
begin

text \<open>
  The length of a disassembled instruction when no symbol is known: at most 193 characters.
\<close>

unbundle bit_operations_syntax

lemma length_show_base: "0 < d \<Longrightarrow> n < b ^ d \<Longrightarrow> length (show_base k b n) \<le> d"
proof (induction k arbitrary: n d)
  case (Suc k)
  show ?case
  proof (cases "n < b")
    case False
    then obtain d' where d: "d = Suc d'" "0 < d'"
      using Suc.prems by (cases d; cases "d - 1") auto
    then have "n div b < b ^ d'"
      using Suc.prems(2) by (simp add: less_mult_imp_div_less mult.commute)
    then show ?thesis
      using Suc.IH [of d' "n div b"] d False by simp
  qed (use Suc.prems in simp)
qed simp

lemma unat_load_byte: "s < 32 \<Longrightarrow> unat (load_byte u p s) < 2 ^ s"
proof -
  assume "s < 32"
  then have "load_byte u p s = take_bit s (drop_bit p u)"
    by (intro bit_word_eqI) (auto simp: load_byte_def bit_simps)
  then show ?thesis
    by (simp add: unsigned_take_bit_eq)
qed

lemma length_octal: "unat w < 8 ^ d \<Longrightarrow> 0 < d \<Longrightarrow> length (octal w) \<le> d"
  unfolding octal_def show_u64_def by (rule length_show_base)

lemma length_octal_field:
  assumes "s \<le> 3 * d" "0 < d" "s < 32"
  shows "length (octal (load_byte u p s)) \<le> d"
proof (rule length_octal)
  have "unat (load_byte u p s) < 2 ^ s"
    by (rule unat_load_byte [OF assms(3)])
  also have "\<dots> \<le> (2 :: nat) ^ (3 * d)"
    using assms(1) by (rule power_increasing) simp
  also have "\<dots> = 8 ^ d"
    by (simp add: power_mult)
  finally show "unat (load_byte u p s) < 8 ^ d" .
qed (rule assms(2))

lemma length_sp [simp]: "length (sp s) = length s + 1"
  by (simp add: sp_def)

lemma no_symbol [simp]: "sym_find_by_type_val [] t v off = None"
  by (simp add: sym_find_by_type_val_def)

lemma length_reg_field:
  "length (type_field [] AMEM u p 10) \<le> 7" "length (type_field [] MMEM u p 6) \<le> 5" "length (type_field [] MMEM u p 5) \<le> 5"
  "length (type_field [] IMEM u p 14) \<le> 6" "length (type_field [] DMEM u p 11) \<le> 5" "length (type_field [] NUMBER u p 10) \<le> 5"
  using length_octal_field [of 10 4 u p] length_octal_field [of 6 2 u p] length_octal_field [of 5 2 u p]
    length_octal_field [of 14 5 u p] length_octal_field [of 11 4 u p]
  by (auto simp: type_field_def a_or_m_adr_out_def c_or_d_adr_out_def Let_def)

lemma length_small:
  "length (mf_desc u) \<le> 5" "length (ilong_desc u) \<le> 6" "length (q_dest_desc u) \<le> 7"
  "length (sub_carry_desc u) \<le> 18" "length (normal_carry_desc u) \<le> 17"
  using length_octal_field [of 2 1 u 10]
  by (auto simp: mf_desc_def ilong_desc_def q_dest_desc_def sub_carry_desc_def normal_carry_desc_def Let_def)

lemma length_m_source: "length (m_source_desc [] u) \<le> 30"
  using length_reg_field(2) [of u 26] length_octal_field [of 5 2 u 26]
  by (auto simp: m_source_desc_def fsource_name_def)

lemma length_m_dest: "length (m_dest_desc [] u) \<le> 31"
  using length_reg_field(3) [of u 14] length_octal_field [of 5 2 u 19]
  by (auto simp: m_dest_desc_def fdest_name_def Let_def)

text \<open>The destination with the shift of Q: the value 3 names Q in the first and nothing in the second.\<close>

definition shift_q_desc :: "u64 \<Rightarrow> string" where
  "shift_q_desc u = (let q = load_byte u 0 2 in if q = 1 then sp ''SHIFT-Q-LEFT'' else if q = 2 then sp ''SHIFT-Q-RIGHT'' else [])"

lemma length_dest:
  "length (dest_desc [] u) \<le> 38" "length (dest_desc [] u) + length (shift_q_desc u) \<le> 49"
  using length_m_dest [of u] length_small(3) [of u] length_reg_field(1) [of u 14]
  by (auto simp: dest_desc_def dest_desc_1_def a_dest_desc_def shift_q_desc_def Let_def)

lemma length_alu_function:
  "length (alu_function_desc (load_byte u 3 6)) +
     length (if load_byte u 3 6 = 0x16 then sub_carry_desc u else normal_carry_desc u) \<le> 33"
proof -
  have logic: "length (logic_names ! i) \<le> 5" if "i < 16" for i
    using that unfolding logic_names_def by (simp add: less_Suc_eq numeral_eq_Suc) fastforce
  have "length (alu_function_desc f) \<le> 16" if "length (octal f) \<le> 2" for f
    using that logic [of "unat f"] by (auto simp: alu_function_desc_def word_less_nat_alt)
  then have "length (alu_function_desc (load_byte u 3 6)) \<le> 16"
    using length_octal_field [of 6 2 u 3] by simp
  moreover have "length (alu_function_desc 0x16) = 4"
    by (simp add: alu_function_desc_def)
  ultimately show ?thesis
    using length_small(4,5) [of u] by auto
qed

lemma length_alu: "length (alu_desc [] u) \<le> 159"
proof -
  have sel: "length (octal 0) \<le> 1"
    by (rule length_octal) simp_all
  have alu: "alu_desc [] u = dest_desc [] u @ alu_function_desc (load_byte u 3 6) @
      (if load_byte u 3 6 = 0x16 then sub_carry_desc u else normal_carry_desc u) @
      (let s = load_byte u 12 2 in if s = 0 then sp (''OUTPUT-SELECTOR-'' @ octal s) else if s = 1 then []
       else if s = 2 then sp ''OUTPUT-SELECTOR-RIGHTSHIFT-1'' else sp ''OUTPUT-SELECTOR-LEFTSHIFT-1'') @
      shift_q_desc u @ m_source_desc [] u @ type_field [] AMEM u 32 10 @ mf_desc u @ ilong_desc u"
    by (simp add: alu_desc_def shift_q_desc_def Let_def)
  have "length (let s = load_byte u 12 2 in if s = 0 then sp (''OUTPUT-SELECTOR-'' @ octal s) else if s = 1 then []
       else if s = 2 then sp ''OUTPUT-SELECTOR-RIGHTSHIFT-1'' else sp ''OUTPUT-SELECTOR-LEFTSHIFT-1'') \<le> 29"
    using sel by (simp add: Let_def)
  then show ?thesis
    unfolding alu length_append
    using length_dest(2) [of u] length_alu_function [of u] length_m_source [of u] length_reg_field(1) [of u 32]
      length_small(1,2) [of u] by linarith
qed

lemma length_jump_condition: "length (type_jump_condition (load_byte u 0 10)) \<le> 53"
proof -
  let ?n = "load_byte u 0 10"
  have conds: "length (condition_names ! i) \<le> 30" if "i < 16" for i
    using that unfolding condition_names_def by (simp add: less_Suc_eq numeral_eq_Suc) fastforce
  have low: "unat (?n AND 0x1F) \<le> 31" "unat (?n AND 7) \<le> 7"
    using word_and_le1 [of ?n "0x1F"] word_and_le1 [of ?n 7] by (simp_all add: word_le_nat_alt)
  have "unat (32 - (?n AND 0x1F)) \<le> 32"
    using low(1) by (simp add: unat_sub word_le_nat_alt)
  then have o: "length (octal (32 - (?n AND 0x1F))) \<le> 2" "length (octal (?n AND 7)) \<le> 1"
    using low(2) by (auto intro!: length_octal)
  have "unat ((?n AND 7) + 8) \<le> 15"
    using low(2) by (subst unat_plus_if') simp
  then have c: "length (condition_names ! unat (?n AND 7)) \<le> 30" "length (condition_names ! unat ((?n AND 7) + 8)) \<le> 30"
    using conds low(2) by (simp_all del: unat_plus_if')
  show ?thesis
    using o c unfolding type_jump_condition_def Let_def by simp
qed

lemma length_jmp: "length (jmp_desc [] u) \<le> 107"
  unfolding jmp_desc_def length_append
  using length_jump_condition [of u] length_m_source [of u] length_reg_field(1) [of u 32] length_reg_field(4) [of u 12]
    length_small(1,2) [of u] by linarith

lemma length_byte_field: "length (byte_field_out u (load_byte u 0 s) r m) \<le> 19"
proof -
  have b: "unat (load_byte v p 5) \<le> 31" for v p
    using unat_load_byte [of 5 v p] by simp
  have "unat (load_byte v p 5 + 1) < 64" "unat (32 - load_byte v p 5) < 64" for v p
    using b [of v p] by (simp_all add: unat_plus_if' unat_sub word_le_nat_alt)
  then have o: "length (octal (load_byte v p 5 + 1)) \<le> 2" "length (octal (32 - load_byte v p 5)) \<le> 2" "length (octal (load_byte v p 5)) \<le> 2"
    for v p
    using b [of v p] by (auto intro!: length_octal simp: le_less_trans)
  let ?v = "load_byte u 0 s"
  have "length (octal (if m then load_byte ?v 5 5 + 1 else load_byte ?v 5 5)) \<le> 2"
    using o [of ?v 5] by simp
  moreover have "length (octal (if load_byte ?v 0 5 \<noteq> 0 \<and> (r \<or> load_byte u 12 2 = 1) then 32 - load_byte ?v 0 5 else load_byte ?v 0 5)) \<le> 2"
    using o [of ?v 0] by simp
  ultimately show ?thesis
    unfolding byte_field_out_def Let_def length_append length_sp by (simp only: list.size)
qed

lemma length_dsp: "length (dsp_desc [] u) \<le> 127"
proof -
  have "length (dsp_const_desc [] u) \<le> 9"
    using length_reg_field(6) [of u 32] by (simp add: dsp_const_desc_def)
  then show ?thesis
    using length_byte_field [of u 8 True False] length_m_source [of u] length_reg_field(5) [of u 12] length_small(1,2) [of u]
    unfolding dsp_desc_def Let_def length_append by (simp del: One_nat_def)
qed

lemma length_byt: "length (byt_desc [] u) \<le> 123"
proof -
  have "length (octal 0) \<le> 1"
    by (rule length_octal) simp_all
  then show ?thesis
    using length_byte_field [of u 10 False True] length_m_source [of u] length_reg_field(1) [of u 32] length_small(1,2) [of u]
      length_dest(1) [of u]
    unfolding byt_desc_def Let_def length_append by (simp del: One_nat_def)
qed

lemma length_uinst:
  "length (uinst_raw [] u) \<le> 193"
  using length_alu [of u] length_jmp [of u] length_dsp [of u] length_byt [of u]
  unfolding uinst_raw_def Let_def length_append by simp

end
