(* ===== verification/Dump_Properties.thy ===== *)
theory Dump_Properties
  imports Dump_Files Dump_Show Udiss_Length Zero_State
begin

text \<open>
  The properties of state files, dumps and the disassembler.
\<close>

unbundle bit_operations_syntax

section \<open>State files\<close>

text \<open>
  C33: a saved state restores main memory: from the file that \<open>save_state\<close> writes, \<open>restore_state\<close> finds the memory behind
  the 22 other segments, takes over the number of pages and every word of them, and changes nothing else, whatever machine it
  starts from.
\<close>

theorem save_then_restore:
  assumes "unat (main_memory_npages (mem m)) \<le> 16384" "23 \<le> k"
  shows "\<exists>m'. restore_state k False (Some (save_state h m)) m0 = Inr m' \<and> m' = m0\<lparr>mem := mem m'\<rparr> \<and>
    main_memory_npages (mem m') = main_memory_npages (mem m) \<and>
    (\<forall>pn < unat (main_memory_npages (mem m)). \<forall>i < 256. pages (mem m') pn i = pages (mem m) pn i) \<and>
    (\<forall>pn \<ge> unat (main_memory_npages (mem m)). pages (mem m') pn = pages (mem m0) pn)"
proof -
  let ?n = "main_memory_npages (mem m)"
  let ?s = "of_nat (256 * unat ?n) :: u32"
  obtain pos where pos: "dump_find_segment k (save_state h m) (tag ''PMEM'') = Inr (?s, pos)"
      "drop pos (save_state h m) = words_bytes (memory_words m) @ segment (tag ''EOF_'') []"
    using memory_found [OF assms(2), of h m] by blast
  have s: "unat ?s = 256 * unat ?n" "sint ?s = int (256 * unat ?n)"
    using assms(1) by (simp only: unat_of_nat, simp) (rule sint_small, use assms(1) in simp)
  have size: "\<not> ?s <s 0" "\<not> 16384 * 256 <s ?s" "?s AND 0xFF = 0" "?s div 256 = ?n"
  proof -
    have "uint ?n \<le> 16384"
      using assms(1) by (metis uint_nat of_nat_le_iff of_nat_numeral)
    then show "\<not> ?s <s 0" "\<not> 16384 * 256 <s ?s"
      using s(2) by (simp_all add: word_sless_alt)
    have "push_bit 8 ?n AND mask 8 = 0"
      by (rule bit_word_eqI) (auto simp: bit_simps)
    then show "?s AND 0xFF = 0"
      by (simp add: mask_eq_exp_minus_1 push_bit_eq_mult mult.commute)
    have "unat (?s div 256) = unat ?n"
      using s(1) by (simp add: unat_div)
    then show "?s div 256 = ?n"
      by (simp add: word_unat_eq_iff)
  qed
  let ?m1 = "m0\<lparr>mem := (mem m0)\<lparr>main_memory_npages := ?n\<rparr>\<rparr>"
  have d: "drop pos (save_state h m) = concat (map (\<lambda>i. words_bytes (first_words 256 (pages (mem m) i))) [0..<unat ?n]) @ segment (tag ''EOF_'') []"
    unfolding pos(2) memory_words_def words_bytes_concat by (simp add: comp_def)
  have "restore_state k False (Some (save_state h m)) m0 = Inr (load_pages [0..<unat ?n] (save_state h m) pos ?m1)"
  proof -
    define w where "w = ?s"
    have "\<not> w <s 0" "\<not> 16384 * 256 <s w" "w AND 0xFF = 0" "w div 256 = ?n"
      "dump_find_segment k (save_state h m) (tag ''PMEM'') = Inr (w, pos)"
      unfolding w_def using size pos(1) by blast+
    then show ?thesis
      unfolding restore_state_def by (simp add: header_read Let_def)
  qed
  then show ?thesis
    unfolding load_pages_segment [OF d distinct_upt] by (simp add: copy_in_def first_words_def)
qed

definition empty_history :: history where
  "empty_history = \<lparr>pc_history = (\<lambda>_. (0, False)), pc_history_head = 0, lc_history = (\<lambda>_. (0, 0)), lc_history_head = 0,
     pdl_history = (\<lambda>_. \<lparr>read_write_indexer_npc = 0, ev_index = 0, ev_value = 0, ev_lc = 0\<rparr>), pdl_history_next = 0\<rparr>"

theorem save_then_restore_witness:
  "\<exists>m'. restore_state 23 False (Some (save_state empty_history
      (zero_machine\<lparr>mem := \<lparr>main_memory_npages = 2, pages = \<lambda>pn i. of_nat (pn + i)\<rparr>\<rparr>))) zero_machine = Inr m' \<and>
    main_memory_npages (mem m') = 2 \<and> pages (mem m') 1 100 = 101"
proof -
  let ?m = "zero_machine\<lparr>mem := \<lparr>main_memory_npages = 2, pages = \<lambda>pn i. of_nat (pn + i)\<rparr>\<rparr>"
  have "unat (main_memory_npages (mem ?m)) \<le> 16384"
    by simp
  from save_then_restore [OF this, of 23 empty_history zero_machine] show ?thesis
    by auto
qed

text \<open>
  C34: a state file can hang the simulator: when the size of its first segment is -2 and the segment is not the
  memory, the search comes back to that segment for ever.
\<close>

theorem state_file_hangs:
  assumes "t \<noteq> tag ''PMEM''" "t \<noteq> tag ''EOF_''"
  shows "restore_state k False (Some (le_bytes (tag ''LMDF'') @ le_bytes 1 @ le_bytes t @ le_bytes (-2) @ rest)) m =
    Inl (No_return ''dump_find_segment'')"
proof -
  let ?f = "le_bytes (tag ''LMDF'') @ le_bytes 1 @ le_bytes t @ le_bytes (-2) @ rest"
  have h: "read32le ?f 0 = Inr (tag ''LMDF'', 4)" "read32le ?f 4 = Inr (1, 8)"
    using read32le_at [of "[]" "tag ''LMDF''"] read32le_at [of "le_bytes (tag ''LMDF'')" 1] by simp_all
  have "dump_find_segment k ?f (tag ''PMEM'') = Inl (No_return ''dump_find_segment'')"
    using find_segment_again [OF assms, of k "le_bytes (tag ''LMDF'') @ le_bytes 1" rest] by (simp add: dump_find_segment_def)
  then show ?thesis
    using h by (simp add: restore_state_def)
qed

theorem state_file_hangs_witness:
  "restore_state 1000 False (Some (le_bytes (tag ''LMDF'') @ le_bytes 1 @ le_bytes (tag ''PDLI'') @ le_bytes (-2) @ [])) zero_machine =
    Inl (No_return ''dump_find_segment'')"
  by (rule state_file_hangs) (simp_all add: tags)

section \<open>Dumps\<close>

text \<open>
  C35: a verbose dump never comes to its end within the memories it prints: the loop that skips equal lines compares the last
  line of the A memory, the PDL buffer and the maps with a line behind them, whatever they hold.
\<close>

theorem verbose_dump_reads_beyond:
  "show_amem c = Inl (Out_of_bounds ''quad'') \<and> show_pdl c = Inl (Out_of_bounds ''quad'') \<and>
   show_l1_map v = Inl (Out_of_bounds ''quad'') \<and> show_l2_map v = Inl (Out_of_bounds ''quad'') \<and>
   dump_state sy True len h m \<noteq> Inr t"
  by (auto simp: show_amem_def show_pdl_def show_l1_map_def show_l2_map_def show_quads_beyond dump_state_def Let_def
      fault_simps split: prod.splits)

definition longest_instruction :: u64 where
  "longest_instruction = 0xE7FFB04FEDFE"

text \<open>
  C36: the text of an instruction without symbols has at most 193 characters, and some instruction needs them all; the
  buffer of the disassembler has 128, and the text is written behind it.
\<close>

theorem disassembly_length:
  "length (uinst_raw [] u) \<le> 193 \<and> length (uinst_raw [] longest_instruction) = 193 \<and>
   uinst_desc longest_instruction [] = Inl (Out_of_bounds ''uinstbuf'')"
proof (intro conjI)
  show l: "length (uinst_raw [] longest_instruction) = 193"
    by code_simp
  show "uinst_desc longest_instruction [] = Inl (Out_of_bounds ''uinstbuf'')"
    unfolding uinst_desc_def Let_def l by (simp add: in_bounds_def)
qed (rule length_uinst)

end
