(* ===== verification/Spec2Isabelle.thy ===== *)
theory Spec2Isabelle
  imports Machine_Properties Cpu_Properties Memory_Properties Device_Properties Ch_Properties Local_Properties Tool_Properties
    Dump_Properties
begin

text \<open>
  A verification library for the simulator of the MIT CADR Lisp machine under \<^verbatim>\<open>usim/\<close> and for the
  network control program (NCP) of the Chaosnet under \<^verbatim>\<open>chaos/chncp/\<close>.

  \<^bold>\<open>The program.\<close>  The simulator runs CADR microcode (\<^verbatim>\<open>uexec.c\<close>) against a memory system (\<^verbatim>\<open>uvmem.c\<close>,
  \<^verbatim>\<open>bus-adaptor.c\<close>) and the devices on its two buses: main memory, two TVs and the disk on the Xbus; the I/O
  board, the diagnostic interface, the bus interface, the Unibus mapping registers and the tape on the
  Unibus.  The loop of \<^verbatim>\<open>ucode.c\<close> executes an instruction per turn and polls the devices; SDL events
  (keyboard, mouse, 60 Hz timer) and two threads (keyboard, tape) act between the turns.

  \<^bold>\<open>The state.\<close>  C's globals are fields of one extensible record.  Each component adds a record slot to
  the ones below it, in the order of the theories: \<open>base_sys\<close> (build options and indeterminate values),
  \<open>intr_sys\<close>, \<open>mem_sys\<close>, \<open>mc_sys\<close> (processor and machine control), \<open>bif_sys\<close>, \<open>tv_sys\<close>, \<open>ctv_sys\<close>,
  \<open>umap_sys\<close>, \<open>idle_sys\<close>, \<open>disk_sys\<close>, \<open>tape_sys\<close>, \<open>uch_sys\<close>, \<open>iob_sys\<close>, \<open>kbd_sys\<close>, \<open>diag_sys\<close>, \<open>cadr_sys\<close>
  (virtual memory maps) and \<open>mouse_sys\<close>, whose instance is the type \<open>machine\<close>.  An operation of a component
  is polymorphic in what lies above it, so that it cannot touch it.  Operations that may stop the process
  return \<open>fault + result\<close>: \<open>Errx\<close> (an error exit), \<open>Assertion\<close> (a failed \<open>assert\<close>), \<open>Out_of_bounds\<close> (an array
  access that the C code leaves unchecked), \<open>No_return\<close> (fuel used up).

  \<^bold>\<open>Theories that model code.\<close>
  \<^item> \<open>Prelude\<close>: C integer types, faults, sequencing, array blocks.  \<open>Interfaces\<close>: the contracts between
    components as locales (stores of words, stacks, queues, step functions), each interpreted where its
    provider is defined.
  \<^item> \<open>M32\<close> (\<^verbatim>\<open>m32.h\<close>, \<^verbatim>\<open>m32.c\<close>, the byte fields of \<^verbatim>\<open>misc.c\<close>), \<open>C_Strings\<close> (\<open>strntrim\<close> and the C library's string
    functions in use).
  \<^item> \<open>Interrupts\<close> (end of \<^verbatim>\<open>ucode.c\<close>), \<open>Main_Memory\<close>, \<open>Uvmem_Map\<close> (the two-level map of \<^verbatim>\<open>uvmem.c\<close>),
    \<open>Unibus_Mapping\<close>, \<open>Idle\<close>.
  \<^item> \<open>Uexec_State\<close>, \<open>Uexec_Alu\<close>, \<open>Uexec\<close> (\<^verbatim>\<open>uexec.c\<close>: state and stacks; arithmetic, logic, multiply and divide steps,
    masks; sources, destinations, the four instruction classes, and the whole \<open>uexec_step\<close>), \<open>Vm\<close>
    (the access function of \<^verbatim>\<open>uvmem.c\<close> with \<^verbatim>\<open>uvmem.h\<close>).
  \<^item> \<open>Bus_Errors\<close> and \<open>Bus_Interface\<close> (\<^verbatim>\<open>bus-interface.c\<close>, \<^verbatim>\<open>diagnostic-interface.c\<close>, \<^verbatim>\<open>lashup-debugger.c\<close>),
    \<open>Bus_Adaptor\<close> (the memory map of \<^verbatim>\<open>bus-adaptor.c\<close>).
  \<^item> Devices: \<open>Tv\<close>, \<open>Colortv\<close>, \<open>Disk_Unit\<close>, \<open>Disk_Controller\<close>, \<open>Tape_Drive\<close>, \<open>Tape_Controller\<close> (registers),
    \<open>Tape_Go\<close> (the commands and the controller thread), \<open>Uch11\<close> (with the local backend of
    \<^verbatim>\<open>uch11-local.c\<close>), \<open>Iob\<close>, \<open>Sdl3_Keyboard\<close>, \<open>Sdl3_Mouse\<close>.
  \<^item> \<open>Machine\<close> (\<^verbatim>\<open>ucode.c\<close>, \<^verbatim>\<open>machine-control.c\<close>, the events of \<^verbatim>\<open>usim.c\<close>): the clock loop, and the step relation
    \<open>machine_step\<close> whose steps are a turn of the clock, a device poll, an input event, or a step of
    a thread; interleaving is at the granularity of these operations.  \<open>Zero_State\<close> is the process image
    before configuration.
  \<^item> \<open>Usym\<close> (\<^verbatim>\<open>usym.c\<close>): microcode symbol tables.

  \<^bold>\<open>The NCP.\<close>  The Chaosnet NCP is a program of its own, with its own state, the record \<open>ncp\<close>: connections, the
  routing table, the queues of the interfaces, the lists of listeners and requests, the clocks.  Theories: \<open>Chncp\<close>
  (\<^verbatim>\<open>chncp.h\<close>: packets, connections, routes), \<open>Chutil\<close> (\<^verbatim>\<open>chutil.c\<close>), \<open>Chsend\<close> (\<^verbatim>\<open>chsend.c\<close> and the transmit interrupt of
  \<^verbatim>\<open>chch11.c\<close>), \<open>Chrcv\<close> (\<^verbatim>\<open>chrcv.c\<close>), \<open>Chuser\<close> (\<^verbatim>\<open>chuser.c\<close>, \<^verbatim>\<open>chclock.c\<close>), \<open>Chstream\<close> (\<^verbatim>\<open>chstream.c\<close>).  Sending to the own host
  recurses through reception; operations take that recursion as the parameter \<open>tome\<close>, of which \<open>sendtome k\<close>
  in \<open>Chrcv\<close> is the code's instance with recursion depth \<open>k\<close>.  Theorems on transfers between two different hosts hold for every \<open>tome\<close>.
  \<open>Ch_Numbers\<close>, \<open>Ch_Routes\<close>, \<open>Ch_Receive\<close>, \<open>Ch_Status\<close> and \<open>Ch_Transmit\<close> hold lemmas on the 16-bit packet numbers, routing and
  the two halves of a connection; \<open>Ch_Transfer\<close> composes two hosts and a network that loses, repeats and reorders packets
  into a step relation and proves its invariant for streams of up to 2^14 packets (the numbers wrap around at 2^16, and a
  packet may stay in the network for the whole transfer); \<open>Ch_Types\<close> shows which operations keep the routing table well typed.

  \<^bold>\<open>The local server.\<close>  \<open>Local_Server\<close> is what stands behind the local back end: \<open>chaos_send_to_local\<close> of \<^verbatim>\<open>uch11-local.c\<close>, which takes
  each packet the machine sends, and the connections of the server's threads (the \<open>SELECT\<close> variant of \<^verbatim>\<open>chutil.c\<close>).  Its state
  extends that of the Chaosnet interface (\<open>local_sys\<close>); \<open>uch11_xmit_local\<close> is the transmission with this back end as the C code calls it, while
  \<open>uch11_xmit_pkt\<close> of \<open>Uch11\<close>, in the machine, stops at the boundary of the back end and records what crosses it.
  The programs of the threads (\<^verbatim>\<open>chaos/cmd/FILE.c\<close>, \<^verbatim>\<open>MINI.c\<close>) are not modelled; a thread that is started is listed.  \<open>Local_Properties\<close>
  shows an answered request and what becomes of early and repeated packets.

  \<^bold>\<open>Configuration and tools.\<close>  \<open>Ini\<close> (the parser of \<^verbatim>\<open>ini.c\<close>) and \<open>Ucfg\<close> (the handler of \<^verbatim>\<open>ucfg.c\<close> in the SDL3 build) load a
  configuration; \<open>Ucfg_Dump\<close> writes one, and shows through \<open>Ini_Print\<close> (printed files are parsed as the calls of the
  handler that they list) what loading it restores.  What SDL and the floating point conversions answer is the parameter
  \<open>ucfg_env\<close>.  \<open>Diskmaker\<close> is the stand-alone tool of \<^verbatim>\<open>diskmaker.c\<close> over a directory of byte files (the copying loop of a restore,
  which does not end when a pack is restored into itself, is a \<^theory_text>\<open>partial_function\<close>), \<open>Diskmaker_Packs\<close> its
  lemmas on labels, bands and templates.  The numbered properties are in \<open>Tool_Properties\<close>.

  \<^bold>\<open>Dumps.\<close>  \<open>Udiss\<close> is the disassembler of microcode (\<^verbatim>\<open>udiss.c\<close>) and \<open>Udiss_Length\<close> bounds its text.  \<open>Dump\<close> holds the histories,
  the dump and trace points and the state file of \<^verbatim>\<open>dump.c\<close>, over \<open>Le_Words\<close> (little-endian words); \<open>Dump_Show\<close> prints a dump;
  \<open>Dump_Files\<close> shows that a state file is a sequence of segments which the search skips.  The search takes fuel, the number of segments
  it may visit; \<open>save_then_restore\<close> needs 23.  The numbered properties are in \<open>Dump_Properties\<close>.

  \<^bold>\<open>Theories that hold lemmas.\<close>  \<open>Uexec_Inv\<close> (every bus cycle and instruction keeps the invariant),
  \<open>Instruction_Faults\<close> (the ways an instruction stops the process), \<open>Alu_Theory\<close> (the 74181, truth tables,
  multiplication, byte fields), \<open>Pdl_Stack\<close>, \<open>Memory_Paths\<close> (virtual and Unibus paths to memory),
  \<open>Disk_Transfers\<close> and \<open>Disk_Commands\<close> (command lists move the blocks they name), \<open>Tape_Spacing\<close>,
  \<open>Tape_Ends\<close>, \<open>Tape_Records\<close> (termination of the tape commands, records on the medium), \<open>Uch11_Packets\<close>.
  The numbered properties stand in \<open>Machine_Properties\<close>, \<open>Cpu_Properties\<close>, \<open>Memory_Properties\<close>,
  \<open>Device_Properties\<close>, \<open>Ch_Properties\<close>, \<open>Local_Properties\<close>, \<open>Tool_Properties\<close> and \<open>Dump_Properties\<close>, each followed by a theorem that applies it at a concrete machine.

  \<^bold>\<open>Fuel.\<close>  Loops that the devices bound are structural.  Four take fuel: \<open>ucode_loop\<close> (a run of \<open>n\<close> turns; the
  loop itself may run forever, and \<open>ucode_run_first_halt\<close> says what it returns), the loop over a disk command list (the number of blocks of the unit, which is enough
  since a transfer moves to the next block each time and stops behind the last one), and the data and spacing
  loops of the tape commands, for which \<open>tape_command_ends\<close> gives the fuel that is enough.

  \<^bold>\<open>Conventions.\<close>  C's signed arithmetic is taken to wrap; values that C leaves indeterminate come from
  \<open>indet\<close>, an arbitrary function of the variable's name; \<open>ndebug\<close> tells whether assertions are compiled in, and the
  theorems hold for both.  Octal constants of the code appear in hexadecimal.

  \<^bold>\<open>Not modelled.\<close>  Trace and debug output, which changes no state; drawing to windows, audio and the other window
  back ends (\<^verbatim>\<open>x11.c\<close>, \<^verbatim>\<open>sdl2.c\<close>, \<^verbatim>\<open>kbd.c\<close>, \<^verbatim>\<open>cadet.c\<close>, \<^verbatim>\<open>knight.c\<close>, \<^verbatim>\<open>lmch.c\<close>), because the SDL3 build is the one
  modelled; opening and mapping image files, sockets and the thread primitives, which are the
  operating system's; the UDP and chaosd back ends of the Chaosnet interface; screenshots; the Chaosnet programs and drivers under \<^verbatim>\<open>chaos/\<close> outside \<^verbatim>\<open>chncp/\<close> and the C# port.
\<close>

end
